(* ===== verification/Prelude.thy ===== *)
theory Prelude
  imports Main "HOL-Library.Word" "HOL-Library.Monad_Syntax"
begin

text \<open>
  Shared vocabulary of the development: the machine integers of
  \<^verbatim>\<open>interface/vsomeip/primitive_types.hpp\<close>, checked access to contiguous storage, the
  collections of simplification rules, and generic facts on words, lists and options.

  C++ leaves an access outside the bounds of a vector or array undefined.  The model
  makes it a value: an operation that touches storage has a result of type \<open>'a ub\<close>,
  where \<open>None\<close> stands for undefined behaviour and \<open>Some\<close> for a defined outcome, so that
  "no out-of-bounds access" is a provable statement.
\<close>

unbundle bit_operations_syntax

section \<open>Types\<close>

type_synonym byte = "8 word"
type_synonym u16 = "16 word"
type_synonym u32 = "32 word"

type_synonym 'a ub = "'a option"

section \<open>Collections of rules\<close>

named_theorems bits_of "which bit of the argument a word operation yields"
named_theorems wire "serialisation functions as appended byte strings"
named_theorems reads "what a reader returns on a buffer that starts with an encoding"
named_theorems safe "readers that stay inside the buffer"

section \<open>Checked access to contiguous storage\<close>

definition vec_get :: "'a list \<Rightarrow> nat \<Rightarrow> 'a ub" where
  "vec_get xs i = (if i < length xs then Some (xs ! i) else None)"

definition vec_set :: "'a list \<Rightarrow> nat \<Rightarrow> 'a \<Rightarrow> 'a list ub" where
  "vec_set xs i v = (if i < length xs then Some (xs[i := v]) else None)"

lemma vec_get_Some [simp]: "i < length xs \<Longrightarrow> vec_get xs i = Some (xs ! i)"
  by (simp add: vec_get_def)

lemma vec_set_Some [simp]: "i < length xs \<Longrightarrow> vec_set xs i v = Some (xs[i := v])"
  by (simp add: vec_set_def)

lemma vec_set_eq_Some: "vec_set xs i v = Some ys \<longleftrightarrow> i < length xs \<and> ys = xs[i := v]"
  by (auto simp: vec_set_def)

lemma vec_get_eq_Some: "vec_get xs i = Some y \<longleftrightarrow> i < length xs \<and> y = xs ! i"
  by (auto simp: vec_get_def)

section \<open>Generic facts\<close>

lemma bit_mask_int [bits_of]:
  "bit (0x0F :: int) n \<longleftrightarrow> n < 4"
  "bit (0xFF :: int) n \<longleftrightarrow> n < 8"
  "bit (0xFFFF :: int) n \<longleftrightarrow> n < 16"
  using bit_mask_iff [where 'a = int, of 4 n] bit_mask_iff [where 'a = int, of 8 n]
    bit_mask_iff [where 'a = int, of 16 n]
  by (simp_all add: mask_eq_exp_minus_1)

lemma bind_eq_SomeE [elim]:
  assumes "Option.bind m f = Some y"
  obtains x where "m = Some x" and "f x = Some y"
  using assms by (cases m) auto

lemma nth_take_drop:
  assumes "take (length bs) (drop p xs) = bs" and "i < length bs"
  shows "xs ! (p + i) = bs ! i"
proof -
  from assms have "i < length (drop p xs)"
    by (metis length_take min_less_iff_conj)
  moreover have "drop p xs ! i = bs ! i"
    using assms by (metis nth_take)
  ultimately show ?thesis
    by simp
qed

lemma take_drop_append:
  "take (length (bs @ cs)) (drop p xs) = bs @ cs \<longleftrightarrow>
     take (length bs) (drop p xs) = bs \<and> take (length cs) (drop (p + length bs) xs) = cs"
  (is "?lhs \<longleftrightarrow> ?rhs")
proof
  assume ?lhs
  then have "take (length bs) (drop p xs) @ take (length cs) (drop (p + length bs) xs) = bs @ cs"
    by (simp add: take_add add.commute)
  moreover from \<open>?lhs\<close> have "length (take (length bs) (drop p xs)) = length bs"
    by (metis append_take_drop_id length_append length_take min.absorb2 min_def
        nat_le_iff_add add_leE)
  ultimately show ?rhs
    by (simp add: append_eq_append_conv)
next
  assume ?rhs
  then show ?lhs
    by (simp add: take_add add.commute)
qed

end
