(* ===== verification/Byteorder.thy ===== *)
theory Byteorder
  imports Prelude
begin

text \<open>
  The byte-order macros of \<^verbatim>\<open>implementation/utility/include/byteorder.hpp\<close>, in the branch for
  little-endian hosts (the one Linux on x86 and ARM compiles).  The macros compute on
  values, so the model is arithmetic on words.
\<close>

section \<open>Macros\<close>

definition VSOMEIP_BYTES_TO_WORD :: "byte \<Rightarrow> byte \<Rightarrow> u16" where
  "VSOMEIP_BYTES_TO_WORD x0 x1 = push_bit 8 (ucast x0) OR ucast x1"

definition VSOMEIP_BYTES_TO_LONG :: "byte \<Rightarrow> byte \<Rightarrow> byte \<Rightarrow> byte \<Rightarrow> u32" where
  "VSOMEIP_BYTES_TO_LONG x0 x1 x2 x3 =
     push_bit 24 (ucast x0) OR push_bit 16 (ucast x1) OR push_bit 8 (ucast x2) OR ucast x3"

definition VSOMEIP_WORDS_TO_LONG :: "u16 \<Rightarrow> u16 \<Rightarrow> u32" where
  "VSOMEIP_WORDS_TO_LONG x0 x1 = push_bit 16 (ucast x0) OR ucast x1"

definition VSOMEIP_WORD_BYTE0 :: "u16 \<Rightarrow> byte" where
  "VSOMEIP_WORD_BYTE0 x = ucast (x AND 0xFF)"

definition VSOMEIP_WORD_BYTE1 :: "u16 \<Rightarrow> byte" where
  "VSOMEIP_WORD_BYTE1 x = ucast (drop_bit 8 x)"

definition VSOMEIP_LONG_BYTE0 :: "u32 \<Rightarrow> byte" where
  "VSOMEIP_LONG_BYTE0 x = ucast (x AND 0xFF)"

definition VSOMEIP_LONG_BYTE1 :: "u32 \<Rightarrow> byte" where
  "VSOMEIP_LONG_BYTE1 x = ucast (drop_bit 8 x AND 0xFF)"

definition VSOMEIP_LONG_BYTE2 :: "u32 \<Rightarrow> byte" where
  "VSOMEIP_LONG_BYTE2 x = ucast (drop_bit 16 x AND 0xFF)"

definition VSOMEIP_LONG_BYTE3 :: "u32 \<Rightarrow> byte" where
  "VSOMEIP_LONG_BYTE3 x = ucast (drop_bit 24 x AND 0xFF)"

definition VSOMEIP_LONG_WORD0 :: "u32 \<Rightarrow> u16" where
  "VSOMEIP_LONG_WORD0 x = ucast (x AND 0xFFFF)"

definition VSOMEIP_LONG_WORD1 :: "u32 \<Rightarrow> u16" where
  "VSOMEIP_LONG_WORD1 x = ucast (drop_bit 16 x AND 0xFFFF)"

lemmas byteorder_defs =
  VSOMEIP_BYTES_TO_WORD_def VSOMEIP_BYTES_TO_LONG_def VSOMEIP_WORDS_TO_LONG_def
  VSOMEIP_WORD_BYTE0_def VSOMEIP_WORD_BYTE1_def
  VSOMEIP_LONG_BYTE0_def VSOMEIP_LONG_BYTE1_def VSOMEIP_LONG_BYTE2_def VSOMEIP_LONG_BYTE3_def
  VSOMEIP_LONG_WORD0_def VSOMEIP_LONG_WORD1_def

section \<open>Which bit goes where\<close>

lemma bit_WORD [bits_of]:
  "bit (VSOMEIP_BYTES_TO_WORD a b) n \<longleftrightarrow> (if n < 8 then bit b n else bit a (n - 8))"
  by (auto simp: byteorder_defs bit_simps not_le dest: bit_imp_le_length)

lemma bit_LONG [bits_of]:
  "bit (VSOMEIP_BYTES_TO_LONG a b c d) n \<longleftrightarrow>
     (if n < 8 then bit d n else if n < 16 then bit c (n - 8)
      else if n < 24 then bit b (n - 16) else bit a (n - 24))"
  by (auto simp: byteorder_defs bit_simps not_le dest: bit_imp_le_length)

lemma bit_WORDS [bits_of]:
  "bit (VSOMEIP_WORDS_TO_LONG a b) n \<longleftrightarrow> (if n < 16 then bit b n else bit a (n - 16))"
  by (auto simp: byteorder_defs bit_simps not_le dest: bit_imp_le_length)

lemma bit_parts [bits_of]:
  "bit (VSOMEIP_WORD_BYTE0 w) n \<longleftrightarrow> n < 8 \<and> bit w n"
  "bit (VSOMEIP_WORD_BYTE1 w) n \<longleftrightarrow> n < 8 \<and> bit w (8 + n)"
  "bit (VSOMEIP_LONG_BYTE0 x) n \<longleftrightarrow> n < 8 \<and> bit x n"
  "bit (VSOMEIP_LONG_BYTE1 x) n \<longleftrightarrow> n < 8 \<and> bit x (8 + n)"
  "bit (VSOMEIP_LONG_BYTE2 x) n \<longleftrightarrow> n < 8 \<and> bit x (16 + n)"
  "bit (VSOMEIP_LONG_BYTE3 x) n \<longleftrightarrow> n < 8 \<and> bit x (24 + n)"
  "bit (VSOMEIP_LONG_WORD0 x) n \<longleftrightarrow> n < 16 \<and> bit x n"
  "bit (VSOMEIP_LONG_WORD1 x) n \<longleftrightarrow> n < 16 \<and> bit x (16 + n)"
  by (auto simp: byteorder_defs bit_simps bits_of)

section \<open>Splitting and joining are inverse\<close>

lemma word_of_bytes [simp]:
  "VSOMEIP_BYTES_TO_WORD (VSOMEIP_WORD_BYTE1 x) (VSOMEIP_WORD_BYTE0 x) = x"
  by (rule bit_word_eqI) (auto simp: bits_of)

lemma long_of_bytes [simp]:
  "VSOMEIP_BYTES_TO_LONG (VSOMEIP_LONG_BYTE3 x) (VSOMEIP_LONG_BYTE2 x)
     (VSOMEIP_LONG_BYTE1 x) (VSOMEIP_LONG_BYTE0 x) = x"
  by (rule bit_word_eqI) (auto simp: bits_of)

lemma long_of_three_bytes [simp]:
  "VSOMEIP_BYTES_TO_LONG 0 (VSOMEIP_LONG_BYTE2 x) (VSOMEIP_LONG_BYTE1 x) (VSOMEIP_LONG_BYTE0 x)
     = take_bit 24 x"
  by (rule bit_word_eqI) (auto simp: bits_of bit_take_bit_iff)

lemma long_of_words [simp]:
  "VSOMEIP_WORDS_TO_LONG (VSOMEIP_LONG_WORD1 x) (VSOMEIP_LONG_WORD0 x) = x"
  by (rule bit_word_eqI) (auto simp: bits_of)

lemma bytes_of_word [simp]:
  "VSOMEIP_WORD_BYTE1 (VSOMEIP_BYTES_TO_WORD a b) = a"
  "VSOMEIP_WORD_BYTE0 (VSOMEIP_BYTES_TO_WORD a b) = b"
  by (rule bit_word_eqI; simp add: bits_of)+

lemma words_of_long [simp]:
  "VSOMEIP_LONG_WORD1 (VSOMEIP_WORDS_TO_LONG a b) = a"
  "VSOMEIP_LONG_WORD0 (VSOMEIP_WORDS_TO_LONG a b) = b"
  by (rule bit_word_eqI; simp add: bits_of)+

lemma bytes_of_long [simp]:
  "VSOMEIP_LONG_BYTE3 (VSOMEIP_BYTES_TO_LONG a b c d) = a"
  "VSOMEIP_LONG_BYTE2 (VSOMEIP_BYTES_TO_LONG a b c d) = b"
  "VSOMEIP_LONG_BYTE1 (VSOMEIP_BYTES_TO_LONG a b c d) = c"
  "VSOMEIP_LONG_BYTE0 (VSOMEIP_BYTES_TO_LONG a b c d) = d"
  by (rule bit_word_eqI; simp add: bits_of)+

end
