(* ===== verification/Serializer.thy ===== *)
theory Serializer
  imports Byteorder
begin

text \<open>
  \<^verbatim>\<open>implementation/message/src/serializer.cpp\<close>: the byte sink every message object writes
  itself to.  An operation takes the serializer and returns the flag of the C++ method
  with the new serializer; \<open>ser_then\<close> is the short-circuit \<^verbatim>\<open>&&\<close> between such calls.
  Memory exhaustion (the \<^verbatim>\<open>bad_alloc\<close> handlers) is not modelled, and the capacity of the
  vector, which the standard leaves to the implementation, is an argument of \<open>ser_reset\<close>.
\<close>

section \<open>State and operations\<close>

record serializer =
  ser_data :: "byte list"
  ser_shrink_count :: u32
  ser_buffer_shrink_threshold :: u32

type_synonym sink = "serializer \<Rightarrow> bool \<times> serializer"

definition ser_init :: "u32 \<Rightarrow> serializer" where
  "ser_init threshold =
     \<lparr>ser_data = [], ser_shrink_count = 0, ser_buffer_shrink_threshold = threshold\<rparr>"

definition push_back :: "byte \<Rightarrow> serializer \<Rightarrow> serializer" where
  "push_back b s = s\<lparr>ser_data := ser_data s @ [b]\<rparr>"

definition serialize_u8 :: "byte \<Rightarrow> sink" where
  "serialize_u8 v s = (True, push_back v s)"

definition serialize_u16 :: "u16 \<Rightarrow> sink" where
  "serialize_u16 v s =
     (True, push_back (VSOMEIP_WORD_BYTE0 v) (push_back (VSOMEIP_WORD_BYTE1 v) s))"

definition serialize_u32 :: "u32 \<Rightarrow> bool \<Rightarrow> sink" where
  "serialize_u32 v omit_last_byte s =
     (let s = (if \<not> omit_last_byte then push_back (VSOMEIP_LONG_BYTE3 v) s else s);
          s = push_back (VSOMEIP_LONG_BYTE2 v) s;
          s = push_back (VSOMEIP_LONG_BYTE1 v) s;
          s = push_back (VSOMEIP_LONG_BYTE0 v) s
      in (True, s))"

definition serialize_bytes :: "byte list \<Rightarrow> sink" where
  "serialize_bytes bs s = (True, s\<lparr>ser_data := ser_data s @ bs\<rparr>)"

definition ser_get_size :: "serializer \<Rightarrow> u32" where
  "ser_get_size s = of_nat (length (ser_data s))"

definition ser_set_data :: "byte list \<Rightarrow> serializer \<Rightarrow> serializer" where
  "ser_set_data bs s = s\<lparr>ser_data := bs\<rparr>"

definition ser_reset :: "nat \<Rightarrow> serializer \<Rightarrow> serializer" where
  "ser_reset capacity s =
     (let s = (if ser_buffer_shrink_threshold s \<noteq> 0
               then (if length (ser_data s) < capacity div 2
                     then s\<lparr>ser_shrink_count := ser_shrink_count s + 1\<rparr>
                     else s\<lparr>ser_shrink_count := 0\<rparr>)
               else s);
          s = s\<lparr>ser_data := []\<rparr>
      in if ser_buffer_shrink_threshold s \<noteq> 0
            \<and> ser_buffer_shrink_threshold s < ser_shrink_count s
         then s\<lparr>ser_shrink_count := 0\<rparr> else s)"

definition ser_then :: "sink \<Rightarrow> sink \<Rightarrow> sink" where
  "ser_then f g s = (case f s of (ok, s') \<Rightarrow> if ok then g s' else (False, s'))"

primrec ser_all :: "sink list \<Rightarrow> sink" where
  "ser_all [] s = (True, s)"
| "ser_all (f # fs) s = ser_then f (ser_all fs) s"

section \<open>The byte strings written\<close>

text \<open>
  \<open>writes f bs\<close>: the sink action \<open>f\<close> always succeeds and appends exactly \<open>bs\<close>.  It is the
  contract between the serializer and every object that is serialised.
\<close>

definition writes :: "sink \<Rightarrow> byte list \<Rightarrow> bool" where
  "writes f bs \<longleftrightarrow> (\<forall>s. f s = (True, s\<lparr>ser_data := ser_data s @ bs\<rparr>))"

definition bytes16 :: "u16 \<Rightarrow> byte list" where
  "bytes16 v = [VSOMEIP_WORD_BYTE1 v, VSOMEIP_WORD_BYTE0 v]"

definition bytes24 :: "u32 \<Rightarrow> byte list" where
  "bytes24 v = [VSOMEIP_LONG_BYTE2 v, VSOMEIP_LONG_BYTE1 v, VSOMEIP_LONG_BYTE0 v]"

definition bytes32 :: "u32 \<Rightarrow> byte list" where
  "bytes32 v =
     [VSOMEIP_LONG_BYTE3 v, VSOMEIP_LONG_BYTE2 v, VSOMEIP_LONG_BYTE1 v, VSOMEIP_LONG_BYTE0 v]"

lemma length_bytes [simp]:
  "length (bytes16 v) = 2" "length (bytes24 w) = 3" "length (bytes32 w) = 4"
  by (simp_all add: bytes16_def bytes24_def bytes32_def)

lemma writesD: "writes f bs \<Longrightarrow> f s = (True, s\<lparr>ser_data := ser_data s @ bs\<rparr>)"
  by (simp add: writes_def)

lemma writes_u8 [wire]: "writes (serialize_u8 v) [v]"
  by (simp add: writes_def serialize_u8_def push_back_def)

lemma writes_u16 [wire]: "writes (serialize_u16 v) (bytes16 v)"
  by (simp add: writes_def serialize_u16_def push_back_def bytes16_def)

lemma writes_u32 [wire]: "writes (serialize_u32 v False) (bytes32 v)"
  by (simp add: writes_def serialize_u32_def push_back_def bytes32_def)

lemma writes_u24 [wire]: "writes (serialize_u32 v True) (bytes24 v)"
  by (simp add: writes_def serialize_u32_def push_back_def bytes24_def)

lemma writes_bytes [wire]: "writes (serialize_bytes bs) bs"
  by (simp add: writes_def serialize_bytes_def)

lemma writes_then [wire]:
  "writes f bs \<Longrightarrow> writes g cs \<Longrightarrow> writes (ser_then f g) (bs @ cs)"
  by (simp add: writes_def ser_then_def)

lemma writes_all [wire]:
  "list_all2 writes fs bss \<Longrightarrow> writes (ser_all fs) (concat bss)"
proof (induction fs arbitrary: bss)
  case Nil
  then show ?case by (simp add: writes_def)
next
  case (Cons f fs)
  then obtain bs bss' where bss: "bss = bs # bss'" and f: "writes f bs"
    and fs: "list_all2 writes fs bss'"
    by (auto simp: list_all2_Cons1)
  have "writes (ser_then f (ser_all fs)) (bs @ concat bss')"
    using f Cons.IH [OF fs] by (rule writes_then)
  then show ?case
    by (simp add: writes_def bss)
qed

lemma writes_map [wire]:
  "(\<And>x. x \<in> set xs \<Longrightarrow> writes (f x) (g x)) \<Longrightarrow> writes (ser_all (map f xs)) (concat (map g xs))"
  by (rule writes_all) (simp add: list_all2_conv_all_nth)

lemma writes_eq: "writes f bs \<Longrightarrow> bs = cs \<Longrightarrow> writes f cs"
  by simp

lemma ser_reset_data [simp]: "ser_data (ser_reset c s) = []"
  by (simp add: ser_reset_def Let_def)

lemma ser_reset_count:
  "ser_shrink_count s \<le> ser_buffer_shrink_threshold s \<Longrightarrow>
     ser_shrink_count (ser_reset c s) \<le> ser_buffer_shrink_threshold (ser_reset c s)"
  by (auto simp: ser_reset_def Let_def not_less)

end
