(* ===== verification/Deserializer.thy ===== *)
theory Deserializer
  imports Serializer
begin

text \<open>
  \<^verbatim>\<open>implementation/message/src/deserializer.cpp\<close>: a cursor over a received buffer.  The
  iterator \<^verbatim>\<open>position_\<close> is the offset \<open>des_position\<close> into \<open>des_data\<close>; the methods guard their
  reads with \<^verbatim>\<open>remaining_\<close> alone, so dereferencing the iterator at or past the end of the
  vector is undefined behaviour and yields \<open>None\<close>.

  A reader returns \<open>Some (v, d)\<close>: the inner option \<open>v\<close> is \<open>None\<close> when the C++ method returns
  \<^verbatim>\<open>false\<close>, and \<open>d\<close> is the deserializer afterwards.
\<close>

section \<open>State\<close>

record deserializer =
  des_data :: "byte list"
  des_position :: nat
  des_remaining :: nat
  des_buffer_shrink_threshold :: u32
  des_shrink_count :: u32

type_synonym 'a reader = "deserializer \<Rightarrow> ('a option \<times> deserializer) ub"

definition des_init :: "u32 \<Rightarrow> deserializer" where
  "des_init threshold =
     \<lparr>des_data = [], des_position = 0, des_remaining = 0,
      des_buffer_shrink_threshold = threshold, des_shrink_count = 0\<rparr>"

definition des_init_data :: "byte list \<Rightarrow> u32 \<Rightarrow> deserializer" where
  "des_init_data bs threshold =
     \<lparr>des_data = bs, des_position = 0, des_remaining = length bs,
      des_buffer_shrink_threshold = threshold, des_shrink_count = 0\<rparr>"

definition get_available :: "deserializer \<Rightarrow> nat" where
  "get_available d = length (des_data d)"

definition get_remaining :: "deserializer \<Rightarrow> nat" where
  "get_remaining d = des_remaining d"

definition set_remaining :: "nat \<Rightarrow> deserializer \<Rightarrow> deserializer" where
  "set_remaining n d = d\<lparr>des_remaining := n\<rparr>"

section \<open>Reading\<close>

text \<open>The expression \<^verbatim>\<open>*position_++\<close>.\<close>

definition next_byte :: "deserializer \<Rightarrow> (byte \<times> deserializer) ub" where
  "next_byte d = do {
     b \<leftarrow> vec_get (des_data d) (des_position d);
     Some (b, d\<lparr>des_position := Suc (des_position d)\<rparr>) }"

definition consumed :: "nat \<Rightarrow> deserializer \<Rightarrow> deserializer" where
  "consumed n d = d\<lparr>des_remaining := des_remaining d - n\<rparr>"

definition deserialize_u8 :: "byte reader" where
  "deserialize_u8 d =
     (if des_remaining d = 0 then Some (None, d)
      else do {
        (v, d) \<leftarrow> next_byte d;
        Some (Some v, consumed 1 d) })"

definition deserialize_u16 :: "u16 reader" where
  "deserialize_u16 d =
     (if des_remaining d < 2 then Some (None, d)
      else do {
        (byte0, d) \<leftarrow> next_byte d;
        (byte1, d) \<leftarrow> next_byte d;
        Some (Some (VSOMEIP_BYTES_TO_WORD byte0 byte1), consumed 2 d) })"

definition deserialize_u32 :: "bool \<Rightarrow> u32 reader" where
  "deserialize_u32 omit_last_byte d =
     (if des_remaining d < 3 \<or> \<not> omit_last_byte \<and> des_remaining d < 4 then Some (None, d)
      else do {
        (byte0, d) \<leftarrow> (if \<not> omit_last_byte
                       then do { (b, d) \<leftarrow> next_byte d; Some (b, consumed 1 d) }
                       else Some (0, d));
        (byte1, d) \<leftarrow> next_byte d;
        (byte2, d) \<leftarrow> next_byte d;
        (byte3, d) \<leftarrow> next_byte d;
        Some (Some (VSOMEIP_BYTES_TO_LONG byte0 byte1 byte2 byte3), consumed 3 d) })"

text \<open>
  \<open>deserialize_bytes n\<close> models both \<^verbatim>\<open>deserialize(uint8_t *, size_t)\<close> with length \<open>n\<close> and
  \<^verbatim>\<open>deserialize(std::vector<uint8_t>&)\<close> on a vector of capacity \<open>n\<close>.
\<close>

definition deserialize_bytes :: "nat \<Rightarrow> byte list reader" where
  "deserialize_bytes n d =
     (if des_remaining d < n then Some (None, d)
      else if length (des_data d) < des_position d + n then None
      else Some (Some (take n (drop (des_position d) (des_data d))),
                 consumed n (d\<lparr>des_position := des_position d + n\<rparr>)))"

definition look_ahead_u8 :: "nat \<Rightarrow> deserializer \<Rightarrow> byte option ub" where
  "look_ahead_u8 i d =
     (if length (des_data d) \<le> i then Some None
      else do { b \<leftarrow> vec_get (des_data d) (des_position d + i); Some (Some b) })"

definition look_ahead_u16 :: "nat \<Rightarrow> deserializer \<Rightarrow> u16 option ub" where
  "look_ahead_u16 i d =
     (if length (des_data d) \<le> i + 1 then Some None
      else do {
        b0 \<leftarrow> vec_get (des_data d) (des_position d + i);
        b1 \<leftarrow> vec_get (des_data d) (des_position d + i + 1);
        Some (Some (VSOMEIP_BYTES_TO_WORD b0 b1)) })"

definition look_ahead_u32 :: "nat \<Rightarrow> deserializer \<Rightarrow> u32 option ub" where
  "look_ahead_u32 i d =
     (if length (des_data d) \<le> i + 3 then Some None
      else do {
        b0 \<leftarrow> vec_get (des_data d) (des_position d + i);
        b1 \<leftarrow> vec_get (des_data d) (des_position d + i + 1);
        b2 \<leftarrow> vec_get (des_data d) (des_position d + i + 2);
        b3 \<leftarrow> vec_get (des_data d) (des_position d + i + 3);
        Some (Some (VSOMEIP_BYTES_TO_LONG b0 b1 b2 b3)) })"

section \<open>Managing the buffer\<close>

definition des_set_data :: "byte list option \<Rightarrow> deserializer \<Rightarrow> deserializer" where
  "des_set_data data d =
     (case data of
        Some bs \<Rightarrow> d\<lparr>des_data := bs, des_position := 0, des_remaining := length bs\<rparr>
      | None \<Rightarrow> d\<lparr>des_data := [], des_position := 0, des_remaining := 0\<rparr>)"

definition append_data :: "byte list \<Rightarrow> deserializer \<Rightarrow> deserializer" where
  "append_data bs d =
     d\<lparr>des_data := des_data d @ bs, des_remaining := des_remaining d + length bs\<rparr>"

definition drop_data :: "nat \<Rightarrow> deserializer \<Rightarrow> deserializer" where
  "drop_data n d =
     (if des_position d + n < length (des_data d)
      then d\<lparr>des_position := des_position d + n\<rparr>
      else d\<lparr>des_position := length (des_data d)\<rparr>)"

definition des_reset :: "nat \<Rightarrow> deserializer \<Rightarrow> deserializer" where
  "des_reset capacity d =
     (let d = (if des_buffer_shrink_threshold d \<noteq> 0
               then (if length (des_data d) < capacity div 2
                     then d\<lparr>des_shrink_count := des_shrink_count d + 1\<rparr>
                     else d\<lparr>des_shrink_count := 0\<rparr>)
               else d);
          d = d\<lparr>des_data := [], des_position := 0, des_remaining := 0\<rparr>
      in if des_buffer_shrink_threshold d \<noteq> 0
            \<and> des_buffer_shrink_threshold d < des_shrink_count d
         then d\<lparr>des_shrink_count := 0\<rparr> else d)"

section \<open>Sequencing readers\<close>

text \<open>
  \<open>rbind\<close> is the idiom \<^verbatim>\<open>is_successful = is_successful && _from->deserialize(x)\<close>: once a read
  has failed no further read happens.
\<close>

definition rreturn :: "'a \<Rightarrow> 'a reader" where
  "rreturn v d = Some (Some v, d)"

definition rfail :: "'a reader" where
  "rfail d = Some (None, d)"

definition rbind :: "'a reader \<Rightarrow> ('a \<Rightarrow> 'b reader) \<Rightarrow> 'b reader" where
  "rbind r f d =
     (case r d of
        None \<Rightarrow> None
      | Some (None, d') \<Rightarrow> Some (None, d')
      | Some (Some v, d') \<Rightarrow> f v d')"

section \<open>Staying inside the buffer\<close>

text \<open>
  The representation invariant: what the deserializer claims to have left is really there.
  \<open>safe_reader r\<close>: under it \<open>r\<close> has no undefined behaviour, keeps it, and never moves the
  end of the readable window outwards.
\<close>

definition des_wf :: "deserializer \<Rightarrow> bool" where
  "des_wf d \<longleftrightarrow> des_position d + des_remaining d \<le> length (des_data d)"

definition within :: "deserializer \<Rightarrow> deserializer \<Rightarrow> bool" where
  "within d d' \<longleftrightarrow> des_data d' = des_data d \<and> des_position d \<le> des_position d'
     \<and> des_position d' + des_remaining d' \<le> des_position d + des_remaining d"

definition safe_reader :: "'a reader \<Rightarrow> bool" where
  "safe_reader r \<longleftrightarrow> (\<forall>d. des_wf d \<longrightarrow> (\<exists>v d'. r d = Some (v, d') \<and> des_wf d' \<and> within d d'))"

lemma within_refl [simp]: "within d d"
  by (simp add: within_def)

lemma within_trans: "within a b \<Longrightarrow> within b c \<Longrightarrow> within a c"
  by (auto simp: within_def)

lemma within_wf: "within d d' \<Longrightarrow> des_wf d \<Longrightarrow> des_wf d'"
  by (auto simp: within_def des_wf_def)

lemma safe_readerI:
  "(\<And>d. des_wf d \<Longrightarrow> \<exists>v d'. r d = Some (v, d') \<and> within d d') \<Longrightarrow> safe_reader r"
  unfolding safe_reader_def using within_wf by blast

lemma safe_readerE:
  assumes "safe_reader r" and "des_wf d"
  obtains v d' where "r d = Some (v, d')" and "des_wf d'" and "within d d'"
  using assms unfolding safe_reader_def by blast

lemma next_byte_Some:
  "des_position d < length (des_data d) \<Longrightarrow>
     next_byte d = Some (des_data d ! des_position d, d\<lparr>des_position := Suc (des_position d)\<rparr>)"
  by (simp add: next_byte_def)

lemma safe_u8 [safe]: "safe_reader deserialize_u8"
  by (rule safe_readerI) (simp add: deserialize_u8_def next_byte_Some des_wf_def within_def consumed_def)

lemma safe_u16 [safe]: "safe_reader deserialize_u16"
  by (rule safe_readerI) (auto simp: deserialize_u16_def next_byte_Some des_wf_def within_def consumed_def)

lemma safe_u32 [safe]: "safe_reader (deserialize_u32 b)"
  by (rule safe_readerI)
    (auto simp: deserialize_u32_def next_byte_Some des_wf_def within_def consumed_def)

lemma safe_bytes [safe]: "safe_reader (deserialize_bytes n)"
  by (rule safe_readerI) (auto simp: deserialize_bytes_def des_wf_def within_def consumed_def)

lemma safe_return [safe]: "safe_reader (rreturn v)"
  by (rule safe_readerI) (simp add: rreturn_def)

lemma safe_fail [safe]: "safe_reader rfail"
  by (rule safe_readerI) (simp add: rfail_def)

lemma safe_bind [safe]:
  assumes r: "safe_reader r" and f: "\<And>v. safe_reader (f v)"
  shows "safe_reader (rbind r f)"
proof (rule safe_readerI)
  fix d assume "des_wf d"
  with r obtain v d1 where d1: "r d = Some (v, d1)" "des_wf d1" "within d d1"
    by (rule safe_readerE)
  show "\<exists>v d'. rbind r f d = Some (v, d') \<and> within d d'"
  proof (cases v)
    case None
    with d1 show ?thesis by (simp add: rbind_def)
  next
    case (Some x)
    from f d1(2) obtain w d2 where "f x d1 = Some (w, d2)" "within d1 d2"
      by (rule safe_readerE)
    with d1 Some show ?thesis
      by (auto simp: rbind_def intro: within_trans)
  qed
qed

end
