(* ===== verification/Codec.thy ===== *)
theory Codec
  imports Deserializer
begin

text \<open>
  The contract between a serialisation and its deserialisation.  \<open>starts d bs\<close>: the readable
  window of \<open>d\<close> begins with \<open>bs\<close>.  \<open>reads_as r bs v\<close>: on every such window the reader \<open>r\<close>
  succeeds with \<open>v\<close> and consumes exactly \<open>bs\<close>.  The locale \<open>codec\<close> states what the rest of the
  stack relies on; every wire object of the development interprets it.
\<close>

section \<open>Windows that start with a byte string\<close>

definition advance :: "nat \<Rightarrow> deserializer \<Rightarrow> deserializer" where
  "advance n d = d\<lparr>des_position := des_position d + n, des_remaining := des_remaining d - n\<rparr>"

definition starts :: "deserializer \<Rightarrow> byte list \<Rightarrow> bool" where
  "starts d bs \<longleftrightarrow> des_wf d \<and> length bs \<le> des_remaining d
     \<and> take (length bs) (drop (des_position d) (des_data d)) = bs"

definition reads_as :: "'a reader \<Rightarrow> byte list \<Rightarrow> 'a \<Rightarrow> bool" where
  "reads_as r bs v \<longleftrightarrow> (\<forall>d. starts d bs \<longrightarrow> r d = Some (Some v, advance (length bs) d))"

lemma advance_simps [simp]:
  "des_data (advance n d) = des_data d"
  "des_position (advance n d) = des_position d + n"
  "des_remaining (advance n d) = des_remaining d - n"
  by (simp_all add: advance_def)

lemma advance_advance [simp]: "advance m (advance n d) = advance (n + m) d"
  by (simp add: advance_def)

lemma advance_0 [simp]: "advance 0 d = d"
  by (simp add: advance_def)

lemma starts_Nil [simp]: "starts d [] \<longleftrightarrow> des_wf d"
  by (simp add: starts_def)

lemma starts_append:
  "starts d (bs @ cs) \<longleftrightarrow> starts d bs \<and> starts (advance (length bs) d) cs"
  unfolding starts_def take_drop_append by (auto simp: des_wf_def)

lemma starts_init: "starts (des_init_data bs t) bs"
  by (simp add: starts_def des_init_data_def des_wf_def)

lemma starts_init_append: "starts (des_init_data (bs @ cs) t) bs"
  by (simp add: starts_def des_init_data_def des_wf_def)

lemma starts_bounds:
  assumes "starts d bs"
  shows "length bs \<le> des_remaining d"
    and "des_position d + length bs \<le> length (des_data d)"
    and "i < length bs \<Longrightarrow> des_data d ! (des_position d + i) = bs ! i"
  using assms nth_take_drop [of bs "des_position d" "des_data d" i]
  by (auto simp: starts_def des_wf_def)

lemma starts_Cons:
  assumes "starts d (b # bs)"
  shows "next_byte d = Some (b, d\<lparr>des_position := Suc (des_position d)\<rparr>)"
  using starts_bounds [OF assms] starts_bounds(3) [OF assms, of 0]
  by (simp add: next_byte_def)

lemma starts_ConsD: "starts d (b # bs) \<Longrightarrow> starts (advance 1 d) bs"
  using starts_append [of d "[b]" bs] by simp

section \<open>Readers of single values\<close>

lemma reads_asD: "reads_as r bs v \<Longrightarrow> starts d bs \<Longrightarrow> r d = Some (Some v, advance (length bs) d)"
  by (simp add: reads_as_def)

lemma starts_nth:
  assumes "starts d bs" and "i < length bs"
  shows "des_position d + i < length (des_data d)" and "des_data d ! (des_position d + i) = bs ! i"
  using starts_bounds [OF assms(1)] assms(2) by auto

lemma reads_u8 [reads]: "reads_as deserialize_u8 [v] v"
  unfolding reads_as_def
proof (intro allI impI)
  fix d assume s: "starts d [v]"
  then show "deserialize_u8 d = Some (Some v, advance (length [v]) d)"
    using starts_bounds(1) [OF s] starts_nth [OF s, of 0]
    by (simp add: deserialize_u8_def next_byte_Some consumed_def advance_def)
qed

lemma reads_u16 [reads]: "reads_as deserialize_u16 (bytes16 v) v"
  unfolding reads_as_def
proof (intro allI impI)
  fix d assume s: "starts d (bytes16 v)"
  then show "deserialize_u16 d = Some (Some v, advance (length (bytes16 v)) d)"
    using starts_bounds(1) [OF s] starts_nth [OF s, of 0] starts_nth [OF s, of 1]
    by (simp add: deserialize_u16_def next_byte_Some consumed_def advance_def bytes16_def)
qed

lemma reads_u32 [reads]: "reads_as (deserialize_u32 False) (bytes32 v) v"
  unfolding reads_as_def
proof (intro allI impI)
  fix d assume s: "starts d (bytes32 v)"
  then show "deserialize_u32 False d = Some (Some v, advance (length (bytes32 v)) d)"
    using starts_bounds(1) [OF s] starts_nth [OF s, of 0] starts_nth [OF s, of 1]
      starts_nth [OF s, of 2] starts_nth [OF s, of 3]
    by (simp add: deserialize_u32_def next_byte_Some consumed_def advance_def bytes32_def
        numeral_2_eq_2 numeral_3_eq_3)
qed

lemma reads_u24 [reads]: "reads_as (deserialize_u32 True) (bytes24 v) (take_bit 24 v)"
  unfolding reads_as_def
proof (intro allI impI)
  fix d assume s: "starts d (bytes24 v)"
  then show "deserialize_u32 True d = Some (Some (take_bit 24 v), advance (length (bytes24 v)) d)"
    using starts_bounds(1) [OF s] starts_nth [OF s, of 0] starts_nth [OF s, of 1]
      starts_nth [OF s, of 2]
    by (simp add: deserialize_u32_def next_byte_Some consumed_def advance_def bytes24_def
        numeral_2_eq_2)
qed

lemma reads_bytes [reads]: "n = length bs \<Longrightarrow> reads_as (deserialize_bytes n) bs bs"
  by (auto simp: reads_as_def deserialize_bytes_def consumed_def advance_def starts_def des_wf_def)

lemma reads_return [reads]: "reads_as (rreturn v) [] v"
  by (simp add: reads_as_def rreturn_def)

lemma reads_bind [reads]:
  assumes "reads_as r bs v" and "reads_as (f v) cs w"
  shows "reads_as (rbind r f) (bs @ cs) w"
  using assms by (simp add: reads_as_def rbind_def starts_append)

lemma reads_eq: "reads_as r bs v \<Longrightarrow> bs = cs \<Longrightarrow> v = w \<Longrightarrow> reads_as r cs w"
  by simp

section \<open>What an accepted input looked like\<close>

text \<open>
  \<open>parses r P\<close> is the converse of \<open>reads_as\<close>: whenever \<open>r\<close> succeeds inside the buffer, it has
  consumed some prefix \<open>bs\<close> of the window and \<open>P\<close> relates the value to that prefix.
\<close>

definition parses :: "'a reader \<Rightarrow> ('a \<Rightarrow> byte list \<Rightarrow> bool) \<Rightarrow> bool" where
  "parses r P \<longleftrightarrow> (\<forall>d v d'. des_wf d \<longrightarrow> r d = Some (Some v, d') \<longrightarrow>
     (\<exists>bs. starts d bs \<and> d' = advance (length bs) d \<and> P v bs))"

lemma parsesE:
  assumes "parses r P" and "des_wf d" and "r d = Some (Some v, d')"
  obtains bs where "starts d bs" and "d' = advance (length bs) d" and "P v bs"
  using assms unfolding parses_def by blast

lemma parses_mono: "parses r P \<Longrightarrow> (\<And>v bs. P v bs \<Longrightarrow> Q v bs) \<Longrightarrow> parses r Q"
  unfolding parses_def by blast

lemma parses_bytes: "parses (deserialize_bytes n) (\<lambda>v bs. bs = v \<and> length bs = n)"
  unfolding parses_def
proof (intro allI impI)
  fix d v d'
  assume wf: "des_wf d" and r: "deserialize_bytes n d = Some (Some v, d')"
  then have "v = take n (drop (des_position d) (des_data d))" "n \<le> des_remaining d"
    "d' = advance n d"
    by (auto simp: deserialize_bytes_def consumed_def advance_def split: if_splits)
  with wf show "\<exists>bs. starts d bs \<and> d' = advance (length bs) d \<and> bs = v \<and> length bs = n"
    by (auto simp: starts_def des_wf_def)
qed

text \<open>The readers of machine integers read the bytes that \<open>deserialize_bytes\<close> reads.\<close>

lemma starts_take:
  assumes "des_wf d" and "n \<le> des_remaining d"
  shows "starts d (take n (drop (des_position d) (des_data d)))"
  using assms by (auto simp: starts_def des_wf_def)

lemma parses_fixed:
  assumes short: "\<And>d. des_remaining d < n \<Longrightarrow> r d = Some (None, d)"
    and full: "\<And>bs. length bs = n \<Longrightarrow> reads_as r bs (f bs)"
  shows "parses r (\<lambda>v bs. length bs = n \<and> v = f bs)"
  unfolding parses_def
proof (intro allI impI)
  fix d v d'
  assume wf: "des_wf d" and r: "r d = Some (Some v, d')"
  let ?bs = "take n (drop (des_position d) (des_data d))"
  from r short [of d] have rem: "n \<le> des_remaining d"
    by (cases "des_remaining d < n") auto
  with wf have s: "starts d ?bs" and len: "length ?bs = n"
    by (auto simp: starts_take des_wf_def)
  from reads_asD [OF full [OF len] s] r have "v = f ?bs" "d' = advance (length ?bs) d"
    by simp_all
  with s len show "\<exists>bs. starts d bs \<and> d' = advance (length bs) d \<and> length bs = n \<and> v = f bs"
    by blast
qed

lemma bytes_exhaust:
  "length bs = 2 \<Longrightarrow> \<exists>v. bs = bytes16 v"
  "length bs = 4 \<Longrightarrow> \<exists>w. bs = bytes32 w"
  "length bs = 3 \<Longrightarrow> \<exists>w. bs = bytes24 w \<and> take_bit 24 w = w"
proof -
  assume "length bs = 2"
  then obtain a b where "bs = [a, b]"
    by (auto simp: numeral_eq_Suc length_Suc_conv)
  then show "\<exists>v. bs = bytes16 v"
    by (intro exI [of _ "VSOMEIP_BYTES_TO_WORD a b"]) (simp add: bytes16_def)
next
  assume "length bs = 4"
  then obtain a b c d where "bs = [a, b, c, d]"
    by (auto simp: numeral_eq_Suc length_Suc_conv)
  then show "\<exists>w. bs = bytes32 w"
    by (intro exI [of _ "VSOMEIP_BYTES_TO_LONG a b c d"]) (simp add: bytes32_def)
next
  assume "length bs = 3"
  then obtain b c d where bs: "bs = [b, c, d]"
    by (auto simp: numeral_eq_Suc length_Suc_conv)
  then have "bs = bytes24 (VSOMEIP_BYTES_TO_LONG 0 b c d)"
    by (simp add: bytes24_def)
  moreover have "take_bit 24 (VSOMEIP_BYTES_TO_LONG 0 b c d) = VSOMEIP_BYTES_TO_LONG 0 b c d"
    by (rule bit_word_eqI) (auto simp: bits_of bit_take_bit_iff)
  ultimately show "\<exists>w. bs = bytes24 w \<and> take_bit 24 w = w"
    by blast
qed

lemma parses_u8: "parses deserialize_u8 (\<lambda>v bs. bs = [v])"
proof (rule parses_mono [OF parses_fixed [where n = 1 and f = hd]])
  fix bs :: "byte list"
  assume "length bs = 1"
  then obtain v where "bs = [v]" by (auto simp: length_Suc_conv)
  then show "reads_as deserialize_u8 bs (hd bs)" by (simp add: reads_u8)
qed (auto simp: deserialize_u8_def length_Suc_conv)

lemma parses_u16: "parses deserialize_u16 (\<lambda>v bs. bs = bytes16 v)"
proof (rule parses_mono [OF parses_fixed
    [where n = 2 and f = "\<lambda>bs. VSOMEIP_BYTES_TO_WORD (bs ! 0) (bs ! 1)"]])
  fix bs :: "byte list"
  assume "length bs = 2"
  then obtain v where "bs = bytes16 v" using bytes_exhaust(1) by blast
  then show "reads_as deserialize_u16 bs (VSOMEIP_BYTES_TO_WORD (bs ! 0) (bs ! 1))"
    using reads_u16 [of v] by (simp add: bytes16_def)
next
  fix v and bs :: "byte list"
  assume *: "length bs = 2 \<and> v = VSOMEIP_BYTES_TO_WORD (bs ! 0) (bs ! 1)"
  then obtain w where "bs = bytes16 w" using bytes_exhaust(1) by blast
  with * show "bs = bytes16 v" by (simp add: bytes16_def)
qed (auto simp: deserialize_u16_def)

lemma parses_u32: "parses (deserialize_u32 False) (\<lambda>v bs. bs = bytes32 v)"
proof (rule parses_mono [OF parses_fixed [where n = 4
    and f = "\<lambda>bs. VSOMEIP_BYTES_TO_LONG (bs ! 0) (bs ! 1) (bs ! 2) (bs ! 3)"]])
  fix bs :: "byte list"
  assume "length bs = 4"
  then obtain v where "bs = bytes32 v" using bytes_exhaust(2) by blast
  then show "reads_as (deserialize_u32 False) bs
      (VSOMEIP_BYTES_TO_LONG (bs ! 0) (bs ! 1) (bs ! 2) (bs ! 3))"
    using reads_u32 [of v] by (simp add: bytes32_def)
next
  fix v and bs :: "byte list"
  assume *: "length bs = 4 \<and> v = VSOMEIP_BYTES_TO_LONG (bs ! 0) (bs ! 1) (bs ! 2) (bs ! 3)"
  then obtain w where "bs = bytes32 w" using bytes_exhaust(2) by blast
  with * show "bs = bytes32 v" by (simp add: bytes32_def)
qed (auto simp: deserialize_u32_def)

lemma parses_u24: "parses (deserialize_u32 True) (\<lambda>v bs. bs = bytes24 v \<and> take_bit 24 v = v)"
proof (rule parses_mono [OF parses_fixed [where n = 3
    and f = "\<lambda>bs. VSOMEIP_BYTES_TO_LONG 0 (bs ! 0) (bs ! 1) (bs ! 2)"]])
  fix bs :: "byte list"
  assume "length bs = 3"
  then obtain v where "bs = bytes24 v" "take_bit 24 v = v" using bytes_exhaust(3) by blast
  then show "reads_as (deserialize_u32 True) bs (VSOMEIP_BYTES_TO_LONG 0 (bs ! 0) (bs ! 1) (bs ! 2))"
    using reads_u24 [of v] by (simp add: bytes24_def)
next
  fix v and bs :: "byte list"
  assume *: "length bs = 3 \<and> v = VSOMEIP_BYTES_TO_LONG 0 (bs ! 0) (bs ! 1) (bs ! 2)"
  then obtain w where "bs = bytes24 w" "take_bit 24 w = w" using bytes_exhaust(3) by blast
  with * show "bs = bytes24 v \<and> take_bit 24 v = v" by (simp add: bytes24_def)
qed (auto simp: deserialize_u32_def)

lemma parses_return: "parses (rreturn v) (\<lambda>w bs. w = v \<and> bs = [])"
  by (simp add: parses_def rreturn_def)

lemma parses_bind:
  assumes r: "parses r P" and f: "\<And>v. parses (f v) (Q v)"
  shows "parses (rbind r f) (\<lambda>w bs. \<exists>v b1 b2. bs = b1 @ b2 \<and> P v b1 \<and> Q v w b2)"
  unfolding parses_def
proof (intro allI impI)
  fix d w d'
  assume wf: "des_wf d" and "rbind r f d = Some (Some w, d')"
  then obtain v d1 where v: "r d = Some (Some v, d1)" and w: "f v d1 = Some (Some w, d')"
    by (auto simp: rbind_def split: option.splits prod.splits)
  from r wf v obtain b1 where b1: "starts d b1" "d1 = advance (length b1) d" "P v b1"
    by (rule parsesE)
  then have "des_wf d1"
    using starts_append [of d b1 "[]"] by simp
  from f this w obtain b2 where b2: "starts d1 b2" "d' = advance (length b2) d1" "Q v w b2"
    by (rule parsesE)
  from b1 b2 have "starts d (b1 @ b2)" "d' = advance (length (b1 @ b2)) d"
    by (simp_all add: starts_append)
  with b1(3) b2(3) show "\<exists>bs. starts d bs \<and> d' = advance (length bs) d
      \<and> (\<exists>v b1 b2. bs = b1 @ b2 \<and> P v b1 \<and> Q v w b2)"
    by blast
qed

section \<open>The interface of a wire object\<close>

locale codec =
  fixes enc :: "'a \<Rightarrow> byte list"
    and dec :: "'a reader"
    and ok :: "'a \<Rightarrow> bool"
  assumes enc_dec: "ok x \<Longrightarrow> reads_as dec (enc x) x"
    and dec_safe: "safe_reader dec"
begin

lemma dec_enc_init:
  "ok x \<Longrightarrow> dec (des_init_data (enc x @ rest) t)
     = Some (Some x, advance (length (enc x)) (des_init_data (enc x @ rest) t))"
  by (rule reads_asD [OF enc_dec starts_init_append])

text \<open>Two streams that begin with encodings and are equal begin with the same object.\<close>

lemma enc_prefix_free:
  assumes "ok x" and "ok y" and "enc x @ xs = enc y @ ys"
  shows "x = y \<and> xs = ys"
proof -
  have "dec (des_init_data (enc x @ xs) 0) = dec (des_init_data (enc y @ ys) 0)"
    using assms(3) by simp
  then have "x = y"
    using dec_enc_init [OF assms(1), of xs 0] dec_enc_init [OF assms(2), of ys 0] by simp
  with assms(3) show ?thesis by simp
qed

lemma enc_inj: "ok x \<Longrightarrow> ok y \<Longrightarrow> enc x = enc y \<Longrightarrow> x = y"
  using enc_prefix_free [of x y "[]" "[]"] by simp

lemma dec_no_ub: "des_wf d \<Longrightarrow> dec d \<noteq> None"
  using dec_safe by (auto elim: safe_readerE)

end

locale fixed_codec = codec enc dec ok
  for enc :: "'a \<Rightarrow> byte list" and dec :: "'a reader" and ok :: "'a \<Rightarrow> bool" +
  fixes width :: nat
  assumes enc_length: "length (enc x) = width"
begin

lemma enc_list_length: "length (concat (map enc xs)) = width * length xs"
  by (induction xs) (simp_all add: enc_length)

end

text \<open>A codec whose reader accepts nothing but encodings: printing what was parsed is the input.\<close>

locale exact_codec = codec enc dec ok
  for enc :: "'a \<Rightarrow> byte list" and dec :: "'a reader" and ok :: "'a \<Rightarrow> bool" +
  assumes dec_exact: "parses dec (\<lambda>x bs. bs = enc x \<and> ok x)"
begin

lemma dec_iff_enc:
  assumes "des_wf d"
  shows "dec d = Some (Some x, d') \<longleftrightarrow> ok x \<and> starts d (enc x) \<and> d' = advance (length (enc x)) d"
proof
  assume "dec d = Some (Some x, d')"
  with dec_exact assms obtain bs where "starts d bs" "d' = advance (length bs) d" "bs = enc x \<and> ok x"
    by (rule parsesE)
  then show "ok x \<and> starts d (enc x) \<and> d' = advance (length (enc x)) d" by simp
next
  assume "ok x \<and> starts d (enc x) \<and> d' = advance (length (enc x)) d"
  then show "dec d = Some (Some x, d')"
    using reads_asD [OF enc_dec] by simp
qed

end

interpretation u8_codec: fixed_codec "\<lambda>v. [v]" deserialize_u8 "\<lambda>_. True" 1
  by unfold_locales (simp_all add: reads_u8 safe_u8)

interpretation u16_codec: fixed_codec bytes16 deserialize_u16 "\<lambda>_. True" 2
  by unfold_locales (simp_all add: reads_u16 safe_u16)

interpretation u32_codec: fixed_codec bytes32 "deserialize_u32 False" "\<lambda>_. True" 4
  by unfold_locales (simp_all add: reads_u32 safe_u32)

interpretation u24_codec: fixed_codec bytes24 "deserialize_u32 True" "\<lambda>v. take_bit 24 v = v" 3
proof unfold_locales
  fix v :: u32
  assume "take_bit 24 v = v"
  then show "reads_as (deserialize_u32 True) (bytes24 v) v"
    using reads_u24 [of v] by simp
qed (simp_all add: safe_u32)

end
