(* ===== verification/Message.thy ===== *)
theory Message
  imports Codec
begin

text \<open>
  SOME/IP messages: \<^verbatim>\<open>implementation/message/src/message_header_impl.cpp\<close>,
  \<^verbatim>\<open>message_base_impl.cpp\<close>, \<^verbatim>\<open>message_impl.cpp\<close>, \<^verbatim>\<open>payload_impl.cpp\<close>, the message-type predicates of
  \<^verbatim>\<open>utility/include/utility.hpp\<close> and the factory methods of \<^verbatim>\<open>runtime/src/runtime_impl.cpp\<close>.

  A scoped enumeration with underlying type \<^verbatim>\<open>uint8_t\<close> holds any byte after a
  \<^verbatim>\<open>static_cast\<close>, so message types and return codes are bytes with named values.
  A C++ object whose deserialisation fails is left partly assigned; every caller deletes
  it, and the readers return no object in that case.
\<close>

section \<open>Enumerations and constants\<close>

definition MT_REQUEST :: byte where [simp]: "MT_REQUEST = 0x00"
definition MT_REQUEST_NO_RETURN :: byte where [simp]: "MT_REQUEST_NO_RETURN = 0x01"
definition MT_NOTIFICATION :: byte where [simp]: "MT_NOTIFICATION = 0x02"
definition MT_REQUEST_ACK :: byte where [simp]: "MT_REQUEST_ACK = 0x40"
definition MT_REQUEST_NO_RETURN_ACK :: byte where [simp]: "MT_REQUEST_NO_RETURN_ACK = 0x41"
definition MT_NOTIFICATION_ACK :: byte where [simp]: "MT_NOTIFICATION_ACK = 0x42"
definition MT_RESPONSE :: byte where [simp]: "MT_RESPONSE = 0x80"
definition MT_ERROR :: byte where [simp]: "MT_ERROR = 0x81"
definition MT_RESPONSE_ACK :: byte where [simp]: "MT_RESPONSE_ACK = 0xC0"
definition MT_ERROR_ACK :: byte where [simp]: "MT_ERROR_ACK = 0xC1"
definition MT_UNKNOWN :: byte where [simp]: "MT_UNKNOWN = 0xFF"

definition E_OK :: byte where [simp]: "E_OK = 0x00"
definition E_UNKNOWN :: byte where [simp]: "E_UNKNOWN = 0xFF"

definition VSOMEIP_PROTOCOL_VERSION :: byte where [simp]: "VSOMEIP_PROTOCOL_VERSION = 0x1"
definition VSOMEIP_SOMEIP_HEADER_SIZE :: u32 where [simp]: "VSOMEIP_SOMEIP_HEADER_SIZE = 8"
definition DEFAULT_MAJOR :: byte where [simp]: "DEFAULT_MAJOR = 0x00"

section \<open>Header\<close>

record message_header =
  hdr_service :: u16
  hdr_method :: u16
  hdr_length :: u32
  hdr_client :: u16
  hdr_session :: u16
  hdr_protocol_version :: byte
  hdr_interface_version :: byte
  hdr_type :: byte
  hdr_code :: byte
  hdr_instance :: u16

definition header_init :: message_header where
  "header_init =
     \<lparr>hdr_service = 0, hdr_method = 0, hdr_length = 0, hdr_client = 0, hdr_session = 0,
      hdr_protocol_version = 1, hdr_interface_version = 0, hdr_type = MT_UNKNOWN,
      hdr_code = E_UNKNOWN, hdr_instance = 0\<rparr>"

text \<open>The length written is that of the owning message, passed as the first argument.\<close>

definition header_serialize :: "u32 \<Rightarrow> message_header \<Rightarrow> sink" where
  "header_serialize owner_length h =
     ser_then (serialize_u16 (hdr_service h))
    (ser_then (serialize_u16 (hdr_method h))
    (ser_then (serialize_u32 owner_length False)
    (ser_then (serialize_u16 (hdr_client h))
    (ser_then (serialize_u16 (hdr_session h))
    (ser_then (serialize_u8 (hdr_protocol_version h))
    (ser_then (serialize_u8 (hdr_interface_version h))
    (ser_then (serialize_u8 (hdr_type h))
              (serialize_u8 (hdr_code h)))))))))"

definition header_deserialize :: "message_header \<Rightarrow> message_header reader" where
  "header_deserialize h =
     rbind deserialize_u16 (\<lambda>service.
     rbind deserialize_u16 (\<lambda>method.
     rbind (deserialize_u32 False) (\<lambda>len.
     rbind deserialize_u16 (\<lambda>client.
     rbind deserialize_u16 (\<lambda>session.
     rbind deserialize_u8 (\<lambda>protocol_version.
     rbind deserialize_u8 (\<lambda>interface_version.
     rbind deserialize_u8 (\<lambda>tmp_message_type.
     rbind deserialize_u8 (\<lambda>tmp_return_code.
       rreturn (h\<lparr>hdr_service := service, hdr_method := method, hdr_length := len,
                  hdr_client := client, hdr_session := session,
                  hdr_protocol_version := protocol_version,
                  hdr_interface_version := interface_version,
                  hdr_type := tmp_message_type, hdr_code := tmp_return_code\<rparr>))))))))))"

section \<open>Payload\<close>

text \<open>
  \<open>pl_capacity\<close> is the reserved storage of the vector.  \<^verbatim>\<open>reserve(n)\<close> on a vector with less
  capacity makes it exactly \<open>n\<close>, as libstdc++ and libc++ do.
\<close>

record payload =
  pl_data :: "byte list"
  pl_capacity :: nat

definition create_payload :: "byte list \<Rightarrow> payload" where
  "create_payload bs = \<lparr>pl_data = bs, pl_capacity = length bs\<rparr>"

definition payload_eq :: "payload \<Rightarrow> payload \<Rightarrow> bool" where
  "payload_eq a b \<longleftrightarrow> pl_data a = pl_data b"

definition payload_get_length :: "payload \<Rightarrow> u32" where
  "payload_get_length p = of_nat (length (pl_data p))"

definition payload_set_capacity :: "u32 \<Rightarrow> payload \<Rightarrow> payload" where
  "payload_set_capacity c p = p\<lparr>pl_capacity := max (pl_capacity p) (unat c)\<rparr>"

definition payload_set_data :: "byte list \<Rightarrow> payload \<Rightarrow> payload" where
  "payload_set_data bs p = p\<lparr>pl_data := bs, pl_capacity := max (pl_capacity p) (length bs)\<rparr>"

definition payload_serialize :: "payload \<Rightarrow> sink" where
  "payload_serialize p = serialize_bytes (pl_data p)"

definition payload_deserialize :: "payload \<Rightarrow> payload reader" where
  "payload_deserialize p =
     rbind (deserialize_bytes (pl_capacity p)) (\<lambda>bs. rreturn (p\<lparr>pl_data := bs\<rparr>))"

section \<open>Messages\<close>

record message =
  msg_header :: message_header
  msg_payload :: "payload option"
  msg_reliable :: bool
  msg_initial :: bool
  msg_valid_crc :: bool

definition message_init :: message where
  "message_init =
     \<lparr>msg_header = header_init, msg_payload = Some (create_payload []),
      msg_reliable = False, msg_initial = False, msg_valid_crc = True\<rparr>"

definition get_length :: "message \<Rightarrow> u32" where
  "get_length m =
     VSOMEIP_SOMEIP_HEADER_SIZE
     + (case msg_payload m of Some p \<Rightarrow> payload_get_length p | None \<Rightarrow> 0)"

definition message_serialize :: "message \<Rightarrow> sink" where
  "message_serialize m =
     ser_then (header_serialize (get_length m) (msg_header m))
       (case msg_payload m of Some p \<Rightarrow> payload_serialize p | None \<Rightarrow> (\<lambda>s. (True, s)))"

definition message_deserialize :: "message \<Rightarrow> message reader" where
  "message_deserialize m =
     (let p = create_payload []
      in rbind (header_deserialize (msg_header m)) (\<lambda>h.
         rbind (payload_deserialize
                  (payload_set_capacity (hdr_length h - VSOMEIP_SOMEIP_HEADER_SIZE) p)) (\<lambda>p.
         rreturn (m\<lparr>msg_header := h, msg_payload := Some p\<rparr>))))"

definition deserialize_message :: "message reader" where
  "deserialize_message = message_deserialize message_init"

subsection \<open>Accessors of \<^verbatim>\<open>message_base_impl\<close>\<close>

definition get_message :: "message \<Rightarrow> u32" where
  "get_message m = VSOMEIP_WORDS_TO_LONG (hdr_service (msg_header m)) (hdr_method (msg_header m))"

definition set_message :: "u32 \<Rightarrow> message \<Rightarrow> message" where
  "set_message v m = m\<lparr>msg_header := (msg_header m)
     \<lparr>hdr_service := VSOMEIP_LONG_WORD0 v, hdr_method := VSOMEIP_LONG_WORD1 v\<rparr>\<rparr>"

definition get_request :: "message \<Rightarrow> u32" where
  "get_request m = VSOMEIP_WORDS_TO_LONG (hdr_client (msg_header m)) (hdr_session (msg_header m))"

definition get_service :: "message \<Rightarrow> u16" where "get_service m = hdr_service (msg_header m)"
definition get_instance :: "message \<Rightarrow> u16" where "get_instance m = hdr_instance (msg_header m)"
definition get_method :: "message \<Rightarrow> u16" where "get_method m = hdr_method (msg_header m)"
definition get_client :: "message \<Rightarrow> u16" where "get_client m = hdr_client (msg_header m)"
definition get_session :: "message \<Rightarrow> u16" where "get_session m = hdr_session (msg_header m)"
definition get_interface_version :: "message \<Rightarrow> byte" where
  "get_interface_version m = hdr_interface_version (msg_header m)"
definition get_message_type :: "message \<Rightarrow> byte" where
  "get_message_type m = hdr_type (msg_header m)"
definition get_return_code :: "message \<Rightarrow> byte" where
  "get_return_code m = hdr_code (msg_header m)"

definition set_service :: "u16 \<Rightarrow> message \<Rightarrow> message" where
  "set_service v m = m\<lparr>msg_header := (msg_header m)\<lparr>hdr_service := v\<rparr>\<rparr>"
definition set_instance :: "u16 \<Rightarrow> message \<Rightarrow> message" where
  "set_instance v m = m\<lparr>msg_header := (msg_header m)\<lparr>hdr_instance := v\<rparr>\<rparr>"
definition set_method :: "u16 \<Rightarrow> message \<Rightarrow> message" where
  "set_method v m = m\<lparr>msg_header := (msg_header m)\<lparr>hdr_method := v\<rparr>\<rparr>"
definition set_client :: "u16 \<Rightarrow> message \<Rightarrow> message" where
  "set_client v m = m\<lparr>msg_header := (msg_header m)\<lparr>hdr_client := v\<rparr>\<rparr>"
definition set_session :: "u16 \<Rightarrow> message \<Rightarrow> message" where
  "set_session v m = m\<lparr>msg_header := (msg_header m)\<lparr>hdr_session := v\<rparr>\<rparr>"
definition set_protocol_version :: "byte \<Rightarrow> message \<Rightarrow> message" where
  "set_protocol_version v m = m\<lparr>msg_header := (msg_header m)\<lparr>hdr_protocol_version := v\<rparr>\<rparr>"
definition set_interface_version :: "byte \<Rightarrow> message \<Rightarrow> message" where
  "set_interface_version v m = m\<lparr>msg_header := (msg_header m)\<lparr>hdr_interface_version := v\<rparr>\<rparr>"
definition set_message_type :: "byte \<Rightarrow> message \<Rightarrow> message" where
  "set_message_type v m = m\<lparr>msg_header := (msg_header m)\<lparr>hdr_type := v\<rparr>\<rparr>"
definition set_return_code :: "byte \<Rightarrow> message \<Rightarrow> message" where
  "set_return_code v m = m\<lparr>msg_header := (msg_header m)\<lparr>hdr_code := v\<rparr>\<rparr>"
definition set_reliable :: "bool \<Rightarrow> message \<Rightarrow> message" where
  "set_reliable v m = m\<lparr>msg_reliable := v\<rparr>"
definition set_initial :: "bool \<Rightarrow> message \<Rightarrow> message" where
  "set_initial v m = m\<lparr>msg_initial := v\<rparr>"
definition set_is_valid_crc :: "bool \<Rightarrow> message \<Rightarrow> message" where
  "set_is_valid_crc v m = m\<lparr>msg_valid_crc := v\<rparr>"
definition set_payload :: "payload option \<Rightarrow> message \<Rightarrow> message" where
  "set_payload p m = m\<lparr>msg_payload := p\<rparr>"

lemmas message_setters =
  set_message_def set_service_def set_instance_def set_method_def set_client_def set_session_def
  set_protocol_version_def set_interface_version_def set_message_type_def set_return_code_def
  set_reliable_def set_initial_def set_is_valid_crc_def set_payload_def

lemmas message_getters =
  get_service_def get_instance_def get_method_def get_client_def get_session_def
  get_interface_version_def get_message_type_def get_return_code_def

subsection \<open>Factory methods of \<^verbatim>\<open>runtime_impl\<close>\<close>

definition create_message :: "bool \<Rightarrow> message" where
  "create_message reliable =
     set_interface_version DEFAULT_MAJOR (set_reliable reliable
       (set_return_code E_OK (set_protocol_version VSOMEIP_PROTOCOL_VERSION message_init)))"

definition create_request :: "bool \<Rightarrow> message" where
  "create_request reliable =
     set_interface_version DEFAULT_MAJOR (set_reliable reliable (set_return_code E_OK
       (set_message_type MT_REQUEST (set_protocol_version VSOMEIP_PROTOCOL_VERSION message_init))))"

definition create_response :: "message \<Rightarrow> message" where
  "create_response request =
     (let r = set_service (get_service request) message_init;
          r = set_instance (get_instance request) r;
          r = set_method (get_method request) r;
          r = set_client (get_client request) r;
          r = set_session (get_session request) r;
          r = set_interface_version (get_interface_version request) r;
          r = set_message_type MT_RESPONSE r;
          r = set_return_code E_OK r
      in set_reliable (msg_reliable request) r)"

definition create_notification :: "bool \<Rightarrow> message" where
  "create_notification reliable =
     set_interface_version DEFAULT_MAJOR (set_reliable reliable (set_return_code E_OK
       (set_message_type MT_NOTIFICATION
         (set_protocol_version VSOMEIP_PROTOCOL_VERSION message_init))))"

subsection \<open>Predicates of \<^verbatim>\<open>utility.hpp\<close> and sizes of \<^verbatim>\<open>utility.cpp\<close>\<close>

definition is_request :: "byte \<Rightarrow> bool" where
  "is_request t \<longleftrightarrow>
     t < MT_NOTIFICATION \<or> MT_REQUEST_ACK \<le> t \<and> t \<le> MT_REQUEST_NO_RETURN_ACK"

definition is_request_no_return :: "byte \<Rightarrow> bool" where
  "is_request_no_return t \<longleftrightarrow> t = MT_REQUEST_NO_RETURN \<or> t = MT_REQUEST_NO_RETURN_ACK"

definition is_response :: "byte \<Rightarrow> bool" where "is_response t \<longleftrightarrow> t = MT_RESPONSE"
definition is_error :: "byte \<Rightarrow> bool" where "is_error t \<longleftrightarrow> t = MT_ERROR"
definition is_event :: "byte \<Rightarrow> bool" where "is_event b \<longleftrightarrow> 0 < 0x80 AND b"
definition is_notification :: "byte \<Rightarrow> bool" where "is_notification t \<longleftrightarrow> t = MT_NOTIFICATION"

definition is_valid_message_type :: "byte \<Rightarrow> bool" where
  "is_valid_message_type t \<longleftrightarrow>
     t = MT_REQUEST \<or> t = MT_REQUEST_NO_RETURN \<or> t = MT_NOTIFICATION \<or> t = MT_REQUEST_ACK
     \<or> t = MT_REQUEST_NO_RETURN_ACK \<or> t = MT_NOTIFICATION_ACK \<or> t = MT_RESPONSE \<or> t = MT_ERROR
     \<or> t = MT_RESPONSE_ACK \<or> t = MT_ERROR_ACK \<or> t = MT_UNKNOWN"

text \<open>
  The sum in \<^verbatim>\<open>get_message_size\<close> is taken in 32 bits before it is widened to \<^verbatim>\<open>uint64_t\<close>.
\<close>

definition get_message_size :: "byte list \<Rightarrow> nat \<Rightarrow> nat ub" where
  "get_message_size data sz =
     (if 8 \<le> sz then do {
        b4 \<leftarrow> vec_get data 4; b5 \<leftarrow> vec_get data 5; b6 \<leftarrow> vec_get data 6; b7 \<leftarrow> vec_get data 7;
        Some (unat (VSOMEIP_SOMEIP_HEADER_SIZE + VSOMEIP_BYTES_TO_LONG b4 b5 b6 b7)) }
      else Some 0)"

definition get_payload_size :: "byte list \<Rightarrow> nat \<Rightarrow> u32 ub" where
  "get_payload_size data sz =
     (if 8 \<le> sz then do {
        b4 \<leftarrow> vec_get data 4; b5 \<leftarrow> vec_get data 5; b6 \<leftarrow> vec_get data 6; b7 \<leftarrow> vec_get data 7;
        Some (VSOMEIP_BYTES_TO_LONG b4 b5 b6 b7 - VSOMEIP_SOMEIP_HEADER_SIZE) }
      else Some 0)"


section \<open>Wire format of header and message\<close>

definition header_bytes :: "u32 \<Rightarrow> message_header \<Rightarrow> byte list" where
  "header_bytes len h =
     bytes16 (hdr_service h) @ bytes16 (hdr_method h) @ bytes32 len @ bytes16 (hdr_client h)
     @ bytes16 (hdr_session h) @ [hdr_protocol_version h] @ [hdr_interface_version h]
     @ [hdr_type h] @ [hdr_code h]"

definition payload_bytes :: "message \<Rightarrow> byte list" where
  "payload_bytes m = (case msg_payload m of Some p \<Rightarrow> pl_data p | None \<Rightarrow> [])"

definition message_bytes :: "message \<Rightarrow> byte list" where
  "message_bytes m = header_bytes (get_length m) (msg_header m) @ payload_bytes m"

lemma length_header_bytes [simp]: "length (header_bytes len h) = 16"
  by (simp add: header_bytes_def)

lemma writes_header [wire]: "writes (header_serialize len h) (header_bytes len h)"
  unfolding header_serialize_def header_bytes_def by (intro wire)

lemma writes_message [wire]: "writes (message_serialize m) (message_bytes m)"
  unfolding message_serialize_def message_bytes_def payload_bytes_def
proof (rule writes_then [OF writes_header], cases "msg_payload m")
  case None
  then show "writes (case msg_payload m of None \<Rightarrow> Pair True | Some p \<Rightarrow> payload_serialize p)
      (case msg_payload m of None \<Rightarrow> [] | Some p \<Rightarrow> pl_data p)"
    by (simp add: writes_def)
next
  case (Some p)
  then show "writes (case msg_payload m of None \<Rightarrow> Pair True | Some p \<Rightarrow> payload_serialize p)
      (case msg_payload m of None \<Rightarrow> [] | Some p \<Rightarrow> pl_data p)"
    by (simp add: payload_serialize_def writes_bytes)
qed

lemma reads_header [reads]:
  "reads_as (header_deserialize h0) (header_bytes len h)
     (h\<lparr>hdr_length := len, hdr_instance := hdr_instance h0\<rparr>)"
  unfolding header_deserialize_def header_bytes_def
  by (rule reads_eq, (rule reads_bind reads_u16 reads_u32 reads_u8 reads_return)+)
    (simp, cases h, cases h0, simp)

lemma safe_header [safe]: "safe_reader (header_deserialize h)"
  unfolding header_deserialize_def by (intro safe)

lemma safe_message [safe]: "safe_reader (message_deserialize m)"
  unfolding message_deserialize_def payload_deserialize_def Let_def by (intro safe)

lemma header_update_same:
  "hdr_instance h = i \<Longrightarrow> h\<lparr>hdr_instance := i\<rparr> = h"
  by (cases h) simp

text \<open>The header of a received message, its instance identifier not being on the wire.\<close>

interpretation header_codec: fixed_codec "\<lambda>h. header_bytes (hdr_length h) h"
  "header_deserialize header_init" "\<lambda>h. hdr_instance h = 0" 16
proof unfold_locales
  fix h :: message_header
  assume "hdr_instance h = 0"
  then show "reads_as (header_deserialize header_init) (header_bytes (hdr_length h) h) h"
    using reads_header [of header_init "hdr_length h" h] header_update_same [of h 0]
    by (simp add: header_init_def)
qed (simp_all add: safe_header)

lemma parses_header:
  "parses (header_deserialize h0)
     (\<lambda>h bs. bs = header_bytes (hdr_length h) h \<and> hdr_instance h = hdr_instance h0)"
  unfolding header_deserialize_def
  by (rule parses_mono, (rule parses_bind parses_u16 parses_u32 parses_u8 parses_return)+)
    (auto simp: header_bytes_def)

interpretation header_exact: exact_codec "\<lambda>h. header_bytes (hdr_length h) h"
  "header_deserialize header_init" "\<lambda>h. hdr_instance h = 0"
  by unfold_locales (use parses_header [of header_init] in \<open>simp add: header_init_def\<close>)

subsection \<open>Reading messages\<close>

definition received :: "message \<Rightarrow> message \<Rightarrow> message" where
  "received m0 m =
     m0\<lparr>msg_header := (msg_header m)\<lparr>hdr_length := get_length m,
                                     hdr_instance := hdr_instance (msg_header m0)\<rparr>,
        msg_payload := Some (create_payload (payload_bytes m))\<rparr>"

lemma unat_get_length:
  "length (payload_bytes m) + 8 < 2 ^ 32 \<Longrightarrow> unat (get_length m) = length (payload_bytes m) + 8"
  by (cases "msg_payload m")
    (simp_all add: get_length_def payload_bytes_def payload_get_length_def unat_word_ariths
      unat_of_nat take_bit_nat_eq_self)

lemma unat_payload_capacity:
  assumes "length (payload_bytes m) + 8 < 2 ^ 32"
  shows "unat (get_length m - VSOMEIP_SOMEIP_HEADER_SIZE) = length (payload_bytes m)"
  using unat_get_length [OF assms] by (simp add: unat_sub word_le_nat_alt)

lemma reads_message [reads]:
  assumes "length (payload_bytes m) + 8 < 2 ^ 32"
  shows "reads_as (message_deserialize m0) (message_bytes m) (received m0 m)"
proof -
  let ?h = "(msg_header m)\<lparr>hdr_length := get_length m,
              hdr_instance := hdr_instance (msg_header m0)\<rparr>"
  let ?p = "payload_set_capacity (hdr_length ?h - VSOMEIP_SOMEIP_HEADER_SIZE) (create_payload [])"
  have cap: "pl_capacity ?p = length (payload_bytes m)"
    using unat_payload_capacity [OF assms]
    by (simp add: payload_set_capacity_def create_payload_def del: VSOMEIP_SOMEIP_HEADER_SIZE_def)
  then have p: "?p\<lparr>pl_data := payload_bytes m\<rparr> = create_payload (payload_bytes m)"
    by (simp add: payload_set_capacity_def create_payload_def)
  have "reads_as (payload_deserialize ?p) (payload_bytes m @ []) (?p\<lparr>pl_data := payload_bytes m\<rparr>)"
    unfolding payload_deserialize_def cap by (rule reads_bind [OF reads_bytes reads_return]) simp
  then have pd: "reads_as (payload_deserialize ?p) (payload_bytes m)
      (create_payload (payload_bytes m))"
    unfolding p by simp
  have "reads_as (message_deserialize m0)
      (header_bytes (get_length m) (msg_header m) @ payload_bytes m @ []) (received m0 m)"
    unfolding message_deserialize_def Let_def received_def
    by (rule reads_bind [OF reads_header], rule reads_bind [OF pd], rule reads_return)
  then show ?thesis
    by (simp add: message_bytes_def)
qed


section \<open>Properties\<close>

text \<open>
  C1. A message that is serialised and read back by \<open>deserialize_message\<close> comes back with
  every header field and the payload bytes it was sent with, the length field holding
  \<open>get_length\<close>; exactly the message's bytes are consumed, whatever follows them.
\<close>

theorem message_roundtrip:
  assumes "length (payload_bytes m) + 8 < 2 ^ 32"
  shows "message_serialize m s = (True, s\<lparr>ser_data := ser_data s @ message_bytes m\<rparr>)
    \<and> deserialize_message (des_init_data (message_bytes m @ rest) t)
      = Some (Some (received message_init m),
              advance (length (message_bytes m)) (des_init_data (message_bytes m @ rest) t))"
  unfolding deserialize_message_def
  using writesD [OF writes_message, of m s]
    reads_asD [OF reads_message [OF assms] starts_init_append] by simp

text \<open>A response to service 0x1234, method 0x8001 with a three-byte payload.\<close>

definition sample_message :: message where
  "sample_message = message_init
     \<lparr>msg_header := header_init\<lparr>hdr_service := 0x1234, hdr_method := 0x8001, hdr_client := 0x5,
        hdr_session := 0x7, hdr_type := MT_RESPONSE, hdr_code := E_OK\<rparr>,
      msg_payload := Some (create_payload [1, 2, 3])\<rparr>"

theorem message_roundtrip_witness:
  "\<exists>d. deserialize_message (des_init_data (message_bytes sample_message @ [9]) 0)
     = Some (Some (received message_init sample_message), d)"
proof -
  have "length (payload_bytes sample_message) + 8 < 2 ^ 32"
    by (simp add: sample_message_def payload_bytes_def create_payload_def)
  from message_roundtrip [OF this, of _ "[9]" 0] show ?thesis
    by blast
qed

lemma message_size:
  assumes "length (payload_bytes m) + 16 < 2 ^ 32" and "8 \<le> n"
  shows "length (message_bytes m) = unat (get_length m) + 8
    \<and> get_message_size (message_bytes m @ rest) n = Some (length (message_bytes m))"
proof -
  let ?L = "get_length m"
  have L: "unat ?L = length (payload_bytes m) + 8"
    using assms(1) by (intro unat_get_length) simp
  then have "unat (VSOMEIP_SOMEIP_HEADER_SIZE + ?L) = length (payload_bytes m) + 16"
    using assms(1) by (simp add: unat_word_ariths)
  moreover have "get_message_size (message_bytes m @ rest) n
      = Some (unat (VSOMEIP_SOMEIP_HEADER_SIZE + ?L))"
    using assms(2) unfolding get_message_size_def
    by (simp add: message_bytes_def header_bytes_def bytes16_def bytes32_def nth_append
        del: VSOMEIP_SOMEIP_HEADER_SIZE_def)
  ultimately show ?thesis
    using L by (simp add: message_bytes_def)
qed

text \<open>
  The length field counts the bytes that follow it: a serialised message is
  \<open>get_length + 8\<close> bytes long, and \<open>get_message_size\<close> computes that from the first eight
  bytes of a buffer that starts with the message.
\<close>

theorem message_size_matches:
  assumes "length (payload_bytes m) + 16 < 2 ^ 32" and "8 \<le> n"
  shows "length (message_bytes m) = unat (get_length m) + 8
    \<and> get_message_size (message_bytes m @ rest) n = Some (length (message_bytes m))"
  using assms by (rule message_size)

theorem message_size_matches_witness:
  "get_message_size (message_bytes sample_message @ [9]) 8 = Some 19"
proof -
  have "length (payload_bytes sample_message) + 16 < 2 ^ 32"
    by (simp add: sample_message_def payload_bytes_def create_payload_def)
  then have "get_message_size (message_bytes sample_message @ [9]) 8
      = Some (length (message_bytes sample_message))"
    using message_size_matches [of sample_message 8 "[9]"] by simp
  then show ?thesis
    by (simp add: message_bytes_def sample_message_def payload_bytes_def create_payload_def)
qed


text \<open>
  C4. The converse of the round trip: a message that \<open>deserialize_message\<close> accepts from a
  buffer shorter than 4 GiB has a length field of at least eight, re-serialises to exactly the
  bytes that were consumed, and nothing else of the buffer was touched.
\<close>

theorem accepted_message_is_canonical:
  assumes wf: "des_wf d" and small: "des_remaining d < 2 ^ 32 - 8"
    and acc: "deserialize_message d = Some (Some m, d')"
  shows "8 \<le> unat (hdr_length (msg_header m)) \<and> get_length m = hdr_length (msg_header m)
    \<and> starts d (message_bytes m) \<and> d' = advance (length (message_bytes m)) d"
proof -
  from acc obtain h d1 where h: "header_deserialize header_init d = Some (Some h, d1)"
    and p: "rbind (payload_deserialize (payload_set_capacity (hdr_length h - 8) (create_payload [])))
             (\<lambda>p. rreturn (message_init\<lparr>msg_header := h, msg_payload := Some p\<rparr>)) d1
           = Some (Some m, d')"
    by (auto simp: deserialize_message_def message_deserialize_def rbind_def [of "header_deserialize _"]
        message_init_def split: option.splits prod.splits)
  let ?H = "header_bytes (hdr_length h) h" and ?n = "unat (hdr_length h - 8)"
  from wf h have H: "starts d ?H" "d1 = advance 16 d"
    by (simp_all add: header_exact.dec_iff_enc)
  then have wf1: "des_wf d1"
    using starts_append [of d ?H "[]"] by simp
  from p obtain bs d2 where bs: "deserialize_bytes ?n d1 = Some (Some bs, d2)" and d': "d' = d2"
    and m: "m = message_init\<lparr>msg_header := h, msg_payload := Some \<lparr>pl_data = bs, pl_capacity = ?n\<rparr>\<rparr>"
    by (auto simp: rbind_def payload_deserialize_def rreturn_def payload_set_capacity_def
        create_payload_def split: option.splits prod.splits)
  from parses_bytes wf1 bs obtain cs where cs: "starts d1 cs" "d2 = advance (length cs) d1"
    "cs = bs \<and> length cs = ?n"
    by (rule parsesE)
  then have lenbs: "length bs = ?n" and "cs = bs"
    by auto
  then have n: "?n < 2 ^ 32 - 8"
    using starts_bounds(1) [OF cs(1)] small H(2) by simp
  have len8: "8 \<le> unat (hdr_length h)"
  proof (rule ccontr)
    assume "\<not> 8 \<le> unat (hdr_length h)"
    then have "?n = 2 ^ 32 + unat (hdr_length h) - 8"
      by (simp add: unat_sub_if_size word_size)
    with n show False by simp
  qed
  then have n8: "?n = unat (hdr_length h) - 8"
    by (simp add: unat_sub word_le_nat_alt)
  have "payload_bytes m = bs"
    by (simp add: m payload_bytes_def)
  moreover have "get_length m = hdr_length h"
  proof -
    have "unat (get_length m) = unat (hdr_length h)"
      using unat_get_length [of m] lenbs n n8 len8 \<open>payload_bytes m = bs\<close> by simp
    then show ?thesis by (simp only: word_unat_eq_iff)
  qed
  ultimately show ?thesis
    using H cs(1,2) \<open>cs = bs\<close> d' len8 by (simp add: m message_bytes_def starts_append)
qed

theorem accepted_message_is_canonical_witness:
  "\<exists>m d'. deserialize_message (des_init_data (message_bytes sample_message @ [9]) 0) = Some (Some m, d')
    \<and> starts (des_init_data (message_bytes sample_message @ [9]) 0) (message_bytes m)"
proof -
  let ?d = "des_init_data (message_bytes sample_message @ [9]) 0"
  have wf: "des_wf ?d" and small: "des_remaining ?d < 2 ^ 32 - 8"
    by (simp_all add: des_init_data_def des_wf_def message_bytes_def payload_bytes_def
        sample_message_def create_payload_def)
  have "length (payload_bytes sample_message) + 8 < 2 ^ 32"
    by (simp add: sample_message_def payload_bytes_def create_payload_def)
  then have "deserialize_message ?d = Some (Some (received message_init sample_message),
      advance (length (message_bytes sample_message)) ?d)"
    unfolding deserialize_message_def by (rule reads_asD [OF reads_message starts_init_append])
  with accepted_message_is_canonical [OF wf small this] show ?thesis
    by blast
qed

text \<open>
  C5. Deserialising never reads outside the buffer: from a deserializer whose remaining
  count is covered by its data, \<open>deserialize_message\<close> has a defined outcome and leaves such a
  deserializer behind.  The claim is for arbitrary buffer contents.
\<close>

theorem deserialize_message_in_bounds:
  assumes "des_wf d"
  shows "\<exists>v d'. deserialize_message d = Some (v, d') \<and> des_wf d' \<and> within d d'"
  using safe_message assms unfolding deserialize_message_def safe_reader_def by blast

theorem deserialize_message_in_bounds_witness:
  "\<exists>v d'. deserialize_message (des_init_data [1, 2, 3] 0) = Some (v, d') \<and> des_wf d'"
proof -
  have "des_wf (des_init_data [1, 2, 3] 0)"
    by (simp add: des_wf_def des_init_data_def)
  from deserialize_message_in_bounds [OF this] show ?thesis
    by blast
qed

text \<open>
  A response belongs to its request: it carries the same message and request
  identifiers, instance and interface version, is of type MT_RESPONSE with code E_OK, and
  goes out over the transport the request came in on.
\<close>

theorem create_response_matches_request:
  "get_message (create_response r) = get_message r \<and> get_request (create_response r) = get_request r
   \<and> get_instance (create_response r) = get_instance r
   \<and> get_interface_version (create_response r) = get_interface_version r
   \<and> is_response (get_message_type (create_response r))
   \<and> get_return_code (create_response r) = E_OK
   \<and> msg_reliable (create_response r) = msg_reliable r"
  by (simp add: create_response_def Let_def message_setters message_getters get_message_def
      get_request_def is_response_def)

text \<open>
  \<open>set_message\<close> is not the inverse of \<open>get_message\<close>: it takes the service from the low word
  and the method from the high word, so setting an identifier that was read from a message
  exchanges its service and method.
\<close>

theorem set_message_swaps_service_and_method:
  "get_service (set_message (get_message m) m0) = get_method m
   \<and> get_method (set_message (get_message m) m0) = get_service m"
  by (simp add: set_message_def get_message_def message_getters)

text \<open>
  \<open>get_message_size\<close> adds the header size in 32 bits: for a length field above
  0xFFFFFFF7 the 64-bit result is smaller than the header.
\<close>

theorem get_message_size_wraps:
  assumes "8 \<le> n" and "b4 = 0xFF" and "b5 = 0xFF" and "b6 = 0xFF" and "0xF8 \<le> b7"
  shows "get_message_size ([b0, b1, b2, b3, b4, b5, b6, b7] @ rest) n = Some (unat b7 - 0xF8)"
proof -
  have "248 \<le> unat b7" and "unat b7 < 256"
    using assms(5) unsigned_less [of b7, where ?'a = nat] by (simp_all add: word_le_nat_alt)
  then have "unat b7 \<in> {248, 249, 250, 251, 252, 253, 254, 255}"
    by auto
  then have "b7 \<in> {248, 249, 250, 251, 252, 253, 254, 255}"
    by (auto simp: word_unat_eq_iff)
  then show ?thesis
    using assms(1-4) by (auto simp: get_message_size_def VSOMEIP_BYTES_TO_LONG_def)
qed

theorem get_message_size_wraps_witness:
  "get_message_size ([0, 1, 0, 2, 0xFF, 0xFF, 0xFF, 0xFF] @ []) 8 = Some 7"
  using get_message_size_wraps [of 8 255 255 255 255 0 1 0 2 "[]"] by simp

end
