(* ===== verification/Endpoint_Definition.thy ===== *)
theory Endpoint_Definition
  imports Prelude
begin

text \<open>
  \<^verbatim>\<open>implementation/endpoints/src/endpoint_definition.cpp\<close>: the process-wide table of endpoint
  definitions.  Definitions are shared objects: other components keep pointers to them and
  compare those pointers, so each object carries its identity \<open>ep_ref\<close>.  Its one mutable
  member, the remote port, lives in the table, indexed by identity.  An IP address is the
  list of its bytes in network order.
\<close>

type_synonym address = "byte list"

record endpoint_definition =
  ep_ref :: nat
  ep_address :: address
  ep_port :: u16
  ep_is_reliable :: bool

type_synonym definition_key = "u16 \<times> u16 \<times> address \<times> u16 \<times> bool"

record definition_table =
  dt_definitions :: "definition_key \<rightharpoonup> endpoint_definition"
  dt_remote_port :: "nat \<Rightarrow> u16"
  dt_next_ref :: nat

definition definition_table_init :: definition_table where
  "definition_table_init =
     \<lparr>dt_definitions = Map.empty, dt_remote_port = (\<lambda>_. 0), dt_next_ref = 0\<rparr>"

text \<open>\<^verbatim>\<open>std::make_shared<endpoint_definition>\<close>: a fresh object whose remote port is its port.\<close>

definition make_definition ::
  "address \<Rightarrow> u16 \<Rightarrow> bool \<Rightarrow> definition_table \<Rightarrow> endpoint_definition \<times> definition_table" where
  "make_definition a p r t =
     (\<lparr>ep_ref = dt_next_ref t, ep_address = a, ep_port = p, ep_is_reliable = r\<rparr>,
      t\<lparr>dt_next_ref := Suc (dt_next_ref t),
        dt_remote_port := (dt_remote_port t)(dt_next_ref t := p)\<rparr>)"

definition endpoint_definition_get ::
  "address \<Rightarrow> u16 \<Rightarrow> bool \<Rightarrow> u16 \<Rightarrow> u16 \<Rightarrow> definition_table
     \<Rightarrow> endpoint_definition \<times> definition_table" where
  "endpoint_definition_get a p r service instance t =
     (case dt_definitions t (service, instance, a, p, r) of
        Some e \<Rightarrow> (e, t)
      | None \<Rightarrow>
          (let (e, t) = make_definition a p r t
           in (e, t\<lparr>dt_definitions := (dt_definitions t)((service, instance, a, p, r) \<mapsto> e)\<rparr>)))"

definition get_remote_port :: "endpoint_definition \<Rightarrow> definition_table \<Rightarrow> u16" where
  "get_remote_port e t = dt_remote_port t (ep_ref e)"

definition set_remote_port ::
  "endpoint_definition \<Rightarrow> u16 \<Rightarrow> definition_table \<Rightarrow> definition_table" where
  "set_remote_port e p t = t\<lparr>dt_remote_port := (dt_remote_port t)(ep_ref e := p)\<rparr>"

section \<open>Invariant of the table\<close>

definition definition_table_ok :: "definition_table \<Rightarrow> bool" where
  "definition_table_ok t \<longleftrightarrow>
     (\<forall>s i a p r e. dt_definitions t (s, i, a, p, r) = Some e \<longrightarrow>
        ep_address e = a \<and> ep_port e = p \<and> ep_is_reliable e = r \<and> ep_ref e < dt_next_ref t)
     \<and> (\<forall>k k' e e'. dt_definitions t k = Some e \<longrightarrow> dt_definitions t k' = Some e' \<longrightarrow>
          ep_ref e = ep_ref e' \<longrightarrow> k = k')"

inductive table_reachable :: "definition_table \<Rightarrow> bool" where
  init: "table_reachable definition_table_init"
| get: "table_reachable t \<Longrightarrow> table_reachable (snd (endpoint_definition_get a p r s i t))"
| set: "table_reachable t \<Longrightarrow> table_reachable (set_remote_port e p t)"

lemma definition_table_ok_init: "definition_table_ok definition_table_init"
  by (simp add: definition_table_ok_def definition_table_init_def)

lemma definition_table_ok_get:
  assumes "definition_table_ok t"
  shows "definition_table_ok (snd (endpoint_definition_get a p r s i t))"
proof (cases "dt_definitions t (s, i, a, p, r)")
  case None
  have fresh: "ep_ref e < dt_next_ref t" if "dt_definitions t k = Some e" for k e
    using assms that unfolding definition_table_ok_def by (cases k) blast
  from None assms show ?thesis
    unfolding definition_table_ok_def endpoint_definition_get_def make_definition_def
    by (auto simp: less_Suc_eq dest: fresh split: if_splits)
next
  case (Some e)
  with assms show ?thesis by (simp add: endpoint_definition_get_def)
qed

lemma definition_table_ok_set:
  "definition_table_ok t \<Longrightarrow> definition_table_ok (set_remote_port e p t)"
  by (simp add: definition_table_ok_def set_remote_port_def)

lemma table_reachable_ok: "table_reachable t \<Longrightarrow> definition_table_ok t"
  by (induction rule: table_reachable.induct)
    (simp_all add: definition_table_ok_init definition_table_ok_get definition_table_ok_set)

section \<open>Properties\<close>

text \<open>
  Endpoint definitions are interned.  In every reachable table \<open>get\<close> returns an object
  with the requested address, port and reliability; asking again with the same key returns
  the same object and changes nothing; and a different key yields a different object, even
  for the same address and port.
\<close>

theorem endpoint_definitions_interned:
  assumes "table_reachable t" and "endpoint_definition_get a p r s i t = (e, t')"
  shows "ep_address e = a \<and> ep_port e = p \<and> ep_is_reliable e = r
    \<and> endpoint_definition_get a p r s i t' = (e, t')
    \<and> (\<forall>a' p' r' s' i' e' t''. endpoint_definition_get a' p' r' s' i' t' = (e', t'') \<longrightarrow>
         ep_ref e' = ep_ref e \<longrightarrow> (s', i', a', p', r') = (s, i, a, p, r))"
proof -
  have ok: "definition_table_ok t'"
    using definition_table_ok_get [OF table_reachable_ok [OF assms(1)], of a p r s i] assms(2) by simp
  have e: "dt_definitions t' (s, i, a, p, r) = Some e"
    using assms(2)
    by (auto simp: endpoint_definition_get_def make_definition_def split: option.splits prod.splits)
  have "(s', i', a', p', r') = (s, i, a, p, r)"
    if "endpoint_definition_get a' p' r' s' i' t' = (e', t'')" and "ep_ref e' = ep_ref e"
    for a' p' r' s' i' e' t''
  proof (cases "dt_definitions t' (s', i', a', p', r')")
    case None
    with that(1) have "ep_ref e' = dt_next_ref t'"
      by (auto simp: endpoint_definition_get_def make_definition_def)
    moreover have "ep_ref e < dt_next_ref t'"
      using ok e unfolding definition_table_ok_def by blast
    ultimately show ?thesis using that(2) by simp
  next
    case (Some e1)
    with that(1) have "dt_definitions t' (s', i', a', p', r') = Some e'"
      by (simp add: endpoint_definition_get_def)
    with ok e that(2) show ?thesis
      unfolding definition_table_ok_def by blast
  qed
  moreover have "ep_address e = a \<and> ep_port e = p \<and> ep_is_reliable e = r"
    using ok e unfolding definition_table_ok_def by blast
  ultimately show ?thesis
    using e by (auto simp: endpoint_definition_get_def)
qed

theorem endpoint_definitions_interned_witness:
  "\<exists>e t. endpoint_definition_get [10, 0, 0, 1] 30509 False 0x1111 1 definition_table_init = (e, t)
     \<and> ep_port e = 30509 \<and> endpoint_definition_get [10, 0, 0, 1] 30509 False 0x1111 1 t = (e, t)"
proof -
  obtain e t where g: "endpoint_definition_get [10, 0, 0, 1] 30509 False 0x1111 1
      definition_table_init = (e, t)"
    by (cases "endpoint_definition_get [10, 0, 0, 1] 30509 False 0x1111 1 definition_table_init")
  with endpoint_definitions_interned [OF table_reachable.init g] show ?thesis
    by blast
qed

end
