(* ===== verification/Sd_Entry.thy ===== *)
theory Sd_Entry
  imports Codec Endpoint_Definition "HOL-Library.Multiset"
begin

text \<open>
  Entries of service-discovery messages: \<^verbatim>\<open>service_discovery/src/entry_impl.cpp\<close>,
  \<^verbatim>\<open>serviceentry_impl.cpp\<close> and \<^verbatim>\<open>eventgroupentry_impl.cpp\<close>.  Inheritance from \<^verbatim>\<open>entry_impl\<close> is
  record extension.  An entry refers to options of its message by index, in at most two
  runs; the two elements of the array \<^verbatim>\<open>options_\<close> are \<open>en_options1\<close> and \<open>en_options2\<close>.
\<close>

section \<open>Entry types\<close>

definition FIND_SERVICE :: byte where [simp]: "FIND_SERVICE = 0x00"
definition OFFER_SERVICE :: byte where [simp]: "OFFER_SERVICE = 0x01"
definition REQUEST_SERVICE :: byte where [simp]: "REQUEST_SERVICE = 0x02"
definition FIND_EVENT_GROUP :: byte where [simp]: "FIND_EVENT_GROUP = 0x04"
definition PUBLISH_EVENTGROUP :: byte where [simp]: "PUBLISH_EVENTGROUP = 0x05"
definition SUBSCRIBE_EVENTGROUP :: byte where [simp]: "SUBSCRIBE_EVENTGROUP = 0x06"
definition SUBSCRIBE_EVENTGROUP_ACK :: byte where [simp]: "SUBSCRIBE_EVENTGROUP_ACK = 0x07"
definition ENTRY_UNKNOWN :: byte where [simp]: "ENTRY_UNKNOWN = 0xFF"

section \<open>State\<close>

record entry =
  en_type :: byte
  en_service :: u16
  en_instance :: u16
  en_major_version :: byte
  en_ttl :: u32
  en_options1 :: "byte list"
  en_options2 :: "byte list"
  en_num_options1 :: byte
  en_num_options2 :: byte
  en_index1 :: byte
  en_index2 :: byte

record serviceentry = entry +
  se_minor_version :: u32

record eventgroupentry = entry +
  eg_eventgroup :: u16
  eg_reserved :: u16
  eg_counter :: byte
  eg_target_reliable :: "endpoint_definition option"
  eg_target_unreliable :: "endpoint_definition option"

definition serviceentry_init :: serviceentry where
  "serviceentry_init =
     \<lparr>en_type = ENTRY_UNKNOWN, en_service = 0, en_instance = 0, en_major_version = 0, en_ttl = 0,
      en_options1 = [], en_options2 = [], en_num_options1 = 0, en_num_options2 = 0,
      en_index1 = 0, en_index2 = 0, se_minor_version = 0\<rparr>"

definition eventgroupentry_init :: eventgroupentry where
  "eventgroupentry_init =
     \<lparr>en_type = ENTRY_UNKNOWN, en_service = 0, en_instance = 0, en_major_version = 0, en_ttl = 0,
      en_options1 = [], en_options2 = [], en_num_options1 = 0, en_num_options2 = 0,
      en_index1 = 0, en_index2 = 0, eg_eventgroup = 0xFFFF, eg_reserved = 0, eg_counter = 0,
      eg_target_reliable = None, eg_target_unreliable = None\<rparr>"

section \<open>Operations of \<^verbatim>\<open>entry_impl\<close>\<close>

definition entry_set_type :: "byte \<Rightarrow> 'a entry_scheme \<Rightarrow> 'a entry_scheme" where
  "entry_set_type v e = e\<lparr>en_type := v\<rparr>"
definition entry_set_service :: "u16 \<Rightarrow> 'a entry_scheme \<Rightarrow> 'a entry_scheme" where
  "entry_set_service v e = e\<lparr>en_service := v\<rparr>"
definition entry_set_instance :: "u16 \<Rightarrow> 'a entry_scheme \<Rightarrow> 'a entry_scheme" where
  "entry_set_instance v e = e\<lparr>en_instance := v\<rparr>"
definition entry_set_major_version :: "byte \<Rightarrow> 'a entry_scheme \<Rightarrow> 'a entry_scheme" where
  "entry_set_major_version v e = e\<lparr>en_major_version := v\<rparr>"
definition entry_set_ttl :: "u32 \<Rightarrow> 'a entry_scheme \<Rightarrow> 'a entry_scheme" where
  "entry_set_ttl v e = e\<lparr>en_ttl := v\<rparr>"

definition entry_get_options :: "byte \<Rightarrow> 'a entry_scheme \<Rightarrow> byte list" where
  "entry_get_options run e =
     (if 0 < run \<and> run \<le> 2 then (if run = 1 then en_options1 e else en_options2 e) else [])"

definition get_num_options :: "byte \<Rightarrow> 'a entry_scheme \<Rightarrow> byte" where
  "get_num_options run e =
     (if run < 1 \<or> 2 < run then 0
      else if run = 1 then en_num_options1 e else en_num_options2 e)"

text \<open>
  An index extends a run that is empty, starts right after it, or ends right before it.
  The comparisons are on \<^verbatim>\<open>int\<close>, so they do not wrap.
\<close>

definition extends_run :: "byte list \<Rightarrow> byte \<Rightarrow> bool" where
  "extends_run opts idx \<longleftrightarrow>
     opts = [] \<or> unat (hd opts) = unat idx + 1 \<or> unat (last opts) + 1 = unat idx"

definition assign_option_index :: "byte \<Rightarrow> 'a entry_scheme \<Rightarrow> 'a entry_scheme" where
  "assign_option_index idx e =
     (if extends_run (en_options1 e) idx
      then e\<lparr>en_options1 := sort (en_options1 e @ [idx]), en_num_options1 := en_num_options1 e + 1\<rparr>
      else if extends_run (en_options2 e) idx
      then e\<lparr>en_options2 := sort (en_options2 e @ [idx]), en_num_options2 := en_num_options2 e + 1\<rparr>
      else e)"

definition first_index :: "byte list \<Rightarrow> byte" where
  "first_index opts = (case opts of [] \<Rightarrow> 0 | i # _ \<Rightarrow> i)"

definition number_of_options :: "'a entry_scheme \<Rightarrow> byte" where
  "number_of_options e =
     push_bit 4 (of_nat (length (en_options1 e))) OR (of_nat (length (en_options2 e)) AND 0x0F)"

definition entry_serialize :: "'a entry_scheme \<Rightarrow> sink" where
  "entry_serialize e =
     ser_then (serialize_u8 (en_type e))
    (ser_then (serialize_u8 (first_index (en_options1 e)))
    (ser_then (serialize_u8 (first_index (en_options2 e)))
    (ser_then (serialize_u8 (number_of_options e))
    (ser_then (serialize_u16 (en_service e))
              (serialize_u16 (en_instance e))))))"

text \<open>The loop \<^verbatim>\<open>for (i = index; i < index + num; ++i) push_back((uint8_t)i)\<close>.\<close>

definition option_run :: "byte \<Rightarrow> byte \<Rightarrow> byte list" where
  "option_run index num = map of_nat [unat index ..< unat index + unat num]"

definition entry_deserialize :: "'a entry_scheme \<Rightarrow> 'a entry_scheme reader" where
  "entry_deserialize e =
     rbind deserialize_u8 (\<lambda>its_type.
     rbind deserialize_u8 (\<lambda>index1.
     rbind deserialize_u8 (\<lambda>index2.
     rbind deserialize_u8 (\<lambda>its_numbers.
     (let num1 = drop_bit 4 its_numbers; num2 = its_numbers AND 0xF
      in rbind deserialize_u16 (\<lambda>service.
         rbind deserialize_u16 (\<lambda>instance.
           rreturn (e\<lparr>en_type := its_type, en_index1 := index1, en_index2 := index2,
                      en_num_options1 := num1, en_num_options2 := num2,
                      en_options1 := en_options1 e @ option_run index1 num1,
                      en_options2 := en_options2 e @ option_run index2 num2,
                      en_service := service, en_instance := instance\<rparr>))))))))"

definition is_service_entry :: "'a entry_scheme \<Rightarrow> bool" where
  "is_service_entry e \<longleftrightarrow> en_type e \<le> REQUEST_SERVICE"

definition is_eventgroup_entry :: "'a entry_scheme \<Rightarrow> bool" where
  "is_eventgroup_entry e \<longleftrightarrow>
     FIND_EVENT_GROUP \<le> en_type e \<and> en_type e \<le> SUBSCRIBE_EVENTGROUP_ACK"

section \<open>Operations of \<^verbatim>\<open>serviceentry_impl\<close>\<close>

definition set_minor_version :: "u32 \<Rightarrow> serviceentry \<Rightarrow> serviceentry" where
  "set_minor_version v e = e\<lparr>se_minor_version := v\<rparr>"

definition serviceentry_serialize :: "serviceentry \<Rightarrow> sink" where
  "serviceentry_serialize e =
     ser_then (entry_serialize e)
    (ser_then (serialize_u8 (en_major_version e))
    (ser_then (serialize_u32 (en_ttl e) True)
              (serialize_u32 (se_minor_version e) False)))"

definition serviceentry_deserialize :: "serviceentry \<Rightarrow> serviceentry reader" where
  "serviceentry_deserialize e =
     rbind (entry_deserialize e) (\<lambda>e.
     rbind deserialize_u8 (\<lambda>major.
     rbind (deserialize_u32 True) (\<lambda>ttl.
     rbind (deserialize_u32 False) (\<lambda>minor.
       rreturn (e\<lparr>en_major_version := major, en_ttl := ttl, se_minor_version := minor\<rparr>)))))"

section \<open>Operations of \<^verbatim>\<open>eventgroupentry_impl\<close>\<close>

definition set_eventgroup :: "u16 \<Rightarrow> eventgroupentry \<Rightarrow> eventgroupentry" where
  "set_eventgroup v e = e\<lparr>eg_eventgroup := v\<rparr>"
definition set_reserved :: "u16 \<Rightarrow> eventgroupentry \<Rightarrow> eventgroupentry" where
  "set_reserved v e = e\<lparr>eg_reserved := v\<rparr>"
definition set_counter :: "byte \<Rightarrow> eventgroupentry \<Rightarrow> eventgroupentry" where
  "set_counter v e = e\<lparr>eg_counter := v\<rparr>"

definition counter_and_reserved :: "eventgroupentry \<Rightarrow> u16" where
  "counter_and_reserved e =
     (if eg_reserved e = 0 then ucast (eg_counter e)
      else push_bit 4 (eg_reserved e) OR ucast (eg_counter e))"

definition eventgroupentry_serialize :: "eventgroupentry \<Rightarrow> sink" where
  "eventgroupentry_serialize e =
     ser_then (entry_serialize e)
    (ser_then (serialize_u8 (en_major_version e))
    (ser_then (serialize_u32 (en_ttl e) True)
    (ser_then (\<lambda>s. (\<not> 16 \<le> eg_counter e, s))
    (ser_then (serialize_u8 (ucast (drop_bit 8 (counter_and_reserved e))))
    (ser_then (serialize_u8 (ucast (counter_and_reserved e)))
              (serialize_u16 (eg_eventgroup e)))))))"

definition eventgroupentry_deserialize :: "eventgroupentry \<Rightarrow> eventgroupentry reader" where
  "eventgroupentry_deserialize e =
     rbind (entry_deserialize e) (\<lambda>e.
     rbind deserialize_u8 (\<lambda>major.
     rbind (deserialize_u32 True) (\<lambda>ttl.
     rbind deserialize_u8 (\<lambda>reserved1.
     rbind deserialize_u8 (\<lambda>reserved2.
     (let reserved = drop_bit 4 (push_bit 8 (ucast reserved1) OR ucast reserved2);
          counter = reserved2 AND NOT 0xF0
      in if 16 \<le> counter then rfail
         else rbind deserialize_u16 (\<lambda>eventgroup.
           rreturn (e\<lparr>en_major_version := major, en_ttl := ttl, eg_reserved := reserved,
                      eg_counter := counter, eg_eventgroup := eventgroup\<rparr>))))))))"

definition eventgroupentry_eq :: "eventgroupentry \<Rightarrow> eventgroupentry \<Rightarrow> bool" where
  "eventgroupentry_eq a b \<longleftrightarrow>
     en_ttl a = en_ttl b \<and> en_service a = en_service b \<and> en_instance a = en_instance b
     \<and> eg_eventgroup a = eg_eventgroup b \<and> en_index1 a = en_index1 b \<and> en_index2 a = en_index2 b
     \<and> en_num_options1 a = en_num_options1 b \<and> en_num_options2 a = en_num_options2 b
     \<and> en_major_version a = en_major_version b \<and> eg_counter a = eg_counter b"

definition add_target :: "endpoint_definition \<Rightarrow> eventgroupentry \<Rightarrow> eventgroupentry" where
  "add_target t e =
     (if ep_is_reliable t then e\<lparr>eg_target_reliable := Some t\<rparr>
      else e\<lparr>eg_target_unreliable := Some t\<rparr>)"

definition get_target :: "bool \<Rightarrow> eventgroupentry \<Rightarrow> endpoint_definition option" where
  "get_target reliable e = (if reliable then eg_target_reliable e else eg_target_unreliable e)"

section \<open>Runs of option indices\<close>

definition is_run :: "byte list \<Rightarrow> bool" where
  "is_run opts \<longleftrightarrow> (\<exists>i n. i + n \<le> 256 \<and> opts = map of_nat [i ..< i + n])"

definition runs_ok :: "'a entry_scheme \<Rightarrow> bool" where
  "runs_ok e \<longleftrightarrow> is_run (en_options1 e) \<and> is_run (en_options2 e)
     \<and> unat (en_num_options1 e) = length (en_options1 e) mod 256
     \<and> unat (en_num_options2 e) = length (en_options2 e) mod 256"

lemma is_run_Nil [simp]: "is_run []"
  unfolding is_run_def by (intro exI [of _ 0]) simp

lemma is_run_single: "is_run [idx]"
proof -
  have "unat idx + 1 \<le> 256"
    using unsigned_less [of idx, where ?'a = nat] by simp
  then show ?thesis
    unfolding is_run_def by (intro exI [of _ "unat idx"] exI [of _ 1]) simp
qed

lemma sorted_run: "i + n \<le> 256 \<Longrightarrow> sorted (map (of_nat :: nat \<Rightarrow> byte) [i ..< i + n])"
  unfolding sorted_map
  by (rule sorted_wrt_mono_rel [OF _ sorted_wrt_upt])
    (auto simp: word_le_nat_alt unat_of_nat take_bit_nat_eq_self)

lemma hd_run: "0 < n \<Longrightarrow> hd (map f [i ..< i + n]) = f i"
  by (simp add: upt_conv_Cons)

lemma last_run: "0 < n \<Longrightarrow> last (map f [i ..< i + n]) = f (i + n - 1)"
  by (simp add: last_map)

lemma run_sort_id:
  "i + n \<le> 256 \<Longrightarrow> sort (map (of_nat :: nat \<Rightarrow> byte) [i ..< i + n]) = map of_nat [i ..< i + n]"
  by (rule sorted_sort_id [OF sorted_run])

lemma is_runI: "i + n \<le> 256 \<Longrightarrow> opts = map of_nat [i ..< i + n] \<Longrightarrow> is_run opts"
  unfolding is_run_def by blast

lemma run_extend_front:
  assumes "Suc j + n \<le> 256"
  shows "sort (map of_nat [Suc j ..< Suc j + n] @ [of_nat j :: byte]) = map of_nat [j ..< j + Suc n]"
proof -
  have new: "of_nat j # map of_nat [Suc j ..< Suc j + n] = map (of_nat :: nat \<Rightarrow> byte) [j ..< j + Suc n]"
    by (simp add: upt_conv_Cons del: upt_Suc)
  show ?thesis
  proof (rule properties_for_sort)
    show "mset (map of_nat [j ..< j + Suc n]) = mset (map of_nat [Suc j ..< Suc j + n] @ [of_nat j :: byte])"
      by (simp only: new [symmetric] mset.simps mset_append) simp
    show "sorted (map (of_nat :: nat \<Rightarrow> byte) [j ..< j + Suc n])"
      using assms by (intro sorted_run) simp
  qed
qed

lemma run_extend_back:
  assumes "i + Suc n \<le> 256"
  shows "sort (map of_nat [i ..< i + n] @ [of_nat (i + n) :: byte]) = map of_nat [i ..< i + Suc n]"
  using run_sort_id [OF assms] by simp

lemma unat_of_small: "n < 256 \<Longrightarrow> unat (of_nat n :: byte) = n"
  by (simp add: unat_of_nat take_bit_nat_eq_self)

lemma is_run_extend:
  assumes run: "is_run opts" and ext: "extends_run opts idx"
  shows "is_run (sort (opts @ [idx]))"
proof -
  from run obtain i n where i: "i + n \<le> 256" and opts: "opts = map of_nat [i ..< i + n]"
    unfolding is_run_def by blast
  have idx: "of_nat (unat idx) = idx" "unat idx < 256"
    using unsigned_less [of idx, where ?'a = nat] by simp_all
  consider "n = 0" | "0 < n" "i = Suc (unat idx)" | "0 < n" "i + n = unat idx"
  proof (cases "n = 0")
    case False
    then have ends: "hd opts = of_nat i" "last opts = of_nat (i + n - 1)" "opts \<noteq> []"
      unfolding opts by (simp_all add: hd_run last_run del: of_nat_diff of_nat_add)
    then have "unat (hd opts) = i" "unat (last opts) = i + n - 1"
      unfolding ends using i False by (intro unat_of_small; simp)+
    with ext ends(3) False that show thesis
      by (auto simp: extends_run_def)
  qed (use that in blast)
  then show ?thesis
  proof cases
    case 1
    then show ?thesis by (simp add: opts is_run_single)
  next
    case 2
    then show ?thesis
      unfolding opts using run_extend_front [of "unat idx" n] i
      by (intro is_runI [of "unat idx" "Suc n"]) simp_all
  next
    case 3
    then show ?thesis
      unfolding opts using run_extend_back [of i n] idx
      by (intro is_runI [of i "Suc n"]) simp_all
  qed
qed

lemma is_run_no_wrap:
  assumes "is_run opts" shows "length opts \<le> 256"
  using assms unfolding is_run_def by auto

lemma runs_ok_assign:
  assumes "runs_ok e"
  shows "runs_ok (assign_option_index idx e)"
proof -
  have count: "unat (n + 1) = Suc l mod 256" if "unat n = l mod 256" for n :: byte and l
    using that by (simp add: unat_word_ariths mod_Suc_eq)
  show ?thesis
    using assms unfolding runs_ok_def assign_option_index_def
    by (auto simp: is_run_extend count)
qed

section \<open>Wire format\<close>

definition entry_bytes :: "'a entry_scheme \<Rightarrow> byte list" where
  "entry_bytes e =
     [en_type e] @ [first_index (en_options1 e)] @ [first_index (en_options2 e)]
     @ [number_of_options e] @ bytes16 (en_service e) @ bytes16 (en_instance e)"

definition serviceentry_bytes :: "serviceentry \<Rightarrow> byte list" where
  "serviceentry_bytes e =
     entry_bytes e @ [en_major_version e] @ bytes24 (en_ttl e) @ bytes32 (se_minor_version e)"

definition eventgroupentry_bytes :: "eventgroupentry \<Rightarrow> byte list" where
  "eventgroupentry_bytes e =
     entry_bytes e @ [en_major_version e] @ bytes24 (en_ttl e)
     @ [ucast (drop_bit 8 (counter_and_reserved e))] @ [ucast (counter_and_reserved e)]
     @ bytes16 (eg_eventgroup e)"

lemma length_entry_bytes [simp]:
  "length (entry_bytes e) = 8"
  "length (serviceentry_bytes s) = 16"
  "length (eventgroupentry_bytes g) = 16"
  by (simp_all add: entry_bytes_def serviceentry_bytes_def eventgroupentry_bytes_def)

lemma writes_entry [wire]: "writes (entry_serialize e) (entry_bytes e)"
  unfolding entry_serialize_def entry_bytes_def by (intro wire)

lemma writes_serviceentry [wire]: "writes (serviceentry_serialize e) (serviceentry_bytes e)"
  unfolding serviceentry_serialize_def serviceentry_bytes_def by (intro wire)

lemma writes_eventgroupentry [wire]:
  assumes "eg_counter e < 16"
  shows "writes (eventgroupentry_serialize e) (eventgroupentry_bytes e)"
proof -
  have chk: "ser_then (\<lambda>s. (\<not> 16 \<le> eg_counter e, s)) f = f" for f
    using assms by (simp add: ser_then_def fun_eq_iff not_le)
  show ?thesis
    unfolding eventgroupentry_serialize_def eventgroupentry_bytes_def chk by (intro wire)
qed

text \<open>The two four-bit counts share one byte.\<close>

lemma nibbles:
  assumes "take_bit 4 a = (a :: byte)" and "take_bit 4 b = (b :: byte)"
  shows "drop_bit 4 (push_bit 4 a OR (b AND 0x0F)) = a"
    and "(push_bit 4 a OR (b AND 0x0F)) AND 0xF = b"
proof -
  have a: "bit a n \<Longrightarrow> n < 4" and b: "bit b n \<Longrightarrow> n < 4" for n
    using assms by (metis bit_take_bit_iff)+
  show "drop_bit 4 (push_bit 4 a OR (b AND 0x0F)) = a"
    by (rule bit_word_eqI) (auto simp: bit_simps bits_of dest: a)
  show "(push_bit 4 a OR (b AND 0x0F)) AND 0xF = b"
    by (rule bit_word_eqI) (auto simp: bit_simps bits_of dest: b)
qed

lemma take_bit_4_of_nat: "n < 16 \<Longrightarrow> take_bit 4 (of_nat n :: byte) = of_nat n"
  by (simp add: take_bit_of_nat take_bit_nat_eq_self)

definition entry_ok :: "'a entry_scheme \<Rightarrow> bool" where
  "entry_ok e \<longleftrightarrow> is_run (en_options1 e) \<and> length (en_options1 e) < 16
     \<and> is_run (en_options2 e) \<and> length (en_options2 e) < 16"

lemma number_of_options_split:
  assumes "entry_ok e"
  shows "drop_bit 4 (number_of_options e) = of_nat (length (en_options1 e))"
    and "number_of_options e AND 0xF = of_nat (length (en_options2 e))"
  using assms unfolding entry_ok_def number_of_options_def
  by (simp_all only: nibbles take_bit_4_of_nat)

lemma option_run_first:
  assumes "is_run opts" and "length opts < 16"
  shows "option_run (first_index opts) (of_nat (length opts)) = opts"
proof -
  from assms(1) obtain i n where i: "i + n \<le> 256" and opts: "opts = map of_nat [i ..< i + n]"
    unfolding is_run_def by blast
  have n: "unat (of_nat (length opts) :: byte) = n" "length opts = n"
    using assms(2) opts by (simp_all add: unat_of_nat take_bit_nat_eq_self)
  show ?thesis
  proof (cases "n = 0")
    case True
    then show ?thesis using opts by (simp add: option_run_def)
  next
    case False
    then have "first_index opts = of_nat i"
      using opts by (simp add: first_index_def upt_conv_Cons)
    moreover have "unat (of_nat i :: byte) = i"
      using i False by (simp add: unat_of_nat take_bit_nat_eq_self)
    ultimately show ?thesis
      unfolding option_run_def by (simp only: n(1)) (simp add: opts)
  qed
qed

text \<open>What the receiver's entry records: the indices and counts become explicit fields.\<close>

definition normal_entry :: "'a entry_scheme \<Rightarrow> 'a entry_scheme" where
  "normal_entry e = e
     \<lparr>en_index1 := first_index (en_options1 e), en_index2 := first_index (en_options2 e),
      en_num_options1 := of_nat (length (en_options1 e)),
      en_num_options2 := of_nat (length (en_options2 e))\<rparr>"

lemma reads_entry [reads]:
  assumes "entry_ok e" and "en_options1 e0 = []" and "en_options2 e0 = []"
  shows "reads_as (entry_deserialize e0) (entry_bytes e)
    (e0\<lparr>en_type := en_type e,
        en_index1 := first_index (en_options1 e), en_index2 := first_index (en_options2 e),
        en_num_options1 := of_nat (length (en_options1 e)),
        en_num_options2 := of_nat (length (en_options2 e)),
        en_options1 := en_options1 e, en_options2 := en_options2 e,
        en_service := en_service e, en_instance := en_instance e\<rparr>)"
proof -
  have runs: "option_run (first_index (en_options1 e)) (of_nat (length (en_options1 e))) = en_options1 e"
    "option_run (first_index (en_options2 e)) (of_nat (length (en_options2 e))) = en_options2 e"
    using assms(1) by (simp_all add: entry_ok_def option_run_first)
  show ?thesis
    unfolding entry_deserialize_def entry_bytes_def Let_def
    by (rule reads_eq, (rule reads_bind reads_u8 reads_u16 reads_return)+)
      (simp, unfold number_of_options_split [OF assms(1)],
       simp only: runs assms(2,3) append.simps append_Nil2)
qed

lemma reads_serviceentry [reads]:
  assumes "entry_ok e" and "take_bit 24 (en_ttl e) = en_ttl e"
  shows "reads_as (serviceentry_deserialize serviceentry_init) (serviceentry_bytes e) (normal_entry e)"
  unfolding serviceentry_deserialize_def serviceentry_bytes_def
  by (rule reads_eq, rule reads_bind, rule reads_entry [OF assms(1)], simp add: serviceentry_init_def,
      simp add: serviceentry_init_def,
      (rule reads_bind reads_u8 reads_u24 reads_u32 reads_return)+)
    (simp, cases e, use assms(2) in \<open>simp add: normal_entry_def serviceentry_init_def\<close>)

lemma counter_reserved_split:
  assumes "c < (16 :: byte)" and "r < (4096 :: u16)"
  shows "drop_bit 4 (push_bit 8 (ucast (ucast (drop_bit 8 (push_bit 4 r OR ucast c)) :: byte))
           OR ucast (ucast (push_bit 4 r OR ucast c :: u16) :: byte)) = r"
    and "ucast (push_bit 4 r OR ucast c :: u16) AND NOT (0xF0 :: byte) = c"
proof -
  have "take_bit 4 c = c" and "take_bit 12 r = r"
    using assms
    by (simp_all add: take_bit_eq_mod word_less_nat_alt word_unat_eq_iff unat_mod)
  then have c: "bit c n \<Longrightarrow> n < 4" and r: "bit r n \<Longrightarrow> n < 12" for n
    by (metis bit_take_bit_iff)+
  have "(0xF0 :: int) = push_bit 4 0x0F"
    by simp
  then have F0: "bit (0xF0 :: int) n \<longleftrightarrow> 4 \<le> n \<and> n < 8" for n
    by (simp only: bit_push_bit_iff) (auto simp: bits_of)
  show "drop_bit 4 (push_bit 8 (ucast (ucast (drop_bit 8 (push_bit 4 r OR ucast c)) :: byte))
           OR ucast (ucast (push_bit 4 r OR ucast c :: u16) :: byte)) = r"
    by (rule bit_word_eqI) (auto simp: bit_simps dest: c r)
  show "ucast (push_bit 4 r OR ucast c :: u16) AND NOT (0xF0 :: byte) = c"
    by (rule bit_word_eqI) (auto simp: bit_simps F0 dest: c r)
qed


lemma counter_and_reserved_eq:
  "counter_and_reserved e = push_bit 4 (eg_reserved e) OR ucast (eg_counter e)"
  by (simp add: counter_and_reserved_def)

definition eventgroup_ok :: "eventgroupentry \<Rightarrow> bool" where
  "eventgroup_ok e \<longleftrightarrow> entry_ok e \<and> take_bit 24 (en_ttl e) = en_ttl e
     \<and> eg_counter e < 16 \<and> eg_reserved e < 4096"

lemma reads_eventgroupentry [reads]:
  assumes "eventgroup_ok e"
  shows "reads_as (eventgroupentry_deserialize eventgroupentry_init) (eventgroupentry_bytes e)
    ((normal_entry e)\<lparr>eg_target_reliable := None, eg_target_unreliable := None\<rparr>)"
proof -
  let ?w = "counter_and_reserved e"
  let ?r1 = "ucast (drop_bit 8 ?w) :: byte" and ?r2 = "ucast ?w :: byte"
  from assms have ok: "entry_ok e" "take_bit 24 (en_ttl e) = en_ttl e"
    and c: "eg_counter e < 16" and r: "eg_reserved e < 4096"
    by (simp_all add: eventgroup_ok_def)
  have split: "drop_bit 4 (push_bit 8 (ucast ?r1) OR ucast ?r2) = eg_reserved e"
    "?r2 AND NOT 0xF0 = eg_counter e"
    unfolding counter_and_reserved_eq using counter_reserved_split [OF c r] by simp_all
  have tail: "reads_as
      (let reserved = drop_bit 4 (push_bit 8 (ucast ?r1) OR ucast ?r2);
           counter = ?r2 AND NOT 0xF0
       in if 16 \<le> counter then rfail
          else rbind deserialize_u16 (\<lambda>eventgroup.
            rreturn (e1\<lparr>en_major_version := m, en_ttl := t, eg_reserved := reserved,
                        eg_counter := counter, eg_eventgroup := eventgroup\<rparr>)))
      (bytes16 (eg_eventgroup e) @ [])
      (e1\<lparr>en_major_version := m, en_ttl := t, eg_reserved := eg_reserved e,
          eg_counter := eg_counter e, eg_eventgroup := eg_eventgroup e\<rparr>)"
    for e1 :: eventgroupentry and m :: byte and t :: u32
    unfolding Let_def split using c
    by (simp only: not_le [symmetric] if_False) (rule reads_bind [OF reads_u16 reads_return])
  show ?thesis
    unfolding eventgroupentry_deserialize_def eventgroupentry_bytes_def
    by (rule reads_eq, rule reads_bind, rule reads_entry [OF ok(1)],
        simp add: eventgroupentry_init_def, simp add: eventgroupentry_init_def,
        rule reads_bind, rule reads_u8, rule reads_bind, rule reads_u24,
        rule reads_bind, rule reads_u8, rule reads_bind, rule reads_u8, rule tail)
      (simp, cases e, use ok(2) in \<open>simp add: normal_entry_def eventgroupentry_init_def\<close>)
qed

section \<open>Entries as codecs\<close>

lemma safe_entry [safe]: "safe_reader (entry_deserialize e)"
  unfolding entry_deserialize_def Let_def by (intro safe)

lemma safe_serviceentry [safe]: "safe_reader (serviceentry_deserialize e)"
  unfolding serviceentry_deserialize_def by (intro safe)

lemma safe_if [safe]: "safe_reader r \<Longrightarrow> safe_reader r' \<Longrightarrow> safe_reader (if b then r else r')"
  by simp

lemma safe_eventgroupentry [safe]: "safe_reader (eventgroupentry_deserialize e)"
  unfolding eventgroupentry_deserialize_def Let_def by (intro safe)

interpretation serviceentry_codec: fixed_codec serviceentry_bytes
  "serviceentry_deserialize serviceentry_init"
  "\<lambda>e. entry_ok e \<and> take_bit 24 (en_ttl e) = en_ttl e \<and> normal_entry e = e" 16
proof unfold_locales
  fix e :: serviceentry
  assume "entry_ok e \<and> take_bit 24 (en_ttl e) = en_ttl e \<and> normal_entry e = e"
  then show "reads_as (serviceentry_deserialize serviceentry_init) (serviceentry_bytes e) e"
    using reads_serviceentry [of e] by simp
qed (simp_all add: safe_serviceentry)

interpretation eventgroupentry_codec: fixed_codec eventgroupentry_bytes
  "eventgroupentry_deserialize eventgroupentry_init"
  "\<lambda>e. eventgroup_ok e \<and> normal_entry e = e
       \<and> eg_target_reliable e = None \<and> eg_target_unreliable e = None" 16
proof unfold_locales
  fix e
  assume "eventgroup_ok e \<and> normal_entry e = e
       \<and> eg_target_reliable e = None \<and> eg_target_unreliable e = None"
  then have ok: "eventgroup_ok e"
    and same: "(normal_entry e)\<lparr>eg_target_reliable := None, eg_target_unreliable := None\<rparr> = e"
    by (simp, cases e, simp)
  from reads_eventgroupentry [OF ok]
  show "reads_as (eventgroupentry_deserialize eventgroupentry_init) (eventgroupentry_bytes e) e"
    unfolding same .
qed (simp_all add: safe_eventgroupentry)

section \<open>Properties\<close>

text \<open>
  Whatever options are assigned to a fresh entry, in whatever order, its two index
  lists stay contiguous ascending runs without duplicates, which is all the wire format can
  express, and the counters count them modulo 256.
\<close>

theorem assigned_options_are_runs:
  "runs_ok (fold assign_option_index idxs eventgroupentry_init)"
proof -
  have "runs_ok (fold assign_option_index idxs e)" if "runs_ok e" for e :: eventgroupentry
    using that by (induction idxs arbitrary: e) (simp_all add: runs_ok_assign)
  then show ?thesis
    by (simp add: runs_ok_def eventgroupentry_init_def)
qed

text \<open>
  Service entries survive the wire: an entry whose two option runs have fewer than
  sixteen elements and whose TTL fits 24 bits is written in sixteen bytes and read back
  with all its fields, its run start indices and counts made explicit.
\<close>

theorem serviceentry_roundtrip:
  assumes "entry_ok e" and "take_bit 24 (en_ttl e) = en_ttl e"
  shows "serviceentry_serialize e s = (True, s\<lparr>ser_data := ser_data s @ serviceentry_bytes e\<rparr>)
    \<and> length (serviceentry_bytes e) = 16
    \<and> reads_as (serviceentry_deserialize serviceentry_init) (serviceentry_bytes e) (normal_entry e)"
  using writesD [OF writes_serviceentry] reads_serviceentry [OF assms] by simp

definition sample_offer :: serviceentry where
  "sample_offer = serviceentry_init\<lparr>en_type := OFFER_SERVICE, en_service := 0x1234,
     en_instance := 0x5678, en_major_version := 1, en_ttl := 3, en_options1 := [0, 1],
     en_num_options1 := 2, se_minor_version := 42\<rparr>"

lemma is_run_01: "is_run [0, 1]"
  by (rule is_runI [of 0 2]) (simp_all add: upt_rec)

theorem serviceentry_roundtrip_witness:
  "reads_as (serviceentry_deserialize serviceentry_init) (serviceentry_bytes sample_offer)
     (normal_entry sample_offer) \<and> se_minor_version (normal_entry sample_offer) = 42"
proof -
  have "entry_ok sample_offer"
    by (simp add: entry_ok_def sample_offer_def serviceentry_init_def is_run_01)
  moreover have "take_bit 24 (en_ttl sample_offer) = en_ttl sample_offer"
    by (simp add: sample_offer_def)
  ultimately show ?thesis
    using serviceentry_roundtrip [of sample_offer "ser_init 0"]
    by (simp add: normal_entry_def sample_offer_def)
qed

text \<open>
  Eventgroup entries survive the wire when the counter fits four bits and the
  reserved field twelve; a counter of sixteen or more makes \<open>serialize\<close> report failure after
  twelve bytes have been written.
\<close>

theorem eventgroupentry_roundtrip:
  assumes "eventgroup_ok e"
  shows "eventgroupentry_serialize e s = (True, s\<lparr>ser_data := ser_data s @ eventgroupentry_bytes e\<rparr>)
    \<and> reads_as (eventgroupentry_deserialize eventgroupentry_init) (eventgroupentry_bytes e)
        ((normal_entry e)\<lparr>eg_target_reliable := None, eg_target_unreliable := None\<rparr>)
    \<and> (\<forall>c\<ge>16. eventgroupentry_serialize (set_counter c e) s
        = (False, s\<lparr>ser_data := ser_data s @ take 12 (eventgroupentry_bytes e)\<rparr>))"
proof -
  have "eventgroupentry_serialize (set_counter c e) s
      = (False, s\<lparr>ser_data := ser_data s @ take 12 (eventgroupentry_bytes e)\<rparr>)" if "16 \<le> c" for c
  proof -
    have bytes: "entry_bytes (set_counter c e) = entry_bytes e"
      "take 12 (eventgroupentry_bytes e)
        = entry_bytes e @ [en_major_version e] @ bytes24 (en_ttl e)"
      by (simp_all add: entry_bytes_def number_of_options_def set_counter_def eventgroupentry_bytes_def)
    show ?thesis
      unfolding eventgroupentry_serialize_def ser_then_def bytes(2)
      using that writesD [OF writes_entry, of "set_counter c e"] writesD [OF writes_u8] writesD [OF writes_u24]
      by (simp add: bytes(1)) (simp add: set_counter_def)
  qed
  then show ?thesis
    using assms writesD [OF writes_eventgroupentry] reads_eventgroupentry
    by (simp add: eventgroup_ok_def)
qed

definition sample_subscribe :: eventgroupentry where
  "sample_subscribe = eventgroupentry_init\<lparr>en_type := SUBSCRIBE_EVENTGROUP, en_service := 0x1234,
     en_instance := 1, en_ttl := 3, en_options1 := [0, 1], en_num_options1 := 2,
     eg_eventgroup := 0x4465, eg_counter := 7\<rparr>"

lemma eventgroup_ok_sample: "eventgroup_ok sample_subscribe"
  by (simp add: eventgroup_ok_def entry_ok_def sample_subscribe_def eventgroupentry_init_def is_run_01)

theorem eventgroupentry_roundtrip_witness:
  "fst (eventgroupentry_serialize sample_subscribe (ser_init 0)) = True
   \<and> fst (eventgroupentry_serialize (set_counter 16 sample_subscribe) (ser_init 0)) = False"
  using eventgroupentry_roundtrip [OF eventgroup_ok_sample, of "ser_init 0"] by simp

text \<open>
  \<open>assign_option\<close> has no bound of fifteen: sixteen consecutive options fill the first
  run, and the four-bit count the entry is serialised with is then zero, so the receiver sees
  an entry without options.
\<close>

theorem sixteen_options_serialise_as_none:
  "let e = fold assign_option_index [0, 1, 2, 3, 4, 5, 6, 7, 8, 9, 10, 11, 12, 13, 14, 15]
             eventgroupentry_init
   in length (en_options1 e) = 16 \<and> en_options2 e = [] \<and> number_of_options e = 0"
  by (simp add: eventgroupentry_init_def assign_option_index_def extends_run_def number_of_options_def)

end
