(* ===== verification/Sd_Option.thy ===== *)
theory Sd_Option
  imports Codec "HOL-Library.List_Lexorder"
begin

text \<open>
  Options of service-discovery messages: \<^verbatim>\<open>option_impl.cpp\<close>, \<^verbatim>\<open>ip_option_impl.cpp\<close>,
  \<^verbatim>\<open>ipv4_option_impl.cpp\<close>, \<^verbatim>\<open>ipv6_option_impl.cpp\<close>, \<^verbatim>\<open>load_balancing_option_impl.cpp\<close>,
  \<^verbatim>\<open>protection_option_impl.cpp\<close> and \<^verbatim>\<open>configuration_option_impl.cpp\<close> under
  \<^verbatim>\<open>service_discovery/src\<close>.  The classes are extensions of the record of \<^verbatim>\<open>option_impl\<close>;
  the IPv4 and IPv6 classes differ in the width of the address only.
\<close>

section \<open>Option types and protocols\<close>

definition CONFIGURATION :: byte where [simp]: "CONFIGURATION = 0x1"
definition LOAD_BALANCING :: byte where [simp]: "LOAD_BALANCING = 0x2"
definition PROTECTION :: byte where [simp]: "PROTECTION = 0x3"
definition IP4_ENDPOINT :: byte where [simp]: "IP4_ENDPOINT = 0x4"
definition IP6_ENDPOINT :: byte where [simp]: "IP6_ENDPOINT = 0x6"
definition IP4_MULTICAST :: byte where [simp]: "IP4_MULTICAST = 0x14"
definition IP6_MULTICAST :: byte where [simp]: "IP6_MULTICAST = 0x16"
definition OPTION_UNKNOWN :: byte where [simp]: "OPTION_UNKNOWN = 0xFF"

definition L4_TCP :: byte where [simp]: "L4_TCP = 0x06"
definition L4_UDP :: byte where [simp]: "L4_UDP = 0x11"
definition L4_UNKNOWN :: byte where [simp]: "L4_UNKNOWN = 0xFF"

section \<open>\<^verbatim>\<open>option_impl\<close>\<close>

record option_base =
  opt_length :: u16
  opt_type :: byte

definition option_init :: option_base where
  "option_init = \<lparr>opt_length = 0, opt_type = OPTION_UNKNOWN\<rparr>"

definition option_eq :: "'a option_base_scheme \<Rightarrow> 'a option_base_scheme \<Rightarrow> bool" where
  "option_eq a b \<longleftrightarrow> opt_type a = opt_type b \<and> opt_length a = opt_length b"

definition option_serialize :: "'a option_base_scheme \<Rightarrow> sink" where
  "option_serialize o1 =
     ser_then (serialize_u16 (opt_length o1))
    (ser_then (serialize_u8 (opt_type o1))
              (serialize_u8 0))"

definition known_option_type :: "byte \<Rightarrow> bool" where
  "known_option_type t \<longleftrightarrow>
     t = CONFIGURATION \<or> t = LOAD_BALANCING \<or> t = PROTECTION \<or> t = IP4_ENDPOINT
     \<or> t = IP6_ENDPOINT \<or> t = IP4_MULTICAST \<or> t = IP6_MULTICAST"

definition option_deserialize :: "'a option_base_scheme \<Rightarrow> 'a option_base_scheme reader" where
  "option_deserialize o1 =
     rbind deserialize_u16 (\<lambda>len.
     rbind deserialize_u8 (\<lambda>its_type.
     rbind deserialize_u8 (\<lambda>reserved.
       if known_option_type its_type
       then rreturn (o1\<lparr>opt_length := len, opt_type := its_type\<rparr>)
       else (\<lambda>d. Some (Some (o1\<lparr>opt_length := len, opt_type := OPTION_UNKNOWN\<rparr>),
                       set_remaining 0 d)))))"

section \<open>IP options\<close>

record ip_option = option_base +
  ip_protocol :: byte
  ip_port :: u16
  ip_address :: "byte list"

definition ipv4_option_init :: "bool \<Rightarrow> ip_option" where
  "ipv4_option_init is_multicast =
     \<lparr>opt_length = 1 + 4 + 1 + 1 + 2, opt_type = (if is_multicast then IP4_MULTICAST else IP4_ENDPOINT),
      ip_protocol = L4_UNKNOWN, ip_port = 0xFFFF, ip_address = replicate 4 0\<rparr>"

definition ipv6_option_init :: "bool \<Rightarrow> ip_option" where
  "ipv6_option_init is_multicast =
     \<lparr>opt_length = 1 + 16 + 1 + 1 + 2, opt_type = (if is_multicast then IP6_MULTICAST else IP6_ENDPOINT),
      ip_protocol = L4_UNKNOWN, ip_port = 0xFFFF, ip_address = replicate 16 0\<rparr>"

definition ip_option_eq :: "ip_option \<Rightarrow> ip_option \<Rightarrow> bool" where
  "ip_option_eq a b \<longleftrightarrow> option_eq a b \<and> ip_protocol a = ip_protocol b \<and> ip_port a = ip_port b"

definition ipv4_option_eq :: "ip_option \<Rightarrow> ip_option \<Rightarrow> bool" where
  "ipv4_option_eq a b \<longleftrightarrow> ip_option_eq a b \<and> ip_address a = ip_address b"

definition ipv6_option_eq :: "ip_option \<Rightarrow> ip_option \<Rightarrow> bool" where
  "ipv6_option_eq a b \<longleftrightarrow> ip_option_eq a b \<and> ip_address a = ip_address b"

definition set_port :: "u16 \<Rightarrow> ip_option \<Rightarrow> ip_option" where
  "set_port v o1 = o1\<lparr>ip_port := v\<rparr>"
definition set_layer_four_protocol :: "byte \<Rightarrow> ip_option \<Rightarrow> ip_option" where
  "set_layer_four_protocol v o1 = o1\<lparr>ip_protocol := v\<rparr>"
definition ipv4_set_address :: "byte list \<Rightarrow> ip_option \<Rightarrow> ip_option" where
  "ipv4_set_address v o1 = o1\<lparr>ip_address := v\<rparr>"
definition ipv6_set_address :: "byte list \<Rightarrow> ip_option \<Rightarrow> ip_option" where
  "ipv6_set_address v o1 = o1\<lparr>ip_address := v\<rparr>"
definition ipv4_is_multicast :: "ip_option \<Rightarrow> bool" where
  "ipv4_is_multicast o1 \<longleftrightarrow> opt_type o1 = IP4_MULTICAST"
definition ipv6_is_multicast :: "ip_option \<Rightarrow> bool" where
  "ipv6_is_multicast o1 \<longleftrightarrow> opt_type o1 = IP6_MULTICAST"

text \<open>
  The results of the writes after \<^verbatim>\<open>option_impl::serialize\<close> are ignored; they cannot fail,
  so the sequence below returns the same flag.
\<close>

definition ip_option_serialize :: "ip_option \<Rightarrow> sink" where
  "ip_option_serialize o1 s =
     (let (is_successful, s) = option_serialize o1 s;
          (_, s) = serialize_bytes (ip_address o1) s;
          (_, s) = serialize_u8 0 s;
          (_, s) = serialize_u8 (ip_protocol o1) s;
          (_, s) = serialize_u16 (ip_port o1) s
      in (is_successful, s))"

definition ipv4_option_serialize :: "ip_option \<Rightarrow> sink" where
  "ipv4_option_serialize = ip_option_serialize"

definition ipv6_option_serialize :: "ip_option \<Rightarrow> sink" where
  "ipv6_option_serialize = ip_option_serialize"

text \<open>A read whose result flag is ignored: on failure the variable keeps its old value.\<close>

definition rtry :: "'a reader \<Rightarrow> 'a \<Rightarrow> deserializer \<Rightarrow> ('a \<times> deserializer) ub" where
  "rtry r old d =
     (case r d of
        None \<Rightarrow> None
      | Some (None, d') \<Rightarrow> Some (old, d')
      | Some (Some v, d') \<Rightarrow> Some (v, d'))"

definition ip_option_deserialize :: "nat \<Rightarrow> u16 \<Rightarrow> ip_option \<Rightarrow> ip_option reader" where
  "ip_option_deserialize width required_length o1 d = do {
     (base, d) \<leftarrow> option_deserialize o1 d;
     let o1 = (case base of Some o2 \<Rightarrow> o2 | None \<Rightarrow> o1);
     let is_successful = (base \<noteq> None \<and> opt_length o1 = required_length);
     (addr, d) \<leftarrow> rtry (deserialize_bytes width) (ip_address o1) d;
     (its_reserved, d) \<leftarrow> rtry deserialize_u8 L4_UNKNOWN d;
     (its_reserved, d) \<leftarrow> rtry deserialize_u8 its_reserved d;
     let protocol = (if its_reserved = L4_TCP \<or> its_reserved = L4_UDP then its_reserved
                     else L4_UNKNOWN);
     (port, d) \<leftarrow> rtry deserialize_u16 (ip_port o1) d;
     Some (if is_successful
           then Some (o1\<lparr>ip_address := addr, ip_protocol := protocol, ip_port := port\<rparr>)
           else None, d) }"

definition ipv4_option_deserialize :: "ip_option \<Rightarrow> ip_option reader" where
  "ipv4_option_deserialize = ip_option_deserialize 4 0x0009"

definition ipv6_option_deserialize :: "ip_option \<Rightarrow> ip_option reader" where
  "ipv6_option_deserialize = ip_option_deserialize 16 0x0015"

section \<open>Load balancing and protection options\<close>

record load_balancing_option = option_base +
  lb_priority :: u16
  lb_weight :: u16

definition load_balancing_option_init :: load_balancing_option where
  "load_balancing_option_init =
     \<lparr>opt_length = 1 + 2 + 2, opt_type = LOAD_BALANCING, lb_priority = 0, lb_weight = 0\<rparr>"

definition load_balancing_option_eq :: "load_balancing_option \<Rightarrow> load_balancing_option \<Rightarrow> bool" where
  "load_balancing_option_eq a b \<longleftrightarrow>
     option_eq a b \<and> lb_priority a = lb_priority b \<and> lb_priority a = lb_weight b"

definition set_priority :: "u16 \<Rightarrow> load_balancing_option \<Rightarrow> load_balancing_option" where
  "set_priority v o1 = o1\<lparr>lb_priority := v\<rparr>"
definition set_weight :: "u16 \<Rightarrow> load_balancing_option \<Rightarrow> load_balancing_option" where
  "set_weight v o1 = o1\<lparr>lb_weight := v\<rparr>"

definition load_balancing_option_serialize :: "load_balancing_option \<Rightarrow> sink" where
  "load_balancing_option_serialize o1 =
     ser_then (option_serialize o1)
    (ser_then (serialize_u16 (lb_priority o1)) (serialize_u16 (lb_weight o1)))"

definition load_balancing_option_deserialize ::
  "load_balancing_option \<Rightarrow> load_balancing_option reader" where
  "load_balancing_option_deserialize o1 =
     rbind (option_deserialize o1) (\<lambda>o1.
     rbind deserialize_u16 (\<lambda>priority.
     rbind deserialize_u16 (\<lambda>weight.
       rreturn (o1\<lparr>lb_priority := priority, lb_weight := weight\<rparr>))))"

record protection_option = option_base +
  pr_counter :: u32
  pr_crc :: u32

definition protection_option_init :: protection_option where
  "protection_option_init =
     \<lparr>opt_length = 1 + 4 + 4, opt_type = PROTECTION, pr_counter = 0, pr_crc = 0\<rparr>"

definition protection_option_eq :: "protection_option \<Rightarrow> protection_option \<Rightarrow> bool" where
  "protection_option_eq a b \<longleftrightarrow>
     option_eq a b \<and> pr_counter a = pr_counter b \<and> pr_crc a = pr_crc b"

definition set_alive_counter :: "u32 \<Rightarrow> protection_option \<Rightarrow> protection_option" where
  "set_alive_counter v o1 = o1\<lparr>pr_counter := v\<rparr>"
definition set_crc :: "u32 \<Rightarrow> protection_option \<Rightarrow> protection_option" where
  "set_crc v o1 = o1\<lparr>pr_crc := v\<rparr>"

definition protection_option_serialize :: "protection_option \<Rightarrow> sink" where
  "protection_option_serialize o1 =
     ser_then (option_serialize o1)
    (ser_then (serialize_u32 (pr_counter o1) False) (serialize_u32 (pr_crc o1) False))"

definition protection_option_deserialize :: "protection_option \<Rightarrow> protection_option reader" where
  "protection_option_deserialize o1 =
     rbind (option_deserialize o1) (\<lambda>o1.
     rbind (deserialize_u32 False) (\<lambda>its_alive_counter.
     rbind (deserialize_u32 False) (\<lambda>its_crc.
       rreturn (o1\<lparr>pr_counter := its_alive_counter, pr_crc := its_crc\<rparr>))))"

section \<open>Configuration options\<close>

text \<open>
  The member \<^verbatim>\<open>std::map<std::string, std::string>\<close> is an association list that is kept in
  ascending key order, the order in which the map is iterated.  Strings are byte lists.
\<close>

type_synonym cstring = "byte list"
type_synonym config_map = "(cstring \<times> cstring) list"

fun cmap_put :: "cstring \<Rightarrow> cstring \<Rightarrow> config_map \<Rightarrow> config_map" where
  "cmap_put k v [] = [(k, v)]"
| "cmap_put k v ((k', v') # m) =
     (if k < k' then (k, v) # (k', v') # m
      else if k = k' then (k, v) # m
      else (k', v') # cmap_put k v m)"

definition cmap_erase :: "cstring \<Rightarrow> config_map \<Rightarrow> config_map" where
  "cmap_erase k m = filter (\<lambda>(k', _). k' \<noteq> k) m"

record configuration_option = option_base +
  cf_configuration :: config_map

definition configuration_option_init :: configuration_option where
  "configuration_option_init =
     \<lparr>opt_length = 2, opt_type = CONFIGURATION, cf_configuration = []\<rparr>"

definition configuration_option_eq :: "configuration_option \<Rightarrow> configuration_option \<Rightarrow> bool" where
  "configuration_option_eq a b \<longleftrightarrow> option_eq a b \<and> cf_configuration a = cf_configuration b"

definition add_item :: "cstring \<Rightarrow> cstring \<Rightarrow> configuration_option \<Rightarrow> configuration_option" where
  "add_item k v o1 = o1
     \<lparr>cf_configuration := cmap_put k v (cf_configuration o1),
      opt_length := of_nat (unat (opt_length o1) + length k + length v + 2)\<rparr>"

definition remove_item :: "cstring \<Rightarrow> configuration_option \<Rightarrow> configuration_option" where
  "remove_item k o1 =
     (case map_of (cf_configuration o1) k of
        Some v \<Rightarrow> o1\<lparr>opt_length := opt_length o1 - of_nat (length k + length v + 2),
                     cf_configuration := cmap_erase k (cf_configuration o1)\<rparr>
      | None \<Rightarrow> o1)"

definition get_keys :: "configuration_option \<Rightarrow> cstring list" where
  "get_keys o1 = map fst (cf_configuration o1)"

definition get_values :: "configuration_option \<Rightarrow> cstring list" where
  "get_values o1 = map snd (cf_configuration o1)"

definition get_value :: "cstring \<Rightarrow> configuration_option \<Rightarrow> cstring" where
  "get_value k o1 = (case map_of (cf_configuration o1) k of Some v \<Rightarrow> v | None \<Rightarrow> [])"

definition item_bytes :: "cstring \<times> cstring \<Rightarrow> byte list" where
  "item_bytes kv =
     [of_nat (1 + length (fst kv) + length (snd kv))] @ fst kv @ [0x3D] @ snd kv"

definition configuration_string :: "config_map \<Rightarrow> byte list" where
  "configuration_string m = concat (map item_bytes m) @ [0]"

definition configuration_option_serialize :: "configuration_option \<Rightarrow> sink" where
  "configuration_option_serialize o1 =
     ser_then (option_serialize o1)
       (serialize_bytes (configuration_string (cf_configuration o1)))"

text \<open>
  The item buffer is a string of 256 NUL characters whose front the item overwrites; the
  key is what precedes the first \<^verbatim>\<open>=\<close>, the value the rest of the 256 characters.
\<close>

definition split_item :: "byte list \<Rightarrow> cstring \<times> cstring" where
  "split_item bs =
     (let l_item = bs @ replicate (256 - length bs) 0;
          key = takeWhile (\<lambda>c. c \<noteq> 0x3D) l_item
      in (key, drop (length key + 1) l_item))"

lemma deserialize_u8_decreases:
  "deserialize_u8 d = Some (Some v, d') \<Longrightarrow> des_remaining d' < des_remaining d"
  by (auto simp: deserialize_u8_def next_byte_def consumed_def split: if_splits)

lemma deserialize_bytes_decreases:
  "deserialize_bytes n d = Some (Some v, d') \<Longrightarrow> des_remaining d' \<le> des_remaining d"
  by (auto simp: deserialize_bytes_def consumed_def split: if_splits)

function configuration_items :: "configuration_option \<Rightarrow> configuration_option reader" where
  "configuration_items o1 d =
     (case deserialize_u8 d of
        None \<Rightarrow> None
      | Some (None, d) \<Rightarrow> Some (None, d)
      | Some (Some l_itemLength, d1) \<Rightarrow>
          if 0 < l_itemLength
          then (case deserialize_bytes (unat l_itemLength) d1 of
                  None \<Rightarrow> None
                | Some (None, d) \<Rightarrow> Some (None, d)
                | Some (Some bs, d2) \<Rightarrow>
                    (let (l_key, l_value) = split_item bs
                     in if map_of (cf_configuration o1) l_key = None
                        then (let o2 = o1\<lparr>cf_configuration := cmap_put l_key l_value (cf_configuration o1)\<rparr>
                              in if 0 < get_remaining d2 then configuration_items o2 d2
                                 else Some (Some o2, d2))
                        else Some (None, d2)))
          else if 0 < get_remaining d1 then configuration_items o1 d1
          else Some (Some o1, d1))"
  by pat_completeness auto
termination
  by (relation "measure (\<lambda>(_, d). des_remaining d)")
    (auto dest!: deserialize_u8_decreases deserialize_bytes_decreases)

declare configuration_items.simps [simp del]

definition configuration_option_deserialize ::
  "configuration_option \<Rightarrow> configuration_option reader" where
  "configuration_option_deserialize o1 = rbind (option_deserialize o1) configuration_items"

section \<open>All classes together\<close>

datatype sd_option =
    ConfigurationOption configuration_option
  | LoadBalancingOption load_balancing_option
  | ProtectionOption protection_option
  | Ipv4Option ip_option
  | Ipv6Option ip_option
  | UnknownOption option_base

text \<open>The virtual methods \<^verbatim>\<open>get_length\<close>, \<^verbatim>\<open>get_type\<close> and \<^verbatim>\<open>serialize\<close>.\<close>

fun sd_option_get_length :: "sd_option \<Rightarrow> u16" where
  "sd_option_get_length (ConfigurationOption x) = opt_length x"
| "sd_option_get_length (LoadBalancingOption x) = opt_length x"
| "sd_option_get_length (ProtectionOption x) = opt_length x"
| "sd_option_get_length (Ipv4Option x) = opt_length x"
| "sd_option_get_length (Ipv6Option x) = opt_length x"
| "sd_option_get_length (UnknownOption x) = opt_length x"

fun sd_option_get_type :: "sd_option \<Rightarrow> byte" where
  "sd_option_get_type (ConfigurationOption x) = opt_type x"
| "sd_option_get_type (LoadBalancingOption x) = opt_type x"
| "sd_option_get_type (ProtectionOption x) = opt_type x"
| "sd_option_get_type (Ipv4Option x) = opt_type x"
| "sd_option_get_type (Ipv6Option x) = opt_type x"
| "sd_option_get_type (UnknownOption x) = opt_type x"

fun sd_option_serialize :: "sd_option \<Rightarrow> sink" where
  "sd_option_serialize (ConfigurationOption x) = configuration_option_serialize x"
| "sd_option_serialize (LoadBalancingOption x) = load_balancing_option_serialize x"
| "sd_option_serialize (ProtectionOption x) = protection_option_serialize x"
| "sd_option_serialize (Ipv4Option x) = ipv4_option_serialize x"
| "sd_option_serialize (Ipv6Option x) = ipv6_option_serialize x"
| "sd_option_serialize (UnknownOption x) = option_serialize x"


section \<open>Wire format\<close>

definition option_bytes :: "'a option_base_scheme \<Rightarrow> byte list" where
  "option_bytes o1 = bytes16 (opt_length o1) @ [opt_type o1] @ [0]"

definition ip_option_bytes :: "ip_option \<Rightarrow> byte list" where
  "ip_option_bytes o1 =
     option_bytes o1 @ ip_address o1 @ [0] @ [ip_protocol o1] @ bytes16 (ip_port o1)"

definition load_balancing_option_bytes :: "load_balancing_option \<Rightarrow> byte list" where
  "load_balancing_option_bytes o1 =
     option_bytes o1 @ bytes16 (lb_priority o1) @ bytes16 (lb_weight o1)"

definition protection_option_bytes :: "protection_option \<Rightarrow> byte list" where
  "protection_option_bytes o1 =
     option_bytes o1 @ bytes32 (pr_counter o1) @ bytes32 (pr_crc o1)"

definition configuration_option_bytes :: "configuration_option \<Rightarrow> byte list" where
  "configuration_option_bytes o1 =
     option_bytes o1 @ configuration_string (cf_configuration o1)"

fun sd_option_bytes :: "sd_option \<Rightarrow> byte list" where
  "sd_option_bytes (ConfigurationOption x) = configuration_option_bytes x"
| "sd_option_bytes (LoadBalancingOption x) = load_balancing_option_bytes x"
| "sd_option_bytes (ProtectionOption x) = protection_option_bytes x"
| "sd_option_bytes (Ipv4Option x) = ip_option_bytes x"
| "sd_option_bytes (Ipv6Option x) = ip_option_bytes x"
| "sd_option_bytes (UnknownOption x) = option_bytes x"

lemma length_option_bytes [simp]: "length (option_bytes o1) = 4"
  by (simp add: option_bytes_def)

lemma writes_option [wire]: "writes (option_serialize o1) (option_bytes o1)"
  unfolding option_serialize_def option_bytes_def by (intro wire)

lemma writes_ip_option [wire]: "writes (ip_option_serialize o1) (ip_option_bytes o1)"
  unfolding writes_def ip_option_serialize_def ip_option_bytes_def
  by (simp add: writesD [OF writes_option] writesD [OF writes_bytes] writesD [OF writes_u8]
      writesD [OF writes_u16])

lemma writes_load_balancing_option [wire]:
  "writes (load_balancing_option_serialize o1) (load_balancing_option_bytes o1)"
  unfolding load_balancing_option_serialize_def load_balancing_option_bytes_def by (intro wire)

lemma writes_protection_option [wire]:
  "writes (protection_option_serialize o1) (protection_option_bytes o1)"
  unfolding protection_option_serialize_def protection_option_bytes_def by (intro wire)

lemma writes_configuration_option [wire]:
  "writes (configuration_option_serialize o1) (configuration_option_bytes o1)"
  unfolding configuration_option_serialize_def configuration_option_bytes_def by (intro wire)

lemma writes_sd_option [wire]: "writes (sd_option_serialize x) (sd_option_bytes x)"
  by (cases x) (simp_all add: wire ipv4_option_serialize_def ipv6_option_serialize_def)

section \<open>Reading options\<close>

lemma safe_set_remaining_0: "within d d' \<Longrightarrow> within d (set_remaining 0 d')"
  by (auto simp: within_def set_remaining_def)

lemma safe_option [safe]: "safe_reader (option_deserialize o1)"
proof -
  have "safe_reader (\<lambda>d. Some (Some v, set_remaining 0 d))" for v :: "'a option_base_scheme"
    by (rule safe_readerI) (simp add: safe_set_remaining_0)
  then show ?thesis
    unfolding option_deserialize_def by (intro safe_bind safe_u16 safe_u8) (simp add: safe_return)
qed

lemma rtry_safe:
  assumes "safe_reader r" and "des_wf d"
  obtains v d' where "rtry r x d = Some (v, d')" and "des_wf d'" and "within d d'"
proof -
  from assms obtain v d' where "r d = Some (v, d')" "des_wf d'" "within d d'"
    by (rule safe_readerE)
  then show thesis
    using that by (cases v) (auto simp: rtry_def)
qed

lemma safe_ip_option [safe]: "safe_reader (ip_option_deserialize n l o1)"
proof (rule safe_readerI)
  fix d assume "des_wf d"
  with safe_option obtain b d1 where 1: "option_deserialize o1 d = Some (b, d1)" "des_wf d1" "within d d1"
    by (rule safe_readerE)
  let ?o = "case b of Some o2 \<Rightarrow> o2 | None \<Rightarrow> o1"
  from safe_bytes 1(2) obtain a d2
    where 2: "rtry (deserialize_bytes n) (ip_address ?o) d1 = Some (a, d2)" "des_wf d2" "within d1 d2"
    by (rule rtry_safe)
  from safe_u8 2(2) obtain r d3
    where 3: "rtry deserialize_u8 L4_UNKNOWN d2 = Some (r, d3)" "des_wf d3" "within d2 d3"
    by (rule rtry_safe)
  from safe_u8 3(2) obtain q d4
    where 4: "rtry deserialize_u8 r d3 = Some (q, d4)" "des_wf d4" "within d3 d4"
    by (rule rtry_safe)
  from safe_u16 4(2) obtain p d5
    where 5: "rtry deserialize_u16 (ip_port ?o) d4 = Some (p, d5)" "des_wf d5" "within d4 d5"
    by (rule rtry_safe)
  have "within d d5"
    using 1 2 3 4 5 by (blast intro: within_trans)
  then show "\<exists>v d'. ip_option_deserialize n l o1 d = Some (v, d') \<and> within d d'"
    unfolding ip_option_deserialize_def
    by (simp add: 1(1) 2(1) 3(1) [unfolded L4_UNKNOWN_def] 4(1) 5(1) Let_def)
qed

lemma safe_load_balancing_option [safe]: "safe_reader (load_balancing_option_deserialize o1)"
  unfolding load_balancing_option_deserialize_def by (intro safe)

lemma safe_protection_option [safe]: "safe_reader (protection_option_deserialize o1)"
  unfolding protection_option_deserialize_def by (intro safe)

lemma safe_configuration_items [safe]: "safe_reader (configuration_items o1)"
proof (rule safe_readerI)
  fix d assume "des_wf d"
  then show "\<exists>v d'. configuration_items o1 d = Some (v, d') \<and> within d d'"
  proof (induction o1 d rule: configuration_items.induct)
    case (1 o1 d)
    from safe_u8 "1.prems" obtain n d1
      where n: "deserialize_u8 d = Some (n, d1)" "des_wf d1" "within d d1"
      by (rule safe_readerE)
    show ?case
    proof (cases n)
      case None
      with n show ?thesis by (subst configuration_items.simps) simp
    next
      case (Some len)
      from safe_bytes n(2) obtain bs d2
        where b: "deserialize_bytes (unat len) d1 = Some (bs, d2)" "des_wf d2" "within d1 d2"
        by (rule safe_readerE)
      have win: "within d d2"
        using n(3) b(3) by (rule within_trans)
      note step = configuration_items.simps [of o1 d, unfolded n(1) Some]
      show ?thesis
      proof (cases "0 < len")
        case False
        then have "\<exists>v d'. configuration_items o1 d1 = Some (v, d') \<and> within d1 d'" if "0 < get_remaining d1"
          using "1.IH"(2) [OF n(1) refl Some] n(2) that by blast
        with False step n(3) show ?thesis
          by (cases "0 < get_remaining d1") (auto intro: within_trans)
      next
        case True
        show ?thesis
        proof (cases bs)
          case None
          with True step b win show ?thesis by simp
        next
          case (Some item)
          obtain k v where kv: "split_item item = (k, v)" by (cases "split_item item")
          let ?o = "o1\<lparr>cf_configuration := cmap_put k v (cf_configuration o1)\<rparr>"
          have "\<exists>v d'. configuration_items ?o d2 = Some (v, d') \<and> within d2 d'"
            if "map_of (cf_configuration o1) k = None" "0 < get_remaining d2"
            using "1.IH"(1) [OF n(1) refl \<open>n = Some len\<close> True b(1) refl Some kv [symmetric] refl that(1) refl that(2) b(2)] .
          with True step b(1) Some kv win show ?thesis
            by (auto simp: Let_def intro: within_trans)
        qed
      qed
    qed
  qed
qed

lemma safe_configuration_option [safe]: "safe_reader (configuration_option_deserialize o1)"
  unfolding configuration_option_deserialize_def by (intro safe)

lemma reads_option [reads]:
  assumes "known_option_type (opt_type o1)"
  shows "reads_as (option_deserialize o0) (option_bytes o1)
    (o0\<lparr>opt_length := opt_length o1, opt_type := opt_type o1\<rparr>)"
proof -
  have "reads_as (option_deserialize o0) (bytes16 (opt_length o1) @ [opt_type o1] @ [0] @ [])
      (o0\<lparr>opt_length := opt_length o1, opt_type := opt_type o1\<rparr>)"
    unfolding option_deserialize_def
    by (intro reads_bind [OF reads_u16] reads_bind [OF reads_u8]) (simp add: assms reads_return)
  then show ?thesis
    by (simp add: option_bytes_def)
qed

lemma rtry_reads: "reads_as r bs v \<Longrightarrow> starts d bs \<Longrightarrow> rtry r x d = Some (v, advance (length bs) d)"
  by (simp add: rtry_def reads_as_def)

definition ip_option_ok :: "nat \<Rightarrow> u16 \<Rightarrow> ip_option \<Rightarrow> bool" where
  "ip_option_ok n l o1 \<longleftrightarrow> known_option_type (opt_type o1) \<and> opt_length o1 = l
     \<and> length (ip_address o1) = n
     \<and> (ip_protocol o1 = L4_TCP \<or> ip_protocol o1 = L4_UDP \<or> ip_protocol o1 = L4_UNKNOWN)"

lemma reads_ip_option [reads]:
  assumes "ip_option_ok n l o1"
  shows "reads_as (ip_option_deserialize n l o0) (ip_option_bytes o1) o1"
  unfolding reads_as_def
proof (intro allI impI)
  fix d assume "starts d (ip_option_bytes o1)"
  then have s: "starts d (option_bytes o1)" "starts (advance 4 d) (ip_address o1)"
    "starts (advance (4 + n) d) [0]" "starts (advance (4 + n + 1) d) [ip_protocol o1]"
    "starts (advance (4 + n + 2) d) (bytes16 (ip_port o1))"
    using assms unfolding ip_option_bytes_def starts_append
    by (simp_all add: ip_option_ok_def add.assoc)
  have known: "known_option_type (opt_type o1)" and n: "n = length (ip_address o1)"
    using assms by (simp_all add: ip_option_ok_def)
  have read: "option_deserialize o0 d
      = Some (Some (o0\<lparr>opt_length := opt_length o1, opt_type := opt_type o1\<rparr>), advance 4 d)"
    "\<And>x. rtry (deserialize_bytes n) x (advance 4 d) = Some (ip_address o1, advance (4 + n) d)"
    "\<And>x. rtry deserialize_u8 x (advance (4 + n) d) = Some (0, advance (4 + n + 1) d)"
    "\<And>x. rtry deserialize_u8 x (advance (4 + n + 1) d) = Some (ip_protocol o1, advance (4 + n + 2) d)"
    "\<And>x. rtry deserialize_u16 x (advance (4 + n + 2) d) = Some (ip_port o1, advance (4 + n + 4) d)"
    using reads_asD [OF reads_option [OF known] s(1)] rtry_reads [OF reads_bytes [OF n] s(2)]
      rtry_reads [OF reads_u8 s(3)] rtry_reads [OF reads_u8 s(4)] rtry_reads [OF reads_u16 s(5)] n
    by (simp_all add: add.assoc)
  have same: "o0\<lparr>opt_length := opt_length o1, opt_type := opt_type o1, ip_address := ip_address o1,
      ip_protocol := ip_protocol o1, ip_port := ip_port o1\<rparr> = o1"
    by (cases o0, cases o1) simp
  show "ip_option_deserialize n l o0 d = Some (Some o1, advance (length (ip_option_bytes o1)) d)"
    unfolding ip_option_deserialize_def
    using assms same
    by (auto simp: read [unfolded n, simplified] ip_option_ok_def ip_option_bytes_def)
qed

lemma reads_load_balancing_option [reads]:
  assumes "known_option_type (opt_type o1)"
  shows "reads_as (load_balancing_option_deserialize o0) (load_balancing_option_bytes o1) o1"
  unfolding load_balancing_option_deserialize_def load_balancing_option_bytes_def
  by (rule reads_eq, rule reads_bind, rule reads_option [OF assms],
      (rule reads_bind reads_u16 reads_return)+)
    (simp, cases o0, cases o1, simp)

lemma reads_protection_option [reads]:
  assumes "known_option_type (opt_type o1)"
  shows "reads_as (protection_option_deserialize o0) (protection_option_bytes o1) o1"
  unfolding protection_option_deserialize_def protection_option_bytes_def
  by (rule reads_eq, rule reads_bind, rule reads_option [OF assms],
      (rule reads_bind reads_u32 reads_return)+)
    (simp, cases o0, cases o1, simp)

interpretation ipv4_codec: codec ip_option_bytes "ipv4_option_deserialize (ipv4_option_init b)"
  "ip_option_ok 4 9" for b
  by unfold_locales (simp_all add: ipv4_option_deserialize_def reads_ip_option safe_ip_option)

interpretation ipv6_codec: codec ip_option_bytes "ipv6_option_deserialize (ipv6_option_init b)"
  "ip_option_ok 16 21" for b
  by unfold_locales (simp_all add: ipv6_option_deserialize_def reads_ip_option safe_ip_option)

interpretation load_balancing_codec: codec load_balancing_option_bytes
  "load_balancing_option_deserialize load_balancing_option_init"
  "\<lambda>o1. known_option_type (opt_type o1)"
  by unfold_locales (simp_all add: reads_load_balancing_option safe_load_balancing_option)

interpretation protection_codec: codec protection_option_bytes
  "protection_option_deserialize protection_option_init" "\<lambda>o1. known_option_type (opt_type o1)"
  by unfold_locales (simp_all add: reads_protection_option safe_protection_option)

section \<open>The length field of configuration options\<close>

text \<open>
  The states of a configuration option under \<^verbatim>\<open>add_item\<close> of keys it does not hold and
  \<^verbatim>\<open>remove_item\<close> of any key.
\<close>

inductive configuration_reachable :: "configuration_option \<Rightarrow> bool" where
  init: "configuration_reachable configuration_option_init"
| add: "configuration_reachable o1 \<Longrightarrow> k \<notin> set (get_keys o1)
    \<Longrightarrow> configuration_reachable (add_item k v o1)"
| remove: "configuration_reachable o1 \<Longrightarrow> configuration_reachable (remove_item k o1)"

definition items_length :: "config_map \<Rightarrow> nat" where
  "items_length m = sum_list (map (\<lambda>(k, v). length k + length v + 2) m)"

lemma items_length_simps [simp]:
  "items_length [] = 0"
  "items_length ((k, v) # m) = length k + length v + 2 + items_length m"
  by (simp_all add: items_length_def)

lemma length_configuration_string: "length (configuration_string m) = items_length m + 1"
proof -
  have "length (concat (map item_bytes m)) = items_length m"
    by (induction m) (auto simp: item_bytes_def)
  then show ?thesis
    by (simp add: configuration_string_def)
qed

lemma keys_cmap_put: "set (map fst (cmap_put k v m)) = insert k (set (map fst m))"
proof (induction m)
  case (Cons kv m)
  then show ?case
    by (cases kv) (simp add: insert_commute)
qed simp

lemma items_length_put:
  "k \<notin> set (map fst m) \<Longrightarrow> items_length (cmap_put k v m) = items_length m + (length k + length v + 2)"
  by (induction m) auto

lemma sorted_cmap_put:
  "sorted_wrt (<) (map fst m) \<Longrightarrow> sorted_wrt (<) (map fst (cmap_put k v m))"
proof (induction m)
  case (Cons kv m)
  then show ?case
    by (cases kv) (auto simp del: set_map simp: keys_cmap_put)
qed simp

lemma map_of_cmap_put: "map_of (cmap_put k v m) = (map_of m)(k \<mapsto> v)"
  by (induction m) (auto simp: fun_eq_iff)

lemma sorted_cmap_erase:
  "sorted_wrt (<) (map fst m) \<Longrightarrow> sorted_wrt (<) (map fst (cmap_erase k m))"
  unfolding cmap_erase_def sorted_wrt_map by (rule sorted_wrt_filter)

lemma cmap_erase_id: "k \<notin> set (map fst m) \<Longrightarrow> cmap_erase k m = m"
  unfolding cmap_erase_def by (induction m) auto

lemma items_length_erase:
  "sorted_wrt (<) (map fst m) \<Longrightarrow> map_of m k = Some v \<Longrightarrow>
     items_length m = items_length (cmap_erase k m) + (length k + length v + 2)"
proof (induction m)
  case (Cons kv m)
  obtain k' v' where kv: "kv = (k', v')" by (cases kv)
  show ?case
  proof (cases "k' = k")
    case True
    then have "k \<notin> set (map fst m)"
      using Cons.prems(1) by (auto simp: kv)
    then have "cmap_erase k m = m" by (rule cmap_erase_id)
    with True Cons.prems(2) show ?thesis
      by (simp add: kv cmap_erase_def)
  next
    case False
    with Cons show ?thesis by (simp add: kv cmap_erase_def)
  qed
qed simp

definition configuration_inv :: "configuration_option \<Rightarrow> bool" where
  "configuration_inv o1 \<longleftrightarrow> sorted_wrt (<) (map fst (cf_configuration o1))
     \<and> opt_type o1 = CONFIGURATION
     \<and> opt_length o1 = of_nat (2 + items_length (cf_configuration o1))"

lemma configuration_inv_add:
  assumes "configuration_inv o1" and "k \<notin> set (get_keys o1)"
  shows "configuration_inv (add_item k v o1)"
  using assms sorted_cmap_put items_length_put [of k "cf_configuration o1" v]
  by (simp add: configuration_inv_def add_item_def get_keys_def)

lemma configuration_inv_remove:
  assumes "configuration_inv o1"
  shows "configuration_inv (remove_item k o1)"
proof (cases "map_of (cf_configuration o1) k")
  case None
  then show ?thesis using assms by (simp add: remove_item_def)
next
  case (Some v)
  with assms items_length_erase [of "cf_configuration o1" k v] sorted_cmap_erase
  show ?thesis
    by (simp add: configuration_inv_def remove_item_def)
qed

lemma configuration_reachable_inv: "configuration_reachable o1 \<Longrightarrow> configuration_inv o1"
  by (induction rule: configuration_reachable.induct)
    (simp_all add: configuration_inv_add configuration_inv_remove,
     simp add: configuration_inv_def configuration_option_init_def)

section \<open>Properties\<close>

text \<open>
  IPv4 and IPv6 options survive the wire, whatever flavour of object the receiver
  allocates: address, port and transport protocol are read back from exactly the bytes written.
\<close>

theorem ip_option_roundtrip:
  assumes "ip_option_ok 4 9 o4" and "ip_option_ok 16 21 o6"
  shows "ipv4_option_serialize o4 s = (True, s\<lparr>ser_data := ser_data s @ ip_option_bytes o4\<rparr>)
    \<and> length (ip_option_bytes o4) = 12
    \<and> reads_as (ipv4_option_deserialize (ipv4_option_init b)) (ip_option_bytes o4) o4
    \<and> ipv6_option_serialize o6 s = (True, s\<lparr>ser_data := ser_data s @ ip_option_bytes o6\<rparr>)
    \<and> length (ip_option_bytes o6) = 24
    \<and> reads_as (ipv6_option_deserialize (ipv6_option_init b)) (ip_option_bytes o6) o6"
  using assms ipv4_codec.enc_dec [OF assms(1)] ipv6_codec.enc_dec [OF assms(2)]
    writesD [OF writes_ip_option]
  by (simp add: ipv4_option_serialize_def ipv6_option_serialize_def ip_option_ok_def ip_option_bytes_def)

definition sample_ipv4 :: ip_option where
  "sample_ipv4 = set_port 30509 (set_layer_four_protocol L4_UDP
     (ipv4_set_address [192, 168, 0, 1] (ipv4_option_init False)))"

definition sample_ipv6 :: ip_option where
  "sample_ipv6 = set_port 30490 (set_layer_four_protocol L4_TCP
     (ipv6_set_address (replicate 15 0 @ [1]) (ipv6_option_init True)))"

lemma ip_option_ok_samples: "ip_option_ok 4 9 sample_ipv4" "ip_option_ok 16 21 sample_ipv6"
  by (simp_all add: ip_option_ok_def sample_ipv4_def sample_ipv6_def known_option_type_def
      set_port_def set_layer_four_protocol_def ipv4_set_address_def ipv6_set_address_def
      ipv4_option_init_def ipv6_option_init_def)

theorem ip_option_roundtrip_witness:
  "reads_as (ipv4_option_deserialize (ipv4_option_init True)) (ip_option_bytes sample_ipv4) sample_ipv4
   \<and> length (ip_option_bytes sample_ipv6) = 24"
  using ip_option_roundtrip [OF ip_option_ok_samples, of "ser_init 0" True] by simp

text \<open>
  A configuration option that only ever got keys it did not hold announces its true
  size: the bytes it is serialised to are three more than its length field says (the length
  and type fields themselves), modulo the sixteen bits of that field, and its keys are written
  in strictly ascending order.
\<close>

theorem configuration_length_field_correct:
  assumes "configuration_reachable o1"
  shows "configuration_option_serialize o1 s
      = (True, s\<lparr>ser_data := ser_data s @ configuration_option_bytes o1\<rparr>)
    \<and> of_nat (length (configuration_option_bytes o1)) = sd_option_get_length (ConfigurationOption o1) + 3
    \<and> sorted_wrt (<) (get_keys o1)"
  using configuration_reachable_inv [OF assms] writesD [OF writes_configuration_option]
  by (simp add: configuration_inv_def configuration_option_bytes_def length_configuration_string
      get_keys_def)

theorem configuration_length_field_correct_witness:
  "length (configuration_option_bytes (remove_item [0x62] (add_item [0x61] [0x31]
      (add_item [0x62] [] configuration_option_init)))) = 9
   \<and> get_keys (add_item [0x61] [0x31] (add_item [0x62] [] configuration_option_init)) = [[0x61], [0x62]]
   \<and> of_nat (length (configuration_option_bytes (remove_item [0x62] (add_item [0x61] [0x31]
      (add_item [0x62] [] configuration_option_init)))))
     = opt_length (remove_item [0x62] (add_item [0x61] [0x31]
      (add_item [0x62] [] configuration_option_init))) + 3"
proof -
  have "configuration_reachable (remove_item [0x62] (add_item [0x61] [0x31]
      (add_item [0x62] [] configuration_option_init)))"
    by (intro configuration_reachable.intros)
      (simp_all add: get_keys_def add_item_def configuration_option_init_def)
  from configuration_length_field_correct [OF this, of "ser_init 0"] show ?thesis
    by (simp add: get_keys_def add_item_def remove_item_def configuration_option_init_def
        configuration_option_bytes_def configuration_string_def item_bytes_def cmap_erase_def)
qed

text \<open>
  Adding a key again counts it twice in the length field, although the map holds it once.
\<close>

theorem readded_key_counted_twice:
  "let o1 = add_item [0x61] [0x31] (add_item [0x61] [0x31] configuration_option_init)
   in opt_length o1 = 10 \<and> length (configuration_option_bytes o1) = 9"
  by (simp add: add_item_def configuration_option_init_def configuration_option_bytes_def
      configuration_string_def item_bytes_def)

text \<open>
  \<^verbatim>\<open>load_balancing_option_impl::operator==\<close> compares the priority with the weight of the other
  option, so an option equals itself only if its priority and weight coincide.
\<close>

theorem load_balancing_eq_reflexive_iff:
  "load_balancing_option_eq o1 o1 \<longleftrightarrow> lb_priority o1 = lb_weight o1"
  by (simp add: load_balancing_option_eq_def option_eq_def)

text \<open>
  \<^verbatim>\<open>ipv4_option_impl::deserialize\<close> ignores the results of its reads: four header bytes with
  nothing behind them are accepted as an endpoint option with address 0.0.0.0 and port 0xFFFF.
\<close>

theorem truncated_ipv4_option_accepted:
  "ipv4_option_deserialize (ipv4_option_init False) (des_init_data [0, 9, 4, 0] t)
     = Some (Some (ipv4_option_init False), advance 4 (des_init_data [0, 9, 4, 0] t))"
proof -
  have b: "[0, 9, 4, 0] = option_bytes (ipv4_option_init False)"
    by (simp add: option_bytes_def bytes16_def ipv4_option_init_def VSOMEIP_WORD_BYTE1_def VSOMEIP_WORD_BYTE0_def)
  have "option_deserialize (ipv4_option_init False) (des_init_data [0, 9, 4, 0] t)
     = Some (Some (ipv4_option_init False), advance 4 (des_init_data [0, 9, 4, 0] t))"
    unfolding b
    using reads_asD [OF reads_option [of "ipv4_option_init False" "ipv4_option_init False"] starts_init]
    by (simp add: known_option_type_def ipv4_option_init_def)
  moreover have "des_remaining (advance 4 (des_init_data [0, 9, 4, 0] t)) = 0"
    by (simp add: des_init_data_def)
  ultimately show ?thesis
    by (simp add: ipv4_option_deserialize_def ip_option_deserialize_def rtry_def deserialize_bytes_def
        deserialize_u8_def deserialize_u16_def)
      (simp add: ipv4_option_init_def)
qed

lemma split_item_eq:
  assumes "0x3D \<notin> set k"
  shows "split_item (k @ 0x3D # v) = (k, v @ replicate (255 - length k - length v) 0)"
proof -
  have "takeWhile (\<lambda>c. c \<noteq> 0x3D) (k @ 0x3D # v @ w) = k" for w
    using assms by (induction k) auto
  then show ?thesis
    by (simp add: split_item_def Let_def diff_diff_eq)
qed

lemma configuration_items_item:
  assumes n: "unat n = length item" "item \<noteq> []" and kv: "split_item item = (k, v)"
    and new: "map_of (cf_configuration o1) k = None"
    and s: "starts d ([n] @ item)" and more: "Suc (length item) < des_remaining d"
  shows "configuration_items o1 d = configuration_items
    (o1\<lparr>cf_configuration := cmap_put k v (cf_configuration o1)\<rparr>) (advance (Suc (length item)) d)"
proof -
  have parts: "starts d [n]" "starts (advance 1 d) item"
    using s unfolding starts_append by simp_all
  have "0 < n"
    using n by (simp add: word_less_nat_alt)
  then show ?thesis
    using reads_asD [OF reads_u8 parts(1)] reads_asD [OF reads_bytes [OF n(1)] parts(2)] kv new more
    by (subst configuration_items.simps) (simp add: get_remaining_def)
qed

lemma configuration_items_end:
  assumes "starts d [0]" and "des_remaining d = 1"
  shows "configuration_items o1 d = Some (Some o1, advance 1 d)"
  using reads_asD [OF reads_u8 assms(1)] assms(2)
  by (subst configuration_items.simps) (simp add: get_remaining_def)

text \<open>
  A configuration item does not survive the wire: the receiver finds the key, but with
  the value padded by NUL characters up to the 256 characters of its item buffer.
\<close>

theorem configuration_value_padded:
  assumes "0x3D \<notin> set k" and "length k + length v < 255"
  shows "\<exists>o2 d. configuration_option_deserialize configuration_option_init
       (des_init_data (configuration_option_bytes (add_item k v configuration_option_init)) t)
         = Some (Some o2, d)
     \<and> get_keys o2 = [k] \<and> get_value k o2 = v @ replicate (255 - length k - length v) 0"
proof -
  let ?o = "add_item k v configuration_option_init"
  let ?item = "k @ 0x3D # v" and ?n = "of_nat (1 + length k + length v) :: byte"
  let ?d = "des_init_data (configuration_option_bytes ?o) t"
  let ?o1 = "configuration_option_init\<lparr>opt_length := opt_length ?o, opt_type := opt_type ?o\<rparr>"
  have bytes: "configuration_option_bytes ?o = option_bytes ?o @ ([?n] @ ?item) @ [0]"
    by (simp add: configuration_option_bytes_def configuration_string_def item_bytes_def
        add_item_def configuration_option_init_def)
  have n: "unat ?n = length ?item"
    using assms(2) by (subst unat_of_nat) (simp add: take_bit_nat_eq_self)
  have "starts ?d (option_bytes ?o @ ([?n] @ ?item) @ [0])"
    unfolding bytes [symmetric] by (rule starts_init)
  then have s: "starts ?d (option_bytes ?o)" "starts (advance 4 ?d) ([?n] @ ?item)"
    "starts (advance (6 + length k + length v) ?d) [0]"
    unfolding starts_append [of _ "option_bytes ?o"] starts_append [of _ "[?n] @ ?item"]
    by (simp_all add: add.assoc)
  have rem: "des_remaining ?d = 7 + length k + length v"
    by (simp add: des_init_data_def bytes)
  have known: "known_option_type (opt_type ?o)"
    by (simp add: known_option_type_def add_item_def configuration_option_init_def)
  have new: "map_of (cf_configuration ?o1) k = None"
    by (simp add: configuration_option_init_def)
  have "configuration_option_deserialize configuration_option_init ?d
      = configuration_items ?o1 (advance 4 ?d)"
    using reads_asD [OF reads_option [OF known, of configuration_option_init] s(1)]
    by (simp add: configuration_option_deserialize_def rbind_def)
  also have "\<dots> = configuration_items (?o1\<lparr>cf_configuration :=
      cmap_put k (v @ replicate (255 - length k - length v) 0) (cf_configuration ?o1)\<rparr>)
      (advance (6 + length k + length v) ?d)" (is "_ = configuration_items ?o2 _")
    using configuration_items_item [OF n _ split_item_eq [OF assms(1)] new s(2)] rem
    by (simp add: add.assoc)
  also have "\<dots> = Some (Some ?o2, advance 1 (advance (6 + length k + length v) ?d))"
    using rem by (intro configuration_items_end s(3)) simp
  finally show ?thesis
    by (intro exI [of _ ?o2] exI conjI)
      (simp_all add: get_keys_def get_value_def configuration_option_init_def)
qed

theorem configuration_value_padded_witness:
  "\<exists>o2 d. configuration_option_deserialize configuration_option_init
       (des_init_data (configuration_option_bytes
          (add_item [0x61] [0x31] configuration_option_init)) 0) = Some (Some o2, d)
     \<and> length (get_value [0x61] o2) = 254"
  using configuration_value_padded [of "[0x61]" "[0x31]" 0] by fastforce

end
