(* ===== verification/Sd_Message.thy ===== *)
theory Sd_Message
  imports Message Sd_Entry Sd_Option
begin

text \<open>
  Service-discovery messages: \<^verbatim>\<open>service_discovery/src/message_impl.cpp\<close>, the method
  \<^verbatim>\<open>deserialize_sd_message\<close> of \<^verbatim>\<open>deserializer.cpp\<close>, \<^verbatim>\<open>create_message\<close> of \<^verbatim>\<open>runtime_impl.cpp\<close> and the
  methods of \<^verbatim>\<open>eventgroupentry_impl.cpp\<close> and \<^verbatim>\<open>entry_impl.cpp\<close> that look into the owning message.

  Entries and options are heap objects owned by one message.  An option object is known
  by its position in the message that created it, so a pointer to an option is
  \<open>Some i\<close> for the \<open>i\<close>-th option of the message at hand and \<open>None\<close> for any other object.
\<close>

section \<open>State\<close>

datatype sd_entry = ServiceEntry serviceentry | EventgroupEntry eventgroupentry

fun sd_entry_get_type :: "sd_entry \<Rightarrow> byte" where
  "sd_entry_get_type (ServiceEntry e) = en_type e"
| "sd_entry_get_type (EventgroupEntry e) = en_type e"

fun sd_entry_serialize :: "sd_entry \<Rightarrow> sink" where
  "sd_entry_serialize (ServiceEntry e) = serviceentry_serialize e"
| "sd_entry_serialize (EventgroupEntry e) = eventgroupentry_serialize e"

record forced_initial_events =
  fi_target :: "endpoint_definition option"
  fi_service :: u16
  fi_instance :: u16
  fi_eventgroup :: u16

record sd_message =
  sdm_header :: message_header
  sdm_flags :: byte
  sdm_options_length :: u32
  sdm_entries :: "sd_entry list"
  sdm_options :: "sd_option list"
  sdm_number_required_acks :: byte
  sdm_number_contained_acks :: byte
  sdm_forced_initial_events :: "forced_initial_events list"

definition sd_message_init :: sd_message where
  "sd_message_init =
     \<lparr>sdm_header = header_init\<lparr>hdr_service := 0xFFFF, hdr_method := 0x8100, hdr_protocol_version := 1\<rparr>,
      sdm_flags = 0, sdm_options_length = 0, sdm_entries = [], sdm_options = [],
      sdm_number_required_acks = 0, sdm_number_contained_acks = 0, sdm_forced_initial_events = []\<rparr>"

section \<open>Flags, counters, accessors\<close>

definition VSOMEIP_REBOOT_FLAG :: byte where [simp]: "VSOMEIP_REBOOT_FLAG = 0x80"
definition VSOMEIP_UNICAST_FLAG :: byte where [simp]: "VSOMEIP_UNICAST_FLAG = 0x40"

definition get_reboot_flag :: "sd_message \<Rightarrow> bool" where
  "get_reboot_flag m \<longleftrightarrow> sdm_flags m AND VSOMEIP_REBOOT_FLAG \<noteq> 0"

definition set_reboot_flag :: "bool \<Rightarrow> sd_message \<Rightarrow> sd_message" where
  "set_reboot_flag is_set m =
     (if is_set then m\<lparr>sdm_flags := sdm_flags m OR VSOMEIP_REBOOT_FLAG\<rparr>
      else m\<lparr>sdm_flags := sdm_flags m AND NOT VSOMEIP_REBOOT_FLAG\<rparr>)"

definition get_unicast_flag :: "sd_message \<Rightarrow> bool" where
  "get_unicast_flag m \<longleftrightarrow> sdm_flags m AND VSOMEIP_UNICAST_FLAG \<noteq> 0"

definition set_unicast_flag :: "bool \<Rightarrow> sd_message \<Rightarrow> sd_message" where
  "set_unicast_flag is_set m =
     (if is_set then m\<lparr>sdm_flags := sdm_flags m OR VSOMEIP_UNICAST_FLAG\<rparr>
      else m\<lparr>sdm_flags := sdm_flags m AND NOT VSOMEIP_UNICAST_FLAG\<rparr>)"

definition sd_get_length :: "sd_message \<Rightarrow> u32" where
  "sd_get_length m =
     (let current_length = 12;
          current_length = (if sdm_entries m \<noteq> []
            then current_length + 4 + of_nat (length (sdm_entries m) * 16) else current_length);
          current_length = current_length + 4
      in foldl (\<lambda>acc x. acc + of_nat (unat (sd_option_get_length x) + 3)) current_length (sdm_options m))"

definition get_someip_length :: "sd_message \<Rightarrow> u32" where
  "get_someip_length m = hdr_length (sdm_header m)"

definition set_number_required_acks :: "byte \<Rightarrow> sd_message \<Rightarrow> sd_message" where
  "set_number_required_acks n m = m\<lparr>sdm_number_required_acks := n\<rparr>"
definition increase_number_required_acks :: "byte \<Rightarrow> sd_message \<Rightarrow> sd_message" where
  "increase_number_required_acks n m = m\<lparr>sdm_number_required_acks := sdm_number_required_acks m + n\<rparr>"
definition decrease_number_required_acks :: "byte \<Rightarrow> sd_message \<Rightarrow> sd_message" where
  "decrease_number_required_acks n m = m\<lparr>sdm_number_required_acks := sdm_number_required_acks m - n\<rparr>"
definition increase_number_contained_acks :: "sd_message \<Rightarrow> sd_message" where
  "increase_number_contained_acks m = m\<lparr>sdm_number_contained_acks := sdm_number_contained_acks m + 1\<rparr>"
definition all_required_acks_contained :: "sd_message \<Rightarrow> bool" where
  "all_required_acks_contained m \<longleftrightarrow> sdm_number_required_acks m \<le> sdm_number_contained_acks m"
definition forced_initial_events_add :: "forced_initial_events \<Rightarrow> sd_message \<Rightarrow> sd_message" where
  "forced_initial_events_add x m =
     m\<lparr>sdm_forced_initial_events := sdm_forced_initial_events m @ [x]\<rparr>"

section \<open>Building a message\<close>

text \<open>The factory methods append a fresh object; it is known by its position, which they return.\<close>

definition add_entry :: "sd_entry \<Rightarrow> sd_message \<Rightarrow> nat \<times> sd_message" where
  "add_entry e m = (length (sdm_entries m), m\<lparr>sdm_entries := sdm_entries m @ [e]\<rparr>)"

definition add_option :: "sd_option \<Rightarrow> sd_message \<Rightarrow> nat \<times> sd_message" where
  "add_option x m = (length (sdm_options m), m\<lparr>sdm_options := sdm_options m @ [x]\<rparr>)"

definition create_eventgroup_entry :: "sd_message \<Rightarrow> nat \<times> sd_message" where
  "create_eventgroup_entry = add_entry (EventgroupEntry eventgroupentry_init)"
definition create_service_entry :: "sd_message \<Rightarrow> nat \<times> sd_message" where
  "create_service_entry = add_entry (ServiceEntry serviceentry_init)"
definition create_configuration_option :: "sd_message \<Rightarrow> nat \<times> sd_message" where
  "create_configuration_option = add_option (ConfigurationOption configuration_option_init)"
definition create_ipv4_option :: "bool \<Rightarrow> sd_message \<Rightarrow> nat \<times> sd_message" where
  "create_ipv4_option is_multicast = add_option (Ipv4Option (ipv4_option_init is_multicast))"
definition create_ipv6_option :: "bool \<Rightarrow> sd_message \<Rightarrow> nat \<times> sd_message" where
  "create_ipv6_option is_multicast = add_option (Ipv6Option (ipv6_option_init is_multicast))"
definition create_load_balancing_option :: "sd_message \<Rightarrow> nat \<times> sd_message" where
  "create_load_balancing_option = add_option (LoadBalancingOption load_balancing_option_init)"
definition create_protection_option :: "sd_message \<Rightarrow> nat \<times> sd_message" where
  "create_protection_option = add_option (ProtectionOption protection_option_init)"

text \<open>\<^verbatim>\<open>VSOMEIP_DIAGNOSIS_ADDRESS\<close> is a constant of the build configuration.\<close>

definition create_sd_message :: "u16 \<Rightarrow> sd_message" where
  "create_sd_message diagnosis_address =
     set_unicast_flag True (sd_message_init\<lparr>sdm_header :=
       (sdm_header sd_message_init)\<lparr>hdr_service := 0xFFFF, hdr_instance := 0, hdr_method := 0x8100,
         hdr_client := push_bit 8 diagnosis_address, hdr_protocol_version := 1, hdr_interface_version := 1,
         hdr_type := MT_NOTIFICATION, hdr_code := E_OK\<rparr>\<rparr>)"

text \<open>
  \<^verbatim>\<open>get_option_index\<close>: the loop counter and the bound are \<^verbatim>\<open>int16_t\<close>; the result \<^verbatim>\<open>-1\<close> for an
  unknown option is cast to \<^verbatim>\<open>uint8_t\<close> by \<^verbatim>\<open>assign_option\<close>.
\<close>

function get_option_index_from :: "int \<Rightarrow> nat option \<Rightarrow> sd_message \<Rightarrow> int" where
  "get_option_index_from i opt m =
     (if i < sint (of_nat (length (sdm_options m)) :: u16)
      then (if opt = Some (nat i) then i else get_option_index_from (i + 1) opt m)
      else - 1)"
  by pat_completeness auto
termination
  by (relation "measure (\<lambda>(i, _, m). nat (sint (of_nat (length (sdm_options m)) :: u16) - i))") auto

declare get_option_index_from.simps [simp del]

definition get_option_index :: "nat option \<Rightarrow> sd_message \<Rightarrow> int" where
  "get_option_index opt m = get_option_index_from 0 opt m"

definition assign_option :: "nat option \<Rightarrow> sd_message \<Rightarrow> 'a entry_scheme \<Rightarrow> 'a entry_scheme" where
  "assign_option opt m e = assign_option_index (word_of_int (get_option_index opt m)) e"

section \<open>Serialisation\<close>

definition entries_length :: "sd_message \<Rightarrow> u32" where
  "entries_length m = of_nat (length (sdm_entries m) * 16)"

definition options_length :: "sd_message \<Rightarrow> u32" where
  "options_length m = foldl (\<lambda>acc x. acc + of_nat (unat (sd_option_get_length x) + 3)) 0 (sdm_options m)"

definition sd_message_serialize :: "sd_message \<Rightarrow> sink" where
  "sd_message_serialize m =
     ser_then (header_serialize (sd_get_length m) (sdm_header m))
    (ser_then (serialize_u8 (sdm_flags m))
    (ser_then (serialize_u32 0 True)
    (ser_then (serialize_u32 (entries_length m) False)
    (ser_then (ser_all (map sd_entry_serialize (sdm_entries m)))
    (ser_then (serialize_u32 (options_length m) False)
              (ser_all (map sd_option_serialize (sdm_options m))))))))"

section \<open>Deserialisation\<close>

definition rmap :: "('a \<Rightarrow> 'b) \<Rightarrow> 'a reader \<Rightarrow> 'b reader" where
  "rmap f r = rbind r (\<lambda>v. rreturn (f v))"

text \<open>The \<^verbatim>\<open>switch\<close> that picks the class of the object, with the call of its \<^verbatim>\<open>deserialize\<close>.\<close>

definition entry_of_type :: "byte \<Rightarrow> sd_entry reader" where
  "entry_of_type t =
     (if t = FIND_SERVICE \<or> t = OFFER_SERVICE \<or> t = REQUEST_SERVICE
      then rmap ServiceEntry (serviceentry_deserialize serviceentry_init)
      else if t = FIND_EVENT_GROUP \<or> t = PUBLISH_EVENTGROUP \<or> t = SUBSCRIBE_EVENTGROUP
              \<or> t = SUBSCRIBE_EVENTGROUP_ACK
      then rmap EventgroupEntry (eventgroupentry_deserialize eventgroupentry_init)
      else rfail)"

definition option_of_type :: "byte \<Rightarrow> sd_option reader" where
  "option_of_type t =
     (if t = CONFIGURATION
      then rmap ConfigurationOption (configuration_option_deserialize configuration_option_init)
      else if t = LOAD_BALANCING
      then rmap LoadBalancingOption (load_balancing_option_deserialize load_balancing_option_init)
      else if t = PROTECTION
      then rmap ProtectionOption (protection_option_deserialize protection_option_init)
      else if t = IP4_ENDPOINT
      then rmap Ipv4Option (ipv4_option_deserialize (ipv4_option_init False))
      else if t = IP4_MULTICAST
      then rmap Ipv4Option (ipv4_option_deserialize (ipv4_option_init True))
      else if t = IP6_ENDPOINT
      then rmap Ipv6Option (ipv6_option_deserialize (ipv6_option_init False))
      else if t = IP6_MULTICAST
      then rmap Ipv6Option (ipv6_option_deserialize (ipv6_option_init True))
      else rmap UnknownOption (option_deserialize option_init))"

definition peek :: "nat \<Rightarrow> (byte \<Rightarrow> 'a reader) \<Rightarrow> 'a reader" where
  "peek i f d = do {
     t \<leftarrow> look_ahead_u8 i d;
     (case t of None \<Rightarrow> Some (None, d) | Some t \<Rightarrow> f t d) }"

definition deserialize_entry :: "sd_entry reader" where
  "deserialize_entry = peek 0 entry_of_type"

definition deserialize_option :: "sd_option reader" where
  "deserialize_option = peek 2 option_of_type"

text \<open>The body of the loop over the entries once an entry has been read.\<close>

fun same_subscription :: "sd_entry \<Rightarrow> sd_entry \<Rightarrow> bool" where
  "same_subscription (EventgroupEntry a) (EventgroupEntry b) \<longleftrightarrow>
     en_type a = SUBSCRIBE_EVENTGROUP \<and> eventgroupentry_eq a b"
| "same_subscription _ _ \<longleftrightarrow> False"

fun required_acks :: "sd_entry \<Rightarrow> byte" where
  "required_acks (EventgroupEntry e) =
     (if en_type e = SUBSCRIBE_EVENTGROUP \<and> 0 < en_ttl e
      then get_num_options 1 e + get_num_options 2 e else 0)"
| "required_acks (ServiceEntry e) = 0"

definition store_entry :: "sd_entry \<Rightarrow> sd_message \<Rightarrow> sd_message" where
  "store_entry e m =
     (if sd_entry_get_type e = SUBSCRIBE_EVENTGROUP
      then (if list_ex (\<lambda>e'. same_subscription e' e) (sdm_entries m) then m
            else m\<lparr>sdm_entries := sdm_entries m @ [e],
                   sdm_number_required_acks := sdm_number_required_acks m + required_acks e\<rparr>)
      else m\<lparr>sdm_entries := sdm_entries m @ [e]\<rparr>)"

text \<open>Every successful read of an entry or option consumes input, so the two loops end.\<close>

definition shrinks :: "'a reader \<Rightarrow> bool" where
  "shrinks r \<longleftrightarrow> (\<forall>d v d'. r d = Some (v, d') \<longrightarrow> des_remaining d' \<le> des_remaining d)"

definition progresses :: "'a reader \<Rightarrow> bool" where
  "progresses r \<longleftrightarrow> (\<forall>d v d'. r d = Some (Some v, d') \<longrightarrow> des_remaining d' < des_remaining d)"

named_theorems shrink "readers that do not enlarge the window"

lemma shrinks_u8 [shrink]: "shrinks deserialize_u8"
  by (auto simp: shrinks_def deserialize_u8_def next_byte_def consumed_def bind_eq_Some_conv split: if_splits)

lemma shrinks_u16 [shrink]: "shrinks deserialize_u16"
  by (auto simp: shrinks_def deserialize_u16_def next_byte_def consumed_def bind_eq_Some_conv split: if_splits)

lemma shrinks_u32 [shrink]: "shrinks (deserialize_u32 b)"
  by (auto simp: shrinks_def deserialize_u32_def next_byte_def consumed_def bind_eq_Some_conv split: if_splits)

lemma shrinks_bytes [shrink]: "shrinks (deserialize_bytes n)"
  by (auto simp: shrinks_def deserialize_bytes_def consumed_def split: if_splits)

lemma shrinks_return [shrink]: "shrinks (rreturn v)"
  by (simp add: shrinks_def rreturn_def)

lemma shrinks_fail [shrink]: "shrinks rfail"
  by (simp add: shrinks_def rfail_def)

lemma shrinks_set_remaining_0 [shrink]: "shrinks (\<lambda>d. Some (v, set_remaining 0 d))"
  by (simp add: shrinks_def set_remaining_def)

lemma shrinks_if [shrink]: "shrinks r \<Longrightarrow> shrinks q \<Longrightarrow> shrinks (if b then r else q)"
  by simp

lemma shrinks_bind [shrink]:
  "shrinks r \<Longrightarrow> (\<And>v. shrinks (f v)) \<Longrightarrow> shrinks (rbind r f)"
  unfolding shrinks_def rbind_def
  by (fastforce split: option.splits prod.splits intro: le_trans)

lemma progresses_u16: "progresses deserialize_u16"
  by (auto simp: progresses_def deserialize_u16_def next_byte_def consumed_def bind_eq_Some_conv split: if_splits)

lemma progresses_u8: "progresses deserialize_u8"
  by (auto simp: progresses_def dest: deserialize_u8_decreases)

lemma progresses_bind:
  "progresses r \<Longrightarrow> (\<And>v. shrinks (f v)) \<Longrightarrow> progresses (rbind r f)"
  unfolding shrinks_def progresses_def rbind_def
  by (fastforce split: option.splits prod.splits intro: le_less_trans)

lemma progresses_rmap: "progresses r \<Longrightarrow> progresses (rmap f r)"
  unfolding rmap_def by (erule progresses_bind) (rule shrinks_return)

lemma progresses_entry: "progresses (entry_deserialize e)"
  unfolding entry_deserialize_def Let_def by (rule progresses_bind [OF progresses_u8]) (intro shrink)

lemma progresses_option: "progresses (option_deserialize o1)"
  unfolding option_deserialize_def by (rule progresses_bind [OF progresses_u16]) (intro shrink)

lemma progresses_entries:
  "progresses (serviceentry_deserialize s)" "progresses (eventgroupentry_deserialize g)"
  unfolding serviceentry_deserialize_def eventgroupentry_deserialize_def Let_def
  by (rule progresses_bind [OF progresses_entry], intro shrink)+

lemma rtry_shrinks:
  "shrinks r \<Longrightarrow> rtry r x d = Some (v, d') \<Longrightarrow> des_remaining d' \<le> des_remaining d"
  unfolding rtry_def shrinks_def by (fastforce split: option.splits prod.splits)

lemma progresses_ip_option: "progresses (ip_option_deserialize n l o1)"
  unfolding progresses_def
proof (intro allI impI)
  fix d v d'
  assume "ip_option_deserialize n l o1 d = Some (Some v, d')"
  then obtain b d1 a d2 r d3 q d4 p where
    "option_deserialize o1 d = Some (Some b, d1)"
    "rtry (deserialize_bytes n) (ip_address b) d1 = Some (a, d2)"
    "rtry deserialize_u8 L4_UNKNOWN d2 = Some (r, d3)"
    "rtry deserialize_u8 r d3 = Some (q, d4)"
    "rtry deserialize_u16 (ip_port b) d4 = Some (p, d')"
    unfolding ip_option_deserialize_def Let_def
    by (auto split: option.splits if_splits simp: bind_eq_Some_conv simp del: L4_UNKNOWN_def)
  then show "des_remaining d' < des_remaining d"
    using progresses_option [of o1] rtry_shrinks shrinks_bytes shrinks_u8 shrinks_u16
    unfolding progresses_def by (meson le_trans le_less_trans)
qed

lemma shrinks_configuration_items [shrink]: "shrinks (configuration_items o1)"
proof -
  have "configuration_items o1 d = Some (v, d') \<Longrightarrow> des_remaining d' \<le> des_remaining d" for d v d'
  proof (induction o1 d arbitrary: v d' rule: configuration_items.induct)
    case (1 o1 d)
    have le: "deserialize_u8 d = Some (x, d1) \<Longrightarrow> des_remaining d1 \<le> des_remaining d"
      "deserialize_bytes n d1 = Some (y, d2) \<Longrightarrow> des_remaining d2 \<le> des_remaining d1" for x d1 n y d2
      using shrinks_u8 shrinks_bytes [of n] unfolding shrinks_def by blast+
    show ?case
      using "1.prems" le "1.IH"
      by (subst (asm) configuration_items.simps)
        (fastforce split: option.splits prod.splits if_splits simp: Let_def)
  qed
  then show ?thesis unfolding shrinks_def by blast
qed

lemma progresses_options:
  "progresses (configuration_option_deserialize c)"
  "progresses (load_balancing_option_deserialize l)"
  "progresses (protection_option_deserialize p)"
  unfolding configuration_option_deserialize_def load_balancing_option_deserialize_def
    protection_option_deserialize_def
  by (rule progresses_bind [OF progresses_option], intro shrink)+

lemma progresses_fail: "progresses rfail"
  by (simp add: progresses_def rfail_def)

lemma progresses_peek: "(\<And>t. progresses (f t)) \<Longrightarrow> progresses (peek i f)"
  unfolding progresses_def peek_def by (auto simp: bind_eq_Some_conv split: option.splits)

lemma progresses_deserialize_entry: "progresses deserialize_entry"
  unfolding deserialize_entry_def entry_of_type_def
  by (rule progresses_peek)
    (simp add: progresses_rmap progresses_entries progresses_fail)

lemma progresses_deserialize_option: "progresses deserialize_option"
  unfolding deserialize_option_def option_of_type_def ipv4_option_deserialize_def
    ipv6_option_deserialize_def
  by (rule progresses_peek)
    (simp add: progresses_rmap progresses_options progresses_option progresses_ip_option)

function deserialize_entries :: "sd_message \<Rightarrow> sd_message reader" where
  "deserialize_entries m d =
     (if get_remaining d = 0 then Some (Some m, d)
      else case deserialize_entry d of
             None \<Rightarrow> None
           | Some (None, d) \<Rightarrow> Some (None, d)
           | Some (Some its_entry, d) \<Rightarrow> deserialize_entries (store_entry its_entry m) d)"
  by pat_completeness auto
termination
  by (relation "measure (\<lambda>(_, d). des_remaining d)")
    (use progresses_deserialize_entry in \<open>auto simp: progresses_def\<close>)

function deserialize_options :: "sd_message \<Rightarrow> deserializer \<Rightarrow> (sd_message \<times> deserializer) ub" where
  "deserialize_options m d =
     (if get_remaining d = 0 then Some (m, d)
      else case deserialize_option d of
             None \<Rightarrow> None
           | Some (None, d) \<Rightarrow> Some (m, d)
           | Some (Some its_option, d) \<Rightarrow>
               deserialize_options (m\<lparr>sdm_options := sdm_options m @ [its_option]\<rparr>) d)"
  by pat_completeness auto
termination
  by (relation "measure (\<lambda>(_, d). des_remaining d)")
    (use progresses_deserialize_option in \<open>auto simp: progresses_def\<close>)

declare deserialize_entries.simps [simp del] deserialize_options.simps [simp del]

definition sd_prefix_deserialize :: "sd_message \<Rightarrow> (sd_message \<times> u32) reader" where
  "sd_prefix_deserialize m =
     rbind (header_deserialize (sdm_header m)) (\<lambda>h.
     rbind deserialize_u8 (\<lambda>flags.
     rbind (deserialize_u32 True) (\<lambda>reserved.
     rbind (deserialize_u32 False) (\<lambda>entries_length.
       rreturn (m\<lparr>sdm_header := h, sdm_flags := flags\<rparr>, entries_length)))))"

text \<open>
  \<open>sd_options_deserialize\<close> is the part behind the entries.  A failed read leaves
  \<^verbatim>\<open>is_successful\<close> false (here: no \<open>result\<close>); the method still adjusts the remaining length
  before it returns, and the message object is deleted by its caller.
\<close>

definition sd_options_deserialize :: "sd_message \<Rightarrow> sd_message option \<Rightarrow> sd_message reader" where
  "sd_options_deserialize m result d =
     (if get_remaining d = 0 then Some (result, d)
      else do {
        (its_length, d) \<leftarrow> (case result of
                              Some _ \<Rightarrow> deserialize_u32 False d
                            | None \<Rightarrow> Some (None, d));
        let options_length = (case its_length of Some n \<Rightarrow> n | None \<Rightarrow> sdm_options_length m);
        let d = (if unat options_length < get_remaining d
                 then set_remaining (unat options_length) d else d);
        (its_message, d) \<leftarrow> deserialize_options
          ((case result of Some m \<Rightarrow> m | None \<Rightarrow> m)\<lparr>sdm_options_length := options_length\<rparr>) d;
        Some (if result \<noteq> None \<and> its_length \<noteq> None then Some its_message else None, d) })"

definition sd_message_deserialize :: "sd_message \<Rightarrow> sd_message reader" where
  "sd_message_deserialize m d = do {
     (prefix, d) \<leftarrow> sd_prefix_deserialize m d;
     let entries_length = (case prefix of Some (_, n) \<Rightarrow> n | None \<Rightarrow> 0);
     let save_remaining = (of_nat (get_remaining d) :: u32);
     let d = set_remaining (unat entries_length) d;
     (result, d) \<leftarrow> (case prefix of
                       Some (m, _) \<Rightarrow> deserialize_entries m d
                     | None \<Rightarrow> Some (None, d));
     sd_options_deserialize m result (set_remaining (unat (save_remaining - entries_length)) d) }"

definition deserialize_sd_message :: "sd_message reader" where
  "deserialize_sd_message = sd_message_deserialize sd_message_init"

section \<open>Matching a stop-subscribe with a subscribe\<close>

text \<open>
  \<open>endpoint_options\<close> reads the IP endpoint options behind a list of indices.  An index past
  the options of the message is undefined behaviour; so is the static cast of an option
  that is not an object of the class its type announces.
\<close>

fun endpoint_options :: "sd_option list \<Rightarrow> byte list \<Rightarrow> ip_option list ub" where
  "endpoint_options opts [] = Some []"
| "endpoint_options opts (option_index # idxs) = do {
     x \<leftarrow> vec_get opts (unat option_index);
     found \<leftarrow> (if sd_option_get_type x = IP4_ENDPOINT
               then (case x of Ipv4Option ip \<Rightarrow> Some [ip] | _ \<Rightarrow> None)
               else if sd_option_get_type x = IP6_ENDPOINT
               then (case x of Ipv6Option ip \<Rightarrow> Some [ip] | _ \<Rightarrow> None)
               else Some []);
     rest \<leftarrow> endpoint_options opts idxs;
     Some (found @ rest) }"

definition same_endpoint :: "ip_option \<Rightarrow> ip_option \<Rightarrow> bool" where
  "same_endpoint c x \<longleftrightarrow> ip_option_eq c x
     \<and> (opt_type c = IP4_ENDPOINT \<or> opt_type c = IP6_ENDPOINT) \<and> ip_address c = ip_address x"

definition is_matching_subscribe :: "eventgroupentry \<Rightarrow> eventgroupentry \<Rightarrow> sd_option list \<Rightarrow> bool ub" where
  "is_matching_subscribe e other opts =
     (let key = (en_ttl e = 0 \<and> 0 < en_ttl other \<and> en_service e = en_service other
                 \<and> en_instance e = en_instance other \<and> eg_eventgroup e = eg_eventgroup other
                 \<and> en_major_version e = en_major_version other \<and> eg_counter e = eg_counter other);
          num = unat (en_num_options1 e) + unat (en_num_options2 e)
      in if key \<and> en_index1 e = en_index1 other \<and> en_index2 e = en_index2 other
            \<and> en_num_options1 e = en_num_options1 other \<and> en_num_options2 e = en_num_options2 other
         then Some True
         else if key
         then (if num \<noteq> unat (en_num_options1 other) + unat (en_num_options2 other) \<or> num = 0
               then Some False
               else do {
                 its_options_current \<leftarrow> endpoint_options opts (en_options1 e @ en_options2 e);
                 its_options_other \<leftarrow> endpoint_options opts (en_options1 other @ en_options2 other);
                 if its_options_current = [] \<or> its_options_other = [] then Some False
                 else Some (list_all (\<lambda>c. list_ex (same_endpoint c) its_options_other)
                              its_options_current) })
         else Some False)"

section \<open>Wire format\<close>

fun sd_entry_bytes :: "sd_entry \<Rightarrow> byte list" where
  "sd_entry_bytes (ServiceEntry e) = serviceentry_bytes e"
| "sd_entry_bytes (EventgroupEntry e) = eventgroupentry_bytes e"

definition sd_prefix_bytes :: "sd_message \<Rightarrow> byte list" where
  "sd_prefix_bytes m =
     header_bytes (sd_get_length m) (sdm_header m) @ [sdm_flags m] @ bytes24 0
     @ bytes32 (entries_length m)"

definition sd_message_bytes :: "sd_message \<Rightarrow> byte list" where
  "sd_message_bytes m =
     sd_prefix_bytes m @ concat (map sd_entry_bytes (sdm_entries m))
     @ bytes32 (options_length m) @ concat (map sd_option_bytes (sdm_options m))"

text \<open>What the sender has to respect: entries and options of the classes their type bytes name.\<close>

fun sd_entry_ok :: "sd_entry \<Rightarrow> bool" where
  "sd_entry_ok (ServiceEntry e) \<longleftrightarrow> en_type e \<in> {FIND_SERVICE, OFFER_SERVICE, REQUEST_SERVICE}
     \<and> entry_ok e \<and> take_bit 24 (en_ttl e) = en_ttl e"
| "sd_entry_ok (EventgroupEntry e) \<longleftrightarrow>
     en_type e \<in> {FIND_EVENT_GROUP, PUBLISH_EVENTGROUP, SUBSCRIBE_EVENTGROUP, SUBSCRIBE_EVENTGROUP_ACK}
     \<and> eventgroup_ok e"

fun sd_option_ok :: "sd_option \<Rightarrow> bool" where
  "sd_option_ok (Ipv4Option x) \<longleftrightarrow> opt_type x \<in> {IP4_ENDPOINT, IP4_MULTICAST} \<and> ip_option_ok 4 9 x"
| "sd_option_ok (Ipv6Option x) \<longleftrightarrow> opt_type x \<in> {IP6_ENDPOINT, IP6_MULTICAST} \<and> ip_option_ok 16 21 x"
| "sd_option_ok (LoadBalancingOption x) \<longleftrightarrow> opt_type x = LOAD_BALANCING \<and> opt_length x = 5"
| "sd_option_ok (ProtectionOption x) \<longleftrightarrow> opt_type x = PROTECTION \<and> opt_length x = 9"
| "sd_option_ok _ \<longleftrightarrow> False"

definition sd_message_ok :: "sd_message \<Rightarrow> bool" where
  "sd_message_ok m \<longleftrightarrow> list_all sd_entry_ok (sdm_entries m) \<and> list_all sd_option_ok (sdm_options m)
     \<and> length (sd_message_bytes m) < 2 ^ 32"

text \<open>What the receiver records of an entry and of a message.\<close>

fun sd_entry_received :: "sd_entry \<Rightarrow> sd_entry" where
  "sd_entry_received (ServiceEntry e) = ServiceEntry (normal_entry e)"
| "sd_entry_received (EventgroupEntry e) =
     EventgroupEntry ((normal_entry e)\<lparr>eg_target_reliable := None, eg_target_unreliable := None\<rparr>)"

definition sd_received_prefix :: "sd_message \<Rightarrow> sd_message" where
  "sd_received_prefix m = sd_message_init
     \<lparr>sdm_header := (sdm_header m)\<lparr>hdr_length := sd_get_length m, hdr_instance := 0\<rparr>,
      sdm_flags := sdm_flags m\<rparr>"

definition sd_received :: "sd_message \<Rightarrow> sd_message" where
  "sd_received m = (fold store_entry (map sd_entry_received (sdm_entries m)) (sd_received_prefix m))
     \<lparr>sdm_options_length := options_length m, sdm_options := sdm_options m\<rparr>"

lemma length_sd_entry_bytes [simp]: "length (sd_entry_bytes e) = 16"
  by (cases e) simp_all

lemma length_entries_bytes: "length (concat (map sd_entry_bytes es)) = 16 * length es"
  by (induction es) simp_all

lemma length_sd_prefix_bytes [simp]: "length (sd_prefix_bytes m) = 24"
  by (simp add: sd_prefix_bytes_def)

lemma length_sd_option_bytes:
  "sd_option_ok x \<Longrightarrow> length (sd_option_bytes x) = unat (sd_option_get_length x) + 3"
  by (cases x) (simp_all add: ip_option_ok_def ip_option_bytes_def load_balancing_option_bytes_def
      protection_option_bytes_def)

lemma foldl_options_length:
  "list_all sd_option_ok xs \<Longrightarrow>
     foldl (\<lambda>acc x. acc + of_nat (unat (sd_option_get_length x) + 3)) acc xs
       = acc + of_nat (length (concat (map sd_option_bytes xs)))"
proof (induction xs arbitrary: acc)
  case (Cons x xs)
  then have "foldl (\<lambda>acc x. acc + of_nat (unat (sd_option_get_length x) + 3)) acc (x # xs)
      = acc + of_nat (length (sd_option_bytes x)) + of_nat (length (concat (map sd_option_bytes xs)))"
    by (simp add: length_sd_option_bytes)
  then show ?case by (simp add: add.assoc)
qed simp

lemma options_length_eq:
  "list_all sd_option_ok (sdm_options m) \<Longrightarrow>
     options_length m = of_nat (length (concat (map sd_option_bytes (sdm_options m))))"
  by (simp only: options_length_def foldl_options_length) simp

lemma writes_sd_entry [wire]: "sd_entry_ok e \<Longrightarrow> writes (sd_entry_serialize e) (sd_entry_bytes e)"
  by (cases e) (simp_all add: writes_serviceentry writes_eventgroupentry eventgroup_ok_def)

lemma writes_sd_message [wire]:
  assumes "list_all sd_entry_ok (sdm_entries m)"
  shows "writes (sd_message_serialize m) (sd_message_bytes m)"
  unfolding sd_message_serialize_def sd_message_bytes_def sd_prefix_bytes_def append_assoc
  using assms by (intro writes_then writes_header writes_u8 writes_u24 writes_u32 writes_map
      writes_sd_entry writes_sd_option) (simp add: list_all_iff)

section \<open>Reading back\<close>

lemma reads_rmap: "reads_as r bs v \<Longrightarrow> reads_as (rmap f r) bs (f v)"
  unfolding rmap_def using reads_bind [OF _ reads_return, of r bs v] by simp

lemma reads_peek:
  assumes "reads_as (f (bs ! i)) bs v" and "i < length bs"
  shows "reads_as (peek i f) bs v"
  unfolding reads_as_def
proof (intro allI impI)
  fix d assume s: "starts d bs"
  then have "i < length (des_data d)"
    using starts_nth(1) [OF s assms(2)] by simp
  then have "look_ahead_u8 i d = Some (Some (bs ! i))"
    using starts_nth [OF s assms(2)] by (simp add: look_ahead_u8_def)
  then show "peek i f d = Some (Some v, advance (length bs) d)"
    using reads_asD [OF assms(1) s] by (simp add: peek_def)
qed

lemma reads_deserialize_entry:
  assumes "sd_entry_ok e"
  shows "reads_as deserialize_entry (sd_entry_bytes e) (sd_entry_received e)"
proof -
  have first: "sd_entry_bytes e ! 0 = sd_entry_get_type e"
    by (cases e) (simp_all add: serviceentry_bytes_def eventgroupentry_bytes_def entry_bytes_def)
  have "reads_as (entry_of_type (sd_entry_get_type e)) (sd_entry_bytes e) (sd_entry_received e)"
    using assms reads_rmap [OF reads_serviceentry] reads_rmap [OF reads_eventgroupentry]
    by (cases e) (auto simp: entry_of_type_def)
  then show ?thesis
    unfolding deserialize_entry_def by (intro reads_peek) (simp_all add: first)
qed

lemma reads_deserialize_option:
  assumes "sd_option_ok x"
  shows "reads_as deserialize_option (sd_option_bytes x) x"
proof -
  have third: "sd_option_bytes x ! 2 = sd_option_get_type x"
    by (cases x) (simp_all add: configuration_option_bytes_def load_balancing_option_bytes_def
        protection_option_bytes_def ip_option_bytes_def option_bytes_def bytes16_def)
  have "reads_as (option_of_type (sd_option_get_type x)) (sd_option_bytes x) x"
    using assms
    by (cases x) (auto simp: option_of_type_def ipv4_option_deserialize_def
        ipv6_option_deserialize_def known_option_type_def
        intro!: reads_rmap reads_ip_option reads_load_balancing_option reads_protection_option)
  moreover have "2 < length (sd_option_bytes x)"
    using assms by (cases x) (simp_all add: ip_option_bytes_def load_balancing_option_bytes_def
        protection_option_bytes_def)
  ultimately show ?thesis
    unfolding deserialize_option_def by (intro reads_peek) (simp_all add: third)
qed

lemma starts_set_remaining:
  "starts d bs \<Longrightarrow> length bs \<le> n \<Longrightarrow> n \<le> des_remaining d \<Longrightarrow> starts (set_remaining n d) bs"
  by (auto simp: starts_def set_remaining_def des_wf_def)

lemma deserialize_entries_end: "des_remaining d = 0 \<Longrightarrow> deserialize_entries m d = Some (Some m, d)"
  by (subst deserialize_entries.simps) (simp add: get_remaining_def)

lemma deserialize_entries_step:
  "0 < des_remaining d \<Longrightarrow> deserialize_entry d = Some (Some e, d') \<Longrightarrow>
     deserialize_entries m d = deserialize_entries (store_entry e m) d'"
  by (subst deserialize_entries.simps) (simp add: get_remaining_def)

lemma deserialize_options_end: "des_remaining d = 0 \<Longrightarrow> deserialize_options m d = Some (m, d)"
  by (subst deserialize_options.simps) (simp add: get_remaining_def)

lemma deserialize_options_step:
  "0 < des_remaining d \<Longrightarrow> deserialize_option d = Some (Some x, d') \<Longrightarrow>
     deserialize_options m d = deserialize_options (m\<lparr>sdm_options := sdm_options m @ [x]\<rparr>) d'"
  by (subst deserialize_options.simps) (simp add: get_remaining_def)

lemma deserialize_entries_reads:
  assumes "list_all sd_entry_ok es" and "starts d (concat (map sd_entry_bytes es))"
    and "des_remaining d = 16 * length es"
  shows "deserialize_entries m d
    = Some (Some (fold store_entry (map sd_entry_received es) m), advance (16 * length es) d)"
  using assms
proof (induction es arbitrary: m d)
  case Nil
  then show ?case by (simp add: deserialize_entries_end)
next
  case (Cons e es)
  from Cons.prems(2) have s: "starts d (sd_entry_bytes e)"
    "starts (advance 16 d) (concat (map sd_entry_bytes es))"
    by (simp_all add: starts_append)
  have "deserialize_entry d = Some (Some (sd_entry_received e), advance 16 d)"
    using reads_asD [OF reads_deserialize_entry s(1)] Cons.prems(1) by simp
  then have "deserialize_entries m d = deserialize_entries (store_entry (sd_entry_received e) m) (advance 16 d)"
    using Cons.prems(3) by (intro deserialize_entries_step) simp_all
  with Cons.IH [OF _ s(2)] Cons.prems show ?case by simp
qed

lemma deserialize_options_reads:
  assumes "list_all sd_option_ok xs" and "starts d (concat (map sd_option_bytes xs))"
    and "des_remaining d = length (concat (map sd_option_bytes xs))"
  shows "deserialize_options m d = Some (m\<lparr>sdm_options := sdm_options m @ xs\<rparr>,
    advance (length (concat (map sd_option_bytes xs))) d)"
  using assms
proof (induction xs arbitrary: m d)
  case Nil
  then show ?case by (simp add: deserialize_options_end)
next
  case (Cons x xs)
  let ?n = "length (sd_option_bytes x)"
  from Cons.prems(2) have s: "starts d (sd_option_bytes x)"
    "starts (advance ?n d) (concat (map sd_option_bytes xs))"
    by (simp_all add: starts_append)
  have "deserialize_option d = Some (Some x, advance ?n d)"
    using reads_asD [OF reads_deserialize_option s(1)] Cons.prems(1) by simp
  then have "deserialize_options m d
      = deserialize_options (m\<lparr>sdm_options := sdm_options m @ [x]\<rparr>) (advance ?n d)"
    using Cons.prems length_sd_option_bytes [of x] by (intro deserialize_options_step) simp_all
  with Cons.IH [OF _ s(2)] Cons.prems show ?case by simp
qed

lemma reads_sd_prefix:
  "reads_as (sd_prefix_deserialize sd_message_init) (sd_prefix_bytes m)
     (sd_received_prefix m, entries_length m)"
  unfolding sd_prefix_deserialize_def sd_prefix_bytes_def
  by (rule reads_eq, (rule reads_bind reads_header reads_u8 reads_u24 reads_u32 reads_return)+)
    (simp_all add: sd_received_prefix_def sd_message_init_def header_init_def)

lemma store_entry_keeps [simp]:
  "sdm_options (store_entry e m) = sdm_options m"
  "sdm_header (store_entry e m) = sdm_header m"
  "sdm_flags (store_entry e m) = sdm_flags m"
  by (simp_all add: store_entry_def)

lemma fold_store_entry_options [simp]: "sdm_options (fold store_entry es m) = sdm_options m"
  by (induction es arbitrary: m) simp_all

lemma set_remaining_restores:
  "set_remaining (des_remaining d - n) (advance n (set_remaining n d)) = advance n d"
  by (simp add: set_remaining_def advance_def)

lemma unat_of_nat_u32: "n < 2 ^ 32 \<Longrightarrow> unat (of_nat n :: u32) = n"
  by (simp add: unat_of_nat take_bit_nat_eq_self)

lemma deserialize_sd_message_reads:
  assumes "sd_message_ok m"
  shows "deserialize_sd_message (des_init_data (sd_message_bytes m) t)
    = Some (Some (sd_received m), advance (length (sd_message_bytes m)) (des_init_data (sd_message_bytes m) t))"
proof -
  let ?es = "concat (map sd_entry_bytes (sdm_entries m))"
  let ?os = "concat (map sd_option_bytes (sdm_options m))"
  let ?d = "des_init_data (sd_message_bytes m) t"
  define E where "E = 16 * length (sdm_entries m)"
  define N where "N = length ?os"
  define d1 where "d1 = advance 24 ?d"
  have len: "length (sd_message_bytes m) = 28 + E + N" and small: "28 + E + N < 2 ^ 32"
    using assms by (simp_all add: sd_message_ok_def sd_message_bytes_def length_entries_bytes E_def N_def)
  have ok: "list_all sd_entry_ok (sdm_entries m)" "list_all sd_option_ok (sdm_options m)"
    using assms by (simp_all add: sd_message_ok_def)
  have "starts ?d (sd_prefix_bytes m @ ?es @ bytes32 (options_length m) @ ?os)"
    using starts_init [of "sd_message_bytes m" t] by (simp only: sd_message_bytes_def)
  then have s: "starts ?d (sd_prefix_bytes m)" "starts d1 ?es"
    "starts (advance E d1) (bytes32 (options_length m))" "starts (advance (E + 4) d1) ?os"
    by (simp_all only: starts_append length_sd_prefix_bytes length_bytes length_entries_bytes
        d1_def E_def advance_advance add.assoc)
  have rem: "des_remaining d1 = E + 4 + N"
    by (simp add: d1_def len des_init_data_def)
  have el: "unat (entries_length m) = E"
    unfolding entries_length_def E_def mult.commute [of 16]
    by (rule unat_of_nat_u32) (use small in \<open>simp add: E_def\<close>)
  have ol: "unat (options_length m) = N"
    unfolding options_length_eq [OF ok(2)] N_def
    by (rule unat_of_nat_u32) (use small in \<open>simp add: N_def\<close>)
  have "(of_nat (E + 4 + N) :: u32) - entries_length m = of_nat (4 + N)"
    by (simp add: entries_length_def E_def mult.commute)
  then have left: "unat ((of_nat (get_remaining d1) :: u32) - entries_length m) = 4 + N"
    using small rem unat_of_nat_u32 [of "4 + N"] by (simp only: get_remaining_def)
  have prefix: "sd_prefix_deserialize sd_message_init ?d
      = Some (Some (sd_received_prefix m, entries_length m), d1)"
    using reads_asD [OF reads_sd_prefix s(1)] by (simp add: d1_def)
  have entries: "deserialize_entries (sd_received_prefix m) (set_remaining E d1)
      = Some (Some (fold store_entry (map sd_entry_received (sdm_entries m)) (sd_received_prefix m)),
              advance E (set_remaining E d1))" (is "_ = Some (Some ?m1, _)")
    unfolding E_def
    by (rule deserialize_entries_reads [OF ok(1) starts_set_remaining [OF s(2)]])
      (simp_all add: length_entries_bytes rem E_def set_remaining_def)
  have restore: "set_remaining (4 + N) (advance E (set_remaining E d1)) = advance E d1"
    using set_remaining_restores [of d1 E] rem by simp
  have "deserialize_u32 False (advance E d1) = Some (Some (options_length m), advance (E + 4) d1)"
    using reads_asD [OF reads_u32 s(3)] by simp
  moreover have "deserialize_options (?m1\<lparr>sdm_options_length := options_length m\<rparr>) (advance (E + 4) d1)
      = Some (sd_received m, advance (E + 4 + N) d1)"
    using deserialize_options_reads [OF ok(2) s(4)] rem
    by (simp add: N_def [symmetric] sd_received_def sd_received_prefix_def sd_message_init_def)
  ultimately show ?thesis
    unfolding deserialize_sd_message_def sd_message_deserialize_def sd_options_deserialize_def
    using rem len
    by (simp add: prefix el entries left [unfolded get_remaining_def rem, simplified] restore ol
        get_remaining_def Let_def)
      (simp add: d1_def add.assoc)
qed

section \<open>Subscriptions of a received message\<close>

text \<open>No two stored entries are the same subscription, and the acknowledgements are counted.\<close>

definition subscriptions_inv :: "sd_message \<Rightarrow> bool" where
  "subscriptions_inv m \<longleftrightarrow> sorted_wrt (\<lambda>a b. \<not> (sd_entry_get_type b = SUBSCRIBE_EVENTGROUP
       \<and> same_subscription a b)) (sdm_entries m)
     \<and> sdm_number_required_acks m = sum_list (map required_acks (sdm_entries m))"

lemma required_acks_other: "sd_entry_get_type e \<noteq> SUBSCRIBE_EVENTGROUP \<Longrightarrow> required_acks e = 0"
  by (cases e) simp_all

lemma subscriptions_inv_store: "subscriptions_inv m \<Longrightarrow> subscriptions_inv (store_entry e m)"
  by (auto simp: subscriptions_inv_def store_entry_def sorted_wrt_append list_ex_iff required_acks_other
      simp del: SUBSCRIBE_EVENTGROUP_def)

lemma subscriptions_inv_fold: "subscriptions_inv m \<Longrightarrow> subscriptions_inv (fold store_entry es m)"
  by (induction es arbitrary: m) (simp_all add: subscriptions_inv_store)

lemma deserialize_entries_inv:
  "deserialize_entries m d = Some (Some m', d') \<Longrightarrow> subscriptions_inv m \<Longrightarrow> subscriptions_inv m'"
proof (induction m d arbitrary: m' d' rule: deserialize_entries.induct)
  case (1 m d)
  show ?case
  proof (cases "get_remaining d = 0")
    case True
    with 1 show ?thesis by (subst (asm) deserialize_entries.simps) simp
  next
    case False
    with "1.prems"(1) obtain e d1 where "deserialize_entry d = Some (Some e, d1)"
      "deserialize_entries (store_entry e m) d1 = Some (Some m', d')"
      by (subst (asm) deserialize_entries.simps) (auto split: option.splits)
    with False "1.IH" "1.prems"(2) show ?thesis
      by (metis subscriptions_inv_store)
  qed
qed

lemma deserialize_options_keeps:
  "deserialize_options m d = Some (m', d') \<Longrightarrow>
     sdm_entries m' = sdm_entries m \<and> sdm_number_required_acks m' = sdm_number_required_acks m"
proof (induction m d arbitrary: m' d' rule: deserialize_options.induct)
  case (1 m d)
  show ?case
  proof (cases "get_remaining d = 0")
    case True
    with 1 show ?thesis by (subst (asm) deserialize_options.simps) simp
  next
    case False
    with "1.prems" 1 consider "m' = m"
      | x d1 where "deserialize_option d = Some (Some x, d1)"
          "deserialize_options (m\<lparr>sdm_options := sdm_options m @ [x]\<rparr>) d1 = Some (m', d')"
      by (subst (asm) deserialize_options.simps) (auto split: option.splits)
    then show ?thesis
      using "1.IH" [OF False] by cases fastforce+
  qed
qed

section \<open>Staying inside the buffer\<close>

lemma look_ahead_0: "des_wf d \<Longrightarrow> 0 < des_remaining d \<Longrightarrow>
    look_ahead_u8 0 d = Some (Some (des_data d ! des_position d))"
  by (auto simp: look_ahead_u8_def des_wf_def)

lemma safe_rmap [safe]: "safe_reader r \<Longrightarrow> safe_reader (rmap f r)"
  unfolding rmap_def by (intro safe)

lemma safe_entry_of_type [safe]: "safe_reader (entry_of_type t)"
  unfolding entry_of_type_def by (intro safe)

lemma safe_option_of_type [safe]: "safe_reader (option_of_type t)"
  unfolding option_of_type_def ipv4_option_deserialize_def ipv6_option_deserialize_def by (intro safe)

lemma safe_deserialize_entry:
  assumes "des_wf d" and "0 < des_remaining d"
  obtains v d' where "deserialize_entry d = Some (v, d')" and "des_wf d'" and "within d d'"
  using safe_readerE [OF safe_entry_of_type assms(1)] look_ahead_0 [OF assms]
  by (auto simp: deserialize_entry_def peek_def)

lemma safe_deserialize_option:
  assumes "des_wf d" and "3 \<le> des_remaining d"
  obtains v d' where "deserialize_option d = Some (v, d')" and "des_wf d'" and "within d d'"
proof -
  have "look_ahead_u8 2 d = Some (Some (des_data d ! (des_position d + 2)))"
    using assms by (simp add: look_ahead_u8_def des_wf_def)
  then show thesis
    using safe_readerE [OF safe_option_of_type assms(1)] that
    by (auto simp: deserialize_option_def peek_def)
qed

lemma safe_deserialize_entries: "safe_reader (deserialize_entries m)"
proof (rule safe_readerI)
  fix d assume "des_wf d"
  then show "\<exists>v d'. deserialize_entries m d = Some (v, d') \<and> within d d'"
  proof (induction m d rule: deserialize_entries.induct)
    case (1 m d)
    show ?case
    proof (cases "get_remaining d = 0")
      case True
      then show ?thesis by (simp add: deserialize_entries_end get_remaining_def)
    next
      case False
      with "1.prems" obtain v d1 where d1: "deserialize_entry d = Some (v, d1)" "des_wf d1" "within d d1"
        using safe_deserialize_entry by (auto simp: get_remaining_def)
      show ?thesis
      proof (cases v)
        case None
        with False d1 show ?thesis by (subst deserialize_entries.simps) simp
      next
        case (Some e)
        from "1.IH" [OF False d1(1) refl Some d1(2)] False d1 Some show ?thesis
          by (subst deserialize_entries.simps) (auto intro: within_trans)
      qed
    qed
  qed
qed

section \<open>Properties\<close>

lemma store_entry_fresh:
  assumes "sorted_wrt (\<lambda>a b. \<not> same_subscription a b) (sdm_entries m @ es)"
  shows "sdm_entries (fold store_entry es m) = sdm_entries m @ es"
  using assms
proof (induction es arbitrary: m)
  case (Cons e es)
  then have "sdm_entries (store_entry e m) = sdm_entries m @ [e]"
    by (auto simp: store_entry_def sorted_wrt_append list_ex_iff simp del: SUBSCRIBE_EVENTGROUP_def)
  with Cons show ?case by simp
qed simp

text \<open>
  C3. Service-discovery messages survive the wire: the receiver gets header, flags, all
  options and all entries back, in order, and leaves nothing of the buffer unread.  The message
  may have service and eventgroup entries, with fields that fit their width on the wire and
  runs of fewer than sixteen options, and these options: IPv4 and IPv6 endpoints and
  multicast addresses, load balancing and protection, each of the class its type names.  It
  has no configuration option and none of an unknown type (a configuration option is
  not read back as it was written, \<open>configuration_value_padded\<close>), does not contain a
  subscription twice, and is shorter than 4 GiB.  An entry is received with its counts
  of options filled in and without the targets a sender has resolved.
\<close>

theorem sd_message_roundtrip:
  assumes "sd_message_ok m"
    and "sorted_wrt (\<lambda>a b. \<not> same_subscription a b) (map sd_entry_received (sdm_entries m))"
  shows "sd_message_serialize m (ser_init s) = (True, (ser_init s)\<lparr>ser_data := sd_message_bytes m\<rparr>)
    \<and> (\<exists>m' d. deserialize_sd_message (des_init_data (sd_message_bytes m) t) = Some (Some m', d)
        \<and> get_remaining d = 0
        \<and> sdm_header m' = (sdm_header m)\<lparr>hdr_length := sd_get_length m, hdr_instance := 0\<rparr>
        \<and> sdm_flags m' = sdm_flags m
        \<and> sdm_entries m' = map sd_entry_received (sdm_entries m)
        \<and> sdm_options m' = sdm_options m)"
proof -
  have "sdm_header (fold store_entry es m0) = sdm_header m0 \<and> sdm_flags (fold store_entry es m0) = sdm_flags m0"
    for es m0 by (induction es arbitrary: m0) simp_all
  then have "sdm_header (sd_received m) = (sdm_header m)\<lparr>hdr_length := sd_get_length m, hdr_instance := 0\<rparr>"
    "sdm_flags (sd_received m) = sdm_flags m" "sdm_options (sd_received m) = sdm_options m"
    by (simp_all add: sd_received_def sd_received_prefix_def)
  moreover have "sdm_entries (sd_received m) = map sd_entry_received (sdm_entries m)"
    using assms(2) by (simp add: sd_received_def store_entry_fresh sd_received_prefix_def sd_message_init_def)
  moreover have "sd_message_serialize m (ser_init s) = (True, (ser_init s)\<lparr>ser_data := sd_message_bytes m\<rparr>)"
    using writesD [OF writes_sd_message, of m "ser_init s"] assms(1) by (simp add: sd_message_ok_def ser_init_def)
  ultimately show ?thesis
    using deserialize_sd_message_reads [OF assms(1)] by (simp add: get_remaining_def des_init_data_def)
qed

definition sample_sd_message :: sd_message where
  "sample_sd_message = (create_sd_message 1)
     \<lparr>sdm_entries := [ServiceEntry sample_offer, EventgroupEntry sample_subscribe],
      sdm_options := [Ipv4Option sample_ipv4, Ipv6Option sample_ipv6]\<rparr>"

lemma sample_sd_message_ok: "sd_message_ok sample_sd_message"
  using ip_option_ok_samples eventgroup_ok_sample
  by (simp add: sd_message_ok_def sample_sd_message_def sd_message_bytes_def ip_option_bytes_def)
    (simp add: sample_ipv4_def sample_ipv6_def sample_offer_def sample_subscribe_def ip_option_ok_def
      set_port_def set_layer_four_protocol_def ipv4_set_address_def ipv6_set_address_def
      ipv4_option_init_def ipv6_option_init_def serviceentry_init_def entry_ok_def is_run_01)

theorem sd_message_roundtrip_witness:
  "\<exists>m' d. deserialize_sd_message (des_init_data (sd_message_bytes sample_sd_message) 0) = Some (Some m', d)
     \<and> length (sdm_entries m') = 2 \<and> sdm_options m' = [Ipv4Option sample_ipv4, Ipv6Option sample_ipv6]"
proof -
  have "sorted_wrt (\<lambda>a b. \<not> same_subscription a b) (map sd_entry_received (sdm_entries sample_sd_message))"
    by (simp add: sample_sd_message_def)
  from sd_message_roundtrip [OF sample_sd_message_ok this, of 0 0] show ?thesis
    by (auto simp: sample_sd_message_def)
qed

lemma sd_get_length_eq:
  assumes "list_all sd_option_ok (sdm_options m)"
  shows "sd_get_length m + (if sdm_entries m = [] then 12 else 8) = of_nat (length (sd_message_bytes m))"
  unfolding sd_get_length_def Let_def foldl_options_length [OF assms]
  by (simp add: sd_message_bytes_def length_entries_bytes)

text \<open>
  The length field of a service-discovery message with entries counts exactly the
  bytes that follow it.  For a message without entries it is four short: the entries length
  field is then written, but not counted.
\<close>

theorem sd_length_field:
  assumes "sd_message_ok m"
  shows "length (sd_message_bytes m)
    = unat (sd_get_length m) + (if sdm_entries m = [] then 12 else 8)"
proof -
  let ?n = "length (sd_message_bytes m)" and ?k = "if sdm_entries m = [] then 12 else 8 :: nat"
  have "?k \<le> ?n" "?n < 2 ^ 32" "list_all sd_option_ok (sdm_options m)"
    using assms by (simp_all add: sd_message_ok_def sd_message_bytes_def)
  moreover from this have "sd_get_length m = of_nat (?n - ?k)"
    using sd_get_length_eq [of m] by (simp add: algebra_simps of_nat_diff split: if_splits)
  ultimately show ?thesis
    using unat_of_nat_u32 [of "?n - ?k"] by simp
qed

theorem sd_length_field_witness:
  "length (sd_message_bytes sample_sd_message) = unat (sd_get_length sample_sd_message) + 8
   \<and> length (sd_message_bytes (create_sd_message 1)) = unat (sd_get_length (create_sd_message 1)) + 12"
proof -
  have empty: "sdm_entries (create_sd_message 1) = []" "sdm_options (create_sd_message 1) = []"
    by (simp_all add: create_sd_message_def set_unicast_flag_def sd_message_init_def)
  then have "sd_message_ok (create_sd_message 1)"
    by (simp add: sd_message_ok_def sd_message_bytes_def)
  from sd_length_field [OF this] sd_length_field [OF sample_sd_message_ok] empty show ?thesis
    by (simp add: sample_sd_message_def)
qed

lemma sd_options_deserialize_result:
  assumes "sd_options_deserialize m0 result d = Some (Some m, d')"
  obtains m1 where "result = Some m1" and "sdm_entries m = sdm_entries m1"
    and "sdm_number_required_acks m = sdm_number_required_acks m1"
proof (cases result)
  case None
  with assms show thesis
    by (auto simp: sd_options_deserialize_def bind_eq_Some_conv Let_def split: if_splits)
next
  case (Some m1)
  with assms have "m = m1 \<or> (\<exists>ol d3 d4. deserialize_options (m1\<lparr>sdm_options_length := ol\<rparr>) d3 = Some (m, d4))"
    by (auto simp: sd_options_deserialize_def bind_eq_Some_conv Let_def split: if_splits)
  then show thesis
    using that [OF Some] deserialize_options_keeps by fastforce
qed

text \<open>
  C36. Whatever bytes arrive, an accepted message holds no subscription twice, and the
  number of acknowledgements it requires is the number of options its live subscriptions
  refer to, modulo 256.
\<close>

theorem received_subscriptions_unique:
  assumes "deserialize_sd_message d = Some (Some m, d')"
  shows "subscriptions_inv m"
proof -
  from assms obtain p d1 r d2 d3 where
    prefix: "sd_prefix_deserialize sd_message_init d = Some (p, d1)" and
    entries: "(case p of Some (m, n) \<Rightarrow> deserialize_entries m (set_remaining (unat n) d1)
               | None \<Rightarrow> Some (None, set_remaining 0 d1)) = Some (r, d2)" and
    tail: "sd_options_deserialize sd_message_init r d3 = Some (Some m, d')"
    unfolding deserialize_sd_message_def sd_message_deserialize_def Let_def
    by (force simp: bind_eq_Some_conv split: option.splits prod.splits)
  from tail obtain m1 where r: "r = Some m1" and same: "sdm_entries m = sdm_entries m1"
    "sdm_number_required_acks m = sdm_number_required_acks m1"
    by (rule sd_options_deserialize_result)
  from entries r obtain m0 n where p: "p = Some (m0, n)" and
    entries': "deserialize_entries m0 (set_remaining (unat n) d1) = Some (Some m1, d2)"
    by (auto split: option.splits prod.splits)
  have "sdm_entries m0 = []" "sdm_number_required_acks m0 = 0"
    using prefix p by (auto simp: sd_prefix_deserialize_def rbind_def rreturn_def sd_message_init_def
        split: option.splits prod.splits)
  then have "subscriptions_inv m1"
    by (intro deserialize_entries_inv [OF entries']) (simp add: subscriptions_inv_def)
  with same show ?thesis
    by (simp add: subscriptions_inv_def)
qed

theorem received_subscriptions_unique_witness:
  "\<exists>m. subscriptions_inv m \<and> deserialize_sd_message (des_init_data (sd_message_bytes sample_sd_message) 0)
     \<in> {Some (Some m, d) | d. True}"
  using received_subscriptions_unique [OF deserialize_sd_message_reads [OF sample_sd_message_ok]]
    deserialize_sd_message_reads [OF sample_sd_message_ok, of 0] by blast

text \<open>A message with nothing behind the entries length field.\<close>

definition bare_sd_message :: "u32 \<Rightarrow> message_header \<Rightarrow> byte \<Rightarrow> u32 \<Rightarrow> byte list" where
  "bare_sd_message len h flags n = header_bytes len h @ [flags] @ bytes24 0 @ bytes32 n"

lemma bare_prefix:
  "reads_as (sd_prefix_deserialize sd_message_init) (bare_sd_message len h flags n)
     (sd_message_init\<lparr>sdm_header := h\<lparr>hdr_length := len, hdr_instance := 0\<rparr>, sdm_flags := flags\<rparr>, n)"
  unfolding sd_prefix_deserialize_def bare_sd_message_def
  by (rule reads_eq, (rule reads_bind reads_header reads_u8 reads_u24 reads_u32 reads_return)+)
    (simp_all add: sd_message_init_def header_init_def)

lemma length_bare [simp]: "length (bare_sd_message len h flags n) = 24"
  by (simp add: bare_sd_message_def)

text \<open>
  C38. The entries length field of a received message is not compared with what was
  received: a message that announces entries but ends after the field makes \<open>look_ahead\<close>
  dereference the end of the buffer.
\<close>

theorem entries_length_unchecked:
  assumes "n \<noteq> 0"
  shows "deserialize_sd_message (des_init_data (bare_sd_message len h flags n) t) = None"
proof -
  let ?d = "des_init_data (bare_sd_message len h flags n) t"
  let ?d1 = "set_remaining (unat n) (advance 24 ?d)"
  have "0 < unat n"
    using assms by (simp add: unat_gt_0)
  moreover have "look_ahead_u8 0 ?d1 = None"
    by (simp add: look_ahead_u8_def vec_get_def des_init_data_def set_remaining_def advance_def
        flip: length_greater_0_conv)
  ultimately have "deserialize_entries m ?d1 = None" for m
    by (subst deserialize_entries.simps)
      (simp add: deserialize_entry_def peek_def get_remaining_def set_remaining_def)
  then show ?thesis
    using reads_asD [OF bare_prefix [of len h flags n] starts_init [of _ t]]
    by (simp add: deserialize_sd_message_def sd_message_deserialize_def)
qed

theorem entries_length_unchecked_witness:
  "deserialize_sd_message (des_init_data (bare_sd_message 24 header_init 0xC0 16) 0) = None"
  using entries_length_unchecked [of 16 24 header_init "0xC0" 0] by simp

text \<open>
  An options array of one or two bytes at the end of the buffer is read past its end as
  well: the option type is looked ahead without regard to the bytes left.
\<close>

theorem option_type_read_past_end:
  "deserialize_sd_message (des_init_data (bare_sd_message len h flags 0 @ bytes32 1 @ [x]) t) = None"
proof -
  let ?d = "des_init_data (bare_sd_message len h flags 0 @ bytes32 1 @ [x]) t"
  have s: "starts ?d (bare_sd_message len h flags 0)" "starts (advance 24 ?d) (bytes32 1)"
    using starts_init [of "bare_sd_message len h flags 0 @ bytes32 1 @ [x]" t]
    unfolding starts_append by simp_all
  have "look_ahead_u8 2 (advance 28 ?d) = None"
    by (simp add: look_ahead_u8_def vec_get_def des_init_data_def)
  then have "deserialize_options m (advance 28 ?d) = None" for m
    by (subst deserialize_options.simps)
      (simp add: deserialize_option_def peek_def get_remaining_def des_init_data_def)
  then show ?thesis
    using reads_asD [OF bare_prefix s(1)] reads_asD [OF reads_u32 s(2)]
    by (simp add: deserialize_sd_message_def sd_message_deserialize_def sd_options_deserialize_def
        deserialize_entries_end get_remaining_def set_remaining_def des_init_data_def advance_def)
qed

text \<open>
  The entries array is read safely whenever the announced length is really there:
  no byte outside the window is touched, and the reader ends inside it, whatever the bytes are.
\<close>

theorem entries_read_in_bounds:
  assumes "des_wf d" and "n \<le> get_remaining d"
  shows "\<exists>v d'. deserialize_entries m (set_remaining n d) = Some (v, d') \<and> des_wf d'
    \<and> des_data d' = des_data d \<and> des_position d' + get_remaining d' \<le> des_position d + n"
proof -
  have "des_wf (set_remaining n d)"
    using assms by (simp add: des_wf_def set_remaining_def get_remaining_def)
  with safe_deserialize_entries obtain v d' where
    "deserialize_entries m (set_remaining n d) = Some (v, d')" "des_wf d'" "within (set_remaining n d) d'"
    by (rule safe_readerE)
  then show ?thesis
    by (auto simp: within_def set_remaining_def get_remaining_def)
qed

theorem entries_read_in_bounds_witness:
  "\<exists>v d'. deserialize_entries sd_message_init (set_remaining 5 (des_init_data [6, 0, 0, 0x10, 0x12, 0x34] 0))
     = Some (v, d') \<and> des_position d' + get_remaining d' \<le> 5"
  using entries_read_in_bounds [of "des_init_data [6, 0, 0, 0x10, 0x12, 0x34] 0" 5 sd_message_init]
  by (auto simp: des_wf_def des_init_data_def get_remaining_def)

lemma endpoint_options_defined:
  assumes "\<forall>i\<in>set idxs. unat i < length opts" and "list_all sd_option_ok opts"
  shows "\<exists>xs. endpoint_options opts idxs = Some xs"
  using assms(1)
proof (induction idxs)
  case (Cons i idxs)
  then have "sd_option_ok (opts ! unat i)"
    using assms(2) by (simp add: list_all_length)
  with Cons show ?case
    by (cases "opts ! unat i") auto
qed simp

text \<open>
  Matching a stop-subscribe entry against a subscribe entry is well defined when the
  option indices of both lie within the options of the message, and it only ever matches
  entries of the same service, instance, eventgroup, major version and counter of which the
  first has TTL zero and the second has not.
\<close>

theorem matching_subscribe_defined:
  assumes "\<forall>i \<in> set (en_options1 e @ en_options2 e @ en_options1 other @ en_options2 other).
      unat i < length opts"
    and "list_all sd_option_ok opts"
  shows "\<exists>b. is_matching_subscribe e other opts = Some b
    \<and> (b \<longrightarrow> en_ttl e = 0 \<and> en_ttl other \<noteq> 0 \<and> en_service e = en_service other
          \<and> en_instance e = en_instance other \<and> eg_eventgroup e = eg_eventgroup other
          \<and> en_major_version e = en_major_version other \<and> eg_counter e = eg_counter other)"
proof -
  have "\<exists>xs. endpoint_options opts (en_options1 e @ en_options2 e) = Some xs"
    "\<exists>ys. endpoint_options opts (en_options1 other @ en_options2 other) = Some ys"
    using assms by (auto intro!: endpoint_options_defined)
  then show ?thesis
    by (auto simp: is_matching_subscribe_def Let_def word_gt_0)
qed

theorem matching_subscribe_defined_witness:
  "\<exists>b. is_matching_subscribe (sample_subscribe\<lparr>en_ttl := 0\<rparr>)
     (sample_subscribe\<lparr>en_options1 := [1], en_num_options1 := 1, en_options2 := [0], en_num_options2 := 1\<rparr>)
     [Ipv4Option sample_ipv4, Ipv6Option sample_ipv6] = Some b"
  using matching_subscribe_defined [of "sample_subscribe\<lparr>en_ttl := 0\<rparr>"
    "sample_subscribe\<lparr>en_options1 := [1], en_num_options1 := 1, en_options2 := [0], en_num_options2 := 1\<rparr>"
    "[Ipv4Option sample_ipv4, Ipv6Option sample_ipv6]"] ip_option_ok_samples
  by (simp add: sample_subscribe_def eventgroupentry_init_def)
    (simp add: sample_ipv4_def sample_ipv6_def set_port_def set_layer_four_protocol_def
      ipv4_set_address_def ipv6_set_address_def ipv4_option_init_def ipv6_option_init_def)

text \<open>
  Option indices of received entries are never compared with the number of options: an
  entry that names option 0 of a message without options is matched by reading past the vector.
\<close>

theorem matching_reads_past_options:
  "is_matching_subscribe (sample_subscribe\<lparr>en_ttl := 0\<rparr>) (sample_subscribe\<lparr>en_index1 := 1\<rparr>) [] = None"
  by (simp add: is_matching_subscribe_def sample_subscribe_def eventgroupentry_init_def vec_get_def)

lemma get_option_index_from_eq:
  assumes "length (sdm_options m) < 2 ^ 15" and "0 \<le> i" and "i \<le> int k" and "k < length (sdm_options m)"
  shows "get_option_index_from i (Some k) m = int k"
proof -
  have "sint (of_nat (length (sdm_options m)) :: u16) = int (length (sdm_options m))"
    using assms(1) by (subst signed_of_nat) (simp add: signed_take_bit_int_eq_self)
  then show ?thesis
    using assms(2,3,4)
    by (induction i "Some k" m rule: get_option_index_from.induct)
      (subst get_option_index_from.simps, auto)
qed

lemma get_option_index_from_None: "get_option_index_from i None m = - 1"
  by (induction i "None :: nat option" m rule: get_option_index_from.induct)
    (subst get_option_index_from.simps, simp)

text \<open>
  The index assigned to an entry for an option of its own message is the position
  of the option, up to the 256 an entry can express; an option of another message is assigned
  index 255.
\<close>

theorem assigned_index_is_position:
  assumes "k < length (sdm_options m)" and "length (sdm_options m) \<le> 256"
  shows "get_option_index (Some k) m = int k
    \<and> assign_option (Some k) m e = assign_option_index (of_nat k) e
    \<and> assign_option None m e = assign_option_index 255 e"
proof -
  have "assign_option_index (- 1) e = assign_option_index 255 e"
    by (rule arg_cong2 [where f = assign_option_index]) simp_all
  then show ?thesis
    using assms get_option_index_from_eq [of m 0 k]
    by (simp add: get_option_index_def assign_option_def get_option_index_from_None)
qed

theorem assigned_index_is_position_witness:
  "en_options1 (assign_option (Some 1) sample_sd_message serviceentry_init) = [1]"
  using assigned_index_is_position [of 1 sample_sd_message serviceentry_init]
  by (simp add: sample_sd_message_def assign_option_index_def extends_run_def serviceentry_init_def)

end
