(* ===== verification/Crc.thy ===== *)
theory Crc
  imports Prelude
begin

text \<open>
  The cyclic redundancy checks of \<^verbatim>\<open>configuration/e2e_protection/src/crc/crc.cpp\<close>: three
  table-driven routines, transcribed with their tables, and bit-serial reference definitions
  made from the parameters in the comments of that file.  The routines are shown equal to
  the references, and what follows from the algebra of a CRC (every step of the register is
  injective, in the register and in the byte) is proved once in a locale.
\<close>

section \<open>The routines\<close>

text \<open>\<open>buffer_view buf begin end\<close>: reading outside the buffer is undefined.\<close>

definition buffer_view :: "byte list \<Rightarrow> nat \<Rightarrow> nat \<Rightarrow> byte list ub" where
  "buffer_view buf begin end =
     (if begin \<le> end \<and> end \<le> length buf then Some (take (end - begin) (drop begin buf)) else None)"

definition lookup_table_profile_01 :: "byte list" where
  "lookup_table_profile_01 = [
     0x00, 0x1D, 0x3A, 0x27, 0x74, 0x69, 0x4E, 0x53, 0xE8, 0xF5, 0xD2, 0xCF, 0x9C, 0x81, 0xA6, 0xBB,
     0xCD, 0xD0, 0xF7, 0xEA, 0xB9, 0xA4, 0x83, 0x9E, 0x25, 0x38, 0x1F, 0x02, 0x51, 0x4C, 0x6B, 0x76,
     0x87, 0x9A, 0xBD, 0xA0, 0xF3, 0xEE, 0xC9, 0xD4, 0x6F, 0x72, 0x55, 0x48, 0x1B, 0x06, 0x21, 0x3C,
     0x4A, 0x57, 0x70, 0x6D, 0x3E, 0x23, 0x04, 0x19, 0xA2, 0xBF, 0x98, 0x85, 0xD6, 0xCB, 0xEC, 0xF1,
     0x13, 0x0E, 0x29, 0x34, 0x67, 0x7A, 0x5D, 0x40, 0xFB, 0xE6, 0xC1, 0xDC, 0x8F, 0x92, 0xB5, 0xA8,
     0xDE, 0xC3, 0xE4, 0xF9, 0xAA, 0xB7, 0x90, 0x8D, 0x36, 0x2B, 0x0C, 0x11, 0x42, 0x5F, 0x78, 0x65,
     0x94, 0x89, 0xAE, 0xB3, 0xE0, 0xFD, 0xDA, 0xC7, 0x7C, 0x61, 0x46, 0x5B, 0x08, 0x15, 0x32, 0x2F,
     0x59, 0x44, 0x63, 0x7E, 0x2D, 0x30, 0x17, 0x0A, 0xB1, 0xAC, 0x8B, 0x96, 0xC5, 0xD8, 0xFF, 0xE2,
     0x26, 0x3B, 0x1C, 0x01, 0x52, 0x4F, 0x68, 0x75, 0xCE, 0xD3, 0xF4, 0xE9, 0xBA, 0xA7, 0x80, 0x9D,
     0xEB, 0xF6, 0xD1, 0xCC, 0x9F, 0x82, 0xA5, 0xB8, 0x03, 0x1E, 0x39, 0x24, 0x77, 0x6A, 0x4D, 0x50,
     0xA1, 0xBC, 0x9B, 0x86, 0xD5, 0xC8, 0xEF, 0xF2, 0x49, 0x54, 0x73, 0x6E, 0x3D, 0x20, 0x07, 0x1A,
     0x6C, 0x71, 0x56, 0x4B, 0x18, 0x05, 0x22, 0x3F, 0x84, 0x99, 0xBE, 0xA3, 0xF0, 0xED, 0xCA, 0xD7,
     0x35, 0x28, 0x0F, 0x12, 0x41, 0x5C, 0x7B, 0x66, 0xDD, 0xC0, 0xE7, 0xFA, 0xA9, 0xB4, 0x93, 0x8E,
     0xF8, 0xE5, 0xC2, 0xDF, 0x8C, 0x91, 0xB6, 0xAB, 0x10, 0x0D, 0x2A, 0x37, 0x64, 0x79, 0x5E, 0x43,
     0xB2, 0xAF, 0x88, 0x95, 0xC6, 0xDB, 0xFC, 0xE1, 0x5A, 0x47, 0x60, 0x7D, 0x2E, 0x33, 0x14, 0x09,
     0x7F, 0x62, 0x45, 0x58, 0x0B, 0x16, 0x31, 0x2C, 0x97, 0x8A, 0xAD, 0xB0, 0xE3, 0xFE, 0xD9, 0xC4]"

definition step_profile_01 :: "byte \<Rightarrow> byte \<Rightarrow> byte" where
  "step_profile_01 crc b = lookup_table_profile_01 ! unat (b XOR crc) XOR drop_bit 8 crc"

definition calculate_profile_01 :: "byte list \<Rightarrow> byte \<Rightarrow> byte" where
  "calculate_profile_01 view start_value =
     foldl step_profile_01 (start_value XOR 0xFF) view XOR 0xFF"

definition lookup_table_profile_04 :: "u32 list" where
  "lookup_table_profile_04 = [
     0x00000000, 0x30850FF5, 0x610A1FEA, 0x518F101F, 0xC2143FD4, 0xF2913021, 0xA31E203E, 0x939B2FCB,
     0x159615F7, 0x25131A02, 0x749C0A1D, 0x441905E8, 0xD7822A23, 0xE70725D6, 0xB68835C9, 0x860D3A3C,
     0x2B2C2BEE, 0x1BA9241B, 0x4A263404, 0x7AA33BF1, 0xE938143A, 0xD9BD1BCF, 0x88320BD0, 0xB8B70425,
     0x3EBA3E19, 0x0E3F31EC, 0x5FB021F3, 0x6F352E06, 0xFCAE01CD, 0xCC2B0E38, 0x9DA41E27, 0xAD2111D2,
     0x565857DC, 0x66DD5829, 0x37524836, 0x07D747C3, 0x944C6808, 0xA4C967FD, 0xF54677E2, 0xC5C37817,
     0x43CE422B, 0x734B4DDE, 0x22C45DC1, 0x12415234, 0x81DA7DFF, 0xB15F720A, 0xE0D06215, 0xD0556DE0,
     0x7D747C32, 0x4DF173C7, 0x1C7E63D8, 0x2CFB6C2D, 0xBF6043E6, 0x8FE54C13, 0xDE6A5C0C, 0xEEEF53F9,
     0x68E269C5, 0x58676630, 0x09E8762F, 0x396D79DA, 0xAAF65611, 0x9A7359E4, 0xCBFC49FB, 0xFB79460E,
     0xACB0AFB8, 0x9C35A04D, 0xCDBAB052, 0xFD3FBFA7, 0x6EA4906C, 0x5E219F99, 0x0FAE8F86, 0x3F2B8073,
     0xB926BA4F, 0x89A3B5BA, 0xD82CA5A5, 0xE8A9AA50, 0x7B32859B, 0x4BB78A6E, 0x1A389A71, 0x2ABD9584,
     0x879C8456, 0xB7198BA3, 0xE6969BBC, 0xD6139449, 0x4588BB82, 0x750DB477, 0x2482A468, 0x1407AB9D,
     0x920A91A1, 0xA28F9E54, 0xF3008E4B, 0xC38581BE, 0x501EAE75, 0x609BA180, 0x3114B19F, 0x0191BE6A,
     0xFAE8F864, 0xCA6DF791, 0x9BE2E78E, 0xAB67E87B, 0x38FCC7B0, 0x0879C845, 0x59F6D85A, 0x6973D7AF,
     0xEF7EED93, 0xDFFBE266, 0x8E74F279, 0xBEF1FD8C, 0x2D6AD247, 0x1DEFDDB2, 0x4C60CDAD, 0x7CE5C258,
     0xD1C4D38A, 0xE141DC7F, 0xB0CECC60, 0x804BC395, 0x13D0EC5E, 0x2355E3AB, 0x72DAF3B4, 0x425FFC41,
     0xC452C67D, 0xF4D7C988, 0xA558D997, 0x95DDD662, 0x0646F9A9, 0x36C3F65C, 0x674CE643, 0x57C9E9B6,
     0xC8DF352F, 0xF85A3ADA, 0xA9D52AC5, 0x99502530, 0x0ACB0AFB, 0x3A4E050E, 0x6BC11511, 0x5B441AE4,
     0xDD4920D8, 0xEDCC2F2D, 0xBC433F32, 0x8CC630C7, 0x1F5D1F0C, 0x2FD810F9, 0x7E5700E6, 0x4ED20F13,
     0xE3F31EC1, 0xD3761134, 0x82F9012B, 0xB27C0EDE, 0x21E72115, 0x11622EE0, 0x40ED3EFF, 0x7068310A,
     0xF6650B36, 0xC6E004C3, 0x976F14DC, 0xA7EA1B29, 0x347134E2, 0x04F43B17, 0x557B2B08, 0x65FE24FD,
     0x9E8762F3, 0xAE026D06, 0xFF8D7D19, 0xCF0872EC, 0x5C935D27, 0x6C1652D2, 0x3D9942CD, 0x0D1C4D38,
     0x8B117704, 0xBB9478F1, 0xEA1B68EE, 0xDA9E671B, 0x490548D0, 0x79804725, 0x280F573A, 0x188A58CF,
     0xB5AB491D, 0x852E46E8, 0xD4A156F7, 0xE4245902, 0x77BF76C9, 0x473A793C, 0x16B56923, 0x263066D6,
     0xA03D5CEA, 0x90B8531F, 0xC1374300, 0xF1B24CF5, 0x6229633E, 0x52AC6CCB, 0x03237CD4, 0x33A67321,
     0x646F9A97, 0x54EA9562, 0x0565857D, 0x35E08A88, 0xA67BA543, 0x96FEAAB6, 0xC771BAA9, 0xF7F4B55C,
     0x71F98F60, 0x417C8095, 0x10F3908A, 0x20769F7F, 0xB3EDB0B4, 0x8368BF41, 0xD2E7AF5E, 0xE262A0AB,
     0x4F43B179, 0x7FC6BE8C, 0x2E49AE93, 0x1ECCA166, 0x8D578EAD, 0xBDD28158, 0xEC5D9147, 0xDCD89EB2,
     0x5AD5A48E, 0x6A50AB7B, 0x3BDFBB64, 0x0B5AB491, 0x98C19B5A, 0xA84494AF, 0xF9CB84B0, 0xC94E8B45,
     0x3237CD4B, 0x02B2C2BE, 0x533DD2A1, 0x63B8DD54, 0xF023F29F, 0xC0A6FD6A, 0x9129ED75, 0xA1ACE280,
     0x27A1D8BC, 0x1724D749, 0x46ABC756, 0x762EC8A3, 0xE5B5E768, 0xD530E89D, 0x84BFF882, 0xB43AF777,
     0x191BE6A5, 0x299EE950, 0x7811F94F, 0x4894F6BA, 0xDB0FD971, 0xEB8AD684, 0xBA05C69B, 0x8A80C96E,
     0x0C8DF352, 0x3C08FCA7, 0x6D87ECB8, 0x5D02E34D, 0xCE99CC86, 0xFE1CC373, 0xAF93D36C, 0x9F16DC99]"

definition step_profile_04 :: "u32 \<Rightarrow> byte \<Rightarrow> u32" where
  "step_profile_04 crc b = lookup_table_profile_04 ! unat (b XOR ucast crc) XOR drop_bit 8 crc"

definition calculate_profile_04 :: "byte list \<Rightarrow> u32 \<Rightarrow> u32" where
  "calculate_profile_04 view start_value =
     foldl step_profile_04 (start_value XOR 0xFFFFFFFF) view XOR 0xFFFFFFFF"

definition lookup_table_profile_custom :: "u32 list" where
  "lookup_table_profile_custom = [
     0x00000000, 0x77073096, 0xEE0E612C, 0x990951BA, 0x076DC419, 0x706AF48F, 0xE963A535, 0x9E6495A3,
     0x0EDB8832, 0x79DCB8A4, 0xE0D5E91E, 0x97D2D988, 0x09B64C2B, 0x7EB17CBD, 0xE7B82D07, 0x90BF1D91,
     0x1DB71064, 0x6AB020F2, 0xF3B97148, 0x84BE41DE, 0x1ADAD47D, 0x6DDDE4EB, 0xF4D4B551, 0x83D385C7,
     0x136C9856, 0x646BA8C0, 0xFD62F97A, 0x8A65C9EC, 0x14015C4F, 0x63066CD9, 0xFA0F3D63, 0x8D080DF5,
     0x3B6E20C8, 0x4C69105E, 0xD56041E4, 0xA2677172, 0x3C03E4D1, 0x4B04D447, 0xD20D85FD, 0xA50AB56B,
     0x35B5A8FA, 0x42B2986C, 0xDBBBC9D6, 0xACBCF940, 0x32D86CE3, 0x45DF5C75, 0xDCD60DCF, 0xABD13D59,
     0x26D930AC, 0x51DE003A, 0xC8D75180, 0xBFD06116, 0x21B4F4B5, 0x56B3C423, 0xCFBA9599, 0xB8BDA50F,
     0x2802B89E, 0x5F058808, 0xC60CD9B2, 0xB10BE924, 0x2F6F7C87, 0x58684C11, 0xC1611DAB, 0xB6662D3D,
     0x76DC4190, 0x01DB7106, 0x98D220BC, 0xEFD5102A, 0x71B18589, 0x06B6B51F, 0x9FBFE4A5, 0xE8B8D433,
     0x7807C9A2, 0x0F00F934, 0x9609A88E, 0xE10E9818, 0x7F6A0DBB, 0x086D3D2D, 0x91646C97, 0xE6635C01,
     0x6B6B51F4, 0x1C6C6162, 0x856530D8, 0xF262004E, 0x6C0695ED, 0x1B01A57B, 0x8208F4C1, 0xF50FC457,
     0x65B0D9C6, 0x12B7E950, 0x8BBEB8EA, 0xFCB9887C, 0x62DD1DDF, 0x15DA2D49, 0x8CD37CF3, 0xFBD44C65,
     0x4DB26158, 0x3AB551CE, 0xA3BC0074, 0xD4BB30E2, 0x4ADFA541, 0x3DD895D7, 0xA4D1C46D, 0xD3D6F4FB,
     0x4369E96A, 0x346ED9FC, 0xAD678846, 0xDA60B8D0, 0x44042D73, 0x33031DE5, 0xAA0A4C5F, 0xDD0D7CC9,
     0x5005713C, 0x270241AA, 0xBE0B1010, 0xC90C2086, 0x5768B525, 0x206F85B3, 0xB966D409, 0xCE61E49F,
     0x5EDEF90E, 0x29D9C998, 0xB0D09822, 0xC7D7A8B4, 0x59B33D17, 0x2EB40D81, 0xB7BD5C3B, 0xC0BA6CAD,
     0xEDB88320, 0x9ABFB3B6, 0x03B6E20C, 0x74B1D29A, 0xEAD54739, 0x9DD277AF, 0x04DB2615, 0x73DC1683,
     0xE3630B12, 0x94643B84, 0x0D6D6A3E, 0x7A6A5AA8, 0xE40ECF0B, 0x9309FF9D, 0x0A00AE27, 0x7D079EB1,
     0xF00F9344, 0x8708A3D2, 0x1E01F268, 0x6906C2FE, 0xF762575D, 0x806567CB, 0x196C3671, 0x6E6B06E7,
     0xFED41B76, 0x89D32BE0, 0x10DA7A5A, 0x67DD4ACC, 0xF9B9DF6F, 0x8EBEEFF9, 0x17B7BE43, 0x60B08ED5,
     0xD6D6A3E8, 0xA1D1937E, 0x38D8C2C4, 0x4FDFF252, 0xD1BB67F1, 0xA6BC5767, 0x3FB506DD, 0x48B2364B,
     0xD80D2BDA, 0xAF0A1B4C, 0x36034AF6, 0x41047A60, 0xDF60EFC3, 0xA867DF55, 0x316E8EEF, 0x4669BE79,
     0xCB61B38C, 0xBC66831A, 0x256FD2A0, 0x5268E236, 0xCC0C7795, 0xBB0B4703, 0x220216B9, 0x5505262F,
     0xC5BA3BBE, 0xB2BD0B28, 0x2BB45A92, 0x5CB36A04, 0xC2D7FFA7, 0xB5D0CF31, 0x2CD99E8B, 0x5BDEAE1D,
     0x9B64C2B0, 0xEC63F226, 0x756AA39C, 0x026D930A, 0x9C0906A9, 0xEB0E363F, 0x72076785, 0x05005713,
     0x95BF4A82, 0xE2B87A14, 0x7BB12BAE, 0x0CB61B38, 0x92D28E9B, 0xE5D5BE0D, 0x7CDCEFB7, 0x0BDBDF21,
     0x86D3D2D4, 0xF1D4E242, 0x68DDB3F8, 0x1FDA836E, 0x81BE16CD, 0xF6B9265B, 0x6FB077E1, 0x18B74777,
     0x88085AE6, 0xFF0F6A70, 0x66063BCA, 0x11010B5C, 0x8F659EFF, 0xF862AE69, 0x616BFFD3, 0x166CCF45,
     0xA00AE278, 0xD70DD2EE, 0x4E048354, 0x3903B3C2, 0xA7672661, 0xD06016F7, 0x4969474D, 0x3E6E77DB,
     0xAED16A4A, 0xD9D65ADC, 0x40DF0B66, 0x37D83BF0, 0xA9BCAE53, 0xDEBB9EC5, 0x47B2CF7F, 0x30B5FFE9,
     0xBDBDF21C, 0xCABAC28A, 0x53B39330, 0x24B4A3A6, 0xBAD03605, 0xCDD70693, 0x54DE5729, 0x23D967BF,
     0xB3667A2E, 0xC4614AB8, 0x5D681B02, 0x2A6F2B94, 0xB40BBE37, 0xC30C8EA1, 0x5A05DF1B, 0x2D02EF8D]"

definition step_profile_custom :: "u32 \<Rightarrow> byte \<Rightarrow> u32" where
  "step_profile_custom crc b =
     lookup_table_profile_custom ! unat (b XOR ucast crc) XOR drop_bit 8 crc"

definition calculate_profile_custom :: "byte list \<Rightarrow> u32" where
  "calculate_profile_custom view = foldl step_profile_custom 0xFFFFFFFF view XOR 0xFFFFFFFF"

section \<open>Bit-serial references\<close>

text \<open>One bit of a CRC that shifts left with polynomial \<open>p\<close>, and of a reflected one.\<close>

definition shift_left :: "'a::len word \<Rightarrow> 'a word \<Rightarrow> 'a word" where
  "shift_left p c = (if bit c (LENGTH('a) - 1) then push_bit 1 c XOR p else push_bit 1 c)"

definition shift_right :: "'a::len word \<Rightarrow> 'a word \<Rightarrow> 'a word" where
  "shift_right p c = (if bit c 0 then drop_bit 1 c XOR p else drop_bit 1 c)"

definition crc_left :: "'a::len word \<Rightarrow> 'a word \<Rightarrow> byte \<Rightarrow> 'a word" where
  "crc_left p c b = (shift_left p ^^ 8) (c XOR push_bit (LENGTH('a) - 8) (ucast b))"

definition crc_right :: "'a::len word \<Rightarrow> 'a word \<Rightarrow> byte \<Rightarrow> 'a word" where
  "crc_right p c b = (shift_right p ^^ 8) (c XOR ucast b)"

section \<open>Linearity\<close>

definition additive :: "('a::len word \<Rightarrow> 'a word) \<Rightarrow> bool" where
  "additive f \<longleftrightarrow> (\<forall>x y. f (x XOR y) = f x XOR f y)"

lemma additiveD: "additive f \<Longrightarrow> f (x XOR y) = f x XOR f y"
  by (simp add: additive_def)

lemma additive_0: "additive f \<Longrightarrow> f 0 = 0"
  using additiveD [of f 0 0] by simp

lemma additive_funpow: "additive f \<Longrightarrow> additive (f ^^ n)"
  by (induction n) (simp_all add: additive_def)

lemma additive_shift_left: "additive (shift_left p)"
  unfolding additive_def
  by (intro allI bit_word_eqI) (auto simp: shift_left_def bit_simps)

lemma additive_shift_right: "additive (shift_right p)"
  unfolding additive_def
  by (intro allI bit_word_eqI) (auto simp: shift_right_def bit_simps)

lemma additive_inj:
  assumes "additive f" and "\<And>x. f x = 0 \<Longrightarrow> x = 0"
  shows "inj f"
proof (rule injI)
  fix x y assume "f x = f y"
  then have "f (x XOR y) = 0"
    by (simp add: additiveD [OF assms(1)])
  then have "x XOR y = 0" by (rule assms(2))
  then show "x = y"
    by (metis xor.left_neutral xor.right_neutral xor_self_eq xor.assoc)
qed

lemma inj_shift_right:
  fixes p :: "'a::len word"
  assumes "bit p (LENGTH('a) - 1)"
  shows "inj (shift_right p)"
proof (rule additive_inj [OF additive_shift_right])
  fix x assume 0: "shift_right p x = 0"
  have "bit (shift_right p x) (LENGTH('a) - 1) \<longleftrightarrow> bit x 0"
    using assms by (auto simp: shift_right_def bit_simps dest: bit_imp_le_length)
  with 0 have even: "\<not> bit x 0" by simp
  with 0 have "drop_bit 1 x = 0" by (simp add: shift_right_def)
  then have "\<not> bit x (Suc n)" for n
    by (metis bit_0_eq bit_drop_bit_eq bot_apply bot_bool_def comp_apply plus_1_eq_Suc)
  with even have "\<not> bit x n" for n
    by (cases n) simp_all
  then show "x = 0" by (intro bit_word_eqI) simp
qed

lemma inj_shift_left:
  fixes p :: "'a::len word"
  assumes "bit p 0"
  shows "inj (shift_left p)"
proof (rule additive_inj [OF additive_shift_left])
  fix x assume 0: "shift_left p x = 0"
  have "bit (shift_left p x) 0 \<longleftrightarrow> bit x (LENGTH('a) - 1)"
    using assms by (auto simp: shift_left_def bit_0 even_xor_iff)
  with 0 have top: "\<not> bit x (LENGTH('a) - 1)" by simp
  with 0 have "push_bit 1 x = 0" by (simp add: shift_left_def)
  have "\<not> bit x n" if "Suc n < LENGTH('a)" for n
  proof -
    have "\<not> bit (push_bit 1 x) (Suc n)"
      unfolding \<open>push_bit 1 x = 0\<close> by simp
    with that show ?thesis
      by (simp only: bit_push_bit_iff) simp
  qed
  with top show "x = 0"
    by (intro bit_word_eqI) (metis Suc_lessI bit_0_eq bot_apply bot_bool_def diff_Suc_1)
qed

section \<open>Tables from eight basis values\<close>

definition span :: "'a::len word list \<Rightarrow> 'a word list" where
  "span basis = foldl (\<lambda>t b. t @ map (\<lambda>x. x XOR b) t) [0] basis"

lemma add_power_of_two_xor: "i < 2 ^ k \<Longrightarrow> i + 2 ^ k = i XOR (2 ^ k :: nat)"
proof (rule disjunctive_add_eq_xor)
  assume "i < 2 ^ k"
  then have "\<not> bit i k"
    by (simp add: bit_iff_odd)
  then show "i AND 2 ^ k = 0"
    by (intro bit_eqI) (auto simp: bit_simps)
qed

lemma span_snoc: "span (bs @ [b]) = span bs @ map (\<lambda>x. x XOR b) (span bs)"
  by (simp add: span_def)

lemma upt_double: "[0..<2 * n] = [0..<n] @ map (\<lambda>i. i + n) [0..<n]"
  unfolding map_add_upt mult_2 by (rule upt_add_eq_append) simp

lemma span_additive:
  assumes "additive f"
  shows "span (map (\<lambda>j. f (2 ^ j)) [0..<k]) = map (\<lambda>i. f (of_nat i)) [0..<2 ^ k]"
proof (induction k)
  case 0
  then show ?case by (simp add: span_def additive_0 [OF assms])
next
  case (Suc k)
  have "f (of_nat i) XOR f (2 ^ k) = f (of_nat (i + 2 ^ k))" if "i < 2 ^ k" for i
    using that by (simp only: add_power_of_two_xor of_nat_xor_eq additiveD [OF assms]) simp
  then have "map (\<lambda>x. x XOR f (2 ^ k)) (map (\<lambda>i. f (of_nat i)) [0..<2 ^ k])
      = map (\<lambda>i. f (of_nat i)) (map (\<lambda>i. i + 2 ^ k) [0..<2 ^ k])"
    by (simp only: map_map comp_def) (rule map_cong, simp_all)
  with Suc show ?case
    by (simp only: upt_Suc le0 if_True map_append list.map span_snoc power_Suc upt_double)
qed

lemma table_nth:
  assumes "additive f" and "span (map (\<lambda>j. f (2 ^ j)) [0..<8]) = table"
  shows "table ! unat (b :: byte) = f (ucast b)"
proof -
  have "unat b < 256"
    using unsigned_less [of b, where ?'a = nat] by simp
  then show ?thesis
    using assms(2) [symmetric] span_additive [OF assms(1), of 8] by simp
qed

lemma table_01:
  "lookup_table_profile_01 ! unat b = (shift_left 0x1D ^^ 8) b"
proof -
  have "map (\<lambda>j. (shift_left 0x1D ^^ 8) (2 ^ j)) [0..<8]
      = [0x1D :: byte, 0x3A, 0x74, 0xE8, 0xCD, 0x87, 0x13, 0x26]"
    by code_simp
  then have "span (map (\<lambda>j. (shift_left 0x1D ^^ 8) (2 ^ j)) [0..<8]) = lookup_table_profile_01"
    by (simp add: span_def lookup_table_profile_01_def)
  from table_nth [OF additive_funpow [OF additive_shift_left] this, of b] show ?thesis
    by simp
qed

lemma table_04:
  "lookup_table_profile_04 ! unat b = (shift_right 0xC8DF352F ^^ 8) (ucast (b :: byte))"
proof -
  have "map (\<lambda>j. (shift_right 0xC8DF352F ^^ 8) (2 ^ j)) [0..<8] =
      [0x30850FF5 :: u32, 0x610A1FEA, 0xC2143FD4, 0x159615F7, 0x2B2C2BEE, 0x565857DC, 0xACB0AFB8, 0xC8DF352F]"
    by code_simp
  then have "span (map (\<lambda>j. (shift_right 0xC8DF352F ^^ 8) (2 ^ j)) [0..<8]) = lookup_table_profile_04"
    by (simp add: span_def lookup_table_profile_04_def)
  from table_nth [OF additive_funpow [OF additive_shift_right] this, of b] show ?thesis .
qed

lemma table_custom:
  "lookup_table_profile_custom ! unat b = (shift_right 0xEDB88320 ^^ 8) (ucast (b :: byte))"
proof -
  have "map (\<lambda>j. (shift_right 0xEDB88320 ^^ 8) (2 ^ j)) [0..<8] =
      [0x77073096 :: u32, 0xEE0E612C, 0x076DC419, 0x0EDB8832, 0x1DB71064, 0x3B6E20C8, 0x76DC4190, 0xEDB88320]"
    by code_simp
  then have "span (map (\<lambda>j. (shift_right 0xEDB88320 ^^ 8) (2 ^ j)) [0..<8]) = lookup_table_profile_custom"
    by (simp add: span_def lookup_table_profile_custom_def)
  from table_nth [OF additive_funpow [OF additive_shift_right] this, of b] show ?thesis .
qed

section \<open>One table step is eight bit steps\<close>

lemma shift_right_low_zero:
  "(\<And>i. i < n \<Longrightarrow> \<not> bit x i) \<Longrightarrow> (shift_right p ^^ n) x = drop_bit n x"
proof (induction n)
  case (Suc n)
  then have "(shift_right p ^^ n) x = drop_bit n x" and "\<not> bit x n"
    by simp_all
  moreover have "shift_right p (drop_bit n x) = drop_bit 1 (drop_bit n x)" if "\<not> bit x n"
    using that by (simp add: shift_right_def bit_drop_bit_eq)
  ultimately show ?case
    by simp
qed simp

lemma crc_right_split:
  fixes x :: u32
  shows "(shift_right p ^^ 8) x = (shift_right p ^^ 8) (ucast (ucast x :: byte)) XOR drop_bit 8 x"
proof -
  let ?lo = "ucast (ucast x :: byte) :: u32" and ?hi = "x AND NOT (mask 8)"
  have x: "x = ?lo XOR ?hi"
    by (rule bit_word_eqI) (auto simp: bit_simps)
  have "(shift_right p ^^ 8) ?hi = drop_bit 8 ?hi"
    by (rule shift_right_low_zero) (simp add: bit_simps)
  also have "\<dots> = drop_bit 8 x"
    by (rule bit_word_eqI) (auto simp: bit_simps dest: bit_imp_le_length)
  finally show ?thesis
    using additiveD [OF additive_funpow [OF additive_shift_right], of 8 p ?lo ?hi] by (simp only: x [symmetric])
qed

lemma crc_right_table:
  assumes "\<And>b :: byte. table ! unat b = (shift_right p ^^ 8) (ucast b)"
  shows "table ! unat (b XOR ucast c) XOR drop_bit 8 c = crc_right p (c :: u32) b"
proof -
  have "ucast (c XOR ucast b :: u32) = b XOR (ucast c :: byte)"
    by (rule bit_word_eqI) (auto simp: bit_simps)
  moreover have "drop_bit 8 (c XOR ucast b) = drop_bit 8 c"
    by (rule bit_word_eqI) (auto simp: bit_simps dest: bit_imp_le_length)
  ultimately show ?thesis
    unfolding crc_right_def assms using crc_right_split [of p "c XOR ucast b"] by simp
qed

lemma step_profile_01_eq: "step_profile_01 = crc_left 0x1D"
proof -
  have "drop_bit 8 c = 0" for c :: byte
    by (rule bit_word_eqI) (auto simp: bit_simps dest: bit_imp_le_length)
  then show ?thesis
    by (intro ext) (simp add: step_profile_01_def crc_left_def table_01 xor.commute)
qed

lemma step_profile_04_eq: "step_profile_04 = crc_right 0xC8DF352F"
  by (intro ext) (simp add: step_profile_04_def crc_right_table [OF table_04])

lemma step_profile_custom_eq: "step_profile_custom = crc_right 0xEDB88320"
  by (intro ext) (simp add: step_profile_custom_def crc_right_table [OF table_custom])

section \<open>Detection of a corrupted byte\<close>

locale crc_step =
  fixes step :: "'r \<Rightarrow> byte \<Rightarrow> 'r"
  assumes step_inj_register: "step c b = step c' b \<Longrightarrow> c = c'"
    and step_inj_byte: "step c b = step c b' \<Longrightarrow> b = b'"
begin

lemma foldl_inj: "foldl step c bs = foldl step c' bs \<Longrightarrow> c = c'"
proof (induction bs arbitrary: c c')
  case (Cons b bs)
  from Cons.prems have "foldl step (step c b) bs = foldl step (step c' b) bs"
    by simp
  from step_inj_register [OF Cons.IH [OF this]] show ?case .
qed simp

lemma foldl_single_change:
  assumes "i < length bs" and "v \<noteq> bs ! i"
  shows "foldl step c (bs[i := v]) \<noteq> foldl step c bs"
proof
  assume eq: "foldl step c (bs[i := v]) = foldl step c bs"
  let ?c = "foldl step c (take i bs)"
  have "foldl step (step ?c v) (drop (Suc i) bs) = foldl step c (bs[i := v])"
    using assms(1) by (simp add: upd_conv_take_nth_drop)
  also have "\<dots> = foldl step c (take i bs @ bs ! i # drop (Suc i) bs)"
    unfolding eq by (rule arg_cong [where f = "foldl step c", OF id_take_nth_drop [OF assms(1)]])
  also have "\<dots> = foldl step (step ?c (bs ! i)) (drop (Suc i) bs)"
    by simp
  finally have "foldl step (step ?c v) (drop (Suc i) bs) = foldl step (step ?c (bs ! i)) (drop (Suc i) bs)" .
  then have "step ?c v = step ?c (bs ! i)"
    by (rule foldl_inj)
  with assms(2) show False
    using step_inj_byte by blast
qed

end

lemma xor_left_cancel: "a XOR b = a XOR c \<longleftrightarrow> b = (c :: 'a::len word)"
  by (metis xor.assoc xor.left_neutral xor_self_eq)

lemma xor_right_cancel: "b XOR a = c XOR a \<longleftrightarrow> b = (c :: 'a::len word)"
  using xor_left_cancel [of a b c] by (simp add: xor.commute)

lemma crc_step_right:
  fixes p :: u32
  assumes "bit p 31"
  shows "crc_step (crc_right p)"
proof -
  have "inj (shift_right p ^^ 8)"
    using assms by (intro inj_fn inj_shift_right) simp
  moreover have "ucast b = (ucast b' :: u32) \<Longrightarrow> b = b'" for b b' :: byte
    by (auto simp: bit_eq_iff bit_simps)
  ultimately show ?thesis
    by unfold_locales
      (auto simp: crc_right_def xor_left_cancel xor_right_cancel dest!: injD)
qed

interpretation crc8: crc_step step_profile_01
proof -
  have "inj (shift_left (0x1D :: byte) ^^ 8)"
    by (intro inj_fn inj_shift_left) simp
  then show "crc_step step_profile_01"
    unfolding step_profile_01_eq
    by unfold_locales (auto simp: crc_left_def xor_left_cancel xor_right_cancel dest!: injD)
qed

interpretation crc32p4: crc_step step_profile_04
  unfolding step_profile_04_eq by (rule crc_step_right) simp

interpretation crc32: crc_step step_profile_custom
  unfolding step_profile_custom_eq by (rule crc_step_right) simp

section \<open>Properties\<close>

text \<open>
  C34. The table-driven routines compute the checks their comments name: the CRC-8 with
  polynomial 0x1D, and the reflected CRC-32 with polynomials 0xF4ACFB13 and 0x04C11DB7 (bit
  reversed 0xC8DF352F and 0xEDB88320), bit by bit, for every input.
\<close>

theorem crc_routines_match_reference:
  "calculate_profile_01 view start8 = foldl (crc_left 0x1D) (start8 XOR 0xFF) view XOR 0xFF
   \<and> calculate_profile_04 view start32
       = foldl (crc_right 0xC8DF352F) (start32 XOR 0xFFFFFFFF) view XOR 0xFFFFFFFF
   \<and> calculate_profile_custom view = foldl (crc_right 0xEDB88320) 0xFFFFFFFF view XOR 0xFFFFFFFF"
  by (simp add: calculate_profile_01_def calculate_profile_04_def calculate_profile_custom_def
      step_profile_01_eq step_profile_04_eq step_profile_custom_eq)

lemma calculate_profile_01_inj: "calculate_profile_01 view s = calculate_profile_01 view s' \<Longrightarrow> s = s'"
  using crc8.foldl_inj [of "s XOR 0xFF" view "s' XOR 0xFF"]
  by (simp add: calculate_profile_01_def xor_right_cancel)

lemma calculate_profile_01_change:
  "i < length view \<Longrightarrow> v \<noteq> view ! i \<Longrightarrow>
     calculate_profile_01 (view[i := v]) s \<noteq> calculate_profile_01 view s"
  using crc8.foldl_single_change by (simp add: calculate_profile_01_def xor_right_cancel)

lemma calculate_profile_custom_change:
  "i < length view \<Longrightarrow> v \<noteq> view ! i \<Longrightarrow>
     calculate_profile_custom (view[i := v]) \<noteq> calculate_profile_custom view"
  using crc32.foldl_single_change by (simp add: calculate_profile_custom_def xor_right_cancel)

text \<open>
  Every routine detects every corruption confined to one byte: replacing a byte of
  the input by a different one always changes the computed check.
\<close>

theorem crc_detects_single_byte:
  assumes "i < length view" and "v \<noteq> view ! i"
  shows "calculate_profile_01 (view[i := v]) start8 \<noteq> calculate_profile_01 view start8
    \<and> calculate_profile_04 (view[i := v]) start32 \<noteq> calculate_profile_04 view start32
    \<and> calculate_profile_custom (view[i := v]) \<noteq> calculate_profile_custom view"
  using assms calculate_profile_01_change calculate_profile_custom_change crc32p4.foldl_single_change
  by (simp add: calculate_profile_04_def xor_right_cancel)

theorem crc_detects_single_byte_witness:
  "calculate_profile_custom [0x31, 0x32, 0x30] \<noteq> calculate_profile_custom [0x31, 0x32, 0x33]"
  using crc_detects_single_byte [of 2 "[0x31, 0x32, 0x33]" "0x30"] by simp

end
