(* ===== verification/E2e.thy ===== *)
theory E2e
  imports Crc Byteorder
begin

text \<open>
  End-to-end protection: the profiles \<^verbatim>\<open>profile01\<close> and \<^verbatim>\<open>profile_custom\<close> under
  \<^verbatim>\<open>configuration/e2e_protection/src/e2e/profile\<close>, each with its CRC computation, its
  protector (sender side) and its checker (receiver side).  Buffers are byte lists; an access
  outside a buffer is undefined behaviour and yields \<open>None\<close>.

  The locale \<open>e2e_profile\<close> is the contract the routing manager relies on: what a protector
  has produced, the checker of the same configuration accepts.
\<close>

section \<open>Profile 01\<close>

datatype generic_check_status = E2E_OK | E2E_WRONG_CRC | E2E_ERROR

definition E2E_P01_DATAID_BOTH :: byte where [simp]: "E2E_P01_DATAID_BOTH = 0"
definition E2E_P01_DATAID_ALT :: byte where [simp]: "E2E_P01_DATAID_ALT = 1"
definition E2E_P01_DATAID_LOW :: byte where [simp]: "E2E_P01_DATAID_LOW = 2"
definition E2E_P01_DATAID_NIBBLE :: byte where [simp]: "E2E_P01_DATAID_NIBBLE = 3"

record profile_config =
  crc_offset :: u16
  data_id :: u16
  data_id_mode :: byte
  data_length :: u16
  counter_offset :: u16
  data_id_nibble_offset :: u16

definition data_id_crc :: "profile_config \<Rightarrow> byte" where
  "data_id_crc c =
     (let msb = ucast (drop_bit 8 (data_id c)); lsb = ucast (data_id c)
      in if data_id_mode c = E2E_P01_DATAID_BOTH
         then calculate_profile_01 [msb] (calculate_profile_01 [lsb] 0xFF)
         else if data_id_mode c = E2E_P01_DATAID_LOW then calculate_profile_01 [lsb] 0xFF
         else if data_id_mode c = E2E_P01_DATAID_ALT then 0xFF
         else if data_id_mode c = E2E_P01_DATAID_NIBBLE
         then calculate_profile_01 [0] (calculate_profile_01 [lsb] 0xFF)
         else 0xFF)"

text \<open>The comparison with \<^verbatim>\<open>data_length_ / 8 - 1\<close> is one of \<^verbatim>\<open>int\<close>, so it does not wrap.\<close>

definition compute_crc :: "profile_config \<Rightarrow> byte list \<Rightarrow> byte ub" where
  "compute_crc c buf = do {
     let computed_crc = data_id_crc c;
     computed_crc \<leftarrow> (if 1 \<le> unat (crc_offset c)
        then do { view \<leftarrow> buffer_view buf 0 (unat (crc_offset c));
                  Some (calculate_profile_01 view computed_crc) }
        else Some computed_crc);
     computed_crc \<leftarrow> (if int (unat (crc_offset c)) < int (unat (data_length c) div 8) - 1
        then do { view \<leftarrow> buffer_view buf (unat (crc_offset c) + 1) (length buf);
                  Some (calculate_profile_01 view computed_crc) }
        else Some computed_crc);
     Some (computed_crc XOR 0xFF) }"

definition is_buffer_length_valid :: "profile_config \<Rightarrow> byte list \<Rightarrow> bool" where
  "is_buffer_length_valid c buf \<longleftrightarrow>
     unat (data_length c) div 8 + 1 \<le> length buf
     \<and> unat (crc_offset c) \<le> length buf
     \<and> unat (counter_offset c) div 8 \<le> length buf
     \<and> unat (data_id_nibble_offset c) div 8 \<le> length buf"

record protector =
  prot_config :: profile_config
  prot_counter :: byte

definition protector_init :: "profile_config \<Rightarrow> protector" where
  "protector_init c = \<lparr>prot_config = c, prot_counter = 0\<rparr>"

definition low_nibble :: "byte \<Rightarrow> byte \<Rightarrow> byte" where
  "low_nibble old v = (old AND 0xF0) OR (v AND 0x0F)"

definition high_nibble :: "byte \<Rightarrow> byte \<Rightarrow> byte" where
  "high_nibble old v = (old AND 0x0F) OR (push_bit 4 v AND 0xF0)"

definition write_counter :: "protector \<Rightarrow> byte list \<Rightarrow> byte list ub" where
  "write_counter p buf =
     (let i = unat (counter_offset (prot_config p)) div 8
      in do {
        old \<leftarrow> vec_get buf i;
        vec_set buf i (if unat (counter_offset (prot_config p)) mod 8 = 0
                       then low_nibble old (prot_counter p)
                       else high_nibble old (prot_counter p)) })"

definition write_data_id :: "protector \<Rightarrow> byte list \<Rightarrow> byte list ub" where
  "write_data_id p buf =
     (let c = prot_config p; i = unat (data_id_nibble_offset c) div 8
      in if data_id_mode c = E2E_P01_DATAID_NIBBLE
         then do {
           old \<leftarrow> vec_get buf i;
           vec_set buf i (if unat (data_id_nibble_offset c) mod 8 = 0
                          then low_nibble old (ucast (drop_bit 8 (data_id c)))
                          else (old AND 0x0F) OR (ucast (drop_bit 4 (data_id c)) AND 0xF0)) }
         else Some buf)"

definition write_crc :: "protector \<Rightarrow> byte list \<Rightarrow> byte \<Rightarrow> byte list ub" where
  "write_crc p buf computed_crc = vec_set buf (unat (crc_offset (prot_config p))) computed_crc"

definition increment_counter :: "protector \<Rightarrow> protector" where
  "increment_counter p = p\<lparr>prot_counter := of_nat ((unat (prot_counter p) + 1) mod 15)\<rparr>"

definition protect :: "protector \<Rightarrow> byte list \<Rightarrow> (protector \<times> byte list) ub" where
  "protect p buf =
     (if is_buffer_length_valid (prot_config p) buf
      then do {
        buf \<leftarrow> write_counter p buf;
        buf \<leftarrow> write_data_id p buf;
        computed_crc \<leftarrow> compute_crc (prot_config p) buf;
        buf \<leftarrow> write_crc p buf computed_crc;
        Some (increment_counter p, buf) }
      else Some (p, buf))"

definition check :: "profile_config \<Rightarrow> byte list \<Rightarrow> generic_check_status ub" where
  "check c buf =
     (if is_buffer_length_valid c buf
      then do {
        received_crc \<leftarrow> vec_get buf (unat (crc_offset c));
        calculated_crc \<leftarrow> compute_crc c buf;
        Some (if received_crc = calculated_crc then E2E_OK else E2E_WRONG_CRC) }
      else Some E2E_ERROR)"

section \<open>Custom profile\<close>

definition custom_compute_crc :: "u16 \<Rightarrow> byte list \<Rightarrow> u32 ub" where
  "custom_compute_crc offset buf = do {
     view \<leftarrow> buffer_view buf (unat offset + 4) (length buf);
     Some (calculate_profile_custom view) }"

definition custom_is_buffer_length_valid :: "u16 \<Rightarrow> byte list \<Rightarrow> bool" where
  "custom_is_buffer_length_valid offset buf \<longleftrightarrow> unat offset + 4 \<le> length buf"

definition custom_write_crc :: "u16 \<Rightarrow> byte list \<Rightarrow> u32 \<Rightarrow> byte list ub" where
  "custom_write_crc offset buf crc = do {
     buf \<leftarrow> vec_set buf (unat offset) (ucast (drop_bit 24 crc));
     buf \<leftarrow> vec_set buf (unat offset + 1) (ucast (drop_bit 16 crc));
     buf \<leftarrow> vec_set buf (unat offset + 2) (ucast (drop_bit 8 crc));
     vec_set buf (unat offset + 3) (ucast crc) }"

definition custom_protect :: "u16 \<Rightarrow> byte list \<Rightarrow> byte list ub" where
  "custom_protect offset buf =
     (if custom_is_buffer_length_valid offset buf
      then do { computed_crc \<leftarrow> custom_compute_crc offset buf; custom_write_crc offset buf computed_crc }
      else Some buf)"

definition read_crc :: "u16 \<Rightarrow> byte list \<Rightarrow> u32 ub" where
  "read_crc offset buf = do {
     b0 \<leftarrow> vec_get buf (unat offset);
     b1 \<leftarrow> vec_get buf (unat offset + 1);
     b2 \<leftarrow> vec_get buf (unat offset + 2);
     b3 \<leftarrow> vec_get buf (unat offset + 3);
     Some (push_bit 24 (ucast b0) OR push_bit 16 (ucast b1) OR push_bit 8 (ucast b2) OR ucast b3) }"

definition custom_check :: "u16 \<Rightarrow> byte list \<Rightarrow> generic_check_status ub" where
  "custom_check offset buf =
     (if custom_is_buffer_length_valid offset buf
      then do {
        received_crc \<leftarrow> read_crc offset buf;
        calculated_crc \<leftarrow> custom_compute_crc offset buf;
        Some (if received_crc = calculated_crc then E2E_OK else E2E_WRONG_CRC) }
      else Some E2E_ERROR)"

section \<open>The contract of a profile\<close>

fun protect_all :: "('p \<Rightarrow> byte list \<Rightarrow> ('p \<times> byte list) ub) \<Rightarrow> 'p \<Rightarrow> byte list list
    \<Rightarrow> ('p \<times> byte list list) ub" where
  "protect_all prot p [] = Some (p, [])"
| "protect_all prot p (buf # bufs) = do {
     (p, buf) \<leftarrow> prot p buf;
     (p, bufs) \<leftarrow> protect_all prot p bufs;
     Some (p, buf # bufs) }"

text \<open>
  \<open>usable c n\<close>: buffers of length \<open>n\<close> hold all fields of configuration \<open>c\<close>.  \<open>covered c n i\<close>:
  the check of such a buffer depends on byte \<open>i\<close>.
\<close>

locale e2e_profile =
  fixes prot :: "'p \<Rightarrow> byte list \<Rightarrow> ('p \<times> byte list) ub"
    and chk :: "'c \<Rightarrow> byte list \<Rightarrow> generic_check_status ub"
    and config :: "'p \<Rightarrow> 'c"
    and usable :: "'c \<Rightarrow> nat \<Rightarrow> bool"
    and covered :: "'c \<Rightarrow> nat \<Rightarrow> nat \<Rightarrow> bool"
  assumes protected_passes: "usable (config p) (length buf) \<Longrightarrow>
      \<exists>p' buf'. prot p buf = Some (p', buf') \<and> config p' = config p \<and> length buf' = length buf
        \<and> chk (config p) buf' = Some E2E_OK"
    and corruption_detected: "usable c (length buf) \<Longrightarrow> chk c buf = Some E2E_OK \<Longrightarrow>
      covered c (length buf) i \<Longrightarrow> i < length buf \<Longrightarrow> v \<noteq> buf ! i \<Longrightarrow>
      chk c (buf[i := v]) = Some E2E_WRONG_CRC"
begin

lemma protected_stream_passes:
  assumes "\<forall>buf\<in>set bufs. usable (config p) (length buf)"
  shows "\<exists>p' bufs'. protect_all prot p bufs = Some (p', bufs')
    \<and> map length bufs' = map length bufs \<and> list_all (\<lambda>buf. chk (config p) buf = Some E2E_OK) bufs'"
  using assms
proof (induction bufs arbitrary: p)
  case (Cons buf bufs)
  then obtain p1 buf1 where 1: "prot p buf = Some (p1, buf1)" "config p1 = config p"
    "length buf1 = length buf" "chk (config p) buf1 = Some E2E_OK"
    using protected_passes [of p buf] by auto
  with Cons.IH [of p1] Cons.prems obtain p2 bufs2 where "protect_all prot p1 bufs = Some (p2, bufs2)"
    "map length bufs2 = map length bufs" "list_all (\<lambda>buf. chk (config p) buf = Some E2E_OK) bufs2"
    by auto
  with 1 show ?case by simp
qed simp

lemma protect_then_corrupt:
  assumes "usable (config p) (length buf)" and "covered (config p) (length buf) i"
    and "i < length buf"
  shows "\<exists>p' buf'. prot p buf = Some (p', buf') \<and> chk (config p) buf' = Some E2E_OK
    \<and> (\<forall>v. v \<noteq> buf' ! i \<longrightarrow> chk (config p) (buf'[i := v]) = Some E2E_WRONG_CRC)"
  using protected_passes [OF assms(1)] corruption_detected assms by fastforce

end

section \<open>Profile 01 keeps the contract\<close>

definition p01_usable :: "profile_config \<Rightarrow> nat \<Rightarrow> bool" where
  "p01_usable c n \<longleftrightarrow> unat (data_length c) div 8 + 1 \<le> n \<and> unat (crc_offset c) < n
     \<and> unat (counter_offset c) div 8 < n \<and> unat (data_id_nibble_offset c) div 8 < n"

definition covers_tail :: "profile_config \<Rightarrow> bool" where
  "covers_tail c \<longleftrightarrow> int (unat (crc_offset c)) < int (unat (data_length c) div 8) - 1"

definition p01_covered :: "profile_config \<Rightarrow> nat \<Rightarrow> nat \<Rightarrow> bool" where
  "p01_covered c n i \<longleftrightarrow> i \<le> unat (crc_offset c) \<or> covers_tail c"

definition p01_crc :: "profile_config \<Rightarrow> byte list \<Rightarrow> byte" where
  "p01_crc c buf =
     (let head = calculate_profile_01 (take (unat (crc_offset c)) buf) (data_id_crc c)
      in (if covers_tail c then calculate_profile_01 (drop (unat (crc_offset c) + 1) buf) head
          else head) XOR 0xFF)"

lemma calculate_profile_01_Nil [simp]: "calculate_profile_01 [] s = s"
  by (simp add: calculate_profile_01_def xor.assoc)

lemma compute_crc_eq:
  assumes "unat (crc_offset c) < length buf"
  shows "compute_crc c buf = Some (p01_crc c buf)"
  using assms
  by (cases "unat (crc_offset c) = 0")
    (auto simp: compute_crc_def p01_crc_def buffer_view_def covers_tail_def Let_def not_le)

lemma usable_valid: "p01_usable c (length buf) \<Longrightarrow> is_buffer_length_valid c buf"
  by (auto simp: p01_usable_def is_buffer_length_valid_def)

lemma check_eq:
  assumes "p01_usable c (length buf)"
  shows "check c buf = Some (if buf ! unat (crc_offset c) = p01_crc c buf then E2E_OK else E2E_WRONG_CRC)"
  using assms usable_valid [OF assms] compute_crc_eq [of c buf]
  by (simp add: check_def p01_usable_def)

lemma p01_crc_ignores_crc: "p01_crc c (buf[unat (crc_offset c) := v]) = p01_crc c buf"
  unfolding p01_crc_def by (simp only: take_update_cancel drop_update_cancel less_add_one order_refl)

lemma p01_crc_change:
  assumes "i < length buf" and "v \<noteq> buf ! i" and "i \<noteq> unat (crc_offset c)"
    and "p01_covered c (length buf) i"
  shows "p01_crc c (buf[i := v]) \<noteq> p01_crc c buf"
proof (cases "i < unat (crc_offset c)")
  case True
  let ?k = "unat (crc_offset c)"
  have "calculate_profile_01 ((take ?k buf)[i := v]) s \<noteq> calculate_profile_01 (take ?k buf) s" for s
    using True assms(1,2) by (intro calculate_profile_01_change) simp_all
  then have head: "calculate_profile_01 (take ?k (buf[i := v])) s \<noteq> calculate_profile_01 (take ?k buf) s" for s
    using True by (simp add: take_update_swap)
  moreover have "drop (?k + 1) (buf[i := v]) = drop (?k + 1) buf"
    using True by simp
  ultimately show ?thesis
    using calculate_profile_01_inj
    unfolding p01_crc_def Let_def xor_right_cancel by (metis (mono_tags))
next
  case False
  let ?k = "unat (crc_offset c) + 1"
  from False assms have "?k \<le> i" "covers_tail c"
    by (auto simp: p01_covered_def)
  moreover from this have "calculate_profile_01 ((drop ?k buf)[i - ?k := v]) s \<noteq> calculate_profile_01 (drop ?k buf) s"
    for s using assms(1,2) by (intro calculate_profile_01_change) auto
  ultimately show ?thesis
    by (simp add: p01_crc_def drop_update_swap Let_def xor_right_cancel)
qed

lemma protect_eq:
  assumes "p01_usable (prot_config p) (length buf)"
  obtains buf1 where "length buf1 = length buf"
    and "protect p buf = Some (increment_counter p,
      buf1[unat (crc_offset (prot_config p)) := p01_crc (prot_config p) buf1])"
    and "\<And>i. i \<noteq> unat (counter_offset (prot_config p)) div 8 \<Longrightarrow>
      i \<noteq> unat (data_id_nibble_offset (prot_config p)) div 8 \<Longrightarrow> buf1 ! i = buf ! i"
proof -
  let ?c = "prot_config p"
  from assms obtain buf0 where 0: "write_counter p buf = Some buf0" "length buf0 = length buf"
    "\<And>i. i \<noteq> unat (counter_offset ?c) div 8 \<Longrightarrow> buf0 ! i = buf ! i"
    by (simp add: write_counter_def p01_usable_def Let_def)
  with assms obtain buf1 where 1: "write_data_id p buf0 = Some buf1" "length buf1 = length buf"
    "\<And>i. i \<noteq> unat (data_id_nibble_offset ?c) div 8 \<Longrightarrow> buf1 ! i = buf0 ! i"
    by (cases "data_id_mode ?c = E2E_P01_DATAID_NIBBLE")
      (auto simp: write_data_id_def p01_usable_def Let_def)
  have "unat (crc_offset ?c) < length buf1"
    using assms 1 by (simp add: p01_usable_def)
  then have "protect p buf = Some (increment_counter p, buf1[unat (crc_offset ?c) := p01_crc ?c buf1])"
    using 0(1) 1(1) usable_valid [OF assms] by (simp add: protect_def compute_crc_eq write_crc_def)
  with 0 1 that show thesis by simp
qed

interpretation p01: e2e_profile protect check prot_config p01_usable p01_covered
proof
  fix p :: protector and buf :: "byte list"
  assume usable: "p01_usable (prot_config p) (length buf)"
  then obtain buf1 where 1: "length buf1 = length buf"
    "protect p buf = Some (increment_counter p,
      buf1[unat (crc_offset (prot_config p)) := p01_crc (prot_config p) buf1])"
    by (rule protect_eq)
  then show "\<exists>p' buf'. protect p buf = Some (p', buf') \<and> prot_config p' = prot_config p
      \<and> length buf' = length buf \<and> check (prot_config p) buf' = Some E2E_OK"
    using usable by (simp add: check_eq p01_crc_ignores_crc increment_counter_def) (simp add: p01_usable_def)
next
  fix c buf i v
  assume a: "p01_usable c (length buf)" "check c buf = Some E2E_OK" "p01_covered c (length buf) i"
    "i < length buf" "v \<noteq> buf ! i"
  then have ok: "buf ! unat (crc_offset c) = p01_crc c buf"
    by (simp add: check_eq split: if_splits)
  show "check c (buf[i := v]) = Some E2E_WRONG_CRC"
  proof (cases "i = unat (crc_offset c)")
    case True
    with a ok show ?thesis by (simp add: check_eq p01_crc_ignores_crc)
  next
    case False
    with a ok p01_crc_change [of i buf v c] show ?thesis by (simp add: check_eq)
  qed
qed

section \<open>The custom profile keeps the contract\<close>

definition custom_usable :: "u16 \<Rightarrow> nat \<Rightarrow> bool" where
  "custom_usable offset n \<longleftrightarrow> unat offset + 4 \<le> n"

definition custom_covered :: "u16 \<Rightarrow> nat \<Rightarrow> nat \<Rightarrow> bool" where
  "custom_covered offset n i \<longleftrightarrow> unat offset \<le> i"

definition custom_prot :: "u16 \<Rightarrow> byte list \<Rightarrow> (u16 \<times> byte list) ub" where
  "custom_prot offset buf = map_option (Pair offset) (custom_protect offset buf)"

definition be32 :: "byte list \<Rightarrow> nat \<Rightarrow> u32" where
  "be32 buf k = VSOMEIP_BYTES_TO_LONG (buf ! k) (buf ! (k + 1)) (buf ! (k + 2)) (buf ! (k + 3))"

lemma be32_eqD:
  assumes "be32 buf k = be32 buf' k" and "k \<le> i" and "i < k + 4"
  shows "buf ! i = buf' ! i"
proof -
  from assms consider "i = k" | "i = k + 1" | "i = k + 2" | "i = k + 3" by linarith
  then show ?thesis
    using assms(1) bytes_of_long unfolding be32_def by cases metis+
qed

lemma crc_bytes:
  "ucast (drop_bit 24 crc) = VSOMEIP_LONG_BYTE3 crc" "ucast (drop_bit 16 crc) = VSOMEIP_LONG_BYTE2 crc"
  "ucast (drop_bit 8 crc) = VSOMEIP_LONG_BYTE1 crc" "ucast crc = VSOMEIP_LONG_BYTE0 crc"
  by (rule bit_word_eqI, simp add: bits_of bit_simps)+

lemma custom_check_eq:
  assumes "unat offset + 4 \<le> length buf"
  shows "custom_check offset buf = Some
    (if be32 buf (unat offset) = calculate_profile_custom (drop (unat offset + 4) buf)
     then E2E_OK else E2E_WRONG_CRC)"
  using assms by (simp add: custom_check_def custom_is_buffer_length_valid_def read_crc_def be32_def
      VSOMEIP_BYTES_TO_LONG_def custom_compute_crc_def buffer_view_def)

lemma custom_protect_eq:
  assumes "unat offset + 4 \<le> length buf"
  obtains buf' where "custom_protect offset buf = Some buf'" and "length buf' = length buf"
    and "drop (unat offset + 4) buf' = drop (unat offset + 4) buf"
    and "take (unat offset) buf' = take (unat offset) buf"
    and "be32 buf' (unat offset) = calculate_profile_custom (drop (unat offset + 4) buf)"
proof -
  let ?k = "unat offset" and ?crc = "calculate_profile_custom (drop (unat offset + 4) buf)"
  let ?buf = "buf[?k := VSOMEIP_LONG_BYTE3 ?crc, ?k + 1 := VSOMEIP_LONG_BYTE2 ?crc,
    ?k + 2 := VSOMEIP_LONG_BYTE1 ?crc, ?k + 3 := VSOMEIP_LONG_BYTE0 ?crc]"
  have "custom_protect offset buf = Some ?buf"
    using assms by (simp add: custom_protect_def custom_is_buffer_length_valid_def custom_compute_crc_def
        buffer_view_def custom_write_crc_def flip: crc_bytes)
  moreover have "be32 ?buf ?k = ?crc"
    using assms by (simp add: be32_def)
  ultimately show thesis
    by (intro that [of ?buf]) simp_all
qed

interpretation custom: e2e_profile custom_prot custom_check "\<lambda>offset. offset" custom_usable custom_covered
proof
  fix offset :: u16 and buf :: "byte list"
  assume "custom_usable offset (length buf)"
  then have fits: "unat offset + 4 \<le> length buf"
    by (simp add: custom_usable_def)
  then obtain buf' where "custom_protect offset buf = Some buf'" "length buf' = length buf"
    "drop (unat offset + 4) buf' = drop (unat offset + 4) buf"
    "be32 buf' (unat offset) = calculate_profile_custom (drop (unat offset + 4) buf)"
    by (rule custom_protect_eq)
  with fits show "\<exists>p' buf'. custom_prot offset buf = Some (p', buf') \<and> p' = offset
      \<and> length buf' = length buf \<and> custom_check offset buf' = Some E2E_OK"
    by (simp add: custom_prot_def custom_check_eq)
next
  fix offset buf i v
  assume a: "custom_usable offset (length buf)" "custom_check offset buf = Some E2E_OK"
    "custom_covered offset (length buf) i" "i < length buf" "v \<noteq> buf ! i"
  let ?k = "unat offset"
  from a have fits: "?k + 4 \<le> length buf" "?k \<le> i"
    and ok: "be32 buf ?k = calculate_profile_custom (drop (?k + 4) buf)"
    by (simp_all add: custom_usable_def custom_covered_def custom_check_eq split: if_splits)
  have "be32 (buf[i := v]) ?k \<noteq> calculate_profile_custom (drop (?k + 4) (buf[i := v]))"
  proof (cases "i < ?k + 4")
    case True
    then have "be32 (buf[i := v]) ?k \<noteq> be32 buf ?k"
      using be32_eqD [of "buf[i := v]" ?k buf i] fits a by auto
    with True ok show ?thesis by simp
  next
    case False
    then have "be32 (buf[i := v]) ?k = be32 buf ?k"
      by (simp add: be32_def)
    moreover have "calculate_profile_custom ((drop (?k + 4) buf)[i - (?k + 4) := v])
        \<noteq> calculate_profile_custom (drop (?k + 4) buf)"
      using False a by (intro calculate_profile_custom_change) auto
    ultimately show ?thesis
      using False ok by (simp add: drop_update_swap)
  qed
  with fits show "custom_check offset (buf[i := v]) = Some E2E_WRONG_CRC"
    by (simp add: custom_check_eq)
qed

section \<open>Properties\<close>

text \<open>
  C6. Profile 01 end to end: on a buffer that holds all configured fields, protecting
  succeeds, the checker accepts the result, and it reports a wrong CRC for every change of
  one covered byte, the CRC byte included.
\<close>

theorem profile01_protect_check:
  assumes "p01_usable (prot_config p) (length buf)"
    and "p01_covered (prot_config p) (length buf) i" and "i < length buf"
  shows "\<exists>p' buf'. protect p buf = Some (p', buf') \<and> check (prot_config p) buf' = Some E2E_OK
    \<and> (\<forall>v. v \<noteq> buf' ! i \<longrightarrow> check (prot_config p) (buf'[i := v]) = Some E2E_WRONG_CRC)"
  by (rule p01.protect_then_corrupt [OF assms])

definition sample_config :: profile_config where
  "sample_config = \<lparr>crc_offset = 0, data_id = 0xA73, data_id_mode = E2E_P01_DATAID_NIBBLE,
     data_length = 56, counter_offset = 8, data_id_nibble_offset = 12\<rparr>"

theorem profile01_protect_check_witness:
  "\<exists>p' buf'. protect (protector_init sample_config) [0, 0, 1, 2, 3, 4, 5, 6] = Some (p', buf')
     \<and> check sample_config buf' = Some E2E_OK
     \<and> (buf' ! 7 \<noteq> 99 \<longrightarrow> check sample_config (buf'[7 := 99]) = Some E2E_WRONG_CRC)"
proof -
  have "prot_config (protector_init sample_config) = sample_config"
    by (simp add: protector_init_def)
  with profile01_protect_check [of "protector_init sample_config" "[0, 0, 1, 2, 3, 4, 5, 6]" 7]
  show ?thesis
    by (fastforce simp: p01_usable_def p01_covered_def covers_tail_def sample_config_def)
qed

text \<open>
  The sequence counter a protector writes runs through 0 to 14: a successful
  protection advances it by one modulo fifteen, and every byte of the message except those of
  counter, data identifier and CRC is left alone.
\<close>

theorem profile01_counter_and_frame:
  assumes "p01_usable (prot_config p) (length buf)" and "prot_counter p < 15"
  shows "\<exists>p' buf'. protect p buf = Some (p', buf')
    \<and> prot_counter p' < 15 \<and> unat (prot_counter p') = (unat (prot_counter p) + 1) mod 15
    \<and> (\<forall>j. j \<noteq> unat (counter_offset (prot_config p)) div 8
         \<longrightarrow> j \<noteq> unat (data_id_nibble_offset (prot_config p)) div 8
         \<longrightarrow> j \<noteq> unat (crc_offset (prot_config p)) \<longrightarrow> buf' ! j = buf ! j)"
proof -
  from assms(1) obtain buf1 where 1: "protect p buf = Some (increment_counter p,
      buf1[unat (crc_offset (prot_config p)) := p01_crc (prot_config p) buf1])"
    "\<And>i. i \<noteq> unat (counter_offset (prot_config p)) div 8 \<Longrightarrow>
      i \<noteq> unat (data_id_nibble_offset (prot_config p)) div 8 \<Longrightarrow> buf1 ! i = buf ! i"
    by (rule protect_eq) blast
  have "unat (prot_counter (increment_counter p)) = (unat (prot_counter p) + 1) mod 15"
    by (simp add: increment_counter_def unat_of_nat take_bit_nat_eq_self)
  moreover from this have "prot_counter (increment_counter p) < 15"
    by (simp add: word_less_nat_alt)
  ultimately show ?thesis
    using 1 by auto
qed

theorem profile01_counter_and_frame_witness:
  "\<exists>p' buf'. protect \<lparr>prot_config = sample_config, prot_counter = 14\<rparr> [9, 8, 7, 6, 5, 4, 3, 2] = Some (p', buf')
     \<and> prot_counter p' = 0 \<and> buf' ! 2 = 7"
  using profile01_counter_and_frame [of "\<lparr>prot_config = sample_config, prot_counter = 14\<rparr>"
      "[9, 8, 7, 6, 5, 4, 3, 2]"]
  by (fastforce simp: p01_usable_def sample_config_def unat_eq_zero)

text \<open>
  The custom profile end to end: protecting succeeds whenever the four CRC bytes fit,
  and the checker accepts the result and rejects every change of one byte at or behind the
  CRC field.
\<close>

theorem custom_protect_check:
  assumes "unat offset + 4 \<le> length buf" and "unat offset \<le> i" and "i < length buf"
  shows "\<exists>buf'. custom_protect offset buf = Some buf' \<and> custom_check offset buf' = Some E2E_OK
    \<and> (\<forall>v. v \<noteq> buf' ! i \<longrightarrow> custom_check offset (buf'[i := v]) = Some E2E_WRONG_CRC)"
  using custom.protect_then_corrupt [of offset buf i] assms
  by (auto simp: custom_usable_def custom_covered_def custom_prot_def)

theorem custom_protect_check_witness:
  "\<exists>buf'. custom_protect 0 [0, 0, 0, 0, 1, 2] = Some buf' \<and> custom_check 0 buf' = Some E2E_OK"
  using custom_protect_check [of 0 "[0, 0, 0, 0, 1, 2]" 5] by auto

text \<open>
  Bytes in front of the CRC field are not protected: the checker of the custom profile
  does not read them.
\<close>

theorem custom_front_unprotected:
  assumes "i < unat offset"
  shows "custom_check offset (buf[i := v]) = custom_check offset buf"
proof (cases "unat offset + 4 \<le> length buf")
  case True
  then show ?thesis using assms by (simp add: custom_check_eq be32_def)
next
  case False
  then show ?thesis by (simp add: custom_check_def custom_is_buffer_length_valid_def)
qed

text \<open>
  C37. A sequence of messages protected one after the other by the same protector is
  accepted message by message, for both profiles.
\<close>

theorem protected_streams_pass:
  assumes "\<forall>buf\<in>set bufs. p01_usable (prot_config p) (length buf) \<and> unat offset + 4 \<le> length buf"
  shows "(\<exists>p' bufs'. protect_all protect p bufs = Some (p', bufs')
      \<and> list_all (\<lambda>buf. check (prot_config p) buf = Some E2E_OK) bufs')
    \<and> (\<exists>bufs'. protect_all custom_prot offset bufs = Some (offset, bufs')
      \<and> list_all (\<lambda>buf. custom_check offset buf = Some E2E_OK) bufs')"
proof -
  have "protect_all custom_prot offset bufs = Some (p', bufs') \<Longrightarrow> p' = offset" for p' bufs'
    by (induction bufs arbitrary: p' bufs') (auto simp: custom_prot_def bind_eq_Some_conv)
  with p01.protected_stream_passes [of bufs p] custom.protected_stream_passes [of bufs offset] assms
  show ?thesis
    by (fastforce simp: custom_usable_def)
qed

theorem protected_streams_pass_witness:
  "\<exists>p' bufs'. protect_all protect (protector_init sample_config)
     [replicate 8 1, replicate 9 2] = Some (p', bufs') \<and> list_all (\<lambda>buf. check sample_config buf = Some E2E_OK) bufs'"
  using protected_streams_pass [of "[replicate 8 1, replicate 9 2]" "protector_init sample_config" 0]
  by (simp add: p01_usable_def protector_init_def) (simp add: sample_config_def)

text \<open>
  The length check admits offsets one past the end: with the CRC offset (or the
  counter byte) equal to the size of the buffer, protecting and checking access the byte
  behind it.
\<close>

theorem offset_check_off_by_one:
  assumes "unat (data_length c) div 8 + 1 \<le> length buf" and "unat (crc_offset c) = length buf"
    and "unat (counter_offset c) div 8 < length buf" and "unat (data_id_nibble_offset c) div 8 < length buf"
  shows "is_buffer_length_valid c buf \<and> check c buf = None
    \<and> protect \<lparr>prot_config = c, prot_counter = n\<rparr> buf = None"
proof -
  have valid: "is_buffer_length_valid c buf"
    using assms by (simp add: is_buffer_length_valid_def)
  have "write_crc \<lparr>prot_config = c, prot_counter = n\<rparr> b x = None" if "length b = length buf" for b x
    using that assms(2) by (simp add: write_crc_def vec_set_def)
  then show ?thesis
    using valid assms
    by (auto simp: check_def protect_def vec_get_def write_counter_def write_data_id_def Let_def
        bind_eq_None_conv split: option.splits)
qed

theorem offset_check_off_by_one_witness:
  "check (sample_config\<lparr>crc_offset := 8\<rparr>) (replicate 8 0) = None"
  using offset_check_off_by_one [of "sample_config\<lparr>crc_offset := 8\<rparr>" "replicate 8 0" 0]
  by (simp add: sample_config_def)

text \<open>
  In mode \<^verbatim>\<open>E2E_P01_DATAID_ALT\<close> the data identifier does not enter the CRC at all: the code
  the comment describes is commented out.
\<close>

theorem alternating_data_id_ignored:
  assumes "data_id_mode c = E2E_P01_DATAID_ALT"
  shows "compute_crc (c\<lparr>data_id := d\<rparr>) buf = compute_crc c buf"
  using assms by (simp add: compute_crc_def data_id_crc_def Let_def)

end
