(* ===== verification/Client_Id.thy ===== *)
theory Client_Id
  imports Prelude
begin

text \<open>
  Client identifiers: the functions of \<^verbatim>\<open>utility/src/utility.cpp\<close> that hand out identifiers from
  the block of shared memory all applications of a host map.  The struct
  \<^verbatim>\<open>configuration_data_t\<close> and the array behind it are a record; the array has room for
  \<^verbatim>\<open>max_clients_\<close> identifiers, the size the block is created with, of which the first
  \<^verbatim>\<open>max_used_client_ids_index_\<close> are in use.

  What the functions ask their surroundings is gathered in \<open>client_env\<close>: the configuration
  (routing host, identifiers configured per application name, diagnosis address and mask),
  the process (its identifier, whether another one is alive), the file system (whether a
  left-over socket of a client exists that cannot be removed) and whether the robust mutex
  reported that its last owner died.  The POSIX branch of the code is modelled.
  A result \<open>None\<close> stands for undefined behaviour or for a call that does not return.
\<close>

section \<open>State\<close>

type_synonym client_t = u16

record configuration_data =
  cd_pid :: int
  cd_client_base :: u16
  cd_max_clients :: u16
  cd_max_used_client_ids_index :: nat
  cd_max_assigned_client_id_without_diagnosis :: u16
  cd_routing_manager_host :: client_t
  cd_used_client_ids :: "client_t list"

record client_env =
  env_routing_host :: string
  env_get_id :: "string \<Rightarrow> client_t"
  env_is_configured_client_id :: "client_t \<Rightarrow> bool"
  env_diagnosis_address :: u16
  env_diagnosis_mask :: u16
  env_pid :: int
  env_alive :: "int \<Rightarrow> bool"
  env_socket_stuck :: "client_t \<Rightarrow> bool"
  env_owner_died :: bool

definition ILLEGAL_CLIENT :: client_t where [simp]: "ILLEGAL_CLIENT = 0x0000"

text \<open>The block as its creator initialises it; fresh shared memory is zero.\<close>

definition configuration_data_init :: "client_env \<Rightarrow> configuration_data ub" where
  "configuration_data_init env =
     (let client_base = push_bit 8 (env_diagnosis_address env) AND env_diagnosis_mask env;
          max_clients = NOT (env_diagnosis_mask env)
      in do {
        ids \<leftarrow> vec_set (replicate (unat max_clients) 0) 0 client_base;
        Some \<lparr>cd_pid = 0, cd_client_base = client_base + 1, cd_max_clients = max_clients,
              cd_max_used_client_ids_index = 1, cd_max_assigned_client_id_without_diagnosis = 0,
              cd_routing_manager_host = 0, cd_used_client_ids = ids\<rparr> })"

section \<open>Searching and shifting the array\<close>

text \<open>\<open>find_id\<close> and \<open>shift_ids\<close> are the loops over the array; \<open>n\<close> is their bound.\<close>

function find_id :: "client_t list \<Rightarrow> client_t \<Rightarrow> nat \<Rightarrow> nat \<Rightarrow> nat ub" where
  "find_id ids client n i =
     (if i < n
      then do { x \<leftarrow> vec_get ids i;
                if x = client then Some i else find_id ids client n (Suc i) }
      else Some i)"
  by pat_completeness auto
termination by (relation "measure (\<lambda>(_, _, n, i). n - i)") auto

function shift_ids :: "nat \<Rightarrow> nat \<Rightarrow> client_t list \<Rightarrow> client_t list ub" where
  "shift_ids n i ids =
     (if i < n
      then do { x \<leftarrow> vec_get ids (i + 1);
                ids \<leftarrow> vec_set ids i x;
                shift_ids n (Suc i) ids }
      else Some ids)"
  by pat_completeness auto
termination by (relation "measure (\<lambda>(n, i, _). n - i)") auto

function find_repeated :: "client_t list \<Rightarrow> nat \<Rightarrow> client_t \<Rightarrow> nat \<Rightarrow> nat ub" where
  "find_repeated ids n prevID i =
     (if i < n
      then do { currID \<leftarrow> vec_get ids i;
                if prevID = currID then Some i else find_repeated ids n currID (Suc i) }
      else Some i)"
  by pat_completeness auto
termination by (relation "measure (\<lambda>(_, n, _, i). n - i)") auto

declare find_id.simps [simp del] shift_ids.simps [simp del] find_repeated.simps [simp del]

section \<open>Operations\<close>

definition check_client_id_consistency :: "configuration_data \<Rightarrow> configuration_data ub" where
  "check_client_id_consistency d =
     (let n = cd_max_used_client_ids_index d
      in if 1 < n
         then do {
           prevID \<leftarrow> vec_get (cd_used_client_ids d) 0;
           i \<leftarrow> find_repeated (cd_used_client_ids d) n prevID 1;
           if i < n
           then do { ids \<leftarrow> shift_ids (n - 1) i (cd_used_client_ids d);
                     Some (d\<lparr>cd_used_client_ids := ids, cd_max_used_client_ids_index := n - 1\<rparr>) }
           else Some d }
         else Some d)"

definition lock :: "client_env \<Rightarrow> configuration_data \<Rightarrow> configuration_data ub" where
  "lock env d = (if env_owner_died env then check_client_id_consistency d else Some d)"

definition is_used_client_id :: "client_env \<Rightarrow> configuration_data \<Rightarrow> client_t \<Rightarrow> bool ub" where
  "is_used_client_id env d client = do {
     i \<leftarrow> find_id (cd_used_client_ids d) client (cd_max_used_client_ids_index d) 0;
     Some (i < cd_max_used_client_ids_index d \<or> env_socket_stuck env client) }"

definition get_used_client_ids :: "client_env \<Rightarrow> configuration_data option
    \<Rightarrow> (client_t set \<times> configuration_data option) ub" where
  "get_used_client_ids env data =
     (case data of
        None \<Rightarrow> Some ({}, None)
      | Some d \<Rightarrow> do {
          d \<leftarrow> lock env d;
          if cd_max_used_client_ids_index d \<le> length (cd_used_client_ids d)
          then Some (set (drop 1 (take (cd_max_used_client_ids_index d) (cd_used_client_ids d))), Some d)
          else None })"

definition is_bigger_last_assigned_client_id :: "configuration_data \<Rightarrow> client_t \<Rightarrow> u16 \<Rightarrow> bool" where
  "is_bigger_last_assigned_client_id d client diagnosis_mask \<longleftrightarrow>
     unat (cd_client_base d AND diagnosis_mask) + unat (cd_max_assigned_client_id_without_diagnosis d)
       < unat client"

definition set_max_assigned_client_id_without_diagnosis ::
  "client_t \<Rightarrow> configuration_data \<Rightarrow> configuration_data ub" where
  "set_max_assigned_client_id_without_diagnosis client d =
     (if cd_max_clients d = 0 then None
      else Some (d\<lparr>cd_max_assigned_client_id_without_diagnosis :=
                     (client AND cd_max_clients d) mod cd_max_clients d\<rparr>))"

text \<open>Lines 547 to 573: whether automatic configuration is needed, and the identifier to use.\<close>

definition preconfigured_client :: "client_env \<Rightarrow> string \<Rightarrow> client_t \<Rightarrow> configuration_data
    \<Rightarrow> (bool \<times> client_t) ub" where
  "preconfigured_client env name client d =
     (if name \<noteq> [] \<and> client \<noteq> ILLEGAL_CLIENT \<and> env_get_id env name \<noteq> 0
      then (let its_preconfigured_client_id = env_get_id env name
            in if its_preconfigured_client_id = client
               then do { used \<leftarrow> is_used_client_id env d client; Some (used, client) }
               else do {
                 preconfigured_used \<leftarrow> is_used_client_id env d its_preconfigured_client_id;
                 if \<not> preconfigured_used then Some (False, its_preconfigured_client_id)
                 else do { used \<leftarrow> is_used_client_id env d client; Some (used, client) } })
      else Some (True, client))"

text \<open>Lines 579 to 604: the search for a free identifier; no identifier means \<^verbatim>\<open>ILLEGAL_CLIENT\<close>.\<close>

partial_function (option) find_free_client :: "client_env \<Rightarrow> configuration_data \<Rightarrow> client_t \<Rightarrow> nat
    \<Rightarrow> (client_t option \<times> configuration_data) option" where
  "find_free_client env d client increase_count = do {
     used \<leftarrow> is_used_client_id env d client;
     if used \<or> \<not> is_bigger_last_assigned_client_id d client (env_diagnosis_mask env)
        \<or> env_is_configured_client_id env client
     then (if unat (cd_max_clients d) < unat (client AND cd_max_clients d) + 1
           then find_free_client env (d\<lparr>cd_max_assigned_client_id_without_diagnosis := 0\<rparr>)
                  (cd_client_base d) increase_count
           else if unat (cd_max_clients d) < increase_count + 1 then Some (None, d)
           else find_free_client env d (client + 1) (increase_count + 1))
     else Some (Some client, d) }"

definition assign_client :: "client_env \<Rightarrow> string \<Rightarrow> client_t \<Rightarrow> configuration_data
    \<Rightarrow> (client_t option \<times> configuration_data) ub" where
  "assign_client env name client d = do {
     (use_autoconfig, client) \<leftarrow> preconfigured_client env name client d;
     if use_autoconfig
     then do {
       used \<leftarrow> (if client = ILLEGAL_CLIENT then Some True else is_used_client_id env d client);
       (found, d) \<leftarrow> find_free_client env d (if used then cd_client_base d else client) 0;
       (case found of
          None \<Rightarrow> Some (None, d)
        | Some client \<Rightarrow> do {
            d \<leftarrow> set_max_assigned_client_id_without_diagnosis client d;
            Some (Some client, d) }) }
     else Some (Some client, d) }"

definition take_over_routing :: "client_env \<Rightarrow> string \<Rightarrow> configuration_data \<Rightarrow> configuration_data" where
  "take_over_routing env name d =
     (if (env_routing_host env = [] \<or> name = env_routing_host env) \<and> cd_pid d \<noteq> 0
         \<and> env_pid env \<noteq> cd_pid d \<and> \<not> env_alive env (cd_pid d)
      then d\<lparr>cd_routing_manager_host := 0\<rparr> else d)"

definition request_client_id :: "client_env \<Rightarrow> string \<Rightarrow> client_t \<Rightarrow> configuration_data option
    \<Rightarrow> (client_t \<times> configuration_data option) ub" where
  "request_client_id env name client data =
     (case data of
        None \<Rightarrow> Some (ILLEGAL_CLIENT, None)
      | Some d \<Rightarrow> do {
          d \<leftarrow> lock env d;
          let d = take_over_routing env name d;
          let is_host = (env_routing_host env \<noteq> [] \<and> env_routing_host env = name);
          let set_client_as_manager_host =
            ((is_host \<or> env_routing_host env = []) \<and> cd_routing_manager_host d = 0);
          if is_host \<and> cd_routing_manager_host d \<noteq> 0 then Some (ILLEGAL_CLIENT, Some d)
          else if cd_max_used_client_ids_index d = unat (cd_max_clients d)
          then Some (ILLEGAL_CLIENT, Some d)
          else do {
            (found, d) \<leftarrow> assign_client env name client d;
            (case found of
               None \<Rightarrow> Some (ILLEGAL_CLIENT, Some d)
             | Some client \<Rightarrow> do {
                 let d = (if set_client_as_manager_host
                          then d\<lparr>cd_routing_manager_host := client, cd_pid := env_pid env\<rparr> else d);
                 ids \<leftarrow> vec_set (cd_used_client_ids d) (cd_max_used_client_ids_index d) client;
                 Some (client, Some (d\<lparr>cd_used_client_ids := ids,
                   cd_max_used_client_ids_index := cd_max_used_client_ids_index d + 1\<rparr>)) }) } })"

definition release_client_id :: "client_env \<Rightarrow> client_t \<Rightarrow> configuration_data option
    \<Rightarrow> configuration_data option ub" where
  "release_client_id env client data =
     (case data of
        None \<Rightarrow> Some None
      | Some d \<Rightarrow> do {
          d \<leftarrow> lock env d;
          let n = cd_max_used_client_ids_index d;
          i \<leftarrow> find_id (cd_used_client_ids d) client n 0;
          if i < n
          then do { ids \<leftarrow> shift_ids (n - 1) i (cd_used_client_ids d);
                    Some (Some (d\<lparr>cd_used_client_ids := ids, cd_max_used_client_ids_index := n - 1\<rparr>)) }
          else Some (Some d) })"

definition is_routing_manager_host :: "client_env \<Rightarrow> client_t \<Rightarrow> configuration_data option
    \<Rightarrow> (bool \<times> configuration_data option) ub" where
  "is_routing_manager_host env client data =
     (case data of
        None \<Rightarrow> Some (False, None)
      | Some d \<Rightarrow> do { d \<leftarrow> lock env d; Some (cd_routing_manager_host d = client, Some d) })"

definition set_routing_manager_host :: "client_env \<Rightarrow> client_t \<Rightarrow> configuration_data option
    \<Rightarrow> configuration_data option ub" where
  "set_routing_manager_host env client data =
     (case data of
        None \<Rightarrow> Some None
      | Some d \<Rightarrow> do { d \<leftarrow> lock env d; Some (Some (d\<lparr>cd_routing_manager_host := client\<rparr>)) })"

section \<open>What the loops compute\<close>

lemma find_id_spec:
  assumes "n \<le> length ids" and "i \<le> n"
  obtains j where "find_id ids c n i = Some j" and "i \<le> j" and "j \<le> n"
    and "\<And>k. i \<le> k \<Longrightarrow> k < j \<Longrightarrow> ids ! k \<noteq> c" and "j < n \<Longrightarrow> ids ! j = c"
proof -
  have "\<exists>j. find_id ids c n i = Some j \<and> i \<le> j \<and> j \<le> n
      \<and> (\<forall>k. i \<le> k \<and> k < j \<longrightarrow> ids ! k \<noteq> c) \<and> (j < n \<longrightarrow> ids ! j = c)"
    using assms
  proof (induction ids c n i rule: find_id.induct)
    case (1 ids c n i)
    show ?case
    proof (cases "i < n \<and> ids ! i \<noteq> c")
      case True
      with "1.IH" "1.prems" obtain j where "find_id ids c n (Suc i) = Some j" "Suc i \<le> j" "j \<le> n"
        "\<forall>k. Suc i \<le> k \<and> k < j \<longrightarrow> ids ! k \<noteq> c" "j < n \<longrightarrow> ids ! j = c"
        by auto
      moreover from this True have "ids ! k \<noteq> c" if "i \<le> k" "k < j" for k
        using that by (cases "k = i") auto
      ultimately show ?thesis
        using True "1.prems" by (subst find_id.simps) auto
    next
      case False
      with "1.prems" show ?thesis by (subst find_id.simps) auto
    qed
  qed
  then show thesis using that by blast
qed

lemma shift_ids_spec:
  assumes "n < length ids" and "i \<le> n"
  obtains ids' where "shift_ids n i ids = Some ids'" and "length ids' = length ids"
    and "\<And>k. k < length ids \<Longrightarrow> ids' ! k = (if i \<le> k \<and> k < n then ids ! (k + 1) else ids ! k)"
proof -
  have "\<exists>ids'. shift_ids n i ids = Some ids' \<and> length ids' = length ids
      \<and> (\<forall>k<length ids. ids' ! k = (if i \<le> k \<and> k < n then ids ! (k + 1) else ids ! k))"
    using assms
  proof (induction n i ids rule: shift_ids.induct)
    case (1 n i ids)
    show ?case
    proof (cases "i < n")
      case True
      with "1.IH" [OF True, of "ids ! (i + 1)" "ids[i := ids ! (i + 1)]"] "1.prems"
      obtain ids' where "shift_ids n (Suc i) (ids[i := ids ! (i + 1)]) = Some ids'" "length ids' = length ids"
        "\<forall>k<length ids. ids' ! k = (if Suc i \<le> k \<and> k < n then ids[i := ids ! (i + 1)] ! (k + 1)
           else ids[i := ids ! (i + 1)] ! k)"
        by auto
      with True "1.prems" show ?thesis
        by (subst shift_ids.simps) (auto simp: nth_list_update not_less_eq_eq dest: le_antisym)
    next
      case False
      with "1.prems" show ?thesis by (subst shift_ids.simps) auto
    qed
  qed
  then show thesis using that by blast
qed

lemma find_repeated_spec:
  assumes "n \<le> length ids" and "1 \<le> i" and "i \<le> n"
  obtains j where "find_repeated ids n (ids ! (i - 1)) i = Some j" and "i \<le> j" and "j \<le> n"
    and "\<And>k. i \<le> k \<Longrightarrow> k < j \<Longrightarrow> ids ! k \<noteq> ids ! (k - 1)" and "j < n \<Longrightarrow> ids ! j = ids ! (j - 1)"
proof -
  have "\<exists>j. find_repeated ids n p i = Some j \<and> i \<le> j \<and> j \<le> n
      \<and> (\<forall>k. i \<le> k \<and> k < j \<longrightarrow> ids ! k \<noteq> ids ! (k - 1)) \<and> (j < n \<longrightarrow> ids ! j = ids ! (j - 1))"
    if "p = ids ! (i - 1)" for p
    using assms that
  proof (induction ids n p i rule: find_repeated.induct)
    case (1 ids n p i)
    show ?case
    proof (cases "i < n \<and> p \<noteq> ids ! i")
      case True
      with "1.IH" "1.prems" obtain j where j: "find_repeated ids n (ids ! i) (Suc i) = Some j"
        "Suc i \<le> j" "j \<le> n" "\<forall>k. Suc i \<le> k \<and> k < j \<longrightarrow> ids ! k \<noteq> ids ! (k - 1)"
        "j < n \<longrightarrow> ids ! j = ids ! (j - 1)"
        by auto
      moreover have "ids ! k \<noteq> ids ! (k - 1)" if "i \<le> k" "k < j" for k
        using that j(4) True "1.prems" by (cases "k = i") auto
      ultimately show ?thesis
        using True "1.prems" by (subst find_repeated.simps) auto
    next
      case False
      with "1.prems" show ?thesis by (subst find_repeated.simps) auto
    qed
  qed
  then show thesis using that by blast
qed

section \<open>The invariant of the shared block\<close>

definition used :: "configuration_data \<Rightarrow> client_t list" where
  "used d = take (cd_max_used_client_ids_index d) (cd_used_client_ids d)"

definition ids_inv :: "configuration_data \<Rightarrow> bool" where
  "ids_inv d \<longleftrightarrow> length (cd_used_client_ids d) = unat (cd_max_clients d)
     \<and> 1 \<le> cd_max_used_client_ids_index d
     \<and> cd_max_used_client_ids_index d \<le> unat (cd_max_clients d) \<and> distinct (used d)"

definition remove_at :: "nat \<Rightarrow> 'a list \<Rightarrow> 'a list" where
  "remove_at i xs = take i xs @ drop (Suc i) xs"

lemma length_used: "ids_inv d \<Longrightarrow> length (used d) = cd_max_used_client_ids_index d"
  by (simp add: used_def ids_inv_def)

lemma nth_used: "i < cd_max_used_client_ids_index d \<Longrightarrow> used d ! i = cd_used_client_ids d ! i"
  by (simp add: used_def)

lemma is_used_eq:
  assumes "cd_max_used_client_ids_index d \<le> length (cd_used_client_ids d)"
  shows "is_used_client_id env d c = Some (c \<in> set (used d) \<or> env_socket_stuck env c)"
proof -
  let ?n = "cd_max_used_client_ids_index d" and ?ids = "cd_used_client_ids d"
  from assms obtain j where j: "find_id ?ids c ?n 0 = Some j" "j \<le> ?n"
    "\<And>k. 0 \<le> k \<Longrightarrow> k < j \<Longrightarrow> ?ids ! k \<noteq> c" "j < ?n \<Longrightarrow> ?ids ! j = c"
    by (rule find_id_spec) auto
  have "j < ?n \<longleftrightarrow> c \<in> set (used d)"
    using j assms by (auto simp: used_def in_set_conv_nth min_def) (metis le0 linorder_not_less order_le_imp_less_or_eq)+
  with j(1) show ?thesis by (simp add: is_used_client_id_def)
qed

lemma remove_at_nth:
  assumes "length ys = length xs - 1" and "i < length xs"
    and "\<And>k. k < length ys \<Longrightarrow> ys ! k = (if i \<le> k then xs ! (k + 1) else xs ! k)"
  shows "ys = remove_at i xs"
  using assms by (intro nth_equalityI) (auto simp: remove_at_def nth_append)

lemma distinct_remove_at: "distinct xs \<Longrightarrow> distinct (remove_at i xs)"
proof -
  assume d: "distinct xs"
  have "set (take i xs) \<inter> set (drop (Suc i) xs) = {}"
    using d by (rule set_take_disj_set_drop_if_distinct) simp
  with d show ?thesis by (simp add: remove_at_def)
qed

lemma set_remove_at: "distinct xs \<Longrightarrow> i < length xs \<Longrightarrow> set (remove_at i xs) = set xs - {xs ! i}"
proof -
  assume d: "distinct xs" and i: "i < length xs"
  have "xs = take i xs @ xs ! i # drop (Suc i) xs"
    using i by (rule id_take_nth_drop)
  then have "set xs = set (take i xs) \<union> {xs ! i} \<union> set (drop (Suc i) xs)"
    and "xs ! i \<notin> set (take i xs)" "xs ! i \<notin> set (drop (Suc i) xs)"
    using d by (metis Un_insert_right list.simps(15) set_append sup_bot.right_neutral Un_commute Un_assoc insert_is_Un,
      metis distinct_append disjoint_iff list.set_intros(1), metis distinct.simps(2) distinct_append)
  then show ?thesis by (auto simp: remove_at_def)
qed

text \<open>Dropping the identifier at position \<open>i\<close>: what a completed release leaves.\<close>

definition dropped :: "nat \<Rightarrow> configuration_data \<Rightarrow> configuration_data \<Rightarrow> bool" where
  "dropped i d d' \<longleftrightarrow> (\<exists>ids. d' = d\<lparr>cd_used_client_ids := ids,
       cd_max_used_client_ids_index := cd_max_used_client_ids_index d - 1\<rparr>
     \<and> length ids = length (cd_used_client_ids d)) \<and> used d' = remove_at i (used d)"

lemma shift_drops:
  assumes inv: "ids_inv d" and i: "i < cd_max_used_client_ids_index d"
  obtains ids where "shift_ids (cd_max_used_client_ids_index d - 1) i (cd_used_client_ids d) = Some ids"
    and "dropped i d (d\<lparr>cd_used_client_ids := ids,
      cd_max_used_client_ids_index := cd_max_used_client_ids_index d - 1\<rparr>)"
proof -
  let ?n = "cd_max_used_client_ids_index d"
  have len: "?n \<le> length (cd_used_client_ids d)"
    using inv by (simp add: ids_inv_def)
  from i len have "?n - 1 < length (cd_used_client_ids d)" "i \<le> ?n - 1" by auto
  then obtain ids where ids: "shift_ids (?n - 1) i (cd_used_client_ids d) = Some ids"
    "length ids = length (cd_used_client_ids d)"
    "\<And>k. k < length (cd_used_client_ids d) \<Longrightarrow> ids ! k
       = (if i \<le> k \<and> k < ?n - 1 then cd_used_client_ids d ! (k + 1) else cd_used_client_ids d ! k)"
    by (rule shift_ids_spec) blast
  have "take (?n - 1) ids = remove_at i (used d)"
    using ids(2,3) i len by (intro remove_at_nth) (auto simp: used_def)
  with ids show thesis
    by (intro that [of ids]) (auto simp: dropped_def used_def)
qed

lemma dropped_inv: "ids_inv d \<Longrightarrow> dropped i d d' \<Longrightarrow> 1 < cd_max_used_client_ids_index d \<Longrightarrow> ids_inv d'"
  by (auto simp: ids_inv_def dropped_def intro: distinct_remove_at)

lemma consistency_no_repeat:
  assumes "ids_inv d"
  shows "check_client_id_consistency d = Some d"
proof (cases "1 < cd_max_used_client_ids_index d")
  case True
  let ?n = "cd_max_used_client_ids_index d" and ?ids = "cd_used_client_ids d"
  have len: "?n \<le> length ?ids" using assms by (simp add: ids_inv_def)
  have d: "?ids ! k \<noteq> ?ids ! (k - 1)" if "1 \<le> k" "k < ?n" for k
    using assms that len by (auto simp: ids_inv_def used_def distinct_conv_nth)
  from len True obtain j where j: "find_repeated ?ids ?n (?ids ! (1 - 1)) 1 = Some j" "1 \<le> j" "j \<le> ?n"
    "j < ?n \<Longrightarrow> ?ids ! j = ?ids ! (j - 1)"
    using find_repeated_spec [of ?n ?ids 1] by (metis less_imp_le order_refl)
  with d have "j = ?n" by (metis order_le_imp_less_or_eq)
  moreover have "vec_get ?ids 0 = Some (?ids ! 0)"
    using True len by (intro vec_get_Some) linarith
  ultimately show ?thesis
    using j(1) True by (simp add: check_client_id_consistency_def Let_def)
qed (simp add: check_client_id_consistency_def)

lemma lock_inv: "ids_inv d \<Longrightarrow> lock env d = Some d"
  by (simp add: lock_def consistency_no_repeat)

section \<open>Searching for a free identifier\<close>

text \<open>
  The search ends: a wrap to the client base is followed by an increment, because the base
  is not the last identifier of the range, and the increments are counted.
\<close>

definition search_result :: "client_env \<Rightarrow> configuration_data \<Rightarrow> client_t option \<times> configuration_data \<Rightarrow> bool" where
  "search_result env d r \<longleftrightarrow>
     (\<exists>a. snd r = d\<lparr>cd_max_assigned_client_id_without_diagnosis := a\<rparr>)
     \<and> (\<forall>c. fst r = Some c \<longrightarrow> c \<notin> set (used d) \<and> \<not> env_socket_stuck env c
          \<and> \<not> env_is_configured_client_id env c)"

lemma used_update [simp]:
  "used (d\<lparr>cd_max_assigned_client_id_without_diagnosis := a\<rparr>) = used d"
  "used (d\<lparr>cd_routing_manager_host := h\<rparr>) = used d" "used (d\<lparr>cd_pid := q\<rparr>) = used d"
  by (simp_all add: used_def)

lemma find_free_client_returns:
  assumes "cd_max_used_client_ids_index d \<le> length (cd_used_client_ids d)"
    and "unat (cd_client_base d AND cd_max_clients d) < unat (cd_max_clients d)"
    and "count \<le> unat (cd_max_clients d)"
  shows "\<exists>r. find_free_client env d client count = Some r \<and> search_result env d r"
  using assms
proof (induction "2 * (unat (cd_max_clients d) - count)
    + (if unat (cd_max_clients d) < unat (client AND cd_max_clients d) + 1 then 1 else 0)"
    arbitrary: d client count rule: less_induct)
  case less
  let ?max = "unat (cd_max_clients d)"
  let ?busy = "client \<in> set (used d) \<or> env_socket_stuck env client
    \<or> \<not> is_bigger_last_assigned_client_id d client (env_diagnosis_mask env)
    \<or> env_is_configured_client_id env client"
  note step = find_free_client.simps [of env d client count, unfolded is_used_eq [OF less.prems(1)]]
  have keep: "search_result env d (None, d)" "\<not> ?busy \<Longrightarrow> search_result env d (Some client, d)"
    by (auto simp: search_result_def intro: exI [of _ "cd_max_assigned_client_id_without_diagnosis d"])
  show ?case
  proof (cases ?busy)
    case False
    with step keep(2) show ?thesis by auto
  next
    case busy: True
    show ?thesis
    proof (cases "?max < unat (client AND cd_max_clients d) + 1")
      case True
      let ?d = "d\<lparr>cd_max_assigned_client_id_without_diagnosis := 0\<rparr>"
      have "\<exists>r. find_free_client env ?d (cd_client_base d) count = Some r \<and> search_result env ?d r"
        using less.prems True by (intro less.hyps) simp_all
      moreover have "search_result env ?d r \<Longrightarrow> search_result env d r" for r
        by (auto simp: search_result_def)
      ultimately show ?thesis
        using busy True step by auto
    next
      case False
      show ?thesis
      proof (cases "?max < count + 1")
        case True
        with False busy step keep(1) show ?thesis by auto
      next
        case more: False
        then have "\<exists>r. find_free_client env d (client + 1) (count + 1) = Some r \<and> search_result env d r"
          using less.prems False by (intro less.hyps) auto
        with more False busy step show ?thesis by auto
      qed
    qed
  qed
qed

lemma preconfigured_client_spec:
  assumes "cd_max_used_client_ids_index d \<le> length (cd_used_client_ids d)"
  shows "\<exists>auto c. preconfigured_client env name client d = Some (auto, c)
    \<and> (\<not> auto \<longrightarrow> c \<notin> set (used d))"
  unfolding preconfigured_client_def Let_def is_used_eq [OF assms]
  by (auto intro: exI [of _ True] exI [of _ False])

lemma assign_client_spec:
  assumes inv: "ids_inv d" and base: "unat (cd_client_base d AND cd_max_clients d) < unat (cd_max_clients d)"
  obtains found d' a where "assign_client env name client d = Some (found, d')"
    and "d' = d\<lparr>cd_max_assigned_client_id_without_diagnosis := a\<rparr>"
    and "\<And>c. found = Some c \<Longrightarrow> c \<notin> set (used d)"
proof -
  have len: "cd_max_used_client_ids_index d \<le> length (cd_used_client_ids d)"
    using inv by (simp add: ids_inv_def)
  note is_used = is_used_eq [OF len]
  obtain auto c where pre: "preconfigured_client env name client d = Some (auto, c)"
    and free: "\<not> auto \<Longrightarrow> c \<notin> set (used d)"
    using preconfigured_client_spec [OF len] by blast
  show thesis
  proof (cases auto)
    case False
    then show thesis
      using that [of "Some c" d "cd_max_assigned_client_id_without_diagnosis d"] pre free
      by (simp add: assign_client_def)
  next
    case True
    have "\<exists>b. (if c = ILLEGAL_CLIENT then Some True else is_used_client_id env d c) = Some b"
      by (auto simp: is_used)
    then obtain b where b: "(if c = ILLEGAL_CLIENT then Some True else is_used_client_id env d c) = Some b"
      by blast
    obtain found d1 where found: "find_free_client env d (if b then cd_client_base d else c) 0 = Some (found, d1)"
      and res: "search_result env d (found, d1)"
      using find_free_client_returns [OF len base, of 0] by (metis le0 surj_pair)
    then obtain a where d1: "d1 = d\<lparr>cd_max_assigned_client_id_without_diagnosis := a\<rparr>"
      by (auto simp: search_result_def)
    have max: "cd_max_clients d \<noteq> 0"
      using base by auto
    show thesis
    proof (cases found)
      case None
      with that [of None d1 a] True pre b found d1 show thesis
        by (simp add: assign_client_def)
    next
      case (Some f)
      with that [of "Some f"] True pre b found d1 max res show thesis
        by (simp add: assign_client_def set_max_assigned_client_id_without_diagnosis_def search_result_def)
    qed
  qed
qed

section \<open>Properties\<close>

text \<open>
  C7. Requesting a client identifier returns, never writes outside the shared array and
  keeps its invariant.  A legal identifier that is returned was not in use before and is
  appended to those in use; an illegal one leaves them unchanged.
\<close>

theorem requested_client_id_is_fresh:
  assumes "ids_inv d"
    and "unat (cd_client_base d AND cd_max_clients d) < unat (cd_max_clients d)"
  shows "\<exists>c d'. request_client_id env name client (Some d) = Some (c, Some d') \<and> ids_inv d'
    \<and> (c \<noteq> ILLEGAL_CLIENT \<longrightarrow> c \<notin> set (used d) \<and> used d' = used d @ [c])
    \<and> (used d' = used d \<or> used d' = used d @ [c])"
proof -
  define d0 where "d0 = take_over_routing env name d"
  have d0: "ids_inv d0" "used d0 = used d" "cd_client_base d0 = cd_client_base d"
    "cd_max_clients d0 = cd_max_clients d"
    using assms(1) by (simp_all add: d0_def take_over_routing_def ids_inv_def used_def)
  from d0 assms(2) obtain found d1 a where 1: "assign_client env name client d0 = Some (found, d1)"
    "d1 = d0\<lparr>cd_max_assigned_client_id_without_diagnosis := a\<rparr>"
    "\<And>c. found = Some c \<Longrightarrow> c \<notin> set (used d0)"
    using assign_client_spec [OF d0(1)] by metis
  let ?stop = "env_routing_host env \<noteq> [] \<and> env_routing_host env = name \<and> cd_routing_manager_host d0 \<noteq> 0
    \<or> cd_max_used_client_ids_index d0 = unat (cd_max_clients d0)"
  show ?thesis
  proof (cases "?stop \<or> found = None")
    case True
    have "ids_inv d1" using d0(1) 1(2) by (simp add: ids_inv_def)
    with True d0(1,2) 1 show ?thesis
      by (auto simp: request_client_id_def lock_inv [OF assms(1)] Let_def d0_def [symmetric])
  next
    case False
    then obtain c where c: "found = Some c" by blast
    let ?d2 = "if (env_routing_host env \<noteq> [] \<and> env_routing_host env = name \<or> env_routing_host env = [])
          \<and> cd_routing_manager_host d0 = 0
      then d1\<lparr>cd_routing_manager_host := c, cd_pid := env_pid env\<rparr> else d1"
    let ?n = "cd_max_used_client_ids_index d0"
    let ?d3 = "?d2\<lparr>cd_used_client_ids := (cd_used_client_ids d0)[?n := c], cd_max_used_client_ids_index := ?n + 1\<rparr>"
    have n: "?n < length (cd_used_client_ids d0)"
      using False d0(1) by (auto simp: ids_inv_def)
    have "request_client_id env name client (Some d) = Some (c, Some ?d3)"
      using False c 1(1) n
      by (auto simp: request_client_id_def lock_inv [OF assms(1)] Let_def d0_def [symmetric] 1(2))
    moreover have "used ?d3 = used d0 @ [c]"
      using n by (simp add: used_def take_Suc_conv_app_nth)
    moreover have "ids_inv ?d3"
      using d0(1) n 1(3) [OF c] \<open>used ?d3 = used d0 @ [c]\<close> by (auto simp: ids_inv_def 1(2))
    ultimately show ?thesis
      using d0(2) 1(3) [OF c] by auto
  qed
qed

definition sample_env :: client_env where
  "sample_env = \<lparr>env_routing_host = ''routingmanagerd'', env_get_id = (\<lambda>n. if n = ''hello'' then 0x1277 else 0),
     env_is_configured_client_id = (\<lambda>c. c = 0x1277), env_diagnosis_address = 0x12,
     env_diagnosis_mask = 0xFFF0, env_pid = 42, env_alive = (\<lambda>p. False),
     env_socket_stuck = (\<lambda>c. False), env_owner_died = False\<rparr>"

definition sample_block :: configuration_data where
  "sample_block = \<lparr>cd_pid = 0, cd_client_base = 0x1201, cd_max_clients = 0xF,
     cd_max_used_client_ids_index = 1, cd_max_assigned_client_id_without_diagnosis = 0,
     cd_routing_manager_host = 0, cd_used_client_ids = 0x1200 # replicate 14 0\<rparr>"

lemma sample_block_init: "configuration_data_init sample_env = Some sample_block"
  by code_simp

lemma sample_block_inv: "ids_inv sample_block"
  by (simp add: ids_inv_def sample_block_def used_def)

theorem requested_client_id_is_fresh_witness:
  "\<exists>c d'. request_client_id sample_env ''hello'' 0 (Some sample_block) = Some (c, Some d') \<and> ids_inv d'"
proof -
  have "unat (cd_client_base sample_block AND cd_max_clients sample_block) < unat (cd_max_clients sample_block)"
    by (simp add: sample_block_def)
  from requested_client_id_is_fresh [OF sample_block_inv this] show ?thesis
    by blast
qed

lemma release_drops:
  assumes inv: "ids_inv d" and i: "i < cd_max_used_client_ids_index d" and c: "used d ! i = client"
  obtains ids d' where "shift_ids (cd_max_used_client_ids_index d - 1) i (cd_used_client_ids d) = Some ids"
    and "d' = d\<lparr>cd_used_client_ids := ids, cd_max_used_client_ids_index := cd_max_used_client_ids_index d - 1\<rparr>"
    and "release_client_id env client (Some d) = Some (Some d')" and "dropped i d d'"
proof -
  let ?n = "cd_max_used_client_ids_index d" and ?ids = "cd_used_client_ids d"
  have len: "?n \<le> length ?ids" using inv by (simp add: ids_inv_def)
  then obtain j where j: "find_id ?ids client ?n 0 = Some j" "j \<le> ?n"
    "\<And>k. 0 \<le> k \<Longrightarrow> k < j \<Longrightarrow> ?ids ! k \<noteq> client" "j < ?n \<Longrightarrow> ?ids ! j = client"
    by (rule find_id_spec) auto
  have "\<not> i < j" using j(3) c i by (auto simp: nth_used)
  then have "j < ?n" using i by simp
  moreover from this have "j = i"
    using j(4) c i inv by (metis distinct_conv_nth ids_inv_def length_used nth_used)
  ultimately have "find_id ?ids client ?n 0 = Some i" using j(1) by simp
  moreover from inv i obtain ids where "shift_ids (?n - 1) i ?ids = Some ids"
    "dropped i d (d\<lparr>cd_used_client_ids := ids, cd_max_used_client_ids_index := ?n - 1\<rparr>)"
    by (rule shift_drops)
  ultimately show thesis
    using i by (intro that [OF _ refl]) (simp_all add: release_client_id_def lock_inv [OF inv] Let_def)
qed

text \<open>
  Releasing an identifier in use removes it from those in use and keeps the order of
  the others; releasing one that is not in use changes nothing.  The first identifier, which
  stands for the routing manager, is not released by this statement.
\<close>

theorem released_client_id_is_removed:
  assumes "ids_inv d" and "client \<noteq> hd (used d)"
  shows "\<exists>d'. release_client_id env client (Some d) = Some (Some d') \<and> ids_inv d'
    \<and> used d' = removeAll client (used d)"
proof (cases "client \<in> set (used d)")
  case True
  let ?n = "cd_max_used_client_ids_index d"
  from True obtain i where i: "i < ?n" "used d ! i = client"
    by (auto simp: in_set_conv_nth length_used [OF assms(1)])
  have "used d \<noteq> []" using True by auto
  then have "i \<noteq> 0"
    using i(2) assms(2) by (metis hd_conv_nth)
  from assms(1) i obtain d' where d': "release_client_id env client (Some d) = Some (Some d')" "dropped i d d'"
    by (rule release_drops)
  have dist: "distinct (used d)" using assms(1) by (simp add: ids_inv_def)
  have "used d = take i (used d) @ client # drop (Suc i) (used d)"
    using id_take_nth_drop [of i "used d"] i length_used [OF assms(1)] by simp
  moreover from this dist have "client \<notin> set (take i (used d))" "client \<notin> set (drop (Suc i) (used d))"
    by (metis distinct_append disjoint_iff list.set_intros(1), metis distinct.simps(2) distinct_append)
  ultimately have "removeAll client (used d) = remove_at i (used d)"
    by (metis remove_at_def removeAll.simps(2) removeAll_append removeAll_id)
  with d' dropped_inv [OF assms(1) d'(2)] i \<open>i \<noteq> 0\<close> show ?thesis
    by (auto simp: dropped_def)
next
  case False
  let ?n = "cd_max_used_client_ids_index d" and ?ids = "cd_used_client_ids d"
  have len: "?n \<le> length ?ids" using assms(1) by (simp add: ids_inv_def)
  then obtain j where j: "find_id ?ids client ?n 0 = Some j" "j < ?n \<Longrightarrow> ?ids ! j = client"
    by (rule find_id_spec) auto
  have "\<not> j < ?n"
    using j(2) False len nth_used [of j d] length_used [OF assms(1)] by (metis nth_mem)
  with j(1) False assms(1) show ?thesis
    by (auto simp: release_client_id_def lock_inv [OF assms(1)] Let_def)
qed

theorem released_client_id_is_removed_witness:
  "\<exists>d'. release_client_id sample_env 7 (Some sample_block) = Some (Some d') \<and> used d' = [0x1200]"
  using released_client_id_is_removed [OF sample_block_inv, of 7 sample_env]
  by (auto simp: sample_block_def used_def)

text \<open>
  C35. An application that dies while it releases an identifier leaves the array with a
  repeated entry; the consistency check the next owner of the mutex runs completes the
  release: the block is exactly what the uninterrupted release would have left in use.
\<close>

theorem interrupted_release_is_completed:
  assumes inv: "ids_inv d" and i: "i < j" "j < cd_max_used_client_ids_index d"
    and "used d ! i = client"
    and crash: "shift_ids j i (cd_used_client_ids d) = Some ids"
  shows "\<exists>d1 d2. check_client_id_consistency (d\<lparr>cd_used_client_ids := ids\<rparr>) = Some d1
    \<and> release_client_id env client (Some d) = Some (Some d2) \<and> used d1 = used d2
    \<and> cd_max_used_client_ids_index d1 = cd_max_used_client_ids_index d2"
proof -
  let ?n = "cd_max_used_client_ids_index d" and ?ids = "cd_used_client_ids d"
  have len: "?n \<le> length ?ids" using inv by (simp add: ids_inv_def)
  have dist: "?ids ! k \<noteq> ?ids ! l" if "k < ?n" "l < ?n" "k \<noteq> l" for k l
    using inv that len by (auto simp: ids_inv_def used_def distinct_conv_nth)
  from i len have "j < length ?ids" "i \<le> j" by auto
  then obtain ids' where "shift_ids j i ?ids = Some ids'" "length ids' = length ?ids"
    "\<And>k. k < length ?ids \<Longrightarrow> ids' ! k = (if i \<le> k \<and> k < j then ?ids ! (k + 1) else ?ids ! k)"
    by (rule shift_ids_spec) blast
  with crash have ids: "length ids = length ?ids"
    "\<And>k. k < length ?ids \<Longrightarrow> ids ! k = (if i \<le> k \<and> k < j then ?ids ! (k + 1) else ?ids ! k)"
    by simp_all
  from ids(1) len i obtain r where r: "find_repeated ids ?n (ids ! (1 - 1)) 1 = Some r" "1 \<le> r" "r \<le> ?n"
    "\<And>k. 1 \<le> k \<Longrightarrow> k < r \<Longrightarrow> ids ! k \<noteq> ids ! (k - 1)" "r < ?n \<Longrightarrow> ids ! r = ids ! (r - 1)"
    by (elim find_repeated_spec [of ?n ids 1, rotated 3]) auto
  have "ids ! j = ids ! (j - 1)"
    using ids(2) [of j] ids(2) [of "j - 1"] i len by auto
  then have "\<not> j < r" using r(4) [of j] i by auto
  moreover have "\<not> r < j"
  proof
    assume "r < j"
    obtain q where q: "r = Suc q" using r(2) by (cases r) auto
    have "ids ! Suc q = ids ! q" using r(5) \<open>r < j\<close> i q by simp
    with ids(2) [of "Suc q"] ids(2) [of q] \<open>r < j\<close> i len q
      dist [of "Suc q" q] dist [of "Suc (Suc q)" q] dist [of "Suc (Suc q)" "Suc q"]
    show False by (cases "i \<le> q"; cases "i = Suc q") auto
  qed
  ultimately have "find_repeated ids ?n (ids ! 0) 1 = Some j" using r(1) by simp
  moreover have "vec_get ids 0 = Some (ids ! 0)"
    using ids(1) len i by (intro vec_get_Some) linarith
  moreover from ids(1) len i have "?n - 1 < length ids" "j \<le> ?n - 1" by auto
  then obtain ids2 where ids2: "shift_ids (?n - 1) j ids = Some ids2" "length ids2 = length ids"
    "\<And>k. k < length ids \<Longrightarrow> ids2 ! k = (if j \<le> k \<and> k < ?n - 1 then ids ! (k + 1) else ids ! k)"
    by (rule shift_ids_spec) blast
  ultimately have check: "check_client_id_consistency (d\<lparr>cd_used_client_ids := ids\<rparr>)
      = Some (d\<lparr>cd_used_client_ids := ids2, cd_max_used_client_ids_index := ?n - 1\<rparr>)"
    using i by (simp add: check_client_id_consistency_def Let_def)
  have "take (?n - 1) ids2 = remove_at i (used d)"
    using ids ids2(2,3) i len
    by (intro remove_at_nth) (auto simp: used_def split: if_splits)
  moreover have "i < ?n" using i by simp
  with inv obtain ids3 d2 where "d2 = d\<lparr>cd_used_client_ids := ids3, cd_max_used_client_ids_index := ?n - 1\<rparr>"
    "release_client_id env client (Some d) = Some (Some d2)" "dropped i d d2"
    using assms(4) by (rule release_drops)
  ultimately show ?thesis
    using check by (simp add: dropped_def used_def)
qed

theorem interrupted_release_is_completed_witness:
  "\<exists>d1. check_client_id_consistency (sample_block\<lparr>cd_max_used_client_ids_index := 3,
       cd_used_client_ids := 0x1200 # 0x1202 # 0x1202 # replicate 12 0\<rparr>) = Some d1 \<and> used d1 = [0x1200, 0x1202]"
proof -
  let ?d = "sample_block\<lparr>cd_max_used_client_ids_index := 3,
    cd_used_client_ids := 0x1200 # 0x1201 # 0x1202 # replicate 12 0\<rparr>"
  have inv: "ids_inv ?d"
    by (simp add: ids_inv_def sample_block_def used_def)
  have sh: "shift_ids 2 1 (cd_used_client_ids ?d) = Some (0x1200 # 0x1202 # 0x1202 # replicate 12 0)"
    by (simp add: shift_ids.simps vec_get_def vec_set_def)
  have rel: "release_client_id sample_env 0x1201 (Some ?d) = Some (Some d2) \<Longrightarrow> used d2 = [0x1200, 0x1202]" for d2
    by (simp add: release_client_id_def lock_def sample_env_def find_id.simps shift_ids.simps
        vec_get_def vec_set_def) (auto simp: used_def)
  have "used ?d ! 1 = 0x1201" by (simp add: used_def)
  from interrupted_release_is_completed [OF inv _ _ this sh, of sample_env] rel show ?thesis
    by auto
qed

end
