(* ===== verification/Eventgroupinfo.thy ===== *)
theory Eventgroupinfo
  imports Endpoint_Definition
begin

text \<open>
  \<^verbatim>\<open>implementation/routing/src/eventgroupinfo.cpp\<close>: what the routing manager keeps per
  eventgroup: the unicast targets with their expiration, the multicast address and the
  threshold at which it is used, and the subscriptions of remote clients that await their
  acknowledgement, queued per remote address and port in order of arrival.

  Events are shared objects known by identity.  Whether an address is a multicast address
  is decided by Boost.Asio and passed as the argument \<open>is_mc\<close>.  Each group of fields has its
  own mutex, and every operation below is one such critical section.
\<close>

section \<open>State\<close>

record target =
  tg_endpoint :: endpoint_definition
  tg_expiration :: int

record pending_subscription =
  ps_sd_message_identifier :: nat
  ps_subscriber :: endpoint_definition
  ps_target :: "endpoint_definition option"
  ps_ttl :: u32
  ps_subscribing_client :: u16
  ps_pending_subscription_id :: u16

type_synonym remote = "address \<times> u16"

record eventgroupinfo =
  egi_major :: byte
  egi_ttl :: u32
  egi_address :: address
  egi_port :: u16
  egi_events :: "nat set"
  egi_targets :: "target list"
  egi_multicast_targets :: "target list"
  egi_threshold :: byte
  egi_has_reliable :: bool
  egi_has_unreliable :: bool
  egi_pending_subscriptions :: "u16 \<rightharpoonup> pending_subscription"
  egi_pending_subscriptions_by_remote :: "remote \<rightharpoonup> u16 list"
  egi_subscription_id :: u16

definition DEFAULT_SUBSCRIPTION :: u16 where [simp]: "DEFAULT_SUBSCRIPTION = 0"
definition DEFAULT_TTL :: u32 where "DEFAULT_TTL = 0xFFFFFF"
definition ILLEGAL_PORT :: u16 where "ILLEGAL_PORT = 0xFFFF"

text \<open>The address of a fresh object is the default \<^verbatim>\<open>address()\<close>, which is 0.0.0.0.\<close>

definition eventgroupinfo_init :: "byte \<Rightarrow> u32 \<Rightarrow> eventgroupinfo" where
  "eventgroupinfo_init major ttl =
     \<lparr>egi_major = major, egi_ttl = ttl, egi_address = [0, 0, 0, 0], egi_port = ILLEGAL_PORT,
      egi_events = {}, egi_targets = [], egi_multicast_targets = [], egi_threshold = 0,
      egi_has_reliable = False, egi_has_unreliable = False,
      egi_pending_subscriptions = Map.empty, egi_pending_subscriptions_by_remote = Map.empty,
      egi_subscription_id = DEFAULT_SUBSCRIPTION\<rparr>"

section \<open>Multicast, events, targets\<close>

definition egi_set_major :: "byte \<Rightarrow> eventgroupinfo \<Rightarrow> eventgroupinfo" where
  "egi_set_major v e = e\<lparr>egi_major := v\<rparr>"
definition egi_set_ttl :: "u32 \<Rightarrow> eventgroupinfo \<Rightarrow> eventgroupinfo" where
  "egi_set_ttl v e = e\<lparr>egi_ttl := v\<rparr>"
definition set_threshold :: "byte \<Rightarrow> eventgroupinfo \<Rightarrow> eventgroupinfo" where
  "set_threshold v e = e\<lparr>egi_threshold := v\<rparr>"

definition is_multicast :: "(address \<Rightarrow> bool) \<Rightarrow> eventgroupinfo \<Rightarrow> bool" where
  "is_multicast is_mc e \<longleftrightarrow> is_mc (egi_address e)"

definition get_unreliable_target_count :: "eventgroupinfo \<Rightarrow> u32" where
  "get_unreliable_target_count e =
     of_nat (length (filter (\<lambda>t. \<not> ep_is_reliable (tg_endpoint t)) (egi_targets e)))"

definition is_sending_multicast :: "(address \<Rightarrow> bool) \<Rightarrow> eventgroupinfo \<Rightarrow> bool" where
  "is_sending_multicast is_mc e \<longleftrightarrow> is_multicast is_mc e \<and> egi_threshold e \<noteq> 0
     \<and> ucast (egi_threshold e) \<le> get_unreliable_target_count e"

definition get_multicast :: "(address \<Rightarrow> bool) \<Rightarrow> eventgroupinfo \<Rightarrow> (address \<times> u16) option" where
  "get_multicast is_mc e =
     (if is_mc (egi_address e) then Some (egi_address e, egi_port e) else None)"

definition set_multicast :: "address \<Rightarrow> u16 \<Rightarrow> eventgroupinfo \<Rightarrow> eventgroupinfo" where
  "set_multicast a p e = e\<lparr>egi_address := a, egi_port := p\<rparr>"

definition add_event :: "nat \<Rightarrow> bool \<Rightarrow> eventgroupinfo \<Rightarrow> eventgroupinfo" where
  "add_event ev is_reliable e =
     (let e = e\<lparr>egi_events := insert ev (egi_events e)\<rparr>
      in if is_reliable then e\<lparr>egi_has_reliable := True\<rparr> else e\<lparr>egi_has_unreliable := True\<rparr>)"

definition remove_event :: "nat \<Rightarrow> eventgroupinfo \<Rightarrow> eventgroupinfo" where
  "remove_event ev e = e\<lparr>egi_events := egi_events e - {ev}\<rparr>"

text \<open>Two targets are equal when they hold the same endpoint definition object.\<close>

definition target_eq :: "target \<Rightarrow> target \<Rightarrow> bool" where
  "target_eq a b \<longleftrightarrow> ep_ref (tg_endpoint a) = ep_ref (tg_endpoint b)"

definition same_remote :: "endpoint_definition \<Rightarrow> endpoint_definition \<Rightarrow> bool" where
  "same_remote a b \<longleftrightarrow> ep_address a = ep_address b \<and> ep_port a = ep_port b
     \<and> ep_is_reliable a = ep_is_reliable b"

definition add_multicast_target :: "target \<Rightarrow> eventgroupinfo \<Rightarrow> eventgroupinfo" where
  "add_multicast_target t e =
     (if list_ex (target_eq t) (egi_multicast_targets e) then e
      else e\<lparr>egi_multicast_targets := egi_multicast_targets e @ [t]\<rparr>)"

definition clear_multicast_targets :: "eventgroupinfo \<Rightarrow> eventgroupinfo" where
  "clear_multicast_targets e = e\<lparr>egi_multicast_targets := []\<rparr>"

definition egi_add_target :: "target \<Rightarrow> eventgroupinfo \<Rightarrow> bool \<times> eventgroupinfo" where
  "egi_add_target t e =
     (if list_ex (target_eq t) (egi_targets e) then (False, e)
      else (True, e\<lparr>egi_targets := egi_targets e @ [t]\<rparr>))"

definition egi_add_target_subscriber :: "target \<Rightarrow> target \<Rightarrow> eventgroupinfo \<Rightarrow> bool \<times> eventgroupinfo" where
  "egi_add_target_subscriber t subscriber e =
     (if list_ex (\<lambda>i. same_remote (tg_endpoint i) (tg_endpoint subscriber)) (egi_targets e)
      then (False, e)
      else (True, add_multicast_target t (e\<lparr>egi_targets := egi_targets e @ [subscriber]\<rparr>)))"

fun update_first :: "('a \<Rightarrow> bool) \<Rightarrow> ('a \<Rightarrow> 'a) \<Rightarrow> 'a list \<Rightarrow> 'a list" where
  "update_first P f [] = []"
| "update_first P f (x # xs) = (if P x then f x # xs else x # update_first P f xs)"

fun remove_first :: "('a \<Rightarrow> bool) \<Rightarrow> 'a list \<Rightarrow> 'a list" where
  "remove_first P [] = []"
| "remove_first P (x # xs) = (if P x then xs else x # remove_first P xs)"

definition update_target :: "endpoint_definition \<Rightarrow> int \<Rightarrow> eventgroupinfo \<Rightarrow> bool \<times> eventgroupinfo" where
  "update_target t expiration e =
     (let P = (\<lambda>i. same_remote (tg_endpoint i) t)
      in (list_ex P (egi_targets e),
          e\<lparr>egi_targets := update_first P (\<lambda>i. i\<lparr>tg_expiration := expiration\<rparr>) (egi_targets e)\<rparr>))"

definition remove_target :: "endpoint_definition \<Rightarrow> eventgroupinfo \<Rightarrow> bool \<times> eventgroupinfo" where
  "remove_target t e =
     (let targets = remove_first (\<lambda>i. same_remote (tg_endpoint i) t) (egi_targets e)
      in (length (egi_targets e) \<noteq> length targets, e\<lparr>egi_targets := targets\<rparr>))"

definition clear_targets :: "eventgroupinfo \<Rightarrow> eventgroupinfo" where
  "clear_targets e = e\<lparr>egi_targets := []\<rparr>"

section \<open>Pending subscriptions\<close>

definition remote_of :: "pending_subscription \<Rightarrow> remote" where
  "remote_of ps = (ep_address (ps_subscriber ps), ep_port (ps_subscriber ps))"

definition is_subscribe :: "pending_subscription \<Rightarrow> bool" where
  "is_subscribe ps \<longleftrightarrow> 0 < ps_ttl ps"

definition next_subscription_id :: "eventgroupinfo \<Rightarrow> u16" where
  "next_subscription_id e =
     (let i = egi_subscription_id e + 1 in if i = DEFAULT_SUBSCRIPTION then i + 1 else i)"

definition add_pending_subscription ::
  "pending_subscription \<Rightarrow> eventgroupinfo \<Rightarrow> u16 \<times> eventgroupinfo" where
  "add_pending_subscription ps e =
     (let i = next_subscription_id e;
          e = e\<lparr>egi_subscription_id := i,
                egi_pending_subscriptions := (egi_pending_subscriptions e)(i \<mapsto> ps)\<rparr>;
          by_remote = egi_pending_subscriptions_by_remote e
      in case by_remote (remote_of ps) of
           Some q \<Rightarrow> (DEFAULT_SUBSCRIPTION,
                      e\<lparr>egi_pending_subscriptions_by_remote := by_remote(remote_of ps \<mapsto> q @ [i])\<rparr>)
         | None \<Rightarrow> (i, e\<lparr>egi_pending_subscriptions_by_remote := by_remote(remote_of ps \<mapsto> [i])\<rparr>))"

text \<open>
  The loop over what was queued behind the answered subscription: the subscriptions to
  process, the queue that is left, and the map that is left.
\<close>

fun drain :: "bool \<Rightarrow> (u16 \<rightharpoonup> pending_subscription) \<Rightarrow> u16 list
    \<Rightarrow> pending_subscription list \<times> u16 list \<times> (u16 \<rightharpoonup> pending_subscription)" where
  "drain removed_is_subscribe m [] = ([], [], m)"
| "drain removed_is_subscribe m (i # q) =
     (case m i of
        Some ps \<Rightarrow>
          (let ps' = ps\<lparr>ps_pending_subscription_id := i\<rparr>
           in if removed_is_subscribe
              then (if \<not> is_subscribe ps then ([ps'], i # q, m)
                    else (case drain removed_is_subscribe (m(i := None)) q of
                            (r, q', m') \<Rightarrow> (ps' # r, q', m')))
              else (if is_subscribe ps then ([ps'], i # q, m)
                    else drain removed_is_subscribe (m(i := None)) q))
      | None \<Rightarrow> (case drain removed_is_subscribe m q of (r, q', m') \<Rightarrow> (r, i # q', m')))"

definition remove_pending_subscription ::
  "u16 \<Rightarrow> eventgroupinfo \<Rightarrow> pending_subscription list \<times> eventgroupinfo" where
  "remove_pending_subscription subscription_id e =
     (case egi_pending_subscriptions e subscription_id of
        None \<Rightarrow> ([], e)
      | Some its_pending_sub \<Rightarrow>
          (let r = remote_of its_pending_sub; by_remote = egi_pending_subscriptions_by_remote e;
               removed_is_subscribe = is_subscribe its_pending_sub
           in case by_remote r of
                None \<Rightarrow> ([], e)
              | Some q \<Rightarrow>
                  if q \<noteq> [] \<and> hd q = subscription_id
                  then (case drain removed_is_subscribe
                                ((egi_pending_subscriptions e)(subscription_id := None)) (tl q) of
                          (queued, q', m') \<Rightarrow>
                            ((if removed_is_subscribe
                              then [its_pending_sub\<lparr>ps_pending_subscription_id := subscription_id\<rparr>]
                              else []) @ queued,
                             e\<lparr>egi_pending_subscriptions := m',
                               egi_pending_subscriptions_by_remote :=
                                 by_remote(r := (if q' = [] then None else Some q'))\<rparr>))
                  else ([], e)))"

definition clear_pending_subscriptions :: "eventgroupinfo \<Rightarrow> eventgroupinfo" where
  "clear_pending_subscriptions e =
     e\<lparr>egi_pending_subscriptions := Map.empty, egi_pending_subscriptions_by_remote := Map.empty\<rparr>"

section \<open>The queues\<close>

text \<open>
  Two maps agree: a queue is not empty, holds no identifier twice, and exactly the
  identifiers of the pending items of its owner.
\<close>

definition queues_ok :: "('p \<Rightarrow> 'r) \<Rightarrow> ('i \<rightharpoonup> 'p) \<Rightarrow> ('r \<rightharpoonup> 'i list) \<Rightarrow> bool" where
  "queues_ok own m qs \<longleftrightarrow>
     (\<forall>r q. qs r = Some q \<longrightarrow> q \<noteq> [] \<and> distinct q \<and> (\<forall>i\<in>set q. \<exists>p. m i = Some p \<and> own p = r))
     \<and> (\<forall>i p. m i = Some p \<longrightarrow> (\<exists>q. qs (own p) = Some q \<and> i \<in> set q))"

lemma queues_okD:
  assumes "queues_ok own m qs"
  shows "qs r = Some q \<Longrightarrow> q \<noteq> [] \<and> distinct q"
    and "qs r = Some q \<Longrightarrow> i \<in> set q \<Longrightarrow> \<exists>p. m i = Some p \<and> own p = r"
    and "m i = Some p \<Longrightarrow> \<exists>q. qs (own p) = Some q \<and> i \<in> set q"
  using assms unfolding queues_ok_def by auto

lemma queues_ok_enqueue:
  assumes ok: "queues_ok own m qs" and fresh: "m i = None"
  shows "queues_ok own (m(i \<mapsto> p)) (qs(own p \<mapsto> (case qs (own p) of Some q \<Rightarrow> q @ [i] | None \<Rightarrow> [i])))"
proof -
  have notin: "i \<notin> set q" if "qs r = Some q" for r q
    using queues_okD(2) [OF ok that, of i] fresh by auto
  show ?thesis
  proof (cases "qs (own p)")
    case None
    then show ?thesis
      using ok notin unfolding queues_ok_def by (auto simp: fresh) (metis option.distinct(1))
  next
    case (Some q)
    then have "q \<noteq> [] \<and> distinct q \<and> (\<forall>j\<in>set q. \<exists>x. m j = Some x \<and> own x = own p)"
      using ok unfolding queues_ok_def by blast
    with Some show ?thesis
      using ok notin [OF Some] notin unfolding queues_ok_def by (auto simp: fresh) (metis option.inject)
  qed
qed

text \<open>Shortening the queue of \<open>r\<close> to a tail and forgetting the identifiers in front of it.\<close>

lemma queues_ok_dequeue:
  assumes ok: "queues_ok own m qs" and q: "qs r = Some (front @ q')"
  shows "queues_ok own (\<lambda>i. if i \<in> set front then None else m i)
    (qs(r := (if q' = [] then None else Some q')))"
proof -
  have own: "own p = r" if "i \<in> set (front @ q')" "m i = Some p" for i p
    using queues_okD(2) [OF ok q that(1)] that(2) by auto
  have dist: "distinct (front @ q')" using queues_okD(1) [OF ok q] by simp
  have other: "i \<notin> set front" if "qs r' = Some q2" "i \<in> set q2" "r' \<noteq> r" for i r' q2
    using queues_okD(2) [OF ok that(1,2)] own that(3) by fastforce
  show ?thesis
    unfolding queues_ok_def
  proof (intro conjI allI impI)
    fix r' q2
    assume "(qs(r := (if q' = [] then None else Some q'))) r' = Some q2"
    then consider "r' = r" "q2 = q'" "q' \<noteq> []" | "r' \<noteq> r" "qs r' = Some q2"
      by (auto split: if_splits)
    then show "q2 \<noteq> []" "distinct q2"
      "\<forall>i\<in>set q2. \<exists>p. (if i \<in> set front then None else m i) = Some p \<and> own p = r'"
      using dist queues_okD(1,2) [OF ok] q other by (cases; auto)+
  next
    fix i p
    assume "(if i \<in> set front then None else m i) = Some p"
    then have i: "i \<notin> set front" "m i = Some p" by (auto split: if_splits)
    then obtain q2 where "qs (own p) = Some q2" "i \<in> set q2"
      using queues_okD(3) [OF ok] by blast
    with i q show "\<exists>q2. (qs(r := (if q' = [] then None else Some q'))) (own p) = Some q2 \<and> i \<in> set q2"
      by (cases "own p = r") auto
  qed
qed

text \<open>
  The queues keep the order of arrival: \<open>arrived\<close> lists the identifiers that are pending, oldest
  first, and the queue of \<open>r\<close> is the part of it that \<open>r\<close> owns.
\<close>

definition in_order :: "('p \<Rightarrow> 'r) \<Rightarrow> ('i \<rightharpoonup> 'p) \<Rightarrow> ('r \<rightharpoonup> 'i list) \<Rightarrow> 'i list \<Rightarrow> bool" where
  "in_order own m qs arrived \<longleftrightarrow> set arrived = dom m
     \<and> (\<forall>r. (case qs r of Some q \<Rightarrow> q | None \<Rightarrow> []) = filter (\<lambda>j. own (the (m j)) = r) arrived)"

lemma in_orderD:
  assumes "in_order own m qs arrived"
  shows "qs r = Some q \<Longrightarrow> q = filter (\<lambda>j. own (the (m j)) = r) arrived"
    and "qs r = None \<Longrightarrow> filter (\<lambda>j. own (the (m j)) = r) arrived = []"
proof -
  have "(case qs r of Some q \<Rightarrow> q | None \<Rightarrow> []) = filter (\<lambda>j. own (the (m j)) = r) arrived"
    using assms unfolding in_order_def by blast
  then show "qs r = Some q \<Longrightarrow> q = filter (\<lambda>j. own (the (m j)) = r) arrived"
    and "qs r = None \<Longrightarrow> filter (\<lambda>j. own (the (m j)) = r) arrived = []"
    by simp_all
qed

lemma in_order_enqueue:
  assumes "in_order own m qs arrived" and "m i = None"
  shows "in_order own (m(i \<mapsto> p)) (qs(own p \<mapsto> (case qs (own p) of Some q \<Rightarrow> q @ [i] | None \<Rightarrow> [i]))) (arrived @ [i])"
proof -
  have "i \<notin> set arrived" using assms by (auto simp: in_order_def)
  then have "filter (\<lambda>j. own (the ((m(i \<mapsto> p)) j)) = r) arrived = filter (\<lambda>j. own (the (m j)) = r) arrived" for r
    by (intro filter_cong) auto
  moreover have "set (arrived @ [i]) = dom (m(i \<mapsto> p))" using assms(1) by (auto simp: in_order_def)
  ultimately show ?thesis
    using in_orderD [OF assms(1)] unfolding in_order_def by (auto split: option.splits simp del: fun_upd_apply) (auto split: if_splits)
qed

lemma in_order_dequeue:
  assumes ok: "queues_ok own m qs" and ord: "in_order own m qs arrived" and q: "qs r = Some (front @ q')"
  defines "m' \<equiv> \<lambda>i. if i \<in> set front then None else m i"
  shows "in_order own m' (qs(r := (if q' = [] then None else Some q'))) (filter (\<lambda>i. m' i \<noteq> None) arrived)"
proof -
  let ?queue = "\<lambda>qs r. case qs r of Some q \<Rightarrow> q | None \<Rightarrow> []"
  have dom: "set arrived = dom m" and queue: "\<And>r. ?queue qs r = filter (\<lambda>j. own (the (m j)) = r) arrived"
    using ord by (auto simp: in_order_def)
  have "filter (\<lambda>j. own (the (m' j)) = r') (filter (\<lambda>i. m' i \<noteq> None) arrived)
      = filter (\<lambda>j. j \<notin> set front) (?queue qs r')" for r'
    unfolding queue using dom by (auto simp: m'_def intro!: filter_cong)
  moreover have "filter (\<lambda>j. j \<notin> set front) (?queue qs r) = q'"
    using queues_okD(1) [OF ok q] q by (auto intro!: filter_True)
  moreover have "filter (\<lambda>j. j \<notin> set front) (?queue qs r') = ?queue qs r'" if "r' \<noteq> r" for r'
    using queues_okD(2) [OF ok q] queue that by (intro filter_True) fastforce
  ultimately show ?thesis using dom by (auto simp: in_order_def m'_def domIff split: if_splits)
qed

definition pending_inv :: "eventgroupinfo \<Rightarrow> bool" where
  "pending_inv e \<longleftrightarrow> queues_ok remote_of (egi_pending_subscriptions e) (egi_pending_subscriptions_by_remote e)
     \<and> DEFAULT_SUBSCRIPTION \<notin> dom (egi_pending_subscriptions e)"

lemma next_subscription_id_nonzero: "next_subscription_id e \<noteq> 0"
  by (simp add: next_subscription_id_def Let_def)

lemma pending_inv_add:
  assumes "pending_inv e" and "next_subscription_id e \<notin> dom (egi_pending_subscriptions e)"
  shows "pending_inv (snd (add_pending_subscription ps e))"
  using assms queues_ok_enqueue [of remote_of "egi_pending_subscriptions e"
      "egi_pending_subscriptions_by_remote e" "next_subscription_id e" ps]
    next_subscription_id_nonzero [of e]
  by (auto simp: pending_inv_def add_pending_subscription_def Let_def split: option.splits)

text \<open>\<open>same_kind b m i\<close>: identifier \<open>i\<close> belongs to a subscription (\<open>b\<close>) or unsubscription.\<close>

definition same_kind :: "bool \<Rightarrow> (u16 \<rightharpoonup> pending_subscription) \<Rightarrow> u16 \<Rightarrow> bool" where
  "same_kind b m i \<longleftrightarrow> is_subscribe (the (m i)) = b"

definition tagged :: "(u16 \<rightharpoonup> pending_subscription) \<Rightarrow> u16 \<Rightarrow> pending_subscription" where
  "tagged m i = (the (m i))\<lparr>ps_pending_subscription_id := i\<rparr>"

lemma kind_upd: "i \<notin> set q \<Longrightarrow> j \<in> set q \<Longrightarrow> same_kind b (m(i := x)) j = same_kind b m j"
  by (auto simp: same_kind_def)

lemma takeWhile_kind_cong:
  assumes "i \<notin> set q"
  shows "takeWhile (same_kind b (m(i := x))) q = takeWhile (same_kind b m) q"
    and "dropWhile (same_kind b (m(i := x))) q = dropWhile (same_kind b m) q"
  by (rule takeWhile_cong [OF refl], erule kind_upd [OF assms])
    (rule dropWhile_cong [OF refl], erule kind_upd [OF assms])

lemma tagged_upd: "i \<notin> set xs \<Longrightarrow> map (tagged (m(i := x))) xs = map (tagged m) xs"
  by (auto simp: tagged_def)

lemma notin_parts:
  assumes "i \<notin> set q"
  shows "i \<notin> set (takeWhile P q)" and "i \<notin> set (take n (dropWhile P q))"
  using assms by (auto dest: set_takeWhileD in_set_takeD set_dropWhileD)

text \<open>What the loop leaves, given what it does on the map without \<open>i\<close>.\<close>

definition drained :: "bool \<Rightarrow> (u16 \<rightharpoonup> pending_subscription) \<Rightarrow> u16 list
    \<Rightarrow> pending_subscription list \<times> u16 list \<times> (u16 \<rightharpoonup> pending_subscription)" where
  "drained b m q =
    ((if b then map (tagged m) (takeWhile (same_kind b m) q) else [])
       @ map (tagged m) (take 1 (dropWhile (same_kind b m) q)),
     dropWhile (same_kind b m) q,
     \<lambda>i. if i \<in> set (takeWhile (same_kind b m) q) then None else m i)"

lemma drained_upd:
  assumes "i \<notin> set q"
  shows "drained b (m(i := None)) q =
    ((if b then map (tagged m) (takeWhile (same_kind b m) q) else [])
       @ map (tagged m) (take 1 (dropWhile (same_kind b m) q)),
     dropWhile (same_kind b m) q,
     \<lambda>j. if j \<in> set (i # takeWhile (same_kind b m) q) then None else m j)"
  unfolding drained_def takeWhile_kind_cong [OF assms]
    tagged_upd [OF notin_parts(1) [OF assms]] tagged_upd [OF notin_parts(2) [OF assms]]
  by auto

lemma drain_eq:
  assumes "distinct q" and "set q \<subseteq> dom m"
  shows "drain b m q = drained b m q"
  using assms
proof (induction q arbitrary: m)
  case (Cons i q)
  from Cons.prems obtain ps where ps: "m i = Some ps" by auto
  have i: "i \<notin> set q" using Cons.prems by simp
  have "set q \<subseteq> dom (m(i := None))" using Cons.prems by auto
  with Cons.IH Cons.prems have IH: "drain b (m(i := None)) q = drained b (m(i := None)) q" by simp
  show ?case
  proof (cases "same_kind b m i")
    case False
    with ps show ?thesis
      by (cases b) (auto simp: same_kind_def tagged_def drained_def)
  next
    case True
    have k: "is_subscribe ps = b" using True ps by (simp add: same_kind_def)
    have "drain b m (i # q) =
      (case drained b (m(i := None)) q of (r, q', m') \<Rightarrow> ((if b then [tagged m i] else []) @ r, q', m'))"
      using ps k IH by (cases b) (simp_all add: tagged_def Let_def)
    then show ?thesis
      unfolding drained_upd [OF i] unfolding drained_def using True by (cases b) simp_all
  qed
qed (simp add: drained_def)

text \<open>What answering the front of a queue does, as one equation.\<close>

lemma remove_pending_front:
  assumes inv: "pending_inv e" and q: "egi_pending_subscriptions_by_remote e r = Some (i # q)"
    and ps: "egi_pending_subscriptions e i = Some ps" "is_subscribe ps = b"
  defines "m \<equiv> egi_pending_subscriptions e"
  shows "remove_pending_subscription i e =
    ((if b then map (tagged m) (i # takeWhile (same_kind b m) q) else [])
       @ map (tagged m) (take 1 (dropWhile (same_kind b m) q)),
     e\<lparr>egi_pending_subscriptions := (\<lambda>j. if j \<in> set (i # takeWhile (same_kind b m) q) then None else m j),
       egi_pending_subscriptions_by_remote := (egi_pending_subscriptions_by_remote e)
         (r := (if dropWhile (same_kind b m) q = [] then None else Some (dropWhile (same_kind b m) q)))\<rparr>)"
proof -
  have ok: "queues_ok remote_of m (egi_pending_subscriptions_by_remote e)"
    using inv by (simp add: pending_inv_def m_def)
  have dist: "distinct (i # q)" using queues_okD(1) [OF ok q] by simp
  have "set (i # q) \<subseteq> dom m" using queues_okD(2) [OF ok q] by fastforce
  with dist have dom: "set q \<subseteq> dom (m(i := None))" by auto
  have r: "remote_of ps = r" using queues_okD(2) [OF ok q, of i] ps by (auto simp: m_def)
  have "drain b (m(i := None)) q = drained b (m(i := None)) q"
    using drain_eq [OF _ dom] dist by simp
  moreover have "i \<notin> set q" using dist by simp
  ultimately show ?thesis
    using q ps r
    by (simp add: remove_pending_subscription_def Let_def m_def [symmetric] drained_upd tagged_def)
qed

lemma pending_inv_remove:
  assumes inv: "pending_inv e"
  shows "pending_inv (snd (remove_pending_subscription i e))"
proof (cases "egi_pending_subscriptions e i")
  case None
  then show ?thesis using inv by (simp add: remove_pending_subscription_def)
next
  case (Some ps)
  have ok: "queues_ok remote_of (egi_pending_subscriptions e) (egi_pending_subscriptions_by_remote e)"
    using inv by (simp add: pending_inv_def)
  from queues_okD(3) [OF ok Some] obtain q where
    q: "egi_pending_subscriptions_by_remote e (remote_of ps) = Some q" "i \<in> set q" by blast
  show ?thesis
  proof (cases "hd q = i")
    case False
    with Some q inv show ?thesis by (simp add: remove_pending_subscription_def Let_def)
  next
    case True
    then obtain q2 where q2: "q = i # q2" using q(2) by (cases q) auto
    let ?k = "same_kind (is_subscribe ps) (egi_pending_subscriptions e)"
    have "egi_pending_subscriptions_by_remote e (remote_of ps)
        = Some ((i # takeWhile ?k q2) @ dropWhile ?k q2)"
      using q q2 by simp
    from queues_ok_dequeue [OF ok this] inv show ?thesis
      unfolding remove_pending_front [OF inv q(1) [unfolded q2] Some refl]
      by (simp add: pending_inv_def domIff)
  qed
qed

lemma in_order_remove:
  assumes inv: "pending_inv e"
    and ord: "in_order remote_of (egi_pending_subscriptions e) (egi_pending_subscriptions_by_remote e) arrived"
    and e': "e' = snd (remove_pending_subscription i e)"
  shows "in_order remote_of (egi_pending_subscriptions e') (egi_pending_subscriptions_by_remote e')
    (filter (\<lambda>j. egi_pending_subscriptions e' j \<noteq> None) arrived)"
proof (cases "e' = e")
  case True
  have "filter (\<lambda>j. egi_pending_subscriptions e j \<noteq> None) arrived = arrived"
    using ord by (intro filter_True) (auto simp: in_order_def)
  with True ord show ?thesis by simp
next
  case False
  have ok: "queues_ok remote_of (egi_pending_subscriptions e) (egi_pending_subscriptions_by_remote e)"
    using inv by (simp add: pending_inv_def)
  from False e' obtain ps q where ps: "egi_pending_subscriptions e i = Some ps"
    and q: "egi_pending_subscriptions_by_remote e (remote_of ps) = Some (i # q)"
    by (auto simp: remove_pending_subscription_def Let_def neq_Nil_conv split: option.splits if_splits)
  let ?k = "same_kind (is_subscribe ps) (egi_pending_subscriptions e)"
  have "egi_pending_subscriptions_by_remote e (remote_of ps) = Some ((i # takeWhile ?k q) @ dropWhile ?k q)"
    using q by simp
  from in_order_dequeue [OF ok ord this] show ?thesis
    unfolding e' remove_pending_front [OF inv q ps refl] by simp
qed

text \<open>
  \<open>egi_reachable e arrived\<close>: the operations on pending subscriptions lead to \<open>e\<close>, and \<open>arrived\<close>
  lists the identifiers given out for the subscriptions that are still pending, in the order
  in which they were added.  An identifier is used again after 65535 calls; the code does not
  check that the old one has been answered by then, and the \<open>add\<close> rule asks for it.
\<close>

inductive egi_reachable :: "eventgroupinfo \<Rightarrow> u16 list \<Rightarrow> bool" where
  init: "egi_reachable (eventgroupinfo_init major ttl) []"
| add: "egi_reachable e arrived \<Longrightarrow> next_subscription_id e \<notin> dom (egi_pending_subscriptions e)
    \<Longrightarrow> egi_reachable (snd (add_pending_subscription ps e)) (arrived @ [next_subscription_id e])"
| remove: "egi_reachable e arrived \<Longrightarrow> e' = snd (remove_pending_subscription i e)
    \<Longrightarrow> egi_reachable e' (filter (\<lambda>j. egi_pending_subscriptions e' j \<noteq> None) arrived)"
| clear: "egi_reachable e arrived \<Longrightarrow> egi_reachable (clear_pending_subscriptions e) []"

lemma in_order_add:
  assumes "in_order remote_of (egi_pending_subscriptions e) (egi_pending_subscriptions_by_remote e) arrived"
    and "next_subscription_id e \<notin> dom (egi_pending_subscriptions e)" and "e' = snd (add_pending_subscription ps e)"
  shows "in_order remote_of (egi_pending_subscriptions e') (egi_pending_subscriptions_by_remote e')
    (arrived @ [next_subscription_id e])"
  using in_order_enqueue [OF assms(1), of "next_subscription_id e" ps] assms(2)
  by (auto simp: assms(3) add_pending_subscription_def Let_def domIff split: option.splits)

lemma egi_reachable_inv:
  "egi_reachable e arrived \<Longrightarrow> pending_inv e
    \<and> in_order remote_of (egi_pending_subscriptions e) (egi_pending_subscriptions_by_remote e) arrived"
proof (induction rule: egi_reachable.induct)
  case (add e arrived ps)
  then show ?case using pending_inv_add in_order_add [OF _ _ refl] by blast
next
  case (remove e arrived e' i)
  then show ?case using pending_inv_remove [of e i] in_order_remove [OF _ _ remove(2)] by simp
qed (simp_all add: pending_inv_def queues_ok_def in_order_def eventgroupinfo_init_def clear_pending_subscriptions_def)

section \<open>Answers to pending subscriptions\<close>

text \<open>
  C9. Pending subscriptions are answered in the order in which they arrived.  In every
  reachable state the queue of a remote is never empty and lists, each once, the identifiers of the
  subscriptions of that remote that are pending, in the order in which
  \<^verbatim>\<open>add_pending_subscription\<close> added them.  An answer for the front of a queue takes the front off
  with everything of the same kind (subscription or unsubscription) right behind it; the
  subscriptions among these are returned in order, followed by the first item of the other
  kind, which stays as the new front; the queues of other remotes do not change.  An answer
  for any other identifier changes nothing and returns nothing.  The condition on the run is that
  an identifier is not given out again while it is pending.
\<close>

theorem pending_answered_in_order:
  assumes e: "egi_reachable e arrived"
    and q: "egi_pending_subscriptions_by_remote e r = Some (i # q)"
    and m: "egi_pending_subscriptions e = m" and b: "is_subscribe (the (m i)) = b"
    and e': "remove_pending_subscription i e = (answered, e')"
  shows "i # q = filter (\<lambda>j. remote_of (the (m j)) = r) arrived
    \<and> distinct (i # q) \<and> set (i # q) = {j. \<exists>p. m j = Some p \<and> remote_of p = r}
    \<and> answered = map (tagged m) ((if b then i # takeWhile (same_kind b m) q else [])
         @ take 1 (dropWhile (same_kind b m) q))
    \<and> egi_pending_subscriptions_by_remote e' r =
        (if dropWhile (same_kind b m) q = [] then None else Some (dropWhile (same_kind b m) q))
    \<and> (\<forall>r'. r' \<noteq> r \<longrightarrow>
        egi_pending_subscriptions_by_remote e' r' = egi_pending_subscriptions_by_remote e r')
    \<and> (\<forall>j. egi_pending_subscriptions e' j =
        (if j \<in> set (i # takeWhile (same_kind b m) q) then None else m j))
    \<and> (\<forall>j. j \<noteq> i \<longrightarrow> j \<in> set q \<or> m j = None \<longrightarrow> remove_pending_subscription j e = ([], e))"
proof -
  note inv = conjunct1 [OF egi_reachable_inv [OF e]]
  have "i # q = filter (\<lambda>j. remote_of (the (m j)) = r) arrived"
    using in_orderD(1) [OF conjunct2 [OF egi_reachable_inv [OF e]] q] m by simp
  moreover have ok: "queues_ok remote_of m (egi_pending_subscriptions_by_remote e)"
    using inv m by (simp add: pending_inv_def)
  from queues_okD(2) [OF ok q, of i] obtain p where p: "m i = Some p" "remote_of p = r" by auto
  have "distinct (i # q)" using queues_okD(1) [OF ok q] by simp
  moreover have "set (i # q) = {j. \<exists>p. m j = Some p \<and> remote_of p = r}"
    using queues_okD(2) [OF ok q] queues_okD(3) [OF ok] q by fastforce
  moreover have "remove_pending_subscription j e = ([], e)"
    if "j \<noteq> i" "j \<in> set q \<or> m j = None" for j
  proof (cases "m j")
    case (Some p')
    with that have "remote_of p' = r" using queues_okD(2) [OF ok q, of j] by simp
    with Some that q m show ?thesis by (simp add: remove_pending_subscription_def Let_def)
  qed (simp add: remove_pending_subscription_def m)
  moreover have "is_subscribe p = b" using b p by simp
  note remove_pending_front [OF inv q _ this, unfolded m, OF p(1)]
  ultimately show ?thesis using e' by simp
qed

definition sample_endpoint :: endpoint_definition where
  "sample_endpoint = \<lparr>ep_ref = 0, ep_address = [10, 0, 0, 1], ep_port = 30509, ep_is_reliable = False\<rparr>"

definition sample_pending :: "u32 \<Rightarrow> pending_subscription" where
  "sample_pending ttl = \<lparr>ps_sd_message_identifier = 0, ps_subscriber = sample_endpoint,
     ps_target = None, ps_ttl = ttl, ps_subscribing_client = 0x1343,
     ps_pending_subscription_id = DEFAULT_SUBSCRIPTION\<rparr>"

definition sample_egi :: eventgroupinfo where
  "sample_egi = snd (add_pending_subscription (sample_pending 0)
     (snd (add_pending_subscription (sample_pending 3) (eventgroupinfo_init 0 3))))"

lemma sample_egi_reachable: "egi_reachable sample_egi [1, 2]"
proof -
  let ?e = "snd (add_pending_subscription (sample_pending 3) (eventgroupinfo_init 0 3))"
  have "egi_reachable ?e ([] @ [next_subscription_id (eventgroupinfo_init 0 3)])"
    by (intro egi_reachable.intros) (simp add: eventgroupinfo_init_def)
  then have "egi_reachable sample_egi
      (([] @ [next_subscription_id (eventgroupinfo_init 0 3)]) @ [next_subscription_id ?e])"
    unfolding sample_egi_def
    by (rule egi_reachable.add)
      (simp add: add_pending_subscription_def next_subscription_id_def eventgroupinfo_init_def Let_def)
  then show ?thesis
    by (simp add: add_pending_subscription_def next_subscription_id_def eventgroupinfo_init_def Let_def)
qed

lemma sample_egi_simps:
  "egi_pending_subscriptions sample_egi = [1 \<mapsto> sample_pending 3, 2 \<mapsto> sample_pending 0]"
  "egi_pending_subscriptions_by_remote sample_egi = [([10, 0, 0, 1], 30509) \<mapsto> [1, 2]]"
  by (simp_all add: sample_egi_def add_pending_subscription_def next_subscription_id_def
      eventgroupinfo_init_def Let_def remote_of_def sample_pending_def sample_endpoint_def)

theorem pending_answered_in_order_witness:
  "map ps_ttl (fst (remove_pending_subscription 1 sample_egi)) = [3, 0]
   \<and> egi_pending_subscriptions_by_remote (snd (remove_pending_subscription 1 sample_egi))
       ([10, 0, 0, 1], 30509) = Some [2]
   \<and> remove_pending_subscription 2 sample_egi = ([], sample_egi)"
proof -
  obtain a e' where r: "remove_pending_subscription 1 sample_egi = (a, e')"
    by (cases "remove_pending_subscription 1 sample_egi")
  have q: "egi_pending_subscriptions_by_remote sample_egi ([10, 0, 0, 1], 30509) = Some [1, 2]"
    by (simp add: sample_egi_simps)
  have b: "is_subscribe (the (egi_pending_subscriptions sample_egi 1)) = True"
    by (simp add: sample_egi_simps is_subscribe_def sample_pending_def)
  note props = pending_answered_in_order [OF sample_egi_reachable q refl b r]
  from props have "\<forall>j. j \<noteq> 1 \<longrightarrow> j \<in> set [2] \<or> egi_pending_subscriptions sample_egi j = None
      \<longrightarrow> remove_pending_subscription j sample_egi = ([], sample_egi)"
    by (elim conjE)
  then have "remove_pending_subscription 2 sample_egi = ([], sample_egi)"
    by (elim allE [of _ 2]) simp
  with props show ?thesis
    by (simp add: r same_kind_def sample_egi_simps tagged_def is_subscribe_def sample_pending_def)
qed

section \<open>Targets\<close>

definition target_key :: "target \<Rightarrow> address \<times> u16 \<times> bool" where
  "target_key t = (ep_address (tg_endpoint t), ep_port (tg_endpoint t), ep_is_reliable (tg_endpoint t))"

lemma same_remote_key:
  "same_remote (tg_endpoint a) (tg_endpoint b) \<longleftrightarrow> target_key a = target_key b"
  by (auto simp: same_remote_def target_key_def)

lemma remove_first_key:
  "distinct (map f xs) \<Longrightarrow> remove_first (\<lambda>x. f x = k) xs = filter (\<lambda>x. f x \<noteq> k) xs"
  by (induction xs) (auto intro!: filter_True [symmetric] dest: image_eqI [OF sym])

lemma update_first_key:
  "distinct (map f xs) \<Longrightarrow> update_first (\<lambda>x. f x = k) g xs = map (\<lambda>x. if f x = k then g x else x) xs"
  by (induction xs) (auto intro!: map_idI [symmetric] dest: image_eqI [OF sym])

lemma list_ex_key: "list_ex (\<lambda>u. target_key u = k) ts \<longleftrightarrow> k \<in> target_key ` set ts"
  unfolding list_ex_iff by (metis (no_types, lifting) image_iff)

lemma add_target_subscriber_key:
  "fst (egi_add_target_subscriber mc t e) \<longleftrightarrow> target_key t \<notin> target_key ` set (egi_targets e)"
  "egi_targets (snd (egi_add_target_subscriber mc t e)) =
     egi_targets e @ (if target_key t \<in> target_key ` set (egi_targets e) then [] else [t])"
  by (simp_all add: egi_add_target_subscriber_def add_multicast_target_def same_remote_key list_ex_key)

lemma update_target_key:
  assumes "distinct (map target_key (egi_targets e))"
  shows "fst (update_target (tg_endpoint t) x e) \<longleftrightarrow> target_key t \<in> target_key ` set (egi_targets e)"
    and "egi_targets (snd (update_target (tg_endpoint t) x e)) =
      map (\<lambda>u. if target_key u = target_key t then u\<lparr>tg_expiration := x\<rparr> else u) (egi_targets e)"
  using assms by (simp_all add: update_target_def Let_def same_remote_key list_ex_key update_first_key)

lemma remove_target_key:
  assumes "distinct (map target_key (egi_targets e))"
  shows "fst (remove_target (tg_endpoint t) e) \<longleftrightarrow> target_key t \<in> target_key ` set (egi_targets e)"
    and "egi_targets (snd (remove_target (tg_endpoint t) e)) =
      filter (\<lambda>u. target_key u \<noteq> target_key t) (egi_targets e)"
proof -
  show "egi_targets (snd (remove_target (tg_endpoint t) e)) =
      filter (\<lambda>u. target_key u \<noteq> target_key t) (egi_targets e)"
    using assms by (simp add: remove_target_def Let_def same_remote_key remove_first_key)
  have "length (filter P xs) \<noteq> length xs \<longleftrightarrow> (\<exists>u\<in>set xs. \<not> P u)" for P and xs :: "target list"
    by (metis (mono_tags, lifting) filter_True length_filter_less nat_less_le)
  from this [of "\<lambda>u. target_key u \<noteq> target_key t" "egi_targets e"]
  have "length (egi_targets e) \<noteq> length (filter (\<lambda>u. target_key u \<noteq> target_key t) (egi_targets e))
      \<longleftrightarrow> target_key t \<in> target_key ` set (egi_targets e)"
    by (metis (no_types, lifting) image_iff)
  with assms show "fst (remove_target (tg_endpoint t) e) \<longleftrightarrow>
      target_key t \<in> target_key ` set (egi_targets e)"
    by (simp add: remove_target_def Let_def same_remote_key remove_first_key)
qed

lemmas target_key_simps = add_target_subscriber_key update_target_key remove_target_key

text \<open>
  The targets of an eventgroup behave as a map from remote (address, port, protocol) to
  expiration.  As long as no remote occurs twice, adding a subscriber succeeds exactly when
  its remote is new and then appends it, updating changes the expiration of that remote and
  of no other, removing drops that remote and no other, each reports whether it found the
  remote, and still no remote occurs twice.
\<close>

theorem targets_are_a_map:
  assumes d: "distinct (map target_key (egi_targets e))"
    and found: "found \<longleftrightarrow> target_key t \<in> target_key ` set (egi_targets e)"
  shows "fst (egi_add_target_subscriber mc t e) = (\<not> found)
    \<and> egi_targets (snd (egi_add_target_subscriber mc t e)) = egi_targets e @ (if found then [] else [t])
    \<and> distinct (map target_key (egi_targets (snd (egi_add_target_subscriber mc t e))))
    \<and> fst (update_target (tg_endpoint t) x e) = found
    \<and> egi_targets (snd (update_target (tg_endpoint t) x e)) =
        map (\<lambda>u. if target_key u = target_key t then u\<lparr>tg_expiration := x\<rparr> else u) (egi_targets e)
    \<and> map target_key (egi_targets (snd (update_target (tg_endpoint t) x e))) =
        map target_key (egi_targets e)
    \<and> fst (remove_target (tg_endpoint t) e) = found
    \<and> egi_targets (snd (remove_target (tg_endpoint t) e)) =
        filter (\<lambda>u. target_key u \<noteq> target_key t) (egi_targets e)
    \<and> distinct (map target_key (egi_targets (snd (remove_target (tg_endpoint t) e))))"
proof -
  have key: "target_key (u\<lparr>tg_expiration := x\<rparr>) = target_key u" for u
    by (simp add: target_key_def)
  have "map target_key (map (\<lambda>u. if target_key u = target_key t then u\<lparr>tg_expiration := x\<rparr> else u)
      (egi_targets e)) = map target_key (egi_targets e)"
    by (simp add: key)
  moreover have "distinct (map target_key (filter P (egi_targets e)))" for P
    using d by (simp add: distinct_map_filter)
  moreover have "distinct (map target_key (egi_targets e @ (if found then [] else [t])))"
    using d found by auto
  ultimately show ?thesis
    unfolding target_key_simps(1,2) target_key_simps(3-6) [OF d] found [symmetric] by simp
qed

theorem targets_are_a_map_witness:
  "\<exists>t e. egi_targets e = [t] \<and> fst (egi_add_target_subscriber t t e) = False
     \<and> egi_targets (snd (remove_target (tg_endpoint t) e)) = []"
proof -
  define t where "t = \<lparr>tg_endpoint = sample_endpoint, tg_expiration = 0\<rparr>"
  define e where "e = snd (egi_add_target_subscriber t t (eventgroupinfo_init 0 3))"
  have e: "egi_targets e = [t]"
    by (simp add: e_def egi_add_target_subscriber_def add_multicast_target_def eventgroupinfo_init_def)
  have "distinct (map target_key (egi_targets e))" "True = (target_key t \<in> target_key ` set (egi_targets e))"
    by (simp_all add: e)
  from targets_are_a_map [OF this, of t 5] e show ?thesis by (intro exI [of _ t] exI [of _ e]) simp
qed

end
