(* ===== verification/Event.thy ===== *)
theory Event
  imports Message Endpoint_Definition
begin

text \<open>
  \<^verbatim>\<open>implementation/routing/src/event.cpp\<close>: an event or field of a service instance, as the
  routing manager keeps it: its notification message, the conditions under which a new
  payload is sent, its update cycle, its subscribers per eventgroup and the references that
  clients hold on it.

  What a method hands to \<^verbatim>\<open>routing_->send\<close> or \<^verbatim>\<open>routing_->send_to\<close> is part of its result, in
  order.  The cycle timer of Boost.Asio is the interval of its pending wait, if it has one:
  arming it replaces the wait, cancelling drops it, and its expiry is a call of
  \<open>update_cbk\<close>.  Time is in milliseconds.
\<close>

section \<open>State\<close>

datatype sent =
    Send u16 message bool
  | Send_to endpoint_definition message bool

type_synonym epsilon_change_func = "payload \<Rightarrow> payload \<Rightarrow> bool ub"

record event =
  ev_message :: message
  ev_is_field :: bool
  ev_cycle_timer :: "int option"
  ev_cycle :: int
  ev_change_resets_cycle :: bool
  ev_is_updating_on_change :: bool
  ev_eventgroups :: "u16 \<rightharpoonup> u16 set"
  ev_is_set :: bool
  ev_is_provided :: bool
  ev_refs :: "u16 \<rightharpoonup> (bool \<rightharpoonup> u32)"
  ev_is_shadow :: bool
  ev_is_cache_placeholder :: bool
  ev_epsilon_change_func :: epsilon_change_func
  ev_is_reliable :: bool
  ev_remote_notification_pending :: bool

definition VSOMEIP_ROUTING_CLIENT :: u16 where [simp]: "VSOMEIP_ROUTING_CLIENT = 0"
definition ANY_CLIENT :: u16 where [simp]: "ANY_CLIENT = 0xFFFF"

text \<open>
  The default comparison: different lengths, or a difference found by walking both arrays.
  The loop runs over the positions from \<open>pos\<close> on, \<open>n\<close> being those left.
\<close>

fun compare_loop :: "byte list \<Rightarrow> byte list \<Rightarrow> nat \<Rightarrow> nat \<Rightarrow> bool ub" where
  "compare_loop old_data new_data pos 0 = Some False"
| "compare_loop old_data new_data pos (Suc n) =
     Option.bind (vec_get old_data pos) (\<lambda>x. Option.bind (vec_get new_data pos) (\<lambda>y.
       if x \<noteq> y then Some True else compare_loop old_data new_data (Suc pos) n))"

definition compare_payload :: epsilon_change_func where
  "compare_payload lhs rhs =
     (if payload_get_length lhs \<noteq> payload_get_length rhs then Some True
      else compare_loop (pl_data lhs) (pl_data rhs) 0 (unat (payload_get_length lhs)))"

definition event_init :: "bool \<Rightarrow> event" where
  "event_init shadow =
     \<lparr>ev_message = create_notification False, ev_is_field = False, ev_cycle_timer = None,
      ev_cycle = 0, ev_change_resets_cycle = False, ev_is_updating_on_change = True,
      ev_eventgroups = Map.empty, ev_is_set = False, ev_is_provided = False,
      ev_refs = Map.empty, ev_is_shadow = shadow, ev_is_cache_placeholder = False,
      ev_epsilon_change_func = compare_payload, ev_is_reliable = False,
      ev_remote_notification_pending = False\<rparr>"

section \<open>Accessors\<close>

definition event_get_service :: "event \<Rightarrow> u16" where
  "event_get_service e = get_service (ev_message e)"
definition event_set_service :: "u16 \<Rightarrow> event \<Rightarrow> event" where
  "event_set_service v e = e\<lparr>ev_message := set_service v (ev_message e)\<rparr>"
definition event_get_instance :: "event \<Rightarrow> u16" where
  "event_get_instance e = get_instance (ev_message e)"
definition event_set_instance :: "u16 \<Rightarrow> event \<Rightarrow> event" where
  "event_set_instance v e = e\<lparr>ev_message := set_instance v (ev_message e)\<rparr>"
definition event_get_version :: "event \<Rightarrow> byte" where
  "event_get_version e = get_interface_version (ev_message e)"
definition event_set_version :: "byte \<Rightarrow> event \<Rightarrow> event" where
  "event_set_version v e = e\<lparr>ev_message := set_interface_version v (ev_message e)\<rparr>"
definition event_get_event :: "event \<Rightarrow> u16" where
  "event_get_event e = get_method (ev_message e)"
definition event_set_event :: "u16 \<Rightarrow> event \<Rightarrow> event" where
  "event_set_event v e = e\<lparr>ev_message := set_method v (ev_message e)\<rparr>"
definition event_set_field :: "bool \<Rightarrow> event \<Rightarrow> event" where
  "event_set_field v e = e\<lparr>ev_is_field := v\<rparr>"
definition event_set_provided :: "bool \<Rightarrow> event \<Rightarrow> event" where
  "event_set_provided v e = e\<lparr>ev_is_provided := v\<rparr>"
definition event_get_payload :: "event \<Rightarrow> payload option" where
  "event_get_payload e = msg_payload (ev_message e)"
definition event_set_shadow :: "bool \<Rightarrow> event \<Rightarrow> event" where
  "event_set_shadow v e = e\<lparr>ev_is_shadow := v\<rparr>"
definition event_set_cache_placeholder :: "bool \<Rightarrow> event \<Rightarrow> event" where
  "event_set_cache_placeholder v e = e\<lparr>ev_is_cache_placeholder := v\<rparr>"
definition event_set_reliable :: "bool \<Rightarrow> event \<Rightarrow> event" where
  "event_set_reliable v e = e\<lparr>ev_is_reliable := v\<rparr>"
definition event_set_remote_notification_pending :: "bool \<Rightarrow> event \<Rightarrow> event" where
  "event_set_remote_notification_pending v e = e\<lparr>ev_remote_notification_pending := v\<rparr>"
definition set_change_resets_cycle :: "bool \<Rightarrow> event \<Rightarrow> event" where
  "set_change_resets_cycle v e = e\<lparr>ev_change_resets_cycle := v\<rparr>"
definition set_update_on_change :: "bool \<Rightarrow> event \<Rightarrow> event" where
  "set_update_on_change v e = (if ev_is_provided e then e\<lparr>ev_is_updating_on_change := v\<rparr> else e)"
definition set_epsilon_change_function :: "epsilon_change_func option \<Rightarrow> event \<Rightarrow> event" where
  "set_epsilon_change_function f e =
     (case f of Some f \<Rightarrow> e\<lparr>ev_epsilon_change_func := f\<rparr> | None \<Rightarrow> e)"

section \<open>Cycle and notification\<close>

definition start_cycle :: "event \<Rightarrow> event" where
  "start_cycle e = (if ev_cycle e \<noteq> 0 then e\<lparr>ev_cycle_timer := Some (ev_cycle e)\<rparr> else e)"

definition stop_cycle :: "event \<Rightarrow> event" where
  "stop_cycle e = (if ev_cycle e \<noteq> 0 then e\<lparr>ev_cycle_timer := None\<rparr> else e)"

definition notify :: "bool \<Rightarrow> event \<Rightarrow> sent list" where
  "notify flush e =
     (if ev_is_set e then [Send VSOMEIP_ROUTING_CLIENT (ev_message e) flush] else [])"

definition notify_one_target :: "endpoint_definition \<Rightarrow> bool \<Rightarrow> event \<Rightarrow> sent list" where
  "notify_one_target t flush e = (if ev_is_set e then [Send_to t (ev_message e) flush] else [])"

definition notify_one :: "u16 \<Rightarrow> bool \<Rightarrow> event \<Rightarrow> sent list" where
  "notify_one c flush e = (if ev_is_set e then [Send c (ev_message e) flush] else [])"

definition update_cbk :: "bool \<Rightarrow> event \<Rightarrow> sent list \<times> event" where
  "update_cbk error e =
     (if \<not> error then (notify True e, e\<lparr>ev_cycle_timer := Some (ev_cycle e)\<rparr>) else ([], e))"

definition set_update_cycle :: "int \<Rightarrow> event \<Rightarrow> event" where
  "set_update_cycle cycle e =
     (if ev_is_provided e then start_cycle ((stop_cycle e)\<lparr>ev_cycle := cycle\<rparr>) else e)"

section \<open>Payload\<close>

definition set_payload_helper :: "payload \<Rightarrow> bool \<Rightarrow> event \<Rightarrow> bool ub" where
  "set_payload_helper p force e =
     (if ev_is_field e
      then if force then Some True
           else Option.bind (msg_payload (ev_message e)) (\<lambda>its_payload.
             ev_epsilon_change_func e its_payload p)
      else Some True)"

definition reset_payload :: "payload \<Rightarrow> event \<Rightarrow> event" where
  "reset_payload p e =
     (let e = e\<lparr>ev_message := set_payload
                  (Some (create_payload (take (unat (payload_get_length p)) (pl_data p))))
                  (ev_message e)\<rparr>;
          e = (if \<not> ev_is_set e then start_cycle e else e)
      in e\<lparr>ev_is_set := True\<rparr>)"

definition set_payload_dont_notify :: "payload \<Rightarrow> event \<Rightarrow> (bool \<times> event) ub" where
  "set_payload_dont_notify p e =
     (if ev_is_cache_placeholder e then Some (True, (reset_payload p e)\<lparr>ev_is_set := True\<rparr>)
      else Option.bind (set_payload_helper p False e) (\<lambda>change.
        if change then Some (True, reset_payload p e) else Some (False, e)))"

definition event_set_payload :: "payload \<Rightarrow> bool \<Rightarrow> bool \<Rightarrow> event \<Rightarrow> (sent list \<times> event) ub" where
  "event_set_payload p force flush e =
     (if ev_is_provided e
      then Option.bind (set_payload_helper p force e) (\<lambda>change.
        if change
        then let e = reset_payload p e
             in if ev_is_updating_on_change e
                then let e = (if ev_change_resets_cycle e then stop_cycle e else e);
                         out = notify flush e;
                         e = (if ev_change_resets_cycle e then start_cycle e else e)
                     in Some (out, e)
                else Some ([], e)
        else Some ([], e))
      else Some ([], e))"

definition event_set_payload_client ::
  "payload \<Rightarrow> u16 \<Rightarrow> bool \<Rightarrow> bool \<Rightarrow> event \<Rightarrow> (sent list \<times> event) ub" where
  "event_set_payload_client p c force flush e =
     (if ev_is_provided e
      then Option.bind (set_payload_helper p force e) (\<lambda>change.
        if change
        then let e = reset_payload p e
             in Some (if ev_is_updating_on_change e then notify_one c flush e else [], e)
        else Some ([], e))
      else Some ([], e))"

definition event_set_payload_target ::
  "payload \<Rightarrow> endpoint_definition \<Rightarrow> bool \<Rightarrow> bool \<Rightarrow> event \<Rightarrow> (sent list \<times> event) ub" where
  "event_set_payload_target p t force flush e =
     (if ev_is_provided e
      then Option.bind (set_payload_helper p force e) (\<lambda>change.
        if change
        then let e = reset_payload p e
             in Some (if ev_is_updating_on_change e then notify_one_target t flush e else [], e)
        else Some ([], e))
      else Some ([], e))"

definition unset_payload :: "bool \<Rightarrow> event \<Rightarrow> event" where
  "unset_payload force e =
     (if force \<or> ev_is_provided e
      then let e = stop_cycle (e\<lparr>ev_is_set := False\<rparr>)
           in e\<lparr>ev_message := set_payload (Some (create_payload [])) (ev_message e)\<rparr>
      else e)"

section \<open>References\<close>

definition add_ref :: "u16 \<Rightarrow> bool \<Rightarrow> event \<Rightarrow> event" where
  "add_ref c provided e =
     (case ev_refs e c of
        None \<Rightarrow> e\<lparr>ev_refs := (ev_refs e)(c \<mapsto> [provided \<mapsto> 1])\<rparr>
      | Some its_client \<Rightarrow>
          (case its_client provided of
             None \<Rightarrow> e\<lparr>ev_refs := (ev_refs e)(c \<mapsto> its_client(provided \<mapsto> 1))\<rparr>
           | Some n \<Rightarrow> e\<lparr>ev_refs := (ev_refs e)(c \<mapsto> its_client(provided \<mapsto> n + 1))\<rparr>))"

definition remove_ref :: "u16 \<Rightarrow> bool \<Rightarrow> event \<Rightarrow> event" where
  "remove_ref c provided e =
     (case ev_refs e c of
        None \<Rightarrow> e
      | Some its_client \<Rightarrow>
          (case its_client provided of
             None \<Rightarrow> e
           | Some n \<Rightarrow>
               if n - 1 = 0
               then let its_client = its_client(provided := None)
                    in e\<lparr>ev_refs := (ev_refs e)(c := (if its_client = Map.empty then None else Some its_client))\<rparr>
               else e\<lparr>ev_refs := (ev_refs e)(c \<mapsto> its_client(provided \<mapsto> n - 1))\<rparr>))"

definition has_refs :: "event \<Rightarrow> bool" where
  "has_refs e \<longleftrightarrow> ev_refs e \<noteq> Map.empty"

definition has_ref :: "u16 \<Rightarrow> bool \<Rightarrow> event \<Rightarrow> bool" where
  "has_ref c provided e =
     (case ev_refs e c of
        None \<Rightarrow> False
      | Some its_client \<Rightarrow>
          (case its_client provided of None \<Rightarrow> False | Some n \<Rightarrow> 0 < n))"

section \<open>Eventgroups and subscribers\<close>

definition get_eventgroups :: "event \<Rightarrow> u16 set" where
  "get_eventgroups e = dom (ev_eventgroups e)"

definition get_eventgroups_of :: "u16 \<Rightarrow> event \<Rightarrow> u16 set" where
  "get_eventgroups_of c e = {g. case ev_eventgroups e g of Some s \<Rightarrow> c \<in> s | None \<Rightarrow> False}"

definition add_eventgroup :: "u16 \<Rightarrow> event \<Rightarrow> event" where
  "add_eventgroup g e =
     (if ev_eventgroups e g = None then e\<lparr>ev_eventgroups := (ev_eventgroups e)(g \<mapsto> {})\<rparr> else e)"

definition set_eventgroups :: "u16 set \<Rightarrow> event \<Rightarrow> event" where
  "set_eventgroups gs e =
     e\<lparr>ev_eventgroups := (\<lambda>g. if g \<in> gs then Some {} else ev_eventgroups e g)\<rparr>"

text \<open>\<^verbatim>\<open>operator[]\<close> creates an eventgroup that is not there.\<close>

definition add_subscriber :: "u16 \<Rightarrow> u16 \<Rightarrow> event \<Rightarrow> bool \<times> event" where
  "add_subscriber g c e =
     (let s = (case ev_eventgroups e g of Some s \<Rightarrow> s | None \<Rightarrow> {})
      in (c \<notin> s, e\<lparr>ev_eventgroups := (ev_eventgroups e)(g \<mapsto> insert c s)\<rparr>))"

definition remove_subscriber :: "u16 \<Rightarrow> u16 \<Rightarrow> event \<Rightarrow> event" where
  "remove_subscriber g c e =
     (case ev_eventgroups e g of
        Some s \<Rightarrow> e\<lparr>ev_eventgroups := (ev_eventgroups e)(g \<mapsto> s - {c})\<rparr>
      | None \<Rightarrow> e)"

definition has_subscriber :: "u16 \<Rightarrow> u16 \<Rightarrow> event \<Rightarrow> bool" where
  "has_subscriber g c e =
     (case ev_eventgroups e g of
        Some s \<Rightarrow> if c = ANY_CLIENT then s \<noteq> {} else c \<in> s
      | None \<Rightarrow> False)"

definition get_all_subscribers :: "event \<Rightarrow> u16 set" where
  "get_all_subscribers e = \<Union> (ran (ev_eventgroups e))"

definition clear_subscribers :: "event \<Rightarrow> event" where
  "clear_subscribers e = e\<lparr>ev_eventgroups := map_option (\<lambda>_. {}) \<circ> ev_eventgroups e\<rparr>"

definition get_subscribers :: "u16 \<Rightarrow> event \<Rightarrow> u16 set" where
  "get_subscribers g e = (case ev_eventgroups e g of Some s \<Rightarrow> s | None \<Rightarrow> {})"

definition is_subscribed :: "u16 \<Rightarrow> event \<Rightarrow> bool" where
  "is_subscribed c e \<longleftrightarrow> (\<exists>s\<in>ran (ev_eventgroups e). c \<in> s)"

section \<open>Comparison\<close>

lemma compare_loop_eq:
  assumes "pos + n \<le> length xs" and "pos + n \<le> length ys"
  shows "compare_loop xs ys pos n = Some (take n (drop pos xs) \<noteq> take n (drop pos ys))"
  using assms
proof (induction n arbitrary: pos)
  case (Suc n)
  then have "drop pos xs = xs ! pos # drop (Suc pos) xs" "drop pos ys = ys ! pos # drop (Suc pos) ys"
    by (simp_all add: Cons_nth_drop_Suc)
  with Suc show ?case by simp
qed simp

definition payload_fits :: "payload \<Rightarrow> bool" where
  "payload_fits p \<longleftrightarrow> length (pl_data p) < 2 ^ 32"

lemma unat_payload_length [simp]: "payload_fits p \<Longrightarrow> unat (payload_get_length p) = length (pl_data p)"
  by (simp add: payload_fits_def payload_get_length_def unsigned_of_nat take_bit_nat_eq_self)

lemma compare_payload_eq:
  assumes "payload_fits a" and "payload_fits b"
  shows "compare_payload a b = Some (pl_data a \<noteq> pl_data b)"
proof (cases "length (pl_data a) = length (pl_data b)")
  case True
  then have "payload_get_length a = payload_get_length b" by (simp add: payload_get_length_def)
  with True assms show ?thesis by (simp add: compare_payload_def compare_loop_eq)
next
  case False
  with assms have "payload_get_length a \<noteq> payload_get_length b"
    by (metis unat_payload_length)
  with False show ?thesis by (auto simp: compare_payload_def)
qed

section \<open>Invariant\<close>

text \<open>
  The message always has a payload, which is empty as long as none has been set; a client
  in the table of references has one at least, and no count there is zero.
\<close>

definition refs_ok :: "event \<Rightarrow> bool" where
  "refs_ok e \<longleftrightarrow> (\<forall>c m. ev_refs e c = Some m \<longrightarrow> m \<noteq> Map.empty \<and> (\<forall>b n. m b = Some n \<longrightarrow> n \<noteq> 0))"

definition payload_ok :: "event \<Rightarrow> bool" where
  "payload_ok e \<longleftrightarrow> (\<exists>p. msg_payload (ev_message e) = Some p \<and> payload_fits p
     \<and> (\<not> ev_is_set e \<longrightarrow> pl_data p = []))"

lemmas event_simple_ops =
  event_set_service_def event_set_instance_def event_set_version_def event_set_event_def
  event_set_field_def event_set_provided_def event_set_shadow_def event_set_cache_placeholder_def
  event_set_reliable_def event_set_remote_notification_pending_def set_change_resets_cycle_def
  set_update_on_change_def set_epsilon_change_function_def set_update_cycle_def
  start_cycle_def stop_cycle_def update_cbk_def add_eventgroup_def set_eventgroups_def
  add_subscriber_def remove_subscriber_def clear_subscribers_def

lemma stop_start_cycle_fields [simp]:
  "ev_message (start_cycle e) = ev_message e" "ev_message (stop_cycle e) = ev_message e"
  "ev_is_set (start_cycle e) = ev_is_set e" "ev_is_set (stop_cycle e) = ev_is_set e"
  "ev_refs (start_cycle e) = ev_refs e" "ev_refs (stop_cycle e) = ev_refs e"
  "ev_cycle (start_cycle e) = ev_cycle e" "ev_cycle (stop_cycle e) = ev_cycle e"
  "ev_change_resets_cycle (start_cycle e) = ev_change_resets_cycle e"
  "ev_change_resets_cycle (stop_cycle e) = ev_change_resets_cycle e"
  "ev_is_updating_on_change (start_cycle e) = ev_is_updating_on_change e"
  "ev_is_updating_on_change (stop_cycle e) = ev_is_updating_on_change e"
  by (simp_all add: start_cycle_def stop_cycle_def)

lemma reset_payload_fields [simp]:
  "ev_refs (reset_payload p e) = ev_refs e" "ev_is_set (reset_payload p e)"
  "ev_cycle (reset_payload p e) = ev_cycle e"
  "ev_change_resets_cycle (reset_payload p e) = ev_change_resets_cycle e"
  "ev_is_updating_on_change (reset_payload p e) = ev_is_updating_on_change e"
  "msg_header (ev_message (reset_payload p e)) = msg_header (ev_message e)"
  by (simp_all add: reset_payload_def Let_def message_setters)

lemma reset_payload_data:
  "payload_fits p \<Longrightarrow> msg_payload (ev_message (reset_payload p e)) = Some (create_payload (pl_data p))"
  by (simp add: reset_payload_def Let_def message_setters)

lemma reset_payload_timer:
  "ev_cycle_timer (reset_payload p e) =
     (if \<not> ev_is_set e \<and> ev_cycle e \<noteq> 0 then Some (ev_cycle e) else ev_cycle_timer e)"
  by (simp add: reset_payload_def Let_def start_cycle_def)

lemma payload_ok_reset: "payload_fits p \<Longrightarrow> payload_ok (reset_payload p e)"
  by (simp add: payload_ok_def reset_payload_data) (simp add: payload_fits_def create_payload_def)

lemma payload_ok_cong:
  "ev_message e' = ev_message e \<Longrightarrow> ev_is_set e' = ev_is_set e \<Longrightarrow> payload_ok e' = payload_ok e"
  by (simp add: payload_ok_def)

lemma refs_ok_cong: "ev_refs e' = ev_refs e \<Longrightarrow> refs_ok e' = refs_ok e"
  by (simp add: refs_ok_def)

lemma payload_change_cases:
  assumes "event_set_payload p force flush e = Some (out, e')
    \<or> event_set_payload_client p c force flush e = Some (out, e')
    \<or> event_set_payload_target p t force flush e = Some (out, e')
    \<or> set_payload_dont_notify p e = Some (r, e')"
  shows "e' = e \<or> ev_message e' = ev_message (reset_payload p e) \<and> ev_is_set e' \<and> ev_refs e' = ev_refs e"
  using assms
  by (auto simp: event_set_payload_def event_set_payload_client_def event_set_payload_target_def
      set_payload_dont_notify_def bind_eq_Some_conv Let_def split: if_splits)

section \<open>Reference counts\<close>

text \<open>
  A table of counters: \<open>inc\<close> and \<open>dec\<close> change the counter of one key, as long as it stays in
  range, and a counter at zero stays there.
\<close>

locale counters =
  fixes count :: "'s \<Rightarrow> 'k \<Rightarrow> nat"
    and inc :: "'k \<Rightarrow> 's \<Rightarrow> 's"
    and dec :: "'k \<Rightarrow> 's \<Rightarrow> 's"
    and ok :: "'s \<Rightarrow> bool"
    and limit :: nat
  assumes inc_ok: "ok s \<Longrightarrow> Suc (count s k) < limit \<Longrightarrow> ok (inc k s)"
    and dec_ok: "ok s \<Longrightarrow> ok (dec k s)"
    and count_inc: "ok s \<Longrightarrow> Suc (count s k) < limit \<Longrightarrow>
      count (inc k s) k' = (if k' = k then Suc (count s k) else count s k')"
    and count_dec: "ok s \<Longrightarrow> count (dec k s) k' = (if k' = k then count s k - 1 else count s k')"
begin

lemma inc_many:
  "ok s \<Longrightarrow> count s k + n < limit \<Longrightarrow>
     ok ((inc k ^^ n) s) \<and> count ((inc k ^^ n) s) = (count s)(k := count s k + n)"
proof (induction n)
  case (Suc n)
  then have "ok ((inc k ^^ n) s)" "count ((inc k ^^ n) s) = (count s)(k := count s k + n)" by auto
  with Suc.prems show ?case by (auto simp: inc_ok count_inc)
qed simp

lemma dec_many:
  "ok s \<Longrightarrow> ok ((dec k ^^ n) s) \<and> count ((dec k ^^ n) s) = (count s)(k := count s k - n)"
  by (induction n) (auto simp: dec_ok count_dec)

lemma balanced:
  assumes "ok s" and "count s k + n < limit"
  shows "count ((dec k ^^ n) ((inc k ^^ n) s)) = count s"
  using inc_many [OF assms] dec_many [where s = "(inc k ^^ n) s" and k = k and n = n] by simp

lemma dec_to_zero: "ok s \<Longrightarrow> count s k \<le> n \<Longrightarrow> count ((dec k ^^ n) s) k = 0"
  using dec_many [where s = s and k = k and n = n] by simp

end

definition ref_count :: "event \<Rightarrow> u16 \<times> bool \<Rightarrow> nat" where
  "ref_count e k = (case ev_refs e (fst k) of
      None \<Rightarrow> 0 | Some m \<Rightarrow> (case m (snd k) of None \<Rightarrow> 0 | Some n \<Rightarrow> unat n))"

lemma unat_inc: "Suc (unat (n :: u32)) < 2 ^ 32 \<Longrightarrow> unat (n + 1) = Suc (unat n) \<and> n + 1 \<noteq> 0"
proof -
  assume "Suc (unat n) < 2 ^ 32"
  then have "unat (n + 1) = Suc (unat n)" by (simp add: unat_word_ariths)
  then show ?thesis by auto
qed

lemma unat_dec: "(n :: u32) \<noteq> 0 \<Longrightarrow> unat (n - 1) = unat n - 1"
  by (simp add: unat_minus_one)

lemma refs_ok_add:
  assumes "refs_ok e" and "Suc (ref_count e (c, b)) < 2 ^ 32"
  shows "refs_ok (add_ref c b e)"
  using assms unat_inc
  by (auto simp: refs_ok_def add_ref_def ref_count_def split: option.splits if_splits)

lemma ref_count_add:
  assumes "Suc (ref_count e (c, b)) < 2 ^ 32"
  shows "ref_count (add_ref c b e) k' = (if k' = (c, b) then Suc (ref_count e (c, b)) else ref_count e k')"
  using assms unat_inc
  by (cases k') (auto simp: add_ref_def ref_count_def split: option.splits)

lemma refs_ok_remove:
  assumes "refs_ok e"
  shows "refs_ok (remove_ref c b e)"
  using assms by (auto simp: refs_ok_def remove_ref_def Let_def split: option.splits if_splits)

lemma ref_count_remove:
  assumes "refs_ok e"
  shows "ref_count (remove_ref c b e) k' =
    (if k' = (c, b) then ref_count e (c, b) - 1 else ref_count e k')"
  using assms unat_dec
  by (cases k') (auto simp: refs_ok_def remove_ref_def ref_count_def Let_def fun_eq_iff
      split: option.splits if_splits)

interpretation refs: counters ref_count "\<lambda>k. add_ref (fst k) (snd k)"
  "\<lambda>k. remove_ref (fst k) (snd k)" refs_ok "2 ^ 32"
  by unfold_locales (auto simp: refs_ok_add ref_count_add refs_ok_remove ref_count_remove)

section \<open>Reachable events\<close>

text \<open>
  Payloads handed to an event are shorter than 4 GiB, and no count of references reaches the
  range of its 32-bit counter.
\<close>

inductive event_reachable :: "event \<Rightarrow> bool" where
  init: "event_reachable (event_init shadow)"
| configure: "event_reachable e \<Longrightarrow>
    e' \<in> {event_set_service s e, event_set_instance s e, event_set_version v e, event_set_event s e,
      event_set_field b e, event_set_provided b e, event_set_shadow b e,
      event_set_cache_placeholder b e, event_set_reliable b e,
      event_set_remote_notification_pending b e, set_change_resets_cycle b e,
      set_update_on_change b e, set_epsilon_change_function f e, set_update_cycle i e} \<Longrightarrow>
    event_reachable e'"
| payload: "event_reachable e \<Longrightarrow> payload_fits p \<Longrightarrow>
    event_set_payload p force flush e = Some (out, e')
      \<or> event_set_payload_client p c force flush e = Some (out, e')
      \<or> event_set_payload_target p t force flush e = Some (out, e')
      \<or> set_payload_dont_notify p e = Some (r, e') \<Longrightarrow>
    event_reachable e'"
| unset: "event_reachable e \<Longrightarrow> event_reachable (unset_payload force e)"
| cycle: "event_reachable e \<Longrightarrow> event_reachable (snd (update_cbk error e))"
| groups: "event_reachable e \<Longrightarrow>
    e' \<in> {add_eventgroup g e, set_eventgroups gs e, snd (add_subscriber g c e),
      remove_subscriber g c e, clear_subscribers e} \<Longrightarrow>
    event_reachable e'"
| add_ref: "event_reachable e \<Longrightarrow> Suc (ref_count e (c, b)) < 2 ^ 32 \<Longrightarrow>
    event_reachable (add_ref c b e)"
| remove_ref: "event_reachable e \<Longrightarrow> event_reachable (remove_ref c b e)"

definition event_ok :: "event \<Rightarrow> bool" where
  "event_ok e \<longleftrightarrow> payload_ok e \<and> refs_ok e"

lemma event_ok_same:
  assumes "event_ok e" "msg_payload (ev_message e') = msg_payload (ev_message e)"
    "ev_is_set e' = ev_is_set e" "ev_refs e' = ev_refs e"
  shows "event_ok e'"
  using assms by (simp add: event_ok_def payload_ok_def refs_ok_def)

lemma ref_ops_keep [simp]:
  "ev_message (add_ref c b e) = ev_message e" "ev_is_set (add_ref c b e) = ev_is_set e"
  "ev_message (remove_ref c b e) = ev_message e" "ev_is_set (remove_ref c b e) = ev_is_set e"
  by (simp_all add: add_ref_def remove_ref_def Let_def split: option.split)

lemma event_ok_payload:
  assumes "event_ok e" "payload_fits p" "e' = e \<or>
    ev_message e' = ev_message (reset_payload p e) \<and> ev_is_set e' \<and> ev_refs e' = ev_refs e"
  shows "event_ok e'"
  using assms payload_ok_reset [OF assms(2), of e] payload_ok_cong [of e' "reset_payload p e"]
    refs_ok_cong [of e' e]
  by (auto simp: event_ok_def)

lemma event_ok_configure:
  assumes "event_ok e"
    and "e' \<in> {event_set_service s e, event_set_instance s e, event_set_version v e, event_set_event s e,
      event_set_field b e, event_set_provided b e, event_set_shadow b e,
      event_set_cache_placeholder b e, event_set_reliable b e,
      event_set_remote_notification_pending b e, set_change_resets_cycle b e,
      set_update_on_change b e, set_epsilon_change_function f e, set_update_cycle i e}"
  shows "event_ok e'"
  using assms(2)
  by (intro event_ok_same [OF assms(1)])
    (auto simp: event_simple_ops message_setters split: option.splits if_splits)

lemma event_ok_groups:
  assumes "event_ok e"
    and "e' \<in> {add_eventgroup g e, set_eventgroups gs e, snd (add_subscriber g c e),
      remove_subscriber g c e, clear_subscribers e}"
  shows "event_ok e'"
  using assms(2)
  by (intro event_ok_same [OF assms(1)]) (auto simp: event_simple_ops Let_def split: option.splits if_splits)

lemma event_ok_unset: "event_ok e \<Longrightarrow> event_ok (unset_payload force e)"
  by (auto simp: unset_payload_def Let_def event_ok_def payload_ok_def refs_ok_def message_setters
      payload_fits_def create_payload_def)

lemma event_reachable_ok: "event_reachable e \<Longrightarrow> event_ok e"
proof (induction rule: event_reachable.induct)
  case (init shadow)
  show ?case
    by (simp add: event_ok_def payload_ok_def refs_ok_def event_init_def create_notification_def
        message_setters message_init_def create_payload_def payload_fits_def)
next
  case (configure e e')
  from event_ok_configure [OF this(3,2)] show ?case .
next
  case (payload e p)
  from event_ok_payload [OF this(4,2) payload_change_cases [OF this(3)]] show ?case .
next
  case (cycle e error)
  then show ?case by (elim event_ok_same) (simp_all add: update_cbk_def)
next
  case (groups e e')
  from event_ok_groups [OF this(3,2)] show ?case .
next
  case (add_ref e c b)
  then show ?case by (simp add: event_ok_def refs_ok_add payload_ok_def)
next
  case (remove_ref e c b)
  then show ?case by (simp add: event_ok_def refs_ok_remove payload_ok_def)
qed (rule event_ok_unset)

section \<open>Properties\<close>

text \<open>
  C10. A new payload is sent exactly when it has to be.  On every reachable event that uses
  the default comparison, setting a payload has a defined result.  The payload is accepted
  when the event is provided and, if it is a field, when the caller forces it or its bytes
  differ from the stored ones.  One notification with the new payload goes out if it is
  accepted and the event updates on change, and none otherwise.  The stored bytes are the
  new ones if accepted and the old ones otherwise, the header does not change, and the cycle
  timer is armed anew on the first payload and on a change that resets the cycle.
\<close>

theorem event_notifies_changes:
  assumes e: "event_reachable e" and p: "payload_fits p"
    and eps: "ev_epsilon_change_func e = compare_payload"
    and old: "event_get_payload e = Some old"
    and acc: "accepted \<longleftrightarrow> ev_is_provided e \<and> (ev_is_field e \<longrightarrow> force \<or> pl_data p \<noteq> pl_data old)"
  shows "\<exists>e'. event_set_payload p force flush e =
        Some (if accepted \<and> ev_is_updating_on_change e
              then [Send VSOMEIP_ROUTING_CLIENT (ev_message e') flush] else [], e')
    \<and> msg_header (ev_message e') = msg_header (ev_message e)
    \<and> map_option pl_data (event_get_payload e') = Some (if accepted then pl_data p else pl_data old)
    \<and> ev_is_set e' = (accepted \<or> ev_is_set e)
    \<and> ev_cycle_timer e' =
        (if accepted \<and> ev_cycle e \<noteq> 0
            \<and> (\<not> ev_is_set e \<or> ev_is_updating_on_change e \<and> ev_change_resets_cycle e)
         then Some (ev_cycle e) else ev_cycle_timer e)"
proof -
  have old': "msg_payload (ev_message e) = Some old" using old by (simp add: event_get_payload_def)
  have "payload_fits old"
    using event_reachable_ok [OF e] old' by (auto simp: event_ok_def payload_ok_def)
  then have helper: "set_payload_helper p force e =
      Some (ev_is_field e \<longrightarrow> force \<or> pl_data p \<noteq> pl_data old)"
    using p by (auto simp: set_payload_helper_def eps old' compare_payload_eq)
  show ?thesis
  proof (cases accepted)
    case False
    with acc helper show ?thesis
      by (auto simp: event_set_payload_def event_get_payload_def old')
  next
    case True
    with acc helper show ?thesis
      by (simp add: event_set_payload_def Let_def event_get_payload_def reset_payload_data p
          notify_def reset_payload_timer create_payload_def)
        (simp add: start_cycle_def stop_cycle_def reset_payload_timer reset_payload_data p create_payload_def)
  qed
qed

definition sample_field :: event where
  "sample_field = event_set_field True (event_set_provided True (event_init False))"

lemma sample_field_reachable: "event_reachable sample_field"
proof -
  have "event_reachable (event_set_provided True (event_init False))"
    by (rule event_reachable.configure [OF event_reachable.init [of False], where b = True]) simp
  then show ?thesis
    unfolding sample_field_def by (rule event_reachable.configure [where b = True]) simp
qed

theorem event_notifies_changes_witness:
  "\<exists>e'. event_set_payload (create_payload [1, 2]) False True sample_field =
        Some ([Send 0 (ev_message e') True], e')
    \<and> map_option pl_data (event_get_payload e') = Some [1, 2]"
proof -
  have "event_get_payload sample_field = Some (create_payload [])"
    "ev_epsilon_change_func sample_field = compare_payload" "payload_fits (create_payload [1, 2])"
    "True \<longleftrightarrow> ev_is_provided sample_field \<and> (ev_is_field sample_field \<longrightarrow> False
       \<or> pl_data (create_payload [1, 2]) \<noteq> pl_data (create_payload []))"
    "ev_is_updating_on_change sample_field"
    by (simp_all add: sample_field_def event_set_field_def event_set_provided_def event_init_def
        event_get_payload_def create_notification_def message_setters message_init_def
        create_payload_def payload_fits_def)
  with event_notifies_changes [OF sample_field_reachable this(3,2,1,4), of True]
  show ?thesis unfolding create_payload_def by auto
qed

text \<open>
  An event without a payload is silent: as long as no payload has been set, or after it
  has been unset, the message carries no bytes and neither the cycle timer nor a request to
  notify one client or endpoint sends anything.
\<close>

theorem unset_event_is_silent:
  assumes "event_reachable e" and "\<not> ev_is_set e"
  shows "map_option pl_data (event_get_payload e) = Some []
    \<and> fst (update_cbk error e) = [] \<and> notify_one c flush e = [] \<and> notify_one_target t flush e = []
    \<and> (\<forall>force. force \<or> ev_is_provided e \<longrightarrow> \<not> ev_is_set (unset_payload force e)
        \<and> (ev_cycle e \<noteq> 0 \<longrightarrow> ev_cycle_timer (unset_payload force e) = None))"
  using event_reachable_ok [OF assms(1)] assms(2)
  by (auto simp: event_ok_def payload_ok_def event_get_payload_def update_cbk_def notify_def
      notify_one_def notify_one_target_def unset_payload_def Let_def stop_cycle_def)

theorem unset_event_is_silent_witness:
  "map_option pl_data (event_get_payload sample_field) = Some []
    \<and> notify_one 0x1343 True sample_field = []"
  using unset_event_is_silent [OF sample_field_reachable]
  by (simp add: sample_field_def event_set_field_def event_set_provided_def event_init_def)

text \<open>
  References are counted.  On every reachable event a client holds a reference exactly
  when its count is positive, and the event is referenced at all exactly when some count is;
  adding a reference raises one count by one, removing lowers it by one and does nothing at
  zero, no other count changes, and any number of additions is undone by as many removals.
\<close>

theorem references_are_counted:
  assumes e: "event_reachable e" and n: "ref_count e (c, b) + n < 2 ^ 32"
  shows "(has_ref c b e \<longleftrightarrow> 0 < ref_count e (c, b))
    \<and> (has_refs e \<longleftrightarrow> (\<exists>k. 0 < ref_count e k))
    \<and> ref_count ((add_ref c b ^^ n) e) = (ref_count e)((c, b) := ref_count e (c, b) + n)
    \<and> ref_count (remove_ref c b e) = (ref_count e)((c, b) := ref_count e (c, b) - 1)
    \<and> ref_count ((remove_ref c b ^^ n) ((add_ref c b ^^ n) e)) = ref_count e"
proof -
  have ok: "refs_ok e" using event_reachable_ok [OF e] by (simp add: event_ok_def)
  have hr: "has_ref c b e \<longleftrightarrow> 0 < ref_count e (c, b)"
    by (auto simp: has_ref_def ref_count_def word_less_nat_alt split: option.split)
  have "\<exists>k. 0 < ref_count e k" if "ev_refs e a = Some m" for a m
  proof -
    from that ok have m: "m \<noteq> Map.empty" "\<And>b n. m b = Some n \<Longrightarrow> n \<noteq> 0"
      by (auto simp: refs_ok_def)
    then obtain x y where "m x = Some y" by (metis not_None_eq)
    with that m(2) have "0 < ref_count e (a, x)" by (simp add: ref_count_def unat_gt_0)
    then show ?thesis by blast
  qed
  moreover have "\<exists>a m. ev_refs e a = Some m" if "0 < ref_count e k" for k
    using that by (cases "ev_refs e (fst k)") (auto simp: ref_count_def)
  ultimately have "has_refs e \<longleftrightarrow> (\<exists>k. 0 < ref_count e k)"
    by (metis has_refs_def not_None_eq)
  moreover have "ref_count (remove_ref c b e) = (ref_count e)((c, b) := ref_count e (c, b) - 1)"
    using ok by (auto simp: fun_eq_iff ref_count_remove)
  ultimately show ?thesis
    using hr refs.inc_many [OF ok n] refs.balanced [OF ok n] by simp
qed

theorem references_are_counted_witness:
  "\<not> has_ref 0x1343 True (event_init False)
    \<and> ref_count ((add_ref 0x1343 True ^^ 3) (event_init False)) (0x1343, True) = 3"
proof -
  have "ref_count (event_init False) (0x1343, True) = 0"
    by (simp add: ref_count_def event_init_def)
  then show ?thesis
    using references_are_counted [OF event_reachable.init [of False], where c = "0x1343" and b = True and n = 3] by simp
qed

text \<open>
  The subscribers of an event are a set of clients per eventgroup: adding and removing
  a subscriber changes the set of that eventgroup by that client and reports whether it was
  new, clearing empties them all, naming an eventgroup again with \<open>add_eventgroup\<close> keeps
  its subscribers while \<open>set_eventgroups\<close> drops those of the eventgroups it names, and the
  queries read the same sets.
\<close>

theorem subscribers_are_sets:
  "get_subscribers g' (snd (add_subscriber g c e)) =
      (if g' = g then insert c (get_subscribers g e) else get_subscribers g' e)
   \<and> fst (add_subscriber g c e) = (c \<notin> get_subscribers g e)
   \<and> get_subscribers g' (remove_subscriber g c e) =
      (if g' = g then get_subscribers g e - {c} else get_subscribers g' e)
   \<and> get_subscribers g' (clear_subscribers e) = {}
   \<and> get_subscribers g' (add_eventgroup g e) = get_subscribers g' e
   \<and> get_subscribers g' (set_eventgroups gs e) = (if g' \<in> gs then {} else get_subscribers g' e)
   \<and> has_subscriber g c e = (if c = ANY_CLIENT then get_subscribers g e \<noteq> {} else c \<in> get_subscribers g e)
   \<and> is_subscribed c e = (get_eventgroups_of c e \<noteq> {})
   \<and> get_eventgroups_of c e = {g. c \<in> get_subscribers g e}
   \<and> get_all_subscribers e = (\<Union>g. get_subscribers g e)"
proof -
  have "get_all_subscribers e = (\<Union>g. get_subscribers g e)"
    by (fastforce simp: get_all_subscribers_def get_subscribers_def ran_def split: option.splits)
  moreover have "is_subscribed c e = (get_eventgroups_of c e \<noteq> {})"
    by (fastforce simp: is_subscribed_def get_eventgroups_of_def ran_def split: option.splits)
  moreover have "get_eventgroups_of c e = {g. c \<in> get_subscribers g e}"
    by (auto simp: get_eventgroups_of_def get_subscribers_def split: option.splits)
  ultimately show ?thesis
    by (auto simp: get_subscribers_def add_subscriber_def remove_subscriber_def clear_subscribers_def
        add_eventgroup_def set_eventgroups_def has_subscriber_def Let_def split: option.splits)
qed

text \<open>
  An expiry of the cycle timer that is already queued when the cycle is set to zero still
  runs: it sends and arms the timer again, with an interval of zero.
\<close>

theorem stale_expiry_rearms_stopped_cycle:
  "ev_is_provided e \<Longrightarrow> ev_is_set e \<Longrightarrow> ev_cycle e \<noteq> 0 \<Longrightarrow>
     ev_cycle_timer (set_update_cycle 0 e) = None
     \<and> fst (update_cbk False (set_update_cycle 0 e)) \<noteq> []
     \<and> ev_cycle_timer (snd (update_cbk False (set_update_cycle 0 e))) = Some 0"
  by (simp add: set_update_cycle_def start_cycle_def stop_cycle_def update_cbk_def notify_def)

end
