(* ===== verification/Framing.thy ===== *)
theory Framing
  imports Message
begin

text \<open>
  What the TCP endpoints share (\<^verbatim>\<open>implementation/endpoints/src/endpoint_impl.cpp\<close> and the
  receive loops of \<^verbatim>\<open>tcp_client_endpoint_impl.cpp\<close> and \<^verbatim>\<open>tcp_server_endpoint_impl.cpp\<close>): a
  receive buffer into which the socket writes, magic cookies, the loop that cuts the buffered
  bytes into messages, and the growth of the buffer.

  A buffer is a \<^verbatim>\<open>std::vector\<close> whose capacity is its size: it is built with an exact size,
  grown with \<^verbatim>\<open>reserve\<close> and \<^verbatim>\<open>resize\<close> to the same value and cut with \<^verbatim>\<open>resize\<close> followed by
  \<^verbatim>\<open>shrink_to_fit\<close>, for all of which the capacity of common implementations is exact.  Sizes
  are below 4 GiB.  Reading outside the vector is the value \<open>None\<close>.
\<close>

section \<open>Memory blocks and magic cookies\<close>

definition slice :: "byte list \<Rightarrow> nat \<Rightarrow> nat \<Rightarrow> byte list ub" where
  "slice buf off n = (if off + n \<le> length buf then Some (take n (drop off buf)) else None)"

lemma slice_Some [simp]: "off + n \<le> length buf \<Longrightarrow> slice buf off n = Some (take n (drop off buf))"
  by (simp add: slice_def)

definition CLIENT_COOKIE :: "byte list" where
  "CLIENT_COOKIE = [0xFF, 0xFF, 0x00, 0x00, 0x00, 0x00, 0x00, 0x08,
     0xDE, 0xAD, 0xBE, 0xEF, 0x01, 0x01, 0x01, 0x00]"

definition SERVICE_COOKIE :: "byte list" where
  "SERVICE_COOKIE = [0xFF, 0xFF, 0x80, 0x00, 0x00, 0x00, 0x00, 0x08,
     0xDE, 0xAD, 0xBE, 0xEF, 0x01, 0x01, 0x02, 0x00]"

lemma length_cookies [simp]: "length CLIENT_COOKIE = 16" "length SERVICE_COOKIE = 16"
  by (simp_all add: CLIENT_COOKIE_def SERVICE_COOKIE_def)

definition MESSAGE_SIZE_UNLIMITED :: u32 where "MESSAGE_SIZE_UNLIMITED = 0xFFFFFFFF"

text \<open>\<^verbatim>\<open>memcmp\<close> of the cookie with the buffer at an offset.\<close>

definition is_magic_cookie :: "byte list \<Rightarrow> byte list \<Rightarrow> nat \<Rightarrow> bool ub" where
  "is_magic_cookie cookie buf off = map_option (\<lambda>bs. bs = cookie) (slice buf off 16)"

text \<open>
  The search compares byte by byte with the same sixteen values; the cookie is that of the
  other side.  It looks at an offset only when more than sixteen bytes follow.
\<close>

function find_magic_cookie_from :: "byte list \<Rightarrow> byte list \<Rightarrow> nat \<Rightarrow> nat \<Rightarrow> nat ub" where
  "find_magic_cookie_from cookie buf sz off =
     (if sz > off + 16
      then Option.bind (is_magic_cookie cookie buf off) (\<lambda>is_found.
        if is_found then Some off else find_magic_cookie_from cookie buf sz (off + 1))
      else Some 0xFFFFFFFF)"
  by pat_completeness auto
termination
  by (relation "measure (\<lambda>(cookie, buf, sz, off). sz - off)") auto

declare find_magic_cookie_from.simps [simp del]

definition find_magic_cookie :: "bool \<Rightarrow> byte list \<Rightarrow> nat \<Rightarrow> nat ub" where
  "find_magic_cookie is_client buf sz =
     find_magic_cookie_from (if is_client then SERVICE_COOKIE else CLIENT_COOKIE) buf sz 0"

section \<open>The receive state\<close>

text \<open>The outcomes of an asynchronous operation of Boost.Asio that the code distinguishes.\<close>

datatype asio_error = No_error | Operation_aborted | Connection_reset | End_of_file | Timed_out
  | Bad_descriptor | Not_connected | Broken_pipe | Already_connected | Connection_refused | No_descriptors | Other_error

type_synonym ip_endpoint = "byte list \<times> u16"

datatype rx_status = Rx_running | Rx_disabled | Rx_restarted | Rx_closed

datatype host_call = On_message "byte list" | On_error "byte list"

record rx =
  rx_buffer :: "byte list"
  rx_size :: nat
  rx_gap :: nat
  rx_missing_capacity :: nat
  rx_shrink_count :: u32
  rx_magic_cookies :: bool
  rx_calls :: "host_call list"
  rx_status :: rx_status

record rx_config =
  rc_max_message_size :: u32
  rc_buffer_shrink_threshold :: u32
  rc_recv_buffer_size_initial :: nat

text \<open>\<^verbatim>\<open>resize(n, 0x0)\<close>\<close>

definition vec_resize :: "nat \<Rightarrow> byte list \<Rightarrow> byte list" where
  "vec_resize n buf = take n buf @ replicate (n - length buf) 0"

lemma length_vec_resize [simp]: "length (vec_resize n buf) = n"
  by (simp add: vec_resize_def)

definition calculate_shrink_count :: "rx_config \<Rightarrow> 'a rx_scheme \<Rightarrow> 'a rx_scheme" where
  "calculate_shrink_count c s =
     (if rc_buffer_shrink_threshold c \<noteq> 0 \<and> length (rx_buffer s) \<noteq> rc_recv_buffer_size_initial c
      then if rx_size s < length (rx_buffer s) div 2
           then s\<lparr>rx_shrink_count := rx_shrink_count s + 1\<rparr>
           else s\<lparr>rx_shrink_count := 0\<rparr>
      else s)"

text \<open>
  A pass of the loop tells whether it consumed something; the loop goes on as long as it
  did and bytes are left.
\<close>

partial_function (option) rx_loop ::
  "('a rx_scheme \<Rightarrow> (bool \<times> 'a rx_scheme) option) \<Rightarrow> 'a rx_scheme \<Rightarrow> 'a rx_scheme option" where
  "rx_loop step s =
     Option.bind (step s) (\<lambda>(has_full_message, s').
       if has_full_message \<and> rx_size s' \<noteq> 0 then rx_loop step s' else Some s')"

text \<open>Copying the incomplete message to the front of the buffer, byte by byte.\<close>

fun copy_front :: "byte list \<Rightarrow> nat \<Rightarrow> nat \<Rightarrow> nat \<Rightarrow> byte list ub" where
  "copy_front buf gap i 0 = Some buf"
| "copy_front buf gap i (Suc n) =
     Option.bind (vec_get buf (i + gap)) (\<lambda>b.
     Option.bind (vec_set buf i b) (\<lambda>buf. copy_front buf gap (Suc i) n))"

definition rx_shift :: "'a rx_scheme \<Rightarrow> 'a rx_scheme ub" where
  "rx_shift s =
     (if rx_gap s \<noteq> 0
      then Option.bind (copy_front (rx_buffer s) (rx_gap s) 0 (rx_size s)) (\<lambda>buf.
        Some (s\<lparr>rx_buffer := buf, rx_gap := 0,
                rx_missing_capacity :=
                  (if rx_missing_capacity s \<noteq> 0
                      \<and> rx_missing_capacity s \<le> length buf - rx_size s then 0
                   else rx_missing_capacity s)\<rparr>))
      else Some s)"

text \<open>
  Preparing the next read: the state and the number of bytes asked for behind those
  already there, or \<open>None\<close> in the second component when no read is started.
\<close>

definition rx_receive :: "rx_config \<Rightarrow> 'a rx_scheme \<Rightarrow> 'a rx_scheme \<times> nat option" where
  "rx_receive c s =
     (let its_capacity = length (rx_buffer s) in
      if rx_missing_capacity s \<noteq> 0
      then if rx_missing_capacity s > unat MESSAGE_SIZE_UNLIMITED then (s, None)
           else let its_required_capacity = rx_size s + rx_missing_capacity s
                in (s\<lparr>rx_buffer := (if its_capacity < its_required_capacity
                                    then vec_resize its_required_capacity (rx_buffer s)
                                    else rx_buffer s),
                      rx_missing_capacity := 0\<rparr>,
                    Some (rx_missing_capacity s))
      else if rc_buffer_shrink_threshold c \<noteq> 0
              \<and> rx_shrink_count s > rc_buffer_shrink_threshold c \<and> rx_size s = 0
      then (s\<lparr>rx_buffer := vec_resize (rc_recv_buffer_size_initial c) (rx_buffer s),
              rx_shrink_count := 0\<rparr>,
            Some (rc_recv_buffer_size_initial c))
      else (s, Some (its_capacity - rx_size s)))"

text \<open>The socket stores what it received behind the bytes that are there.\<close>

definition rx_store :: "byte list \<Rightarrow> 'a rx_scheme \<Rightarrow> 'a rx_scheme" where
  "rx_store bs s =
     s\<lparr>rx_buffer := take (rx_size s) (rx_buffer s) @ bs @ drop (rx_size s + length bs) (rx_buffer s)\<rparr>"

text \<open>
  A read that ended with \<open>bs\<close>: the loop, the shift to the front and the next read, unless
  the loop left the connection.
\<close>

definition rx_data :: "rx_config \<Rightarrow> ('a rx_scheme \<Rightarrow> (bool \<times> 'a rx_scheme) ub) \<Rightarrow> byte list
    \<Rightarrow> 'a rx_scheme \<Rightarrow> ('a rx_scheme \<times> nat option) ub" where
  "rx_data c step bs s =
     Option.bind (rx_loop step ((rx_store bs s)\<lparr>rx_size := rx_size s + length bs, rx_gap := 0\<rparr>)) (\<lambda>s.
     if rx_status s = Rx_running
     then Option.bind (rx_shift s) (\<lambda>s. Some (rx_receive c s))
     else Some (s, None))"

text \<open>
  Reading a byte stream from a socket.  Each read delivers between one byte and the number
  asked for; the schedule \<open>ks\<close> says how many.
\<close>

fun rx_run :: "(byte list \<Rightarrow> 'a rx_scheme \<Rightarrow> ('a rx_scheme \<times> nat option) ub) \<Rightarrow> nat list \<Rightarrow> byte list
    \<Rightarrow> 'a rx_scheme \<times> nat option \<Rightarrow> (byte list \<times> 'a rx_scheme \<times> nat option) ub" where
  "rx_run cbk [] stream x = Some (stream, x)"
| "rx_run cbk (k # ks) stream (s, None) = Some (stream, (s, None))"
| "rx_run cbk (k # ks) stream (s, Some req) =
     (if stream = [] then Some (stream, (s, Some req))
      else let n = min (max 1 k) (min req (length stream))
           in if n = 0 then None
              else Option.bind (cbk (take n stream) s) (rx_run cbk ks (drop n stream)))"

section \<open>Facts about the buffer\<close>

lemma copy_front_eq:
  assumes "i + n + gap \<le> length buf" and "0 < gap"
  shows "copy_front buf gap i n = Some (take i buf @ take n (drop (i + gap) buf) @ drop (i + n) buf)"
  using assms
proof (induction n arbitrary: i buf)
  case (Suc n)
  let ?b = "buf[i := buf ! (i + gap)]"
  have i: "i < length buf" "i + gap < length buf" using Suc.prems by simp_all
  have "copy_front ?b gap (Suc i) n =
      Some (take (Suc i) ?b @ take n (drop (Suc i + gap) ?b) @ drop (Suc i + n) ?b)"
    using Suc.prems by (intro Suc.IH) auto
  also have "take (Suc i) ?b = take i buf @ [buf ! (i + gap)]"
    using i by (simp add: take_Suc_conv_app_nth)
  also have "drop (Suc i + gap) ?b = drop (Suc i + gap) buf" by simp
  also have "drop (Suc i + n) ?b = drop (Suc i + n) buf" by simp
  also have "take (Suc n) (drop (i + gap) buf) = buf ! (i + gap) # take n (drop (Suc i + gap) buf)"
    using i by (simp add: Cons_nth_drop_Suc [symmetric])
  then have "[buf ! (i + gap)] @ take n (drop (Suc i + gap) buf) = take (Suc n) (drop (i + gap) buf)"
    by simp
  ultimately show ?case using i by simp
qed simp

definition rx_bytes :: "'a rx_scheme \<Rightarrow> byte list" where
  "rx_bytes s = take (rx_size s) (drop (rx_gap s) (rx_buffer s))"

definition rx_ready :: "'a rx_scheme \<Rightarrow> bool" where
  "rx_ready s \<longleftrightarrow> rx_gap s + rx_size s \<le> length (rx_buffer s) \<and> \<not> rx_magic_cookies s
     \<and> rx_status s = Rx_running"

text \<open>A read for \<open>r\<close> bytes is under way, with \<open>p\<close> in the front of the buffer.\<close>

definition rx_waiting :: "byte list \<Rightarrow> nat \<Rightarrow> 'a rx_scheme \<Rightarrow> bool" where
  "rx_waiting p r s \<longleftrightarrow> rx_ready s \<and> rx_gap s = 0 \<and> rx_missing_capacity s = 0
     \<and> rx_bytes s = p \<and> rx_size s = length p \<and> 0 < r \<and> length p + r \<le> length (rx_buffer s)"

lemma rx_shift_eq:
  assumes "rx_ready s"
  obtains s' where "rx_shift s = Some s'" and "rx_ready s'" and "rx_gap s' = 0"
    and "rx_size s' = rx_size s" and "rx_bytes s' = rx_bytes s"
    and "length (rx_buffer s') = length (rx_buffer s)" and "rx_calls s' = rx_calls s"
    and "rx_missing_capacity s' = rx_missing_capacity s
       \<or> rx_missing_capacity s' = 0 \<and> rx_size s < length (rx_buffer s)"
proof (cases "rx_gap s = 0")
  case True
  with assms that [of s] show ?thesis by (simp add: rx_shift_def)
next
  case False
  have "copy_front (rx_buffer s) (rx_gap s) 0 (rx_size s) =
      Some (rx_bytes s @ drop (rx_size s) (rx_buffer s))" (is "_ = Some ?b")
    using assms False copy_front_eq [of 0 "rx_size s" "rx_gap s" "rx_buffer s"]
    by (simp add: rx_ready_def rx_bytes_def add.commute)
  moreover have "length (rx_bytes s) = rx_size s" "length ?b = length (rx_buffer s)"
    using assms by (auto simp: rx_bytes_def rx_ready_def)
  ultimately show ?thesis
    using assms False that [of "s\<lparr>rx_buffer := ?b, rx_gap := 0, rx_missing_capacity :=
        (if rx_missing_capacity s \<noteq> 0 \<and> rx_missing_capacity s \<le> length ?b - rx_size s then 0
         else rx_missing_capacity s)\<rparr>"]
    by (auto simp: rx_shift_def rx_ready_def rx_bytes_def)
qed

lemma rx_receive_waiting:
  assumes "rx_ready s" and "rx_gap s = 0" and "rx_missing_capacity s \<le> unat MESSAGE_SIZE_UNLIMITED"
    and "rx_missing_capacity s = 0 \<Longrightarrow> rx_size s < length (rx_buffer s)"
    and "0 < rc_recv_buffer_size_initial c"
  obtains s' r where "rx_receive c s = (s', Some r)" and "rx_waiting (rx_bytes s) r s'"
    and "rx_calls s' = rx_calls s"
proof -
  consider (grow) "rx_missing_capacity s \<noteq> 0"
    | (shrink) "rx_missing_capacity s = 0" "rc_buffer_shrink_threshold c \<noteq> 0"
      "rx_shrink_count s > rc_buffer_shrink_threshold c" "rx_size s = 0"
    | (keep) "rx_missing_capacity s = 0" "\<not> (rc_buffer_shrink_threshold c \<noteq> 0
        \<and> rx_shrink_count s > rc_buffer_shrink_threshold c \<and> rx_size s = 0)"
    by (cases "rx_missing_capacity s = 0") auto
  then show ?thesis
  proof cases
    case grow
    with assms that show ?thesis
      by (auto simp: rx_receive_def Let_def rx_waiting_def rx_ready_def rx_bytes_def vec_resize_def)
  next
    case shrink
    with assms that show ?thesis
      by (auto simp: rx_receive_def Let_def rx_waiting_def rx_ready_def rx_bytes_def)
  next
    case keep
    then have "rx_receive c s = (s, Some (length (rx_buffer s) - rx_size s))"
      by (auto simp: rx_receive_def Let_def)
    with keep assms that show ?thesis
      by (auto simp: rx_waiting_def rx_ready_def rx_bytes_def)
  qed
qed

lemma concat_split:
  assumes "u @ v = concat ms" and "\<And>m. m \<in> set ms \<Longrightarrow> m \<noteq> []"
  shows "\<exists>ms1 ms2 rest. ms = ms1 @ ms2 \<and> u = concat ms1 @ rest \<and> rest @ v = concat ms2
    \<and> (rest = [] \<or> (\<exists>m ms3 q. ms2 = m # ms3 \<and> m = rest @ q \<and> q \<noteq> []))"
  using assms
proof (induction ms arbitrary: u)
  case (Cons m ms)
  show ?case
  proof (cases "length m \<le> length u")
    case True
    with Cons.prems(1) obtain u' where u: "u = m @ u'" "u' @ v = concat ms"
      by (auto simp: append_eq_append_conv2)
    from Cons.IH [OF u(2)] Cons.prems(2) obtain ms1 ms2 rest where
      "ms = ms1 @ ms2" "u' = concat ms1 @ rest" "rest @ v = concat ms2"
      "rest = [] \<or> (\<exists>m ms3 q. ms2 = m # ms3 \<and> m = rest @ q \<and> q \<noteq> [])"
      by auto
    with u show ?thesis by (intro exI [of _ "m # ms1"] exI [of _ ms2] exI [of _ rest]) simp
  next
    case False
    with Cons.prems(1) obtain q where "m = u @ q" "q \<noteq> []"
      by (auto simp: append_eq_append_conv2)
    with Cons.prems(1) show ?thesis
      by (intro exI [of _ "[]"] exI [of _ "m # ms"] exI [of _ u]) auto
  qed
qed simp

section \<open>Messages on a stream\<close>

text \<open>
  A message the receiver of a stream can rely on: at least a complete header, a length field
  that tells its size, within the configured maximum, and not itself a magic cookie.
\<close>

definition tcp_message :: "rx_config \<Rightarrow> byte list \<Rightarrow> byte list \<Rightarrow> bool" where
  "tcp_message c cookie m \<longleftrightarrow> 16 \<le> length m \<and> get_message_size m (length m) = Some (length m)
     \<and> (rc_max_message_size c = MESSAGE_SIZE_UNLIMITED \<or> length m \<le> unat (rc_max_message_size c))
     \<and> take 16 m \<noteq> cookie"

lemma get_message_size_prefix:
  assumes "8 \<le> length xs" and "8 \<le> n" and "8 \<le> k"
  shows "get_message_size (xs @ ys) n = get_message_size xs k"
  using assms by (simp add: get_message_size_def nth_append)

lemma get_message_size_bound:
  assumes "get_message_size xs n = Some k"
  shows "k \<le> unat MESSAGE_SIZE_UNLIMITED"
proof -
  have "unat (x :: u32) \<le> unat MESSAGE_SIZE_UNLIMITED" for x
    using unsigned_less [of x, where ?'a = nat] by (simp add: MESSAGE_SIZE_UNLIMITED_def)
  with assms show ?thesis
    by (auto simp: get_message_size_def bind_eq_Some_conv split: if_splits)
qed

lemma rx_bytesD:
  assumes "rx_ready s" and "rx_bytes s = bs"
  shows "\<exists>tl. drop (rx_gap s) (rx_buffer s) = bs @ tl" and "rx_size s = length bs"
    and "rx_gap s + length bs \<le> length (rx_buffer s)"
proof -
  show "\<exists>tl. drop (rx_gap s) (rx_buffer s) = bs @ tl"
    using assms(2) by (metis append_take_drop_id rx_bytes_def)
  show size: "rx_size s = length bs"
    using assms by (auto simp: rx_bytes_def rx_ready_def)
  show "rx_gap s + length bs \<le> length (rx_buffer s)"
    using assms(1) by (simp add: rx_ready_def size)
qed

text \<open>The size the loop reads off a complete and off an incomplete message.\<close>

lemma message_size_full:
  assumes "rx_ready s" and "rx_bytes s = m @ rest" and "tcp_message c cookie m"
  shows "get_message_size (drop (rx_gap s) (rx_buffer s)) (rx_size s) = Some (length m)"
    and "is_magic_cookie cookie (rx_buffer s) (rx_gap s) = Some False"
    and "slice (rx_buffer s) (rx_gap s) (length m) = Some m"
    and "16 \<le> length m" and "length m \<le> rx_size s" and "length m \<le> unat MESSAGE_SIZE_UNLIMITED"
proof -
  from rx_bytesD [OF assms(1,2)] obtain tl where
    tl: "drop (rx_gap s) (rx_buffer s) = m @ (rest @ tl)" and sz: "rx_size s = length m + length rest"
    and len: "rx_gap s + length m \<le> length (rx_buffer s)" by auto
  show m16: "16 \<le> length m" and "length m \<le> rx_size s"
    using assms(3) sz by (auto simp: tcp_message_def)
  then show "get_message_size (drop (rx_gap s) (rx_buffer s)) (rx_size s) = Some (length m)"
    using assms(3) get_message_size_prefix [of m "rx_size s" "length m" "rest @ tl"]
    by (simp add: tl tcp_message_def)
  show "is_magic_cookie cookie (rx_buffer s) (rx_gap s) = Some False"
    using m16 len assms(3) by (simp add: is_magic_cookie_def tl tcp_message_def)
  show "slice (rx_buffer s) (rx_gap s) (length m) = Some m"
    using len by (simp add: tl)
  show "length m \<le> unat MESSAGE_SIZE_UNLIMITED"
    using assms(3) get_message_size_bound by (auto simp: tcp_message_def)
qed

lemma message_size_partial:
  assumes "rx_ready s" and "rx_bytes s = p" and "tcp_message c cookie (p @ q)"
  shows "get_message_size (drop (rx_gap s) (rx_buffer s)) (rx_size s) =
    Some (if length p < 8 then 0 else length p + length q)"
    and "rx_size s = length p"
    and "length p + length q \<le> unat MESSAGE_SIZE_UNLIMITED"
proof -
  from rx_bytesD [OF assms(1,2)] obtain tl where
    tl: "drop (rx_gap s) (rx_buffer s) = p @ tl" and sz: "rx_size s = length p" by auto
  then show "rx_size s = length p" by simp
  have m: "16 \<le> length (p @ q)" "get_message_size (p @ q) (length (p @ q)) = Some (length (p @ q))"
    using assms(3) by (simp_all add: tcp_message_def)
  show "get_message_size (drop (rx_gap s) (rx_buffer s)) (rx_size s) =
      Some (if length p < 8 then 0 else length p + length q)"
  proof (cases "length p < 8")
    case True
    then show ?thesis by (simp add: sz get_message_size_def)
  next
    case False
    with m get_message_size_prefix [of p "length p" 8 tl]
      get_message_size_prefix [of p "length (p @ q)" 8 q]
    show ?thesis by (simp add: tl sz)
  qed
  show "length p + length q \<le> unat MESSAGE_SIZE_UNLIMITED"
    using get_message_size_bound [OF m(2)] by simp
qed

lemma shrink_count_fields [simp]:
  "rx_buffer (calculate_shrink_count c s) = rx_buffer s" "rx_size (calculate_shrink_count c s) = rx_size s"
  "rx_gap (calculate_shrink_count c s) = rx_gap s" "rx_calls (calculate_shrink_count c s) = rx_calls s"
  "rx_magic_cookies (calculate_shrink_count c s) = rx_magic_cookies s"
  "rx_status (calculate_shrink_count c s) = rx_status s"
  by (simp_all add: calculate_shrink_count_def)

lemma rx_ready_cookies [simp]: "rx_ready s \<Longrightarrow> \<not> rx_magic_cookies s"
  by (simp add: rx_ready_def)

definition sample_frame :: "byte list" where
  "sample_frame = [0x12, 0x34, 0x80, 0x01, 0, 0, 0, 8, 0, 1, 0, 1, 1, 0, 2, 0]"

lemma length_sample_frame [simp]: "length sample_frame = 16"
  by (simp add: sample_frame_def)

lemma sample_frame_size: "get_message_size sample_frame 16 = Some 16"
  by code_simp

lemma sample_frame_ok:
  assumes "cookie \<in> {CLIENT_COOKIE, SERVICE_COOKIE}" and "rc_max_message_size c = MESSAGE_SIZE_UNLIMITED"
  shows "tcp_message c cookie sample_frame"
proof -
  have "hd sample_frame \<noteq> hd CLIENT_COOKIE" "hd sample_frame \<noteq> hd SERVICE_COOKIE"
    by (simp_all add: sample_frame_def CLIENT_COOKIE_def SERVICE_COOKIE_def)
  with assms show ?thesis by (auto simp: tcp_message_def sample_frame_size)
qed

section \<open>The contract of a receiver\<close>

text \<open>
  A receiver waits for \<open>r\<close> bytes with \<open>p\<close>, the begin of a frame, at hand.  Whatever part of them
  arrives, it delivers the frames that are complete then and waits again, with the rest at hand.
  Then a stream of frames arrives whole, in order and each exactly once, however
  the network cuts it.
\<close>

locale stream_receiver =
  fixes cbk :: "byte list \<Rightarrow> 'a rx_scheme \<Rightarrow> ('a rx_scheme \<times> nat option) ub"
    and good :: "byte list \<Rightarrow> bool"
    and payload :: "byte list \<Rightarrow> byte list"
    and waiting :: "byte list \<Rightarrow> nat \<Rightarrow> 'a rx_scheme \<Rightarrow> bool"
  assumes good_not_empty: "good m \<Longrightarrow> m \<noteq> []"
    and waiting_pos: "waiting p r s \<Longrightarrow> 0 < r"
    and data_delivers: "waiting p r s \<Longrightarrow> bs \<noteq> [] \<Longrightarrow> length bs \<le> r \<Longrightarrow>
      p @ bs = concat ms @ rest \<Longrightarrow> (\<And>m. m \<in> set ms \<Longrightarrow> good m) \<Longrightarrow>
      rest = [] \<or> (\<exists>q. good (rest @ q) \<and> q \<noteq> []) \<Longrightarrow>
      \<exists>s' r'. cbk bs s = Some (s', Some r') \<and> waiting rest r' s'
        \<and> rx_calls s' = rx_calls s @ map (On_message \<circ> payload) ms"
begin

lemma run_delivers:
  assumes "waiting p r s" and "p @ stream = concat ms" and "\<And>m. m \<in> set ms \<Longrightarrow> good m"
    and "p = [] \<or> (\<exists>m ms' q. ms = m # ms' \<and> m = p @ q \<and> q \<noteq> [])"
  shows "\<exists>s' r' p' stream' ms1 ms2. rx_run cbk ks stream (s, Some r) = Some (stream', (s', Some r'))
    \<and> waiting p' r' s' \<and> ms = ms1 @ ms2 \<and> p' @ stream' = concat ms2
    \<and> rx_calls s' = rx_calls s @ map (On_message \<circ> payload) ms1
    \<and> (p' = [] \<or> (\<exists>m ms' q. ms2 = m # ms' \<and> m = p' @ q \<and> q \<noteq> []))
    \<and> length stream' \<le> length stream - length ks"
  using assms
proof (induction ks arbitrary: p r s stream ms)
  case Nil
  then show ?case
    by (intro exI [of _ s] exI [of _ r] exI [of _ p] exI [of _ stream] exI [of _ "[]"] exI [of _ ms])
      simp
next
  case (Cons k ks)
  show ?case
  proof (cases "stream = []")
    case True
    with Cons.prems show ?thesis
      by (intro exI [of _ s] exI [of _ r] exI [of _ p] exI [of _ stream] exI [of _ "[]"] exI [of _ ms])
        simp
  next
    case False
    define n where "n = min (max 1 k) (min r (length stream))"
    have n: "0 < n" "n \<le> r" "n \<le> length stream"
      using False Cons.prems(1) waiting_pos by (auto simp: n_def)
    let ?bs = "take n stream" and ?st = "drop n stream"
    have "(p @ ?bs) @ ?st = concat ms" using Cons.prems(2) by simp
    moreover have "\<And>m. m \<in> set ms \<Longrightarrow> m \<noteq> []" using good_not_empty Cons.prems(3) by blast
    ultimately obtain ms1 ms2 rest where
      sp: "ms = ms1 @ ms2" "p @ ?bs = concat ms1 @ rest" "rest @ ?st = concat ms2"
        "rest = [] \<or> (\<exists>m ms3 q. ms2 = m # ms3 \<and> m = rest @ q \<and> q \<noteq> [])"
      using concat_split [of "p @ ?bs" ?st ms] by blast
    have good2: "\<And>m. m \<in> set ms2 \<Longrightarrow> good m" using Cons.prems(3) sp(1) by simp
    have "rest = [] \<or> (\<exists>q. good (rest @ q) \<and> q \<noteq> [])" using sp(1,4) Cons.prems(3) by auto
    moreover have "?bs \<noteq> []" "length ?bs \<le> r" using n by auto
    ultimately obtain s1 r1 where
      s1: "cbk ?bs s = Some (s1, Some r1)" "waiting rest r1 s1"
        "rx_calls s1 = rx_calls s @ map (On_message \<circ> payload) ms1"
      using data_delivers [OF Cons.prems(1) _ _ sp(2)] Cons.prems(3) sp(1) by auto
    from Cons.IH [OF s1(2) sp(3) good2 sp(4)] obtain s' r' p' stream' ms3 ms4 where
      ih: "rx_run cbk ks ?st (s1, Some r1) = Some (stream', (s', Some r'))" "waiting p' r' s'"
        "ms2 = ms3 @ ms4" "p' @ stream' = concat ms4" "rx_calls s' = rx_calls s1 @ map (On_message \<circ> payload) ms3"
        "p' = [] \<or> (\<exists>m ms' q. ms4 = m # ms' \<and> m = p' @ q \<and> q \<noteq> [])"
        "length stream' \<le> length ?st - length ks"
      by blast
    have "rx_run cbk (k # ks) stream (s, Some r) = rx_run cbk ks ?st (s1, Some r1)"
      unfolding rx_run.simps Let_def n_def [symmetric] using False n s1(1) by simp
    with ih sp(1) s1(3) n show ?thesis
      by (intro exI [of _ s'] exI [of _ r'] exI [of _ p'] exI [of _ stream'] exI [of _ "ms1 @ ms3"]
          exI [of _ ms4]) auto
  qed
qed

text \<open>With as many reads as there are bytes, everything has been delivered.\<close>

lemma stream_delivered:
  assumes "waiting [] r s" and "\<And>m. m \<in> set ms \<Longrightarrow> good m" and "length (concat ms) \<le> length ks"
  shows "\<exists>s' r'. rx_run cbk ks (concat ms) (s, Some r) = Some ([], (s', Some r'))
    \<and> waiting [] r' s' \<and> rx_calls s' = rx_calls s @ map (On_message \<circ> payload) ms"
proof -
  have "[] @ concat ms = concat ms" by simp
  from run_delivers [OF assms(1) this assms(2), of ks] obtain s' r' p' stream' ms1 ms2 where
    *: "rx_run cbk ks (concat ms) (s, Some r) = Some (stream', (s', Some r'))" "waiting p' r' s'"
      "ms = ms1 @ ms2" "p' @ stream' = concat ms2" "rx_calls s' = rx_calls s @ map (On_message \<circ> payload) ms1"
      "p' = [] \<or> (\<exists>m ms' q. ms2 = m # ms' \<and> m = p' @ q \<and> q \<noteq> [])"
      "length stream' \<le> length (concat ms) - length ks" by blast
  have "stream' = []" using *(7) assms(3) by simp
  have "ms2 = []"
  proof (cases ms2)
    case (Cons m ms')
    have "m \<noteq> []" using Cons *(3) assms(2) good_not_empty by auto
    then have "p' \<noteq> []" using *(4) \<open>stream' = []\<close> Cons by auto
    with *(6) Cons *(4) \<open>stream' = []\<close> show ?thesis by auto
  qed simp
  with * \<open>stream' = []\<close> show ?thesis by auto
qed

end

section \<open>The contract of a receive loop\<close>

text \<open>
  One pass over a complete message delivers it and moves on; one pass over an incomplete
  one only notes how much is missing.
\<close>

locale framing =
  fixes c :: rx_config
    and step :: "'a rx_scheme \<Rightarrow> (bool \<times> 'a rx_scheme) ub"
    and cbk :: "byte list \<Rightarrow> 'a rx_scheme \<Rightarrow> ('a rx_scheme \<times> nat option) ub"
    and good :: "byte list \<Rightarrow> bool"
  assumes initial_size: "0 < rc_recv_buffer_size_initial c"
    and good_not_empty: "good m \<Longrightarrow> m \<noteq> []"
    and cbk_data: "rx_missing_capacity s = 0 \<Longrightarrow> bs \<noteq> [] \<Longrightarrow> cbk bs s = rx_data c step bs s"
    and step_full: "rx_ready s \<Longrightarrow> rx_bytes s = m @ rest \<Longrightarrow> good m \<Longrightarrow>
      \<exists>s'. step s = Some (True, s') \<and> rx_ready s' \<and> rx_buffer s' = rx_buffer s
        \<and> rx_size s' = rx_size s - length m \<and> rx_gap s' = rx_gap s + length m
        \<and> rx_missing_capacity s' = 0 \<and> rx_calls s' = rx_calls s @ [On_message m]"
    and step_partial: "rx_ready s \<Longrightarrow> rx_bytes s = p \<Longrightarrow> p \<noteq> [] \<Longrightarrow> good (p @ q) \<Longrightarrow> q \<noteq> [] \<Longrightarrow>
      \<exists>k. 0 < k \<and> k \<le> unat MESSAGE_SIZE_UNLIMITED
        \<and> step s = Some (False, s\<lparr>rx_missing_capacity := k\<rparr>)"
begin

lemma loop_delivers:
  assumes "rx_ready s" and "rx_bytes s = concat ms @ rest" and "rx_bytes s \<noteq> []"
    and "\<And>m. m \<in> set ms \<Longrightarrow> good m"
    and "rest = [] \<or> (\<exists>q. good (rest @ q) \<and> q \<noteq> [])"
  shows "\<exists>s'. rx_loop step s = Some s' \<and> rx_ready s' \<and> rx_buffer s' = rx_buffer s
    \<and> rx_bytes s' = rest \<and> rx_size s' = length rest
    \<and> rx_calls s' = rx_calls s @ map On_message ms
    \<and> (if rest = [] then rx_missing_capacity s' = 0
       else 0 < rx_missing_capacity s' \<and> rx_missing_capacity s' \<le> unat MESSAGE_SIZE_UNLIMITED)"
  using assms(1-4)
proof (induction ms arbitrary: s)
  case Nil
  then have "rest \<noteq> []" by simp
  with assms(5) obtain q where "good (rest @ q)" "q \<noteq> []" by auto
  with Nil \<open>rest \<noteq> []\<close> step_partial [of s rest q] obtain k where
    k: "0 < k" "k \<le> unat MESSAGE_SIZE_UNLIMITED" "step s = Some (False, s\<lparr>rx_missing_capacity := k\<rparr>)"
    by auto
  have "rx_size s = length rest"
    using Nil by (auto simp: rx_bytes_def rx_ready_def)
  with k Nil \<open>rest \<noteq> []\<close> show ?case
    by (subst rx_loop.simps) (simp add: rx_bytes_def rx_ready_def)
next
  case (Cons m ms)
  then have b: "rx_bytes s = m @ (concat ms @ rest)" and m: "good m" by auto
  from step_full [OF Cons.prems(1) b m] obtain s1 where
    s1: "step s = Some (True, s1)" "rx_ready s1" "rx_buffer s1 = rx_buffer s"
      "rx_size s1 = rx_size s - length m" "rx_gap s1 = rx_gap s + length m"
      "rx_missing_capacity s1 = 0" "rx_calls s1 = rx_calls s @ [On_message m]" by blast
  have "rx_bytes s1 = drop (length m) (rx_bytes s)"
    using s1 by (simp add: rx_bytes_def drop_take add.commute)
  then have b1: "rx_bytes s1 = concat ms @ rest" using b by simp
  have size1: "rx_size s1 = length (rx_bytes s1)"
    using s1(2) by (auto simp: rx_bytes_def rx_ready_def)
  show ?case
  proof (cases "rx_bytes s1 = []")
    case True
    then have "\<forall>x\<in>set ms. x = []" "rest = []" using b1 by auto
    with Cons.prems(4) good_not_empty have "ms = []" by (cases ms) auto
    with True \<open>rest = []\<close> s1 size1 show ?thesis
      by (subst rx_loop.simps) simp
  next
    case False
    from Cons.IH [OF s1(2) b1 False] Cons.prems(4) obtain s' where
      "rx_loop step s1 = Some s'" "rx_ready s'" "rx_buffer s' = rx_buffer s1" "rx_bytes s' = rest"
      "rx_size s' = length rest" "rx_calls s' = rx_calls s1 @ map On_message ms"
      "if rest = [] then rx_missing_capacity s' = 0
       else 0 < rx_missing_capacity s' \<and> rx_missing_capacity s' \<le> unat MESSAGE_SIZE_UNLIMITED"
      by auto
    moreover have "rx_size s1 \<noteq> 0" using size1 False by simp
    ultimately show ?thesis
      using s1(1,3,7) by (subst rx_loop.simps) simp
  qed
qed

lemma callback_delivers:
  assumes w: "rx_waiting p r s" and bs: "bs \<noteq> []" "length bs \<le> r"
    and eq: "p @ bs = concat ms @ rest" and good: "\<And>m. m \<in> set ms \<Longrightarrow> good m"
    and rest: "rest = [] \<or> (\<exists>q. good (rest @ q) \<and> q \<noteq> [])"
  shows "\<exists>s' r'. cbk bs s = Some (s', Some r') \<and> rx_waiting rest r' s'
    \<and> rx_calls s' = rx_calls s @ map On_message ms"
proof -
  let ?s = "(rx_store bs s)\<lparr>rx_size := rx_size s + length bs, rx_gap := 0\<rparr>"
  have buf: "length (rx_buffer ?s) = length (rx_buffer s)"
    using w bs by (simp add: rx_waiting_def rx_store_def)
  have ready: "rx_ready ?s" using w bs buf by (simp add: rx_waiting_def rx_ready_def rx_store_def)
  have bytes: "rx_bytes ?s = concat ms @ rest"
    using w unfolding eq [symmetric]
    by (elim rx_waiting_def [THEN iffD1, elim_format] conjE) (simp add: rx_bytes_def rx_store_def)
  then have "rx_bytes ?s \<noteq> []" unfolding eq [symmetric] using bs(1) by simp
  from loop_delivers [OF ready bytes this good rest] obtain s1 where
    s1: "rx_loop step ?s = Some s1" "rx_ready s1" "rx_buffer s1 = rx_buffer ?s" "rx_bytes s1 = rest"
      "rx_size s1 = length rest" "rx_calls s1 = rx_calls ?s @ map On_message ms"
      "if rest = [] then rx_missing_capacity s1 = 0
       else 0 < rx_missing_capacity s1 \<and> rx_missing_capacity s1 \<le> unat MESSAGE_SIZE_UNLIMITED"
    by blast
  from rx_shift_eq [OF s1(2)] obtain s2 where
    s2: "rx_shift s1 = Some s2" "rx_ready s2" "rx_gap s2 = 0" "rx_size s2 = rx_size s1"
      "rx_bytes s2 = rx_bytes s1" "length (rx_buffer s2) = length (rx_buffer s1)"
      "rx_calls s2 = rx_calls s1"
      "rx_missing_capacity s2 = rx_missing_capacity s1
       \<or> rx_missing_capacity s2 = 0 \<and> rx_size s1 < length (rx_buffer s1)" by metis
  have pos: "0 < length (rx_buffer s)" using w by (auto simp: rx_waiting_def)
  have "rx_missing_capacity s2 \<le> unat MESSAGE_SIZE_UNLIMITED"
    "rx_missing_capacity s2 = 0 \<Longrightarrow> rx_size s2 < length (rx_buffer s2)"
    using s1(3,5,7) s2(4,6,8) buf pos by (auto split: if_splits)
  from rx_receive_waiting [OF s2(2,3) this initial_size] obtain s3 r3 where
    "rx_receive c s2 = (s3, Some r3)" "rx_waiting (rx_bytes s2) r3 s3" "rx_calls s3 = rx_calls s2" .
  moreover have "cbk bs s = rx_data c step bs s"
    using w bs by (intro cbk_data) (simp_all add: rx_waiting_def)
  ultimately show ?thesis
    using s1 s2 by (intro exI [of _ s3] exI [of _ r3])
      (simp add: rx_data_def rx_ready_def, simp add: rx_store_def)
qed

end

sublocale framing \<subseteq> receiver: stream_receiver cbk good "\<lambda>m. m" rx_waiting
proof (unfold_locales, goal_cases)
  case (1 m)
  then show ?case by (rule good_not_empty)
next
  case (2 p r s)
  then show ?case by (simp add: rx_waiting_def)
next
  case (3 p r s bs ms rest)
  from callback_delivers [OF 3] show ?case by (simp add: o_def)
qed

end
