(* ===== verification/Tcp_Client_Endpoint.thy ===== *)
theory Tcp_Client_Endpoint
  imports Framing
begin

text \<open>
  The receiving side of \<^verbatim>\<open>implementation/endpoints/src/tcp_client_endpoint_impl.cpp\<close>: the
  callback that gets bytes from the server, cuts them into messages for the host and keeps
  the stream in step with magic cookies.  The host is assumed to exist and the socket to be
  open; what the connection does when it is restarted or closed is the status of the result.
\<close>

section \<open>The callback\<close>

text \<open>One pass of the loop: whether a full message was consumed, and the state after it.\<close>

definition tcp_client_step :: "rx_config \<Rightarrow> 'a rx_scheme \<Rightarrow> (bool \<times> 'a rx_scheme) ub" where
  "tcp_client_step c s = do {
     read_message_size \<leftarrow> get_message_size (drop (rx_gap s) (rx_buffer s)) (rx_size s);
     if read_message_size > unat MESSAGE_SIZE_UNLIMITED then Some (False, s\<lparr>rx_status := Rx_disabled\<rparr>)
     else if read_message_size > unat VSOMEIP_SOMEIP_HEADER_SIZE \<and> read_message_size \<le> rx_size s
     then do {
       cookie \<leftarrow> is_magic_cookie SERVICE_COOKIE (rx_buffer s) (rx_gap s);
       let s = (if cookie then s\<lparr>rx_magic_cookies := True\<rparr> else s);
       (current_message_size, needs_forwarding) \<leftarrow>
         (if \<not> cookie \<and> rx_magic_cookies s
          then do {
            its_offset \<leftarrow> find_magic_cookie True (drop (rx_gap s) (rx_buffer s)) (rx_size s);
            Some (if its_offset < read_message_size then (its_offset, False)
                  else (read_message_size, True)) }
          else Some (read_message_size, True));
       s \<leftarrow> (if needs_forwarding \<and> (\<not> rx_magic_cookies s \<or> \<not> cookie)
            then do {
              m \<leftarrow> slice (rx_buffer s) (rx_gap s) current_message_size;
              Some (s\<lparr>rx_calls := rx_calls s @ [On_message m]\<rparr>) }
            else Some s);
       let s = calculate_shrink_count c s;
       Some (True, s\<lparr>rx_size := rx_size s - current_message_size,
                     rx_gap := rx_gap s + current_message_size,
                     rx_missing_capacity := 0\<rparr>) }
     else if rc_max_message_size c \<noteq> MESSAGE_SIZE_UNLIMITED
             \<and> read_message_size > unat (rc_max_message_size c)
     then let s = s\<lparr>rx_size := 0,
                    rx_buffer := vec_resize (rc_recv_buffer_size_initial c) (rx_buffer s)\<rparr>
          in if rx_magic_cookies s then Some (False, s)
             else Some (False, s\<lparr>rx_status := Rx_disabled\<rparr>)
     else if read_message_size > rx_size s
     then Some (False, s\<lparr>rx_missing_capacity := read_message_size - rx_size s\<rparr>)
     else if unat VSOMEIP_SOMEIP_HEADER_SIZE > rx_size s
     then Some (False, s\<lparr>rx_missing_capacity := unat VSOMEIP_SOMEIP_HEADER_SIZE - rx_size s\<rparr>)
     else if rx_magic_cookies s \<and> rx_size s > 0
     then do {
       its_offset \<leftarrow> find_magic_cookie True (drop (rx_gap s) (rx_buffer s)) (rx_size s);
       if its_offset < rx_size s
       then Some (True, s\<lparr>rx_size := rx_size s - its_offset, rx_gap := rx_gap s + its_offset\<rparr>)
       else Some (False, s) }
     else Some (False, s\<lparr>rx_status := Rx_restarted\<rparr>) }"

definition tcp_client_receive_cbk ::
  "rx_config \<Rightarrow> asio_error \<Rightarrow> byte list \<Rightarrow> 'a rx_scheme \<Rightarrow> ('a rx_scheme \<times> nat option) ub" where
  "tcp_client_receive_cbk c err bs s =
     (if err = Operation_aborted then Some (s, None)
      else let s = s\<lparr>rx_missing_capacity := 0\<rparr> in
        if err = No_error \<and> bs \<noteq> [] then rx_data c (tcp_client_step c) bs s
        else if err \<in> {Connection_reset, End_of_file, Timed_out, Bad_descriptor}
        then Some (s\<lparr>rx_status := Rx_closed\<rparr>, None)
        else Some (rx_receive c s))"

text \<open>The constructor with the first \<^verbatim>\<open>receive()\<close>.\<close>

definition tcp_client_config :: "u32 \<Rightarrow> u32 \<Rightarrow> rx_config" where
  "tcp_client_config limit threshold =
     \<lparr>rc_max_message_size = limit, rc_buffer_shrink_threshold = threshold,
      rc_recv_buffer_size_initial = unat VSOMEIP_SOMEIP_HEADER_SIZE\<rparr>"

definition tcp_client_rx_init :: rx where
  "tcp_client_rx_init =
     \<lparr>rx_buffer = replicate (unat VSOMEIP_SOMEIP_HEADER_SIZE) 0, rx_size = 0, rx_gap = 0,
      rx_missing_capacity = 0, rx_shrink_count = 0, rx_magic_cookies = False, rx_calls = [],
      rx_status = Rx_running\<rparr>"

definition tcp_client_receive :: "rx_config \<Rightarrow> rx \<times> nat option" where
  "tcp_client_receive c = rx_receive c tcp_client_rx_init"

section \<open>Segmentation\<close>

lemma tcp_client_step_full:
  assumes "rx_ready s" and "rx_bytes s = m @ rest" and "tcp_message c SERVICE_COOKIE m"
  shows "\<exists>s'. tcp_client_step c s = Some (True, s') \<and> rx_ready s' \<and> rx_buffer s' = rx_buffer s
    \<and> rx_size s' = rx_size s - length m \<and> rx_gap s' = rx_gap s + length m
    \<and> rx_missing_capacity s' = 0 \<and> rx_calls s' = rx_calls s @ [On_message m]"
  using assms(1) message_size_full [OF assms]
  by (simp add: tcp_client_step_def) (simp add: rx_ready_def)

lemma tcp_client_step_partial:
  assumes "rx_ready s" and "rx_bytes s = p" and "p \<noteq> []" and "tcp_message c SERVICE_COOKIE (p @ q)"
    and "q \<noteq> []"
  shows "\<exists>k. 0 < k \<and> k \<le> unat MESSAGE_SIZE_UNLIMITED
    \<and> tcp_client_step c s = Some (False, s\<lparr>rx_missing_capacity := k\<rparr>)"
proof -
  have m: "rc_max_message_size c \<noteq> MESSAGE_SIZE_UNLIMITED \<Longrightarrow>
      length p + length q \<le> unat (rc_max_message_size c)" "16 \<le> length p + length q"
    using assms(4) by (simp_all add: tcp_message_def)
  note sz = message_size_partial [OF assms(1,2,4)]
  have "0 < length p" "0 < length q" using assms(3,5) by simp_all
  show ?thesis
  proof (cases "length p < 8")
    case True
    then have "tcp_client_step c s = Some (False, s\<lparr>rx_missing_capacity := 8 - length p\<rparr>)"
      using sz by (simp add: tcp_client_step_def)
    with True show ?thesis by (intro exI [of _ "8 - length p"]) (simp add: MESSAGE_SIZE_UNLIMITED_def)
  next
    case False
    then have "tcp_client_step c s = Some (False, s\<lparr>rx_missing_capacity := length q\<rparr>)"
      using sz m \<open>0 < length q\<close> by (auto simp: tcp_client_step_def)
    with \<open>0 < length q\<close> sz(3) show ?thesis by (intro exI [of _ "length q"]) simp
  qed
qed

interpretation tcp_client: framing "tcp_client_config limit threshold"
  "tcp_client_step (tcp_client_config limit threshold)"
  "tcp_client_receive_cbk (tcp_client_config limit threshold) No_error"
  "tcp_message (tcp_client_config limit threshold) SERVICE_COOKIE"
  for limit threshold
proof (unfold_locales, goal_cases)
  case 1
  show ?case by (simp add: tcp_client_config_def)
next
  case (2 m)
  then show ?case by (auto simp: tcp_message_def)
next
  case (3 s bs)
  then show ?case by (cases s) (simp add: tcp_client_receive_cbk_def Let_def)
next
  case (4 s m rest)
  then show ?case by (rule tcp_client_step_full)
next
  case (5 s p q)
  then show ?case by (rule tcp_client_step_partial)
qed

lemma tcp_client_waiting:
  "\<exists>s r. tcp_client_receive (tcp_client_config limit threshold) = (s, Some r)
     \<and> rx_waiting [] r s \<and> rx_calls s = []"
proof -
  have "rx_ready tcp_client_rx_init" "rx_gap tcp_client_rx_init = 0"
    "rx_missing_capacity tcp_client_rx_init \<le> unat MESSAGE_SIZE_UNLIMITED"
    "rx_size tcp_client_rx_init < length (rx_buffer tcp_client_rx_init)"
    by (simp_all add: rx_ready_def tcp_client_rx_init_def)
  from rx_receive_waiting [OF this tcp_client.initial_size [of limit threshold]] show ?thesis
    unfolding tcp_client_receive_def
    by (metis (no_types, lifting) rx_bytes_def rx.select_convs(2,7) take_0 tcp_client_rx_init_def)
qed

text \<open>
  C29. A TCP client endpoint is indifferent to segmentation: a stream of well-formed messages
  reaches the host as exactly these messages, in order, however the reads cut it.  Every
  read asks for at least one byte, no byte outside the buffer is touched, and after at most
  as many reads as there are bytes nothing is left in the buffer.
\<close>

theorem tcp_client_stream_delivered:
  assumes "\<forall>m\<in>set ms. tcp_message (tcp_client_config limit threshold) SERVICE_COOKIE m"
    and "length (concat ms) \<le> length ks"
  shows "\<exists>s' r'. rx_run (tcp_client_receive_cbk (tcp_client_config limit threshold) No_error) ks (concat ms)
      (tcp_client_receive (tcp_client_config limit threshold)) = Some ([], (s', Some r'))
    \<and> 0 < r' \<and> rx_size s' = 0 \<and> rx_calls s' = map On_message ms"
proof -
  obtain s r where s: "tcp_client_receive (tcp_client_config limit threshold) = (s, Some r)"
    "rx_waiting [] r s" "rx_calls s = []"
    using tcp_client_waiting [of limit threshold] by blast
  from tcp_client.receiver.stream_delivered [OF s(2) _ assms(2), of limit threshold] assms(1) s
  show ?thesis by (fastforce simp: rx_waiting_def)
qed

theorem tcp_client_stream_delivered_witness:
  "\<exists>s' r'. rx_run (tcp_client_receive_cbk (tcp_client_config MESSAGE_SIZE_UNLIMITED 0) No_error)
      (replicate 32 5) (sample_frame @ sample_frame)
      (tcp_client_receive (tcp_client_config MESSAGE_SIZE_UNLIMITED 0)) = Some ([], (s', Some r'))
    \<and> rx_calls s' = [On_message sample_frame, On_message sample_frame]"
  using tcp_client_stream_delivered [of "[sample_frame, sample_frame]" MESSAGE_SIZE_UNLIMITED 0 "replicate 32 5"]
    sample_frame_ok [of SERVICE_COOKIE "tcp_client_config MESSAGE_SIZE_UNLIMITED 0"]
  by (auto simp: tcp_client_config_def)

text \<open>
  A message shorter than a magic cookie is compared with it nevertheless: the header of a
  message with length field one makes the endpoint grow its buffer to nine bytes and ask for
  one more, and when that arrives the comparison reads sixteen bytes.
\<close>

theorem short_message_overread:
  assumes "9 \<le> unat (rc_max_message_size c)"
    and s: "rx_buffer s = [b0, b1, b2, b3, 0, 0, 0, 1, y]" "rx_size s = 8" "rx_gap s = 0"
  shows "tcp_client_receive_cbk c No_error [x] s = None"
proof -
  have "get_message_size [b0, b1, b2, b3, 0, 0, 0, 1, x] 9 = Some 9"
    by (simp add: get_message_size_def VSOMEIP_BYTES_TO_LONG_def)
  then show ?thesis
    using assms
    by (subst tcp_client_receive_cbk_def, simp add: Let_def rx_data_def rx_store_def)
      (subst rx_loop.simps, simp add: tcp_client_step_def is_magic_cookie_def slice_def
        MESSAGE_SIZE_UNLIMITED_def)
qed

end
