(* ===== verification/Tcp_Server_Endpoint.thy ===== *)
theory Tcp_Server_Endpoint
  imports Framing
begin

text \<open>
  The receiving side of a connection of \<^verbatim>\<open>implementation/endpoints/src/tcp_server_endpoint_impl.cpp\<close>.
  It differs from the client in that it remembers from where a request came, so that the
  response can be sent there, and in that it reports data lost to a magic cookie.

  Client and session identifiers are copied out of the message with \<^verbatim>\<open>memcpy\<close>, so that on a
  little-endian machine their bytes are swapped; \<open>get_client\<close> swaps them back.  The tables
  of the server are part of the state of the connection that updates them.
\<close>

section \<open>State\<close>

record server_rx = rx +
  sr_remote :: ip_endpoint
  sr_clients :: "u16 \<rightharpoonup> u16 \<rightharpoonup> ip_endpoint"
  sr_clients_to_endpoint :: "u16 \<rightharpoonup> ip_endpoint"

definition tcp_server_config :: "u32 \<Rightarrow> u32 \<Rightarrow> rx_config" where
  "tcp_server_config limit threshold =
     \<lparr>rc_max_message_size = limit, rc_buffer_shrink_threshold = threshold,
      rc_recv_buffer_size_initial = unat (VSOMEIP_SOMEIP_HEADER_SIZE + 8 + 8 + 8)\<rparr>"

definition connection_init :: "rx_config \<Rightarrow> bool \<Rightarrow> ip_endpoint \<Rightarrow> server_rx" where
  "connection_init c cookies remote =
     \<lparr>rx_buffer = replicate (rc_recv_buffer_size_initial c) 0, rx_size = 0, rx_gap = 0,
      rx_missing_capacity = 0, rx_shrink_count = 0, rx_magic_cookies = cookies, rx_calls = [],
      rx_status = Rx_running, sr_remote = remote, sr_clients = Map.empty,
      sr_clients_to_endpoint = Map.empty\<rparr>"

section \<open>The callback\<close>

definition raw_word :: "byte list \<Rightarrow> nat \<Rightarrow> u16 ub" where
  "raw_word buf off = do { b0 \<leftarrow> vec_get buf off; b1 \<leftarrow> vec_get buf (off + 1);
     Some (VSOMEIP_BYTES_TO_WORD b1 b0) }"

definition remember_client :: "u16 \<Rightarrow> u16 \<Rightarrow> server_rx \<Rightarrow> server_rx" where
  "remember_client its_client its_session s =
     s\<lparr>sr_clients := (sr_clients s)(its_client \<mapsto>
          (case sr_clients s its_client of Some m \<Rightarrow> m | None \<Rightarrow> Map.empty)(its_session \<mapsto> sr_remote s)),
       sr_clients_to_endpoint := (sr_clients_to_endpoint s)(its_client \<mapsto> sr_remote s)\<rparr>"

definition call_host :: "(byte list \<Rightarrow> host_call) \<Rightarrow> nat \<Rightarrow> 'a rx_scheme \<Rightarrow> 'a rx_scheme ub" where
  "call_host f n s = do {
     m \<leftarrow> slice (rx_buffer s) (rx_gap s) n;
     Some (s\<lparr>rx_calls := rx_calls s @ [f m]\<rparr>) }"

definition report_unless_cookie :: "'a rx_scheme \<Rightarrow> 'a rx_scheme ub" where
  "report_unless_cookie s = do {
     cookie \<leftarrow> is_magic_cookie CLIENT_COOKIE (rx_buffer s) (rx_gap s);
     if \<not> cookie then call_host On_error (rx_size s) s else Some s }"

text \<open>A complete message in front: the first branch of the loop.\<close>

definition tcp_server_full :: "rx_config \<Rightarrow> nat \<Rightarrow> server_rx \<Rightarrow> server_rx ub" where
  "tcp_server_full c read_message_size s = do {
     cookie \<leftarrow> is_magic_cookie CLIENT_COOKIE (rx_buffer s) (rx_gap s);
     let s = (if cookie then s\<lparr>rx_magic_cookies := True\<rparr> else s);
     (current_message_size, needs_forwarding, s) \<leftarrow>
       (if \<not> cookie \<and> rx_magic_cookies s
        then do {
          its_offset \<leftarrow> find_magic_cookie False (drop (rx_gap s) (rx_buffer s)) (rx_size s);
          if its_offset < read_message_size
          then do { s \<leftarrow> report_unless_cookie s; Some (its_offset, False, s) }
          else Some (read_message_size, True, s) }
        else Some (read_message_size, True, s));
     s \<leftarrow> (if needs_forwarding
          then do {
            t \<leftarrow> vec_get (rx_buffer s) (rx_gap s + 14);
            s \<leftarrow> (if is_request t
                 then do {
                   its_client \<leftarrow> raw_word (rx_buffer s) (rx_gap s + 8);
                   its_session \<leftarrow> raw_word (rx_buffer s) (rx_gap s + 10);
                   Some (remember_client its_client its_session s) }
                 else Some s);
            if \<not> rx_magic_cookies s \<or> \<not> cookie then call_host On_message current_message_size s
            else Some s }
          else Some s);
     let s = calculate_shrink_count c s;
     Some (s\<lparr>rx_missing_capacity := 0, rx_size := rx_size s - current_message_size,
             rx_gap := rx_gap s + current_message_size\<rparr>) }"

definition tcp_server_step :: "rx_config \<Rightarrow> server_rx \<Rightarrow> (bool \<times> server_rx) ub" where
  "tcp_server_step c s = do {
     read_message_size \<leftarrow> get_message_size (drop (rx_gap s) (rx_buffer s)) (rx_size s);
     if read_message_size > unat MESSAGE_SIZE_UNLIMITED then Some (False, s\<lparr>rx_status := Rx_disabled\<rparr>)
     else do {
       (has_full_message, s) \<leftarrow>
         (if read_message_size > unat VSOMEIP_SOMEIP_HEADER_SIZE \<and> read_message_size \<le> rx_size s
          then do { s \<leftarrow> tcp_server_full c read_message_size s; Some (True, s) }
          else if rx_magic_cookies s \<and> rx_size s > 0
          then do {
            its_offset \<leftarrow> find_magic_cookie False (drop (rx_gap s) (rx_buffer s)) (rx_size s);
            if its_offset < rx_size s
            then do {
              s \<leftarrow> report_unless_cookie s;
              let s = s\<lparr>rx_size := rx_size s - its_offset, rx_gap := rx_gap s + its_offset\<rparr>;
              s \<leftarrow> report_unless_cookie s;
              Some (True, s) }
            else Some (False, s) }
          else Some (False, s));
       if has_full_message then Some (True, s)
       else if rc_max_message_size c \<noteq> MESSAGE_SIZE_UNLIMITED
               \<and> read_message_size > unat (rc_max_message_size c)
       then let s = s\<lparr>rx_size := 0,
                      rx_buffer := vec_resize (rc_recv_buffer_size_initial c) (rx_buffer s)\<rparr>
            in if rx_magic_cookies s then Some (False, s)
               else Some (False, s\<lparr>rx_status := Rx_disabled\<rparr>)
       else if read_message_size > rx_size s
       then Some (False, s\<lparr>rx_missing_capacity := read_message_size - rx_size s\<rparr>)
       else if unat VSOMEIP_SOMEIP_HEADER_SIZE > rx_size s
       then Some (False, s\<lparr>rx_missing_capacity := unat VSOMEIP_SOMEIP_HEADER_SIZE - rx_size s\<rparr>)
       else Some (False, s\<lparr>rx_status := Rx_closed\<rparr>) } }"

definition connection_receive_cbk ::
  "rx_config \<Rightarrow> asio_error \<Rightarrow> byte list \<Rightarrow> server_rx \<Rightarrow> (server_rx \<times> nat option) ub" where
  "connection_receive_cbk c err bs s =
     (if err = Operation_aborted then Some (s, None)
      else if err = No_error \<and> bs \<noteq> [] then rx_data c (tcp_server_step c) bs s
      else if err \<in> {End_of_file, Connection_reset, Timed_out}
      then Some (s\<lparr>rx_status := Rx_closed\<rparr>, None)
      else Some (s, None))"

definition connection_start :: "rx_config \<Rightarrow> bool \<Rightarrow> ip_endpoint \<Rightarrow> server_rx \<times> nat option" where
  "connection_start c cookies remote = rx_receive c (connection_init c cookies remote)"

text \<open>The table is searched in the order of its keys.\<close>

definition tcp_server_get_client :: "ip_endpoint \<Rightarrow> server_rx \<Rightarrow> u16" where
  "tcp_server_get_client endpoint s =
     (let ks = {k. sr_clients_to_endpoint s k = Some endpoint}
      in if ks = {} then 0 else let k = Min ks in push_bit 8 k OR drop_bit 8 k)"

section \<open>Segmentation\<close>

lemma rx_ready_srv [simp]:
  "rx_ready (remember_client a b s) = rx_ready s" "rx_buffer (remember_client a b s) = rx_buffer s"
  "rx_size (remember_client a b s) = rx_size s" "rx_gap (remember_client a b s) = rx_gap s"
  "rx_calls (remember_client a b s) = rx_calls s"
  "rx_magic_cookies (remember_client a b s) = rx_magic_cookies s"
  "rx_status (remember_client a b s) = rx_status s"
  by (simp_all add: remember_client_def rx_ready_def)

lemma tcp_server_step_full:
  assumes "rx_ready s" and "rx_bytes s = m @ rest" and "tcp_message c CLIENT_COOKIE m"
  shows "\<exists>s'. tcp_server_step c s = Some (True, s') \<and> rx_ready s' \<and> rx_buffer s' = rx_buffer s
    \<and> rx_size s' = rx_size s - length m \<and> rx_gap s' = rx_gap s + length m
    \<and> rx_missing_capacity s' = 0 \<and> rx_calls s' = rx_calls s @ [On_message m]"
proof -
  note sz = message_size_full [OF assms]
  have len: "rx_gap s + 15 < length (rx_buffer s)"
    using sz assms(1) by (auto simp: rx_ready_def)
  define t where "t = rx_buffer s ! (rx_gap s + 14)"
  define s1 where "s1 = (if is_request t then remember_client
    (VSOMEIP_BYTES_TO_WORD (rx_buffer s ! (9 + rx_gap s)) (rx_buffer s ! (rx_gap s + 8)))
    (VSOMEIP_BYTES_TO_WORD (rx_buffer s ! (11 + rx_gap s)) (rx_buffer s ! (rx_gap s + 10))) s else s)"
  have s1: "rx_ready s1" "rx_buffer s1 = rx_buffer s" "rx_size s1 = rx_size s" "rx_gap s1 = rx_gap s"
    "rx_calls s1 = rx_calls s" "\<not> rx_magic_cookies s1" "rx_status s1 = Rx_running"
    using assms(1) by (simp_all add: s1_def rx_ready_def)
  have "(if is_request t
         then do {
           its_client \<leftarrow> raw_word (rx_buffer s) (rx_gap s + 8);
           its_session \<leftarrow> raw_word (rx_buffer s) (rx_gap s + 10);
           Some (remember_client its_client its_session s) }
         else Some s) = Some s1"
    using len by (simp add: raw_word_def s1_def)
  then have "tcp_server_full c (length m) s = Some ((calculate_shrink_count c
      (s1\<lparr>rx_calls := rx_calls s @ [On_message m]\<rparr>))\<lparr>rx_missing_capacity := 0,
        rx_size := rx_size s - length m, rx_gap := rx_gap s + length m\<rparr>)"
    using sz(2,3) len assms(1) s1 by (simp add: tcp_server_full_def call_host_def t_def [symmetric])
  then show ?thesis
    using sz s1 assms(1) by (simp add: tcp_server_step_def) (simp add: rx_ready_def)
qed

lemma tcp_server_step_partial:
  assumes "rx_ready s" and "rx_bytes s = p" and "p \<noteq> []" and "tcp_message c CLIENT_COOKIE (p @ q)"
    and "q \<noteq> []"
  shows "\<exists>k. 0 < k \<and> k \<le> unat MESSAGE_SIZE_UNLIMITED
    \<and> tcp_server_step c s = Some (False, s\<lparr>rx_missing_capacity := k\<rparr>)"
proof -
  have m: "rc_max_message_size c \<noteq> MESSAGE_SIZE_UNLIMITED \<Longrightarrow>
      length p + length q \<le> unat (rc_max_message_size c)"
    using assms(4) by (simp add: tcp_message_def)
  note sz = message_size_partial [OF assms(1,2,4)]
  have q: "0 < length q" using assms(5) by simp
  show ?thesis
  proof (cases "length p < 8")
    case True
    then have "tcp_server_step c s = Some (False, s\<lparr>rx_missing_capacity := 8 - length p\<rparr>)"
      using sz assms(1) by (simp add: tcp_server_step_def)
    with True show ?thesis by (intro exI [of _ "8 - length p"]) (simp add: MESSAGE_SIZE_UNLIMITED_def)
  next
    case False
    then have "tcp_server_step c s = Some (False, s\<lparr>rx_missing_capacity := length q\<rparr>)"
      using sz m q assms(1) by (auto simp: tcp_server_step_def)
    with q sz(3) show ?thesis by (intro exI [of _ "length q"]) simp
  qed
qed

interpretation tcp_server: framing "tcp_server_config limit threshold"
  "tcp_server_step (tcp_server_config limit threshold)"
  "connection_receive_cbk (tcp_server_config limit threshold) No_error"
  "tcp_message (tcp_server_config limit threshold) CLIENT_COOKIE"
  for limit threshold
proof (unfold_locales, goal_cases)
  case 1
  show ?case by (simp add: tcp_server_config_def)
next
  case (2 m)
  then show ?case by (auto simp: tcp_message_def)
next
  case (3 s bs)
  then show ?case by (simp add: connection_receive_cbk_def)
next
  case (4 s m rest)
  then show ?case by (rule tcp_server_step_full)
next
  case (5 s p q)
  then show ?case by (rule tcp_server_step_partial)
qed

lemma connection_waiting:
  "\<exists>s r. connection_start (tcp_server_config limit threshold) False remote = (s, Some r)
     \<and> rx_waiting [] r s \<and> rx_calls s = []"
proof -
  let ?i = "connection_init (tcp_server_config limit threshold) False remote"
  have "rx_ready ?i" "rx_gap ?i = 0" "rx_missing_capacity ?i \<le> unat MESSAGE_SIZE_UNLIMITED"
    "rx_size ?i < length (rx_buffer ?i)" and b: "rx_bytes ?i = []" "rx_calls ?i = []"
    by (simp_all add: rx_ready_def connection_init_def tcp_server_config_def rx_bytes_def)
  from rx_receive_waiting [OF this(1-4) tcp_server.initial_size [of limit threshold]] show ?thesis
    unfolding connection_start_def b [symmetric] by metis
qed

lemma tcp_server_stream:
  assumes "\<forall>m\<in>set ms. tcp_message (tcp_server_config limit threshold) CLIENT_COOKIE m"
    and "length (concat ms) \<le> length ks"
  shows "\<exists>s' r'. rx_run (connection_receive_cbk (tcp_server_config limit threshold) No_error) ks (concat ms)
      (connection_start (tcp_server_config limit threshold) False remote) = Some ([], (s', Some r'))
    \<and> 0 < r' \<and> rx_size s' = 0 \<and> rx_calls s' = map On_message ms"
proof -
  obtain s r where s: "connection_start (tcp_server_config limit threshold) False remote = (s, Some r)"
    "rx_waiting [] r s" "rx_calls s = []"
    using connection_waiting [of limit threshold remote] by blast
  from tcp_server.receiver.stream_delivered [OF s(2) _ assms(2), of limit threshold] assms(1) s
  show ?thesis by (fastforce simp: rx_waiting_def)
qed

text \<open>
  A connection of a TCP server endpoint is indifferent to segmentation: a stream of
  well-formed messages reaches the host as exactly these messages, in order, however the
  reads cut it; every read asks for at least one byte and no byte outside the buffer is
  touched.
\<close>

theorem tcp_server_stream_delivered:
  assumes "\<forall>m\<in>set ms. tcp_message (tcp_server_config limit threshold) CLIENT_COOKIE m"
    and "length (concat ms) \<le> length ks"
  shows "\<exists>s' r'. rx_run (connection_receive_cbk (tcp_server_config limit threshold) No_error) ks (concat ms)
      (connection_start (tcp_server_config limit threshold) False remote) = Some ([], (s', Some r'))
    \<and> 0 < r' \<and> rx_size s' = 0 \<and> rx_calls s' = map On_message ms"
  using assms by (rule tcp_server_stream)

theorem tcp_server_stream_delivered_witness:
  "\<exists>s' r'. rx_run (connection_receive_cbk (tcp_server_config MESSAGE_SIZE_UNLIMITED 0) No_error)
      (replicate 32 7) (sample_frame @ sample_frame)
      (connection_start (tcp_server_config MESSAGE_SIZE_UNLIMITED 0) False ([10, 0, 0, 2], 40000))
      = Some ([], (s', Some r'))
    \<and> rx_calls s' = [On_message sample_frame, On_message sample_frame]"
  using tcp_server_stream_delivered [of "[sample_frame, sample_frame]" MESSAGE_SIZE_UNLIMITED 0
      "replicate 32 7" "([10, 0, 0, 2], 40000)"]
    sample_frame_ok [of CLIENT_COOKIE "tcp_server_config MESSAGE_SIZE_UNLIMITED 0"]
  by (auto simp: tcp_server_config_def)

end
