(* ===== verification/Client_Endpoint.thy ===== *)
theory Client_Endpoint
  imports Framing
begin

text \<open>
  The sending side of the client endpoints: \<^verbatim>\<open>client_endpoint_impl.cpp\<close> and what the TCP, UDP
  and local clients add to it (\<^verbatim>\<open>tcp_client_endpoint_impl.cpp\<close>, \<^verbatim>\<open>udp_client_endpoint_impl.cpp\<close>,
  \<^verbatim>\<open>local_client_endpoint_impl.cpp\<close>).  Data to send is collected in a train (the packetizer),
  trains wait in a queue, and the front of the queue is being written.

  The base class calls the virtual \<^verbatim>\<open>send_queued\<close>; it is the first argument \<open>sq\<close> of the
  operations below, and gets the current time in milliseconds.  What an operation asks of the
  socket and the host is a list of actions.  Whether the operating system can open a socket
  is the argument \<open>opened\<close>.  Sizes of type \<^verbatim>\<open>size_t\<close> are natural numbers, so that the check
  for their overflow in \<^verbatim>\<open>send\<close> never strikes.
\<close>

section \<open>State\<close>

datatype cei_state = CEI_CLOSED | CEI_CONNECTING | CEI_ESTABLISHED

datatype client_action = Write "byte list" | Connect | Receive | Host_connect | Host_disconnect
  | Close_socket bool | Error_handler

record client_endpoint =
  ce_max_message_size :: u32
  ce_queue_limit :: u32
  ce_sending_blocked :: bool
  ce_has_enabled_magic_cookies :: bool
  ce_last_cookie_sent :: int
  ce_packetizer :: "byte list"
  ce_queue :: "byte list list"
  ce_queue_size :: nat
  ce_flush_timer :: bool
  ce_connect_timer :: "u32 option"
  ce_connect_timeout :: u32
  ce_state :: cei_state
  ce_was_not_connected :: bool
  ce_local_port :: u16

definition QUEUE_SIZE_UNLIMITED :: u32 where "QUEUE_SIZE_UNLIMITED = 0xFFFFFFFF"
definition VSOMEIP_DEFAULT_CONNECT_TIMEOUT :: u32 where "VSOMEIP_DEFAULT_CONNECT_TIMEOUT = 100"
definition VSOMEIP_MAX_CONNECT_TIMEOUT :: u32 where "VSOMEIP_MAX_CONNECT_TIMEOUT = 1600"

text \<open>The last cookie is taken to be eleven seconds old at the start, time zero.\<close>

definition client_endpoint_init :: "u32 \<Rightarrow> u32 \<Rightarrow> client_endpoint" where
  "client_endpoint_init limit queue_limit =
     \<lparr>ce_max_message_size = limit, ce_queue_limit = queue_limit, ce_sending_blocked = False,
      ce_has_enabled_magic_cookies = False, ce_last_cookie_sent = - 11000,
      ce_packetizer = [], ce_queue = [], ce_queue_size = 0, ce_flush_timer = False,
      ce_connect_timer = None, ce_connect_timeout = VSOMEIP_DEFAULT_CONNECT_TIMEOUT,
      ce_state = CEI_CLOSED, ce_was_not_connected = False, ce_local_port = 0\<rparr>"

type_synonym send_queued = "int \<Rightarrow> client_endpoint \<Rightarrow> (client_action list \<times> client_endpoint) ub"

section \<open>The protocols\<close>

definition tcp_client_send_magic_cookie :: "client_endpoint \<Rightarrow> client_endpoint" where
  "tcp_client_send_magic_cookie e =
     (case ce_queue e of
        [] \<Rightarrow> e
      | b # q \<Rightarrow>
          if ce_max_message_size e = MESSAGE_SIZE_UNLIMITED
             \<or> unat (ce_max_message_size e) < length b
             \<or> unat (ce_max_message_size e) - length b \<ge> unat VSOMEIP_SOMEIP_HEADER_SIZE + 8
          then e\<lparr>ce_queue := (CLIENT_COOKIE @ b) # q,
                 ce_queue_size := ce_queue_size e + length CLIENT_COOKIE\<rparr>
          else e)"

text \<open>The identifiers in the first twelve bytes of the front are read for the trace.\<close>

definition tcp_client_send_queued :: send_queued where
  "tcp_client_send_queued now e =
     (case ce_queue e of
        [] \<Rightarrow> Some ([], e)
      | b # q \<Rightarrow> do {
          ids \<leftarrow> slice b 0 12;
          let e = (if ce_has_enabled_magic_cookies e \<and> now - ce_last_cookie_sent e > 10000
                   then (tcp_client_send_magic_cookie e)\<lparr>ce_last_cookie_sent := now\<rparr> else e);
          Some ([Write (hd (ce_queue e))], e) })"

definition udp_client_send_queued :: send_queued where
  "udp_client_send_queued now e =
     (case ce_queue e of [] \<Rightarrow> Some ([], e) | b # q \<Rightarrow> Some ([Write b], e))"

definition LOCAL_START_TAG :: "byte list" where "LOCAL_START_TAG = [0x67, 0x37, 0x6D, 0x07]"
definition LOCAL_END_TAG :: "byte list" where "LOCAL_END_TAG = [0x07, 0x6D, 0x37, 0x67]"

definition local_client_send_queued :: send_queued where
  "local_client_send_queued now e =
     (case ce_queue e of
        [] \<Rightarrow> Some ([], e)
      | b # q \<Rightarrow> Some ([Write (LOCAL_START_TAG @ b @ LOCAL_END_TAG)], e))"

definition shutdown_and_close_socket :: "bool \<Rightarrow> client_endpoint \<Rightarrow> client_action list \<times> client_endpoint" where
  "shutdown_and_close_socket recreate e = ([Close_socket recreate], e\<lparr>ce_local_port := 0\<rparr>)"

definition start_connect_timer :: "client_endpoint \<Rightarrow> client_endpoint" where
  "start_connect_timer e = e\<lparr>ce_connect_timer := Some (ce_connect_timeout e)\<rparr>"

definition client_connect :: "bool \<Rightarrow> client_endpoint \<Rightarrow> client_action list \<times> client_endpoint" where
  "client_connect opened e =
     (if opened then ([Connect], e\<lparr>ce_state := CEI_CONNECTING\<rparr>) else ([], e))"

definition tcp_client_restart :: "client_endpoint \<Rightarrow> (client_action list \<times> client_endpoint) ub" where
  "tcp_client_restart e =
     (if ce_state e = CEI_CONNECTING then Some ([], e)
      else let (acts, e) = shutdown_and_close_socket True (e\<lparr>ce_state := CEI_CONNECTING\<rparr>)
           in if list_all (\<lambda>m. 12 \<le> length m) (ce_queue e)
              then Some (acts, start_connect_timer (e\<lparr>ce_queue := [], ce_queue_size := 0\<rparr>))
              else None)"

definition udp_client_restart :: "client_endpoint \<Rightarrow> client_action list \<times> client_endpoint" where
  "udp_client_restart e =
     (if ce_state e = CEI_CONNECTING then ([], e)
      else let (acts, e) = shutdown_and_close_socket False (e\<lparr>ce_state := CEI_CONNECTING, ce_queue := []\<rparr>)
           in (acts, start_connect_timer e))"

definition local_client_restart :: "client_endpoint \<Rightarrow> client_action list \<times> client_endpoint" where
  "local_client_restart e =
     (if ce_state e = CEI_CONNECTING then ([], e)
      else let (acts, e) = shutdown_and_close_socket True
                 (e\<lparr>ce_state := CEI_CONNECTING, ce_sending_blocked := False, ce_queue := [],
                    ce_queue_size := 0\<rparr>)
           in (acts, start_connect_timer e))"

definition local_client_receive_cbk :: "asio_error \<Rightarrow> client_action list" where
  "local_client_receive_cbk err =
     (if err = No_error then [Receive] else if err = Operation_aborted then [] else [Error_handler])"

section \<open>The base class\<close>

definition is_connected :: "client_endpoint \<Rightarrow> bool" where
  "is_connected e \<longleftrightarrow> ce_state e = CEI_ESTABLISHED"

definition set_connected :: "bool \<Rightarrow> client_endpoint \<Rightarrow> client_endpoint" where
  "set_connected b e = e\<lparr>ce_state := (if b then CEI_ESTABLISHED else CEI_CLOSED)\<rparr>"

definition client_stop :: "client_endpoint \<Rightarrow> client_action list \<times> client_endpoint" where
  "client_stop e =
     shutdown_and_close_socket False
       (e\<lparr>ce_sending_blocked := True, ce_queue := [], ce_queue_size := 0, ce_connect_timer := None,
          ce_connect_timeout := VSOMEIP_DEFAULT_CONNECT_TIMEOUT\<rparr>)"

text \<open>Moving the train to the queue.\<close>

definition push_train :: "client_endpoint \<Rightarrow> client_endpoint" where
  "push_train e =
     e\<lparr>ce_queue := ce_queue e @ [ce_packetizer e],
       ce_queue_size := ce_queue_size e + length (ce_packetizer e), ce_packetizer := []\<rparr>"

text \<open>Adding data to the train, and the train to the queue if it is to be flushed.\<close>

definition accept :: "byte list \<Rightarrow> bool \<Rightarrow> client_endpoint \<Rightarrow> client_endpoint" where
  "accept data flush e =
     (let e = e\<lparr>ce_packetizer := ce_packetizer e @ data\<rparr>
      in if flush then push_train (e\<lparr>ce_flush_timer := False\<rparr>) else e\<lparr>ce_flush_timer := True\<rparr>)"

definition client_send :: "send_queued \<Rightarrow> int \<Rightarrow> byte list \<Rightarrow> bool \<Rightarrow> client_endpoint
    \<Rightarrow> (bool \<times> client_action list \<times> client_endpoint) ub" where
  "client_send sq now data flush e =
     (if ce_sending_blocked e then Some (False, [], e)
      else if ce_max_message_size e \<noteq> MESSAGE_SIZE_UNLIMITED
              \<and> length data > unat (ce_max_message_size e) then Some (False, [], e)
      else let queue_size_zero_on_entry = (ce_queue e = []);
               e = (if length (ce_packetizer e) + length data > unat (ce_max_message_size e)
                       \<and> ce_packetizer e \<noteq> [] then push_train e else e)
           in if ce_queue_limit e \<noteq> QUEUE_SIZE_UNLIMITED
                 \<and> ce_queue_size e + length data > unat (ce_queue_limit e)
              then Some (False, [], e)
              else let e = accept data flush e
                   in if queue_size_zero_on_entry \<and> ce_queue e \<noteq> []
                      then do { (acts, e) \<leftarrow> sq now e; Some (True, acts, e) }
                      else Some (True, [], e))"

definition client_flush :: "send_queued \<Rightarrow> int \<Rightarrow> client_endpoint
    \<Rightarrow> (bool \<times> client_action list \<times> client_endpoint) ub" where
  "client_flush sq now e =
     (if ce_packetizer e \<noteq> []
      then let e = push_train e
           in if length (ce_queue e) = 1
              then do { (acts, e) \<leftarrow> sq now e; Some (True, acts, e) }
              else Some (True, [], e)
      else Some (False, [], e))"

definition client_flush_cbk :: "send_queued \<Rightarrow> int \<Rightarrow> asio_error \<Rightarrow> client_endpoint
    \<Rightarrow> (client_action list \<times> client_endpoint) ub" where
  "client_flush_cbk sq now err e =
     (if err = No_error then map_option snd (client_flush sq now e) else Some ([], e))"

definition connect_cbk :: "send_queued \<Rightarrow> int \<Rightarrow> u16 \<Rightarrow> asio_error \<Rightarrow> client_endpoint
    \<Rightarrow> (client_action list \<times> client_endpoint) ub" where
  "connect_cbk sq now port err e =
     (if err = Operation_aborted then Some (shutdown_and_close_socket False e)
      else if err \<noteq> No_error \<and> err \<noteq> Already_connected
      then let (acts, e) = shutdown_and_close_socket True e;
               e = start_connect_timer e;
               e = (if ce_connect_timeout e < VSOMEIP_MAX_CONNECT_TIMEOUT
                    then e\<lparr>ce_connect_timeout := push_bit 1 (ce_connect_timeout e)\<rparr> else e)
           in if ce_state e \<noteq> CEI_ESTABLISHED
              then Some (acts @ [Host_disconnect], e\<lparr>ce_state := CEI_CLOSED\<rparr>)
              else Some (acts, e)
      else let e = e\<lparr>ce_connect_timer := None, ce_connect_timeout := VSOMEIP_DEFAULT_CONNECT_TIMEOUT,
                     ce_local_port := port\<rparr>;
               acts = (if ce_state e \<noteq> CEI_ESTABLISHED then [Host_connect] else []) @ [Receive]
           in if ce_queue e \<noteq> [] \<and> ce_was_not_connected e
              then do { (acts', e) \<leftarrow> sq now (e\<lparr>ce_was_not_connected := False\<rparr>); Some (acts @ acts', e) }
              else Some (acts, e))"

definition wait_connect_cbk :: "bool \<Rightarrow> asio_error \<Rightarrow> client_endpoint \<Rightarrow> client_action list \<times> client_endpoint" where
  "wait_connect_cbk opened err e = (if err = No_error then client_connect opened e else ([], e))"

definition send_cbk :: "send_queued \<Rightarrow> int \<Rightarrow> bool \<Rightarrow> asio_error \<Rightarrow> client_endpoint
    \<Rightarrow> (client_action list \<times> client_endpoint) ub" where
  "send_cbk sq now opened err e =
     (if err = No_error
      then (case ce_queue e of
              [] \<Rightarrow> Some ([], e)
            | b # q \<Rightarrow> sq now (e\<lparr>ce_queue_size := ce_queue_size e - length b, ce_queue := q\<rparr>))
      else if err = Broken_pipe
      then let e = e\<lparr>ce_state := CEI_CLOSED\<rparr>;
               e = (if ce_sending_blocked e then e\<lparr>ce_queue := [], ce_queue_size := 0\<rparr> else e);
               (acts, e) = shutdown_and_close_socket True (e\<lparr>ce_was_not_connected := True\<rparr>);
               (acts', e) = client_connect opened e
           in Some (acts @ acts', e)
      else if err = Not_connected \<or> err = Bad_descriptor
      then let (acts, e) = shutdown_and_close_socket True
                 (e\<lparr>ce_state := CEI_CLOSED, ce_was_not_connected := True\<rparr>);
               (acts', e) = client_connect opened e
           in Some (acts @ acts', e)
      else if err = Operation_aborted then Some (shutdown_and_close_socket False e)
      else Some ([], e))"

section \<open>An endpoint at work\<close>

text \<open>
  \<open>sender_run sq ok e pending popped accepted\<close>: from a fresh endpoint, with data for which
  \<open>ok\<close> holds, the endpoint has come to \<open>e\<close>; the writes in \<open>pending\<close> have been started and
  not completed, the buffers in \<open>popped\<close> have been completed, and \<open>accepted\<close> is the data
  for which \<open>send\<close> returned true.  The socket completes the oldest write, or the connection
  breaks, in which case nothing else is sent until it is established again.  The limits of the
  message and of the queue are arbitrary.  Not among the steps are \<open>stop\<close> and \<open>restart\<close>, which
  drop the queue, and completions with another error, after which the code starts no further
  write.
\<close>

definition writes_of :: "client_action list \<Rightarrow> byte list list" where
  "writes_of acts = concat (map (\<lambda>a. case a of Write b \<Rightarrow> [b] | _ \<Rightarrow> []) acts)"

lemma writes_of_simps [simp]:
  "writes_of [] = []" "writes_of (Write b # as) = b # writes_of as"
  "writes_of (Connect # as) = writes_of as" "writes_of (Receive # as) = writes_of as"
  "writes_of (Host_connect # as) = writes_of as" "writes_of (Host_disconnect # as) = writes_of as"
  "writes_of (Close_socket b' # as) = writes_of as" "writes_of (Error_handler # as) = writes_of as"
  "writes_of (as @ bs) = writes_of as @ writes_of bs"
  by (simp_all add: writes_of_def)

inductive sender_run :: "send_queued \<Rightarrow> (byte list \<Rightarrow> bool) \<Rightarrow> client_endpoint \<Rightarrow> byte list list
    \<Rightarrow> byte list list \<Rightarrow> byte list \<Rightarrow> bool" for sq ok where
  init: "sender_run sq ok ((client_endpoint_init limit queue_limit)\<lparr>ce_has_enabled_magic_cookies := cookies\<rparr>) [] [] []"
| send: "sender_run sq ok e pending popped accepted \<Longrightarrow> ok data \<Longrightarrow> length data < 2 ^ 32 \<Longrightarrow>
    client_send sq now data flush e = Some (r, acts, e') \<Longrightarrow>
    sender_run sq ok e' (pending @ writes_of acts) popped (if r then accepted @ data else accepted)"
| flush: "sender_run sq ok e pending popped accepted \<Longrightarrow>
    client_flush sq now e = Some (r, acts, e') \<Longrightarrow>
    sender_run sq ok e' (pending @ writes_of acts) popped accepted"
| written: "sender_run sq ok e (w # pending) popped accepted \<Longrightarrow>
    send_cbk sq now opened No_error e = Some (acts, e') \<Longrightarrow>
    sender_run sq ok e' (pending @ writes_of acts) (popped @ [hd (ce_queue e)]) accepted"
| broken: "sender_run sq ok e (w # pending) popped accepted \<Longrightarrow> err \<in> {Broken_pipe, Not_connected, Bad_descriptor} \<Longrightarrow>
    send_cbk sq now opened err e = Some (acts, e') \<Longrightarrow>
    sender_run sq ok e' (pending @ writes_of acts) popped accepted"
| connected: "sender_run sq ok e pending popped accepted \<Longrightarrow>
    connect_cbk sq now port err e = Some (acts, e') \<Longrightarrow>
    sender_run sq ok e' (pending @ writes_of acts) popped accepted"

text \<open>A buffer carries data when it is the data behind any number of magic cookies.\<close>

definition carries :: "byte list \<Rightarrow> byte list \<Rightarrow> byte list \<Rightarrow> bool" where
  "carries cookie b d \<longleftrightarrow> (\<exists>n. b = concat (replicate n cookie) @ d)"

lemma carries_refl [simp]: "carries cookie d d"
  unfolding carries_def by (rule exI [of _ 0]) simp

lemma carries_cookie: "carries cookie b d \<Longrightarrow> carries cookie (cookie @ b) d"
  unfolding carries_def by (metis append.assoc concat.simps(2) replicate_Suc)

text \<open>
  The queue has room for two messages of the maximal size.  Only then a train that is moved to
  the empty queue leaves room for the data behind it (\<open>refused_send_stalls_queue\<close> below).
\<close>

definition two_messages_fit :: "u32 \<Rightarrow> u32 \<Rightarrow> bool" where
  "two_messages_fit message_size queue_limit \<longleftrightarrow>
     queue_limit = QUEUE_SIZE_UNLIMITED \<or> 2 * unat message_size \<le> unat queue_limit"

text \<open>
  What holds of the queue at any time.  \<open>ce_was_not_connected\<close> tells that the queue waits for the
  connection; else the front of the queue is being written, unless the limit is too small for two
  messages.
\<close>

definition fifo_inv :: "byte list \<Rightarrow> (byte list \<Rightarrow> byte list) \<Rightarrow> (byte list \<Rightarrow> bool) \<Rightarrow> client_endpoint \<Rightarrow> byte list list
    \<Rightarrow> byte list list \<Rightarrow> byte list \<Rightarrow> bool" where
  "fifo_inv cookie frame ok e pending popped accepted \<longleftrightarrow>
     \<not> ce_sending_blocked e
     \<and> ce_queue_size e = length (concat (ce_queue e))
     \<and> length (ce_packetizer e) \<le> unat (ce_max_message_size e)
     \<and> (ce_packetizer e = [] \<or> ok (ce_packetizer e)) \<and> list_all ok (ce_queue e)
     \<and> (pending = (if ce_queue e = [] \<or> ce_was_not_connected e then [] else [frame (hd (ce_queue e))])
        \<or> pending = [] \<and> \<not> two_messages_fit (ce_max_message_size e) (ce_queue_limit e))
     \<and> (ce_was_not_connected e \<longrightarrow> ce_queue e \<noteq> [])
     \<and> (\<exists>ds. list_all2 (carries cookie) (popped @ ce_queue e) ds \<and> concat ds @ ce_packetizer e = accepted)"

lemma accept_disconnected:
  "accept data flush (e\<lparr>ce_was_not_connected := t\<rparr>) = (accept data flush e)\<lparr>ce_was_not_connected := t\<rparr>"
  "push_train (e\<lparr>ce_was_not_connected := t\<rparr>) = (push_train e)\<lparr>ce_was_not_connected := t\<rparr>"
  by (simp_all add: accept_def push_train_def Let_def)

lemma accept_fields [simp]:
  "ce_was_not_connected (accept data flush e) = ce_was_not_connected e"
  "ce_was_not_connected (push_train e) = ce_was_not_connected e"
  "ce_queue (accept data flush e) = ce_queue e @ (if flush then [ce_packetizer e @ data] else [])"
  "ce_queue (push_train e) = ce_queue e @ [ce_packetizer e]"
  "ce_packetizer (push_train e) = []"
  "ce_max_message_size (push_train e) = ce_max_message_size e"
  "ce_queue_limit (push_train e) = ce_queue_limit e"
  by (simp_all add: accept_def push_train_def Let_def)

text \<open>
  A queue of trains, with the cookie, the framing of a buffer on the wire and the data that may
  be sent: none is empty, and a train is such data if what was added last is.
\<close>

locale train_queue =
  fixes cookie :: "byte list"
    and frame :: "byte list \<Rightarrow> byte list"
    and ok :: "byte list \<Rightarrow> bool"
  assumes ok_append: "ok d \<Longrightarrow> ok (b @ d)"
    and ok_not_empty: "ok d \<Longrightarrow> d \<noteq> []"
begin

text \<open>Starting to write the front, perhaps behind a cookie.\<close>

lemma inv_front:
  assumes inv: "fifo_inv cookie frame ok (e\<lparr>ce_was_not_connected := True\<rparr>) [] popped accepted"
    and bq: "ce_queue e = b # q'" and pre: "pre \<in> {[], cookie}"
    and e': "e' = e\<lparr>ce_was_not_connected := False, ce_queue := (pre @ b) # q',
      ce_queue_size := ce_queue_size e + length pre, ce_last_cookie_sent := t\<rparr>"
  shows "fifo_inv cookie frame ok e' [frame (pre @ b)] popped accepted"
proof -
  from inv bq have okb: "ok b" by (simp add: fifo_inv_def)
  from inv bq obtain ds where
    ds: "list_all2 (carries cookie) (popped @ b # q') ds" "concat ds @ ce_packetizer e = accepted"
    by (auto simp: fifo_inv_def)
  then obtain ds1 d ds2 where "ds = ds1 @ d # ds2" "list_all2 (carries cookie) popped ds1" "carries cookie b d"
    "list_all2 (carries cookie) q' ds2"
    by (auto simp: list_all2_append1 list_all2_Cons1)
  then have "list_all2 (carries cookie) (popped @ (pre @ b) # q') ds"
    using pre by (auto intro!: list_all2_appendI simp: carries_cookie)
  with ds(2) inv bq okb e' show ?thesis
    by (auto simp: fifo_inv_def intro!: exI [of _ ds] ok_append)
qed

text \<open>Appending the train, first without and then with a call of \<open>send_queued\<close>.\<close>

lemma inv_push:
  assumes "fifo_inv cookie frame ok e pending popped accepted" and "ce_queue e \<noteq> []" and "ce_packetizer e \<noteq> []"
  shows "fifo_inv cookie frame ok (push_train e) pending popped accepted"
proof -
  from assms obtain ds where
    "list_all2 (carries cookie) (popped @ ce_queue e) ds" "concat ds @ ce_packetizer e = accepted"
    by (auto simp: fifo_inv_def)
  then have "list_all2 (carries cookie) (popped @ ce_queue e @ [ce_packetizer e]) (ds @ [ce_packetizer e])"
    "concat (ds @ [ce_packetizer e]) @ [] = accepted"
    by (auto simp flip: append_assoc intro!: list_all2_appendI)
  with assms show ?thesis
    by (auto simp: fifo_inv_def push_train_def hd_append intro!: exI [of _ "ds @ [ce_packetizer e]"])
qed

lemma inv_push_first:
  assumes inv: "fifo_inv cookie frame ok e pending popped accepted" and q: "ce_queue e = []" and p: "ce_packetizer e \<noteq> []"
  shows "pending = []" and "\<not> ce_was_not_connected e"
    and "fifo_inv cookie frame ok ((push_train e)\<lparr>ce_was_not_connected := True\<rparr>) [] popped accepted"
proof -
  from inv q show "pending = []" "\<not> ce_was_not_connected e" by (auto simp: fifo_inv_def)
  from inv q obtain ds where
    ds: "list_all2 (carries cookie) popped ds" "concat ds @ ce_packetizer e = accepted"
    by (auto simp: fifo_inv_def)
  then have "list_all2 (carries cookie) (popped @ [ce_packetizer e]) (ds @ [ce_packetizer e])"
    by (auto intro!: list_all2_appendI)
  with inv q p ds show "fifo_inv cookie frame ok ((push_train e)\<lparr>ce_was_not_connected := True\<rparr>) [] popped accepted"
    by (auto simp: fifo_inv_def push_train_def intro!: exI [of _ "ds @ [ce_packetizer e]"])
qed

lemma inv_append:
  assumes "fifo_inv cookie frame ok e pending popped accepted" and "ok data"
    and "length (ce_packetizer e) + length data \<le> unat (ce_max_message_size e)"
  shows "fifo_inv cookie frame ok (e\<lparr>ce_packetizer := ce_packetizer e @ data\<rparr>) pending popped (accepted @ data)"
  using assms ok_append [OF assms(2)] by (auto simp: fifo_inv_def)

lemma inv_timer [simp]:
  "fifo_inv cookie frame ok (e\<lparr>ce_flush_timer := t\<rparr>) pending popped accepted = fifo_inv cookie frame ok e pending popped accepted"
  by (simp add: fifo_inv_def)

lemma inv_accept:
  assumes "fifo_inv cookie frame ok e pending popped accepted" and "ok data"
    and "length (ce_packetizer e) + length data \<le> unat (ce_max_message_size e)"
    and "flush \<Longrightarrow> ce_queue e \<noteq> []"
  shows "fifo_inv cookie frame ok (accept data flush e) pending popped (accepted @ data)"
proof (cases flush)
  case True
  have "fifo_inv cookie frame ok ((e\<lparr>ce_packetizer := ce_packetizer e @ data\<rparr>)\<lparr>ce_flush_timer := False\<rparr>)
      pending popped (accepted @ data)"
    using inv_append [OF assms(1-3)] by simp
  from inv_push [OF this] assms(4) True ok_not_empty [OF assms(2)] show ?thesis
    by (simp add: accept_def)
next
  case False
  with inv_append [OF assms(1-3)] show ?thesis by (simp add: accept_def)
qed

text \<open>
  Adding data to the train: it was moved to the queue if the two do not fit into one
  message.
\<close>

lemma inv_full_train:
  fixes e :: client_endpoint and data :: "byte list"
  defines "full \<equiv> length (ce_packetizer e) + length data > unat (ce_max_message_size e) \<and> ce_packetizer e \<noteq> []"
  defines "e1 \<equiv> if full then push_train e else e"
  assumes inv: "fifo_inv cookie frame ok e pending popped accepted"
    and len: "length data \<le> unat (ce_max_message_size e)"
  shows "ce_queue e \<noteq> [] \<or> \<not> full \<Longrightarrow> fifo_inv cookie frame ok e1 pending popped accepted"
    and "length (ce_packetizer e1) + length data \<le> unat (ce_max_message_size e1)"
    and "ce_queue e1 = ce_queue e @ (if full then [ce_packetizer e] else [])"
proof -
  show "fifo_inv cookie frame ok e1 pending popped accepted" if "ce_queue e \<noteq> [] \<or> \<not> full"
  proof (cases full)
    case True
    with that inv_push [OF inv] have "fifo_inv cookie frame ok (push_train e) pending popped accepted"
      by (auto simp: full_def)
    then show ?thesis unfolding e1_def if_P [OF True] .
  next
    case False
    from inv show ?thesis unfolding e1_def if_not_P [OF False] .
  qed
  show "length (ce_packetizer e1) + length data \<le> unat (ce_max_message_size e1)"
    using len by (cases full) (auto simp: e1_def full_def)
  show "ce_queue e1 = ce_queue e @ (if full then [ce_packetizer e] else [])"
    by (cases full) (simp_all add: e1_def)
qed

lemma inv_refused:
  fixes e :: client_endpoint and data :: "byte list"
  defines "full \<equiv> length (ce_packetizer e) + length data > unat (ce_max_message_size e) \<and> ce_packetizer e \<noteq> []"
  defines "e1 \<equiv> if full then push_train e else e"
  assumes inv: "fifo_inv cookie frame ok e pending popped accepted"
    and len: "length data \<le> unat (ce_max_message_size e)"
    and limit: "ce_queue_limit e1 \<noteq> QUEUE_SIZE_UNLIMITED" "ce_queue_size e1 + length data > unat (ce_queue_limit e1)"
  shows "fifo_inv cookie frame ok e1 pending popped accepted"
proof (cases "ce_queue e \<noteq> [] \<or> \<not> full")
  case True
  with inv_full_train(1) [OF inv len] show ?thesis unfolding e1_def full_def by blast
next
  case False
  then have q: "ce_queue e = []" and full: full by blast+
  then have p: "ce_packetizer e \<noteq> []" by (simp add: full_def)
  have e1: "e1 = push_train e" unfolding e1_def by (rule if_P [OF full])
  note first = inv_push_first [OF inv q p]
  have "\<not> two_messages_fit (ce_max_message_size e) (ce_queue_limit e)"
    using limit q inv len unfolding e1 by (auto simp: push_train_def fifo_inv_def two_messages_fit_def)
  with first show ?thesis unfolding e1 by (auto simp: fifo_inv_def)
qed

lemma inv_quiet:
  fixes e :: client_endpoint and data :: "byte list"
  defines "full \<equiv> length (ce_packetizer e) + length data > unat (ce_max_message_size e) \<and> ce_packetizer e \<noteq> []"
  defines "e1 \<equiv> if full then push_train e else e"
  assumes inv: "fifo_inv cookie frame ok e pending popped accepted" and d: "ok data"
    and len: "length data \<le> unat (ce_max_message_size e)"
    and quiet: "\<not> (ce_queue e = [] \<and> ce_queue (accept data flush e1) \<noteq> [])"
  shows "fifo_inv cookie frame ok (accept data flush e1) pending popped (accepted @ data)"
proof -
  note full_train = inv_full_train [OF inv len, folded full_def, folded e1_def]
  have q: "ce_queue e \<noteq> [] \<or> \<not> full \<and> \<not> flush"
    using quiet unfolding accept_fields full_train(3) by (auto split: if_splits)
  then have "flush \<Longrightarrow> ce_queue e1 \<noteq> []" using full_train(3) by auto
  from inv_accept [OF full_train(1) d full_train(2) this] q show ?thesis by blast
qed

text \<open>Data is queued when nothing was.\<close>

lemma inv_first:
  fixes e :: client_endpoint and data :: "byte list"
  defines "full \<equiv> length (ce_packetizer e) + length data > unat (ce_max_message_size e) \<and> ce_packetizer e \<noteq> []"
  defines "e1 \<equiv> if full then push_train e else e"
  assumes inv: "fifo_inv cookie frame ok e pending popped accepted" and d: "ok data"
    and len: "length data \<le> unat (ce_max_message_size e)" and q: "ce_queue e = []"
    and queued: "ce_queue (accept data flush e1) \<noteq> []"
  shows "pending = []" and "\<not> ce_was_not_connected e" and "\<not> ce_was_not_connected (accept data flush e1)"
    and "fifo_inv cookie frame ok ((accept data flush e1)\<lparr>ce_was_not_connected := True\<rparr>) [] popped (accepted @ data)"
proof -
  show nw: "pending = []" "\<not> ce_was_not_connected e" using inv q by (auto simp: fifo_inv_def)
  then show "\<not> ce_was_not_connected (accept data flush e1)" by (simp add: e1_def)
  show "fifo_inv cookie frame ok ((accept data flush e1)\<lparr>ce_was_not_connected := True\<rparr>) [] popped (accepted @ data)"
  proof (cases full)
    case True
    from inv_push_first(3) [OF inv q] True
    have "fifo_inv cookie frame ok ((push_train e)\<lparr>ce_was_not_connected := True\<rparr>) [] popped accepted"
      by (simp add: full_def)
    moreover have "e1 = push_train e" unfolding e1_def by (rule if_P [OF True])
    ultimately show ?thesis
      using inv_accept [of "(push_train e)\<lparr>ce_was_not_connected := True\<rparr>" "[]" popped accepted data flush] d len
      by (simp add: accept_disconnected)
  next
    case False
    have "e1 = e" unfolding e1_def by (rule if_not_P [OF False])
    then have "flush" using queued q by (auto split: if_splits)
    let ?e = "e\<lparr>ce_packetizer := ce_packetizer e @ data, ce_flush_timer := False\<rparr>"
    have "fifo_inv cookie frame ok ?e pending popped (accepted @ data)"
      using inv_append [OF inv d] False len by (auto simp: full_def)
    from inv_push_first(3) [OF this] q ok_not_empty [OF d] \<open>e1 = e\<close> \<open>flush\<close> show ?thesis
      by (simp add: accept_def)
  qed
qed

text \<open>A write is completed: the front of the queue is removed.\<close>

lemma inv_pop:
  assumes inv: "fifo_inv cookie frame ok e (w # pending) popped accepted" and bq: "ce_queue e = b # q"
  shows "pending = []" and "\<not> ce_was_not_connected e"
    and "fifo_inv cookie frame ok (e\<lparr>ce_queue_size := ce_queue_size e - length b, ce_queue := q,
        ce_was_not_connected := (q \<noteq> [])\<rparr>) [] (popped @ [b]) accepted"
  using inv bq by (auto simp: fifo_inv_def split: if_splits)

lemma inv_writing:
  assumes "fifo_inv cookie frame ok e (w # pending) popped accepted"
  obtains b q where "ce_queue e = b # q"
  using assms by (cases "ce_queue e") (auto simp: fifo_inv_def split: if_splits)

end

text \<open>
  What the base class relies on: \<open>send_queued\<close> does nothing on an empty queue, and else starts
  writing the front, perhaps behind a cookie it puts there.
\<close>

locale sender = train_queue +
  fixes sq :: send_queued
  assumes sq_empty: "ce_queue e = [] \<Longrightarrow> sq now e = Some ([], e)"
    and sq_front: "ce_queue e = b # q \<Longrightarrow> ok b \<Longrightarrow>
      \<exists>pre t. pre \<in> {[], cookie}
        \<and> sq now e = Some ([Write (frame (pre @ b))],
            e\<lparr>ce_queue := (pre @ b) # q, ce_queue_size := ce_queue_size e + length pre,
              ce_last_cookie_sent := t\<rparr>)"
begin

text \<open>Calling \<open>send_queued\<close> when nothing is being written.\<close>

lemma inv_send_queued:
  assumes inv: "fifo_inv cookie frame ok (e\<lparr>ce_was_not_connected := True\<rparr>) [] popped accepted"
    and q: "ce_queue e \<noteq> []" and sq: "sq now (e\<lparr>ce_was_not_connected := False\<rparr>) = Some (acts, e')"
  shows "fifo_inv cookie frame ok e' (writes_of acts) popped accepted"
proof -
  from q obtain b q' where bq: "ce_queue e = b # q'" by (cases "ce_queue e") auto
  with inv have okb: "ok b" by (simp add: fifo_inv_def)
  from bq sq_front [of "e\<lparr>ce_was_not_connected := False\<rparr>" b q' now] okb obtain pre t where
    pre: "pre \<in> {[], cookie}" and "acts = [Write (frame (pre @ b))]"
    and e': "e' = e\<lparr>ce_was_not_connected := False, ce_queue := (pre @ b) # q',
      ce_queue_size := ce_queue_size e + length pre, ce_last_cookie_sent := t\<rparr>"
    using sq by auto
  then show ?thesis using inv_front [OF inv bq pre e'] by simp
qed

lemma inv_sq:
  assumes "fifo_inv cookie frame ok (e\<lparr>ce_was_not_connected := True\<rparr>) [] popped accepted"
    and "\<not> ce_was_not_connected e" and "ce_queue e \<noteq> []" and "sq now e = Some (acts, e')"
  shows "fifo_inv cookie frame ok e' (writes_of acts) popped accepted"
proof -
  have "e\<lparr>ce_was_not_connected := False\<rparr> = e" using assms(2) by (cases e) simp
  with inv_send_queued [OF assms(1,3)] assms(4) show ?thesis by simp
qed

text \<open>
  The train before the data is added: it was moved to the queue if the two do not fit into one
  message.
\<close>

lemma send_outcome:
  fixes e :: client_endpoint and data :: "byte list"
  defines "e1 \<equiv> if length (ce_packetizer e) + length data > unat (ce_max_message_size e)
    \<and> ce_packetizer e \<noteq> [] then push_train e else e"
  assumes "\<not> ce_sending_blocked e"
    and "\<not> (ce_max_message_size e \<noteq> MESSAGE_SIZE_UNLIMITED \<and> length data > unat (ce_max_message_size e))"
    and s: "client_send sq now data flush e = Some (r, acts, e')"
  shows "ce_queue_limit e1 \<noteq> QUEUE_SIZE_UNLIMITED \<and> ce_queue_size e1 + length data > unat (ce_queue_limit e1)
        \<and> \<not> r \<and> acts = [] \<and> e' = e1
    \<or> \<not> (ce_queue e = [] \<and> ce_queue (accept data flush e1) \<noteq> []) \<and> r \<and> acts = [] \<and> e' = accept data flush e1
    \<or> ce_queue e = [] \<and> ce_queue (accept data flush e1) \<noteq> [] \<and> r
        \<and> sq now (accept data flush e1) = Some (acts, e')"
proof -
  have s: "(if ce_queue_limit e1 \<noteq> QUEUE_SIZE_UNLIMITED \<and> ce_queue_size e1 + length data > unat (ce_queue_limit e1)
      then Some (False, [], e1)
      else if ce_queue e = [] \<and> ce_queue (accept data flush e1) \<noteq> []
      then do { (acts, e) \<leftarrow> sq now (accept data flush e1); Some (True, acts, e) }
      else Some (True, [], accept data flush e1)) = Some (r, acts, e')"
    using s assms(2,3) unfolding client_send_def Let_def e1_def [symmetric] by (simp only: if_False)
  show ?thesis
  proof (cases "ce_queue_limit e1 \<noteq> QUEUE_SIZE_UNLIMITED \<and> ce_queue_size e1 + length data > unat (ce_queue_limit e1)")
    case True
    with s show ?thesis by simp
  next
    case not_refused: False
    show ?thesis
    proof (cases "ce_queue e = [] \<and> ce_queue (accept data flush e1) \<noteq> []")
      case True
      with s not_refused obtain a b where "sq now (accept data flush e1) = Some (a, b)" "acts = a" "e' = b" "r"
        by (cases "sq now (accept data flush e1)") (auto simp del: accept_fields)
      with True show ?thesis by simp
    next
      case False
      from s [unfolded if_not_P [OF not_refused] if_not_P [OF False]] False show ?thesis by simp
    qed
  qed
qed

lemma inv_send:
  assumes inv: "fifo_inv cookie frame ok e pending popped accepted" and d: "ok data" "length data < 2 ^ 32"
    and s: "client_send sq now data flush e = Some (r, acts, e')"
  shows "fifo_inv cookie frame ok e' (pending @ writes_of acts) popped (if r then accepted @ data else accepted)"
proof (cases "ce_max_message_size e \<noteq> MESSAGE_SIZE_UNLIMITED \<and> length data > unat (ce_max_message_size e)")
  case True
  have nb: "\<not> ce_sending_blocked e" using inv by (simp add: fifo_inv_def)
  with True s inv show ?thesis by (simp add: client_send_def)
next
  case False
  have nb: "\<not> ce_sending_blocked e" using inv by (simp add: fifo_inv_def)
  have len: "length data \<le> unat (ce_max_message_size e)"
    using False d(2) by (auto simp: MESSAGE_SIZE_UNLIMITED_def)
  from send_outcome [OF nb False s] show ?thesis
  proof (elim disjE conjE, goal_cases)
    case 1
    from inv_refused [OF inv len 1(1,2)] 1(3-5) show ?case by simp
  next
    case 2
    from inv_quiet [OF inv d(1) len 2(1)] 2(2-4) show ?case by simp
  next
    case 3
    note first = inv_first [OF inv d(1) len 3(1,2)]
    from inv_sq [OF first(4) first(3) 3(2,4)] first(1) 3(3) show ?case by simp
  qed
qed

lemma inv_flush:
  assumes inv: "fifo_inv cookie frame ok e pending popped accepted"
    and f: "client_flush sq now e = Some (r, acts, e')"
  shows "fifo_inv cookie frame ok e' (pending @ writes_of acts) popped accepted"
proof (cases "ce_packetizer e = []")
  case True
  with f inv show ?thesis by (simp add: client_flush_def)
next
  case p: False
  show ?thesis
  proof (cases "ce_queue e = []")
    case True
    then have "sq now (push_train e) = Some (acts, e')"
      using f p by (auto simp: client_flush_def Let_def bind_eq_Some_conv)
    with inv_sq [OF inv_push_first(3) [OF inv True p]] inv_push_first(1,2) [OF inv True p] show ?thesis
      by simp
  next
    case False
    with f p have "acts = []" "e' = push_train e"
      by (auto simp: client_flush_def Let_def)
    with inv_push [OF inv False p] show ?thesis by simp
  qed
qed

lemma inv_written:
  assumes inv: "fifo_inv cookie frame ok e (w # pending) popped accepted"
    and c: "send_cbk sq now opened No_error e = Some (acts, e')"
  shows "fifo_inv cookie frame ok e' (pending @ writes_of acts) (popped @ [hd (ce_queue e)]) accepted"
proof -
  from inv_writing [OF inv] obtain b q where bq: "ce_queue e = b # q" .
  note pop = inv_pop [OF inv bq]
  let ?e = "e\<lparr>ce_queue_size := ce_queue_size e - length b, ce_queue := q\<rparr>"
  have sq: "sq now ?e = Some (acts, e')" using c bq by (simp add: send_cbk_def)
  show ?thesis
  proof (cases "q = []")
    case True
    then have "acts = []" "e' = ?e" using sq sq_empty [of ?e now] by simp_all
    with pop True bq show ?thesis by (simp add: fifo_inv_def)
  next
    case False
    with inv_sq [OF _ _ _ sq] pop bq show ?thesis by simp
  qed
qed

lemma inv_broken:
  assumes inv: "fifo_inv cookie frame ok e (w # pending) popped accepted"
    and err: "err \<in> {Broken_pipe, Not_connected, Bad_descriptor}"
    and c: "send_cbk sq now opened err e = Some (acts, e')"
  shows "fifo_inv cookie frame ok e' (pending @ writes_of acts) popped accepted"
proof -
  have q: "ce_queue e \<noteq> []" "pending = []" "\<not> ce_sending_blocked e"
    using inv by (auto simp: fifo_inv_def split: if_splits)
  have "e' = e\<lparr>ce_was_not_connected := True, ce_local_port := 0,
      ce_state := (if opened then CEI_CONNECTING else CEI_CLOSED)\<rparr> \<and> writes_of acts = []"
    using err c q(3)
    by (elim insertE emptyE; simp add: send_cbk_def shutdown_and_close_socket_def client_connect_def Let_def
        split: if_splits; auto)
  with q inv show ?thesis by (simp add: fifo_inv_def)
qed

lemma inv_connected:
  assumes inv: "fifo_inv cookie frame ok e pending popped accepted"
    and c: "connect_cbk sq now port err e = Some (acts, e')"
  shows "fifo_inv cookie frame ok e' (pending @ writes_of acts) popped accepted"
proof (cases "err \<in> {No_error, Already_connected} \<and> ce_queue e \<noteq> [] \<and> ce_was_not_connected e")
  case True
  let ?e = "e\<lparr>ce_connect_timer := None, ce_connect_timeout := VSOMEIP_DEFAULT_CONNECT_TIMEOUT,
    ce_local_port := port\<rparr>"
  from True c obtain acts' where sq: "sq now (?e\<lparr>ce_was_not_connected := False\<rparr>) = Some (acts', e')"
    and w: "writes_of acts = writes_of acts'"
    by (auto simp: connect_cbk_def Let_def bind_eq_Some_conv split: if_splits)
  have "pending = []" using inv True by (auto simp: fifo_inv_def)
  moreover have "fifo_inv cookie frame ok (?e\<lparr>ce_was_not_connected := True\<rparr>) [] popped accepted"
    using inv True by (auto simp: fifo_inv_def)
  ultimately show ?thesis
    using inv_send_queued [of ?e popped accepted now acts' e'] True sq w by simp
next
  case False
  have "writes_of acts = []" "ce_queue e' = ce_queue e" "ce_queue_size e' = ce_queue_size e"
    "ce_packetizer e' = ce_packetizer e" "ce_was_not_connected e' = ce_was_not_connected e"
    "ce_sending_blocked e' = ce_sending_blocked e" "ce_max_message_size e' = ce_max_message_size e"
    "ce_queue_limit e' = ce_queue_limit e"
    using c False
    by (auto simp: connect_cbk_def shutdown_and_close_socket_def start_connect_timer_def Let_def
        split: if_splits)
  with inv show ?thesis by (auto simp: fifo_inv_def)
qed

lemma run_inv: "sender_run sq ok e pending popped accepted \<Longrightarrow> fifo_inv cookie frame ok e pending popped accepted"
proof (induction rule: sender_run.induct)
  case (init limit queue_limit cookies)
  show ?case by (auto simp: fifo_inv_def client_endpoint_init_def)
next
  case (send e pending popped accepted data now flush r acts e')
  from inv_send [OF send(5,2,3,4)] show ?case .
next
  case (flush e pending popped accepted now r acts e')
  from inv_flush [OF flush(3,2)] show ?case .
next
  case (written e w pending popped accepted now opened acts e')
  from inv_written [OF written(3,2)] show ?case .
next
  case (broken e w pending popped accepted err now opened acts e')
  from inv_broken [OF broken(4,2,3)] show ?case .
next
  case (connected e pending popped accepted now port err acts e')
  from inv_connected [OF connected(3,2)] show ?case .
qed

end

section \<open>The three clients as senders\<close>

lemma CLIENT_COOKIE_length [simp]: "length CLIENT_COOKIE = 16"
  by (simp add: CLIENT_COOKIE_def)

lemma slice_front: "n \<le> length b \<Longrightarrow> slice b 0 n = Some (take n b)"
  by (simp add: slice_def)

interpretation tcp_sender: sender CLIENT_COOKIE "\<lambda>b. b" "\<lambda>d. 12 \<le> length d" tcp_client_send_queued
proof (unfold_locales, goal_cases)
  case (4 e b q now)
  let ?t = "ce_has_enabled_magic_cookies e \<and> now - ce_last_cookie_sent e > 10000"
  define pre where "pre = (if ?t \<and> ce_queue (tcp_client_send_magic_cookie e) \<noteq> ce_queue e then CLIENT_COOKIE else [])"
  define t where "t = (if ?t then now else ce_last_cookie_sent e)"
  have "pre \<in> {[], CLIENT_COOKIE}" by (simp add: pre_def)
  moreover have "tcp_client_send_queued now e = Some ([Write (pre @ b)],
      e\<lparr>ce_queue := (pre @ b) # q, ce_queue_size := ce_queue_size e + length pre, ce_last_cookie_sent := t\<rparr>)"
    using 4 unfolding pre_def t_def tcp_client_send_queued_def tcp_client_send_magic_cookie_def
    by (cases e) (auto simp: slice_front Let_def)
  ultimately show ?case by blast
qed (auto simp: tcp_client_send_queued_def)

interpretation udp_sender: sender "[]" "\<lambda>b. b" "\<lambda>d. d \<noteq> []" udp_client_send_queued
proof (unfold_locales, goal_cases)
  case (4 e b q now)
  then show ?case
    by (intro exI [of _ "[]"] exI [of _ "ce_last_cookie_sent e"], cases e)
      (simp add: udp_client_send_queued_def)
qed (auto simp: udp_client_send_queued_def)

interpretation local_sender: sender "[]" "\<lambda>b. LOCAL_START_TAG @ b @ LOCAL_END_TAG" "\<lambda>d. d \<noteq> []" local_client_send_queued
proof (unfold_locales, goal_cases)
  case (2 e b q now)
  then show ?case
    by (intro exI [of _ "[]"] exI [of _ "ce_last_cookie_sent e"], cases e)
      (simp add: local_client_send_queued_def)
qed (auto simp: local_client_send_queued_def)

text \<open>
  C8. However sends, flushes, completed writes, broken and new connections follow each other, the
  TCP client writes what \<^verbatim>\<open>send\<close> accepted in order and without loss: the buffers written, then
  those queued, carry (behind magic cookies) consecutive pieces of it, and the train
  has the rest.  At most one write is in progress, of the front of the queue; there is none
  only if the queue is empty, if the connection is lost, or if the queue limit is too small for
  two messages of the maximal size, in which case a refused \<^verbatim>\<open>send\<close> may leave a queue of which
  nothing is written (\<open>refused_send_stalls_queue\<close>).  \<^verbatim>\<open>queue_size_\<close> is the number of bytes queued.
  The data handed to \<^verbatim>\<open>send\<close> is at least the twelve bytes the code reads of it; stopping and
  restarting, which drop the queue, and writes failing otherwise than by a lost connection are
  not among the steps.
\<close>

theorem tcp_client_fifo:
  assumes "sender_run tcp_client_send_queued (\<lambda>d. 12 \<le> length d) e pending popped accepted"
  shows "(\<exists>ds. list_all2 (carries CLIENT_COOKIE) (popped @ ce_queue e) ds \<and> concat ds @ ce_packetizer e = accepted)
    \<and> (pending = (if ce_queue e = [] \<or> ce_was_not_connected e then [] else [hd (ce_queue e)])
       \<or> pending = [] \<and> \<not> two_messages_fit (ce_max_message_size e) (ce_queue_limit e))
    \<and> ce_queue_size e = length (concat (ce_queue e))
    \<and> length (ce_packetizer e) \<le> unat (ce_max_message_size e)"
  using tcp_sender.run_inv [OF assms] by (simp add: fifo_inv_def)

definition ce_sample :: client_endpoint where
  "ce_sample = (client_endpoint_init 40 100)\<lparr>ce_has_enabled_magic_cookies := True\<rparr>"

lemma ce_sample_run:
  assumes "client_send sq 0 data True ce_sample = Some (r, acts, e')" and "ok data" and "length data < 2 ^ 32"
  shows "sender_run sq ok e' (writes_of acts) [] (if r then data else [])"
proof -
  have "sender_run sq ok ce_sample [] [] []"
    unfolding ce_sample_def by (rule sender_run.init)
  from sender_run.send [OF this assms(2,3,1)] show ?thesis by (cases r) simp_all
qed

text \<open>The first message is written behind a magic cookie.\<close>

theorem tcp_client_fifo_witness:
  "\<exists>acts e. client_send tcp_client_send_queued 0 (replicate 12 1) True ce_sample = Some (True, acts, e)
    \<and> ce_queue_size e = length (concat (ce_queue e)) \<and> writes_of acts = [hd (ce_queue e)]
    \<and> ce_queue e = [CLIENT_COOKIE @ replicate 12 1]"
proof -
  have send: "client_send tcp_client_send_queued 0 (replicate 12 1) True ce_sample
    = Some (True, [Write (CLIENT_COOKIE @ replicate 12 1)],
        ce_sample\<lparr>ce_queue := [CLIENT_COOKIE @ replicate 12 1], ce_queue_size := 28, ce_last_cookie_sent := 0\<rparr>)"
    by code_simp
  have "sender_run tcp_client_send_queued (\<lambda>d. 12 \<le> length d)
    (ce_sample\<lparr>ce_queue := [CLIENT_COOKIE @ replicate 12 1], ce_queue_size := 28, ce_last_cookie_sent := 0\<rparr>)
    [CLIENT_COOKIE @ replicate 12 1] [] (replicate 12 1)"
    using ce_sample_run [OF send, of "\<lambda>d. 12 \<le> length d"] by simp
  from tcp_client_fifo [OF this] show ?thesis
    unfolding send by (simp add: ce_sample_def client_endpoint_init_def)
qed

lemma carries_nothing: "list_all2 (carries []) bs ds \<longleftrightarrow> bs = ds"
proof -
  have "carries [] = (=)" by (auto simp: carries_def fun_eq_iff)
  then show ?thesis by (simp add: list.rel_eq)
qed

lemma local_client_fifo:
  assumes "sender_run local_client_send_queued (\<lambda>d. d \<noteq> []) e pending popped accepted"
  shows "concat popped @ concat (ce_queue e) @ ce_packetizer e = accepted"
  using local_sender.run_inv [OF assms] by (auto simp: fifo_inv_def carries_nothing)

text \<open>
  The UDP and the local client do the same, without cookies: what is written
  (between the tags, for the local client), what is queued and the train are together the accepted data.
\<close>

theorem udp_local_client_fifo:
  assumes "sq = udp_client_send_queued \<and> frame = (\<lambda>b. b)
      \<or> sq = local_client_send_queued \<and> frame = (\<lambda>b. LOCAL_START_TAG @ b @ LOCAL_END_TAG)"
    and "sender_run sq (\<lambda>d. d \<noteq> []) e pending popped accepted"
  shows "concat popped @ concat (ce_queue e) @ ce_packetizer e = accepted
    \<and> (pending = (if ce_queue e = [] \<or> ce_was_not_connected e then [] else [frame (hd (ce_queue e))])
       \<or> pending = [] \<and> \<not> two_messages_fit (ce_max_message_size e) (ce_queue_limit e))
    \<and> ce_queue_size e = length (concat (ce_queue e))"
  using assms(1)
proof
  assume a: "sq = udp_client_send_queued \<and> frame = (\<lambda>b. b)"
  with udp_sender.run_inv [OF assms(2) [unfolded conjunct1 [OF a]]] show ?thesis
    by (auto simp: fifo_inv_def carries_nothing)
next
  assume a: "sq = local_client_send_queued \<and> frame = (\<lambda>b. LOCAL_START_TAG @ b @ LOCAL_END_TAG)"
  with local_sender.run_inv [OF assms(2) [unfolded conjunct1 [OF a]]] show ?thesis
    by (auto simp: fifo_inv_def carries_nothing)
qed

text \<open>The local client writes three bytes between its tags.\<close>

theorem udp_local_client_fifo_witness:
  "\<exists>e. client_send local_client_send_queued 0 [1, 2, 3] True ce_sample
      = Some (True, [Write ([0x67, 0x37, 0x6D, 0x07] @ [1, 2, 3] @ [0x07, 0x6D, 0x37, 0x67])], e)
    \<and> ce_queue_size e = length (concat (ce_queue e)) \<and> ce_queue e = [[1, 2, 3]]"
proof -
  have send: "client_send local_client_send_queued 0 [1, 2, 3] True ce_sample
    = Some (True, [Write ([0x67, 0x37, 0x6D, 0x07] @ [1, 2, 3] @ [0x07, 0x6D, 0x37, 0x67])],
        ce_sample\<lparr>ce_queue := [[1, 2, 3]], ce_queue_size := 3\<rparr>)"
    by code_simp
  from udp_local_client_fifo [OF disjI2, OF conjI, OF refl refl ce_sample_run [OF send]] show ?thesis
    unfolding send by simp
qed

section \<open>Stalled endpoints\<close>

text \<open>
  A queue that is not empty and of which nothing is being written: no later \<^verbatim>\<open>send\<close> or
  \<^verbatim>\<open>flush\<close> starts a write, since both take a non-empty queue for a write in progress.
\<close>

lemma queue_kept:
  assumes "ce_queue e \<noteq> []" and "client_send sq now data flush e = Some (r, acts, e')"
  shows "acts = [] \<and> ce_queue e' \<noteq> []"
  using assms
  by (simp add: client_send_def Let_def split: if_splits; clarify; simp)

text \<open>
  When the train has to be moved to the empty queue and the new data then exceeds the queue
  limit, \<^verbatim>\<open>send\<close> returns false without starting a write of the train it has just queued;
  from then on the queue is not empty, and no \<^verbatim>\<open>send\<close> starts a write.
\<close>

theorem refused_send_stalls_queue:
  assumes "\<not> ce_sending_blocked e" and "ce_queue e = []" and "ce_packetizer e \<noteq> []"
    and "length data \<le> unat (ce_max_message_size e)"
    and "length (ce_packetizer e) + length data > unat (ce_max_message_size e)"
    and "ce_queue_limit e \<noteq> QUEUE_SIZE_UNLIMITED"
    and "ce_queue_size e + length (ce_packetizer e) + length data > unat (ce_queue_limit e)"
  shows "client_send sq now data flush e = Some (False, [], push_train e)
    \<and> (\<forall>now' data' flush' r acts e'. client_send sq now' data' flush' (push_train e) = Some (r, acts, e')
          \<longrightarrow> writes_of acts = [] \<and> ce_queue e' \<noteq> [])"
proof -
  have "client_send sq now data flush e = Some (False, [], push_train e)"
    using assms by (simp add: client_send_def Let_def push_train_def add.assoc)
  moreover have "ce_queue (push_train e) \<noteq> []" by (simp add: push_train_def)
  ultimately show ?thesis using queue_kept by fastforce
qed

text \<open>A train of 30 bytes, and 30 more for a queue limited to 50 bytes.\<close>

theorem refused_send_stalls_queue_witness:
  "client_send udp_client_send_queued 0 (replicate 30 0) True
      ((client_endpoint_init 40 50)\<lparr>ce_packetizer := replicate 30 0\<rparr>)
    = Some (False, [], push_train ((client_endpoint_init 40 50)\<lparr>ce_packetizer := replicate 30 0\<rparr>))"
  using refused_send_stalls_queue
    [of "(client_endpoint_init 40 50)\<lparr>ce_packetizer := replicate 30 0\<rparr>" "replicate 30 0" udp_client_send_queued 0 True]
  by (simp add: client_endpoint_init_def QUEUE_SIZE_UNLIMITED_def)

text \<open>
  Restarting the UDP client empties the queue and keeps \<^verbatim>\<open>queue_size_\<close>, so that the bytes
  dropped count against the queue limit from then on.
\<close>

lemma udp_restart_keeps_queue_size:
  "ce_state e \<noteq> CEI_CONNECTING \<Longrightarrow>
    ce_queue (snd (udp_client_restart e)) = [] \<and> ce_queue_size (snd (udp_client_restart e)) = ce_queue_size e"
  by (simp add: udp_client_restart_def shutdown_and_close_socket_def start_connect_timer_def)

text \<open>An endpoint whose attempts to connect fail.\<close>

primrec failed_connects :: "send_queued \<Rightarrow> nat \<Rightarrow> client_endpoint \<Rightarrow> client_endpoint ub" where
  "failed_connects sq 0 e = Some e"
| "failed_connects sq (Suc n) e = do {
     e \<leftarrow> failed_connects sq n e;
     (acts, e) \<leftarrow> connect_cbk sq 0 0 Other_error e;
     Some e }"

definition backoff :: "nat \<Rightarrow> u32" where "backoff n = 100 * 2 ^ min n 4"

lemma backoff_Suc: "(if backoff n < 1600 then push_bit 1 (backoff n) else backoff n) = backoff (Suc n)"
proof (cases "n < 4")
  case True
  then have "n = 0 \<or> n = 1 \<or> n = 2 \<or> n = 3" by auto
  then show ?thesis by (auto simp: backoff_def push_bit_eq_mult)
next
  case False
  then show ?thesis by (simp add: backoff_def min_def)
qed

lemma failed_connects_state:
  "failed_connects sq n (client_endpoint_init limit queue_limit)
    = Some ((client_endpoint_init limit queue_limit)\<lparr>ce_connect_timeout := backoff n,
        ce_connect_timer := (if n = 0 then None else Some (backoff (n - 1)))\<rparr>)"
proof (induction n)
  case 0
  show ?case
    by (simp add: client_endpoint_init_def backoff_def VSOMEIP_DEFAULT_CONNECT_TIMEOUT_def)
next
  case (Suc n)
  have "connect_cbk sq 0 0 Other_error ((client_endpoint_init limit queue_limit)\<lparr>ce_connect_timeout := t, ce_connect_timer := r\<rparr>)
    = Some ([Close_socket True, Host_disconnect], (client_endpoint_init limit queue_limit)\<lparr>
        ce_connect_timeout := (if t < 1600 then push_bit 1 t else t), ce_connect_timer := Some t\<rparr>)" for t r
    by (simp add: client_endpoint_init_def connect_cbk_def shutdown_and_close_socket_def
        start_connect_timer_def VSOMEIP_MAX_CONNECT_TIMEOUT_def Let_def)
  then show ?case by (simp add: Suc backoff_Suc)
qed

text \<open>
  Each failed attempt to connect arms the timer for the next one and doubles the timeout until
  it has reached 1600 milliseconds: after \<open>n + 1\<close> failures the timer runs for
  \<open>100 * 2 ^ min n 4\<close> milliseconds, whatever was to be sent.
\<close>

theorem connect_backoff:
  "\<exists>e. failed_connects sq (Suc n) (client_endpoint_init limit queue_limit) = Some e
    \<and> ce_connect_timer e = Some (100 * 2 ^ min n 4) \<and> ce_connect_timeout e = 100 * 2 ^ min (Suc n) 4
    \<and> ce_state e = CEI_CLOSED"
  unfolding failed_connects_state by (simp add: client_endpoint_init_def backoff_def)

end
