(* ===== verification/Server_Endpoint.thy ===== *)
theory Server_Endpoint
  imports Client_Endpoint Tcp_Server_Endpoint
begin

text \<open>
  The sending side of the server endpoints: \<^verbatim>\<open>server_endpoint_impl.cpp\<close> with what
  \<^verbatim>\<open>udp_server_endpoint_impl.cpp\<close> and \<^verbatim>\<open>tcp_server_endpoint_impl.cpp\<close> add to it.  A server has a
  train and a queue for every remote endpoint, and a table that tells from where the requests
  came that are not answered yet.

  The queue iterators of the code are kept as the endpoint they stand for.  The virtual
  \<^verbatim>\<open>send_queued\<close> is the argument \<open>sq\<close>, and \<^verbatim>\<open>get_default_target\<close> the argument \<open>target_of\<close>.
\<close>

section \<open>The base class\<close>

datatype server_action = Send_to ip_endpoint "byte list"

record server_endpoint =
  se_max_message_size :: u32
  se_queue_limit :: u32
  se_sending_blocked :: bool
  se_packetizer :: "ip_endpoint \<rightharpoonup> byte list"
  se_queues :: "ip_endpoint \<rightharpoonup> nat \<times> byte list list"
  se_clients :: "u16 \<rightharpoonup> u16 \<rightharpoonup> ip_endpoint"
  se_clients_to_endpoint :: "u16 \<rightharpoonup> ip_endpoint"
  se_flush_timer :: "ip_endpoint option"

type_synonym 'a server_send_queued =
  "int \<Rightarrow> ip_endpoint \<Rightarrow> 'a server_endpoint_scheme \<Rightarrow> (server_action list \<times> 'a server_endpoint_scheme) ub"

definition server_stop :: "'a server_endpoint_scheme \<Rightarrow> 'a server_endpoint_scheme" where
  "server_stop s = s\<lparr>se_sending_blocked := True\<rparr>"

text \<open>The train and the queue of a target, which are created when they are first needed.\<close>

definition train_of :: "ip_endpoint \<Rightarrow> 'a server_endpoint_scheme \<Rightarrow> byte list" where
  "train_of t s = (case se_packetizer s t of Some p \<Rightarrow> p | None \<Rightarrow> [])"

definition queue_of :: "ip_endpoint \<Rightarrow> 'a server_endpoint_scheme \<Rightarrow> nat \<times> byte list list" where
  "queue_of t s = (case se_queues s t of Some x \<Rightarrow> x | None \<Rightarrow> (0, []))"

definition server_put :: "ip_endpoint \<Rightarrow> byte list \<Rightarrow> nat \<Rightarrow> byte list list
    \<Rightarrow> 'a server_endpoint_scheme \<Rightarrow> 'a server_endpoint_scheme" where
  "server_put t p n q s =
     s\<lparr>se_packetizer := (se_packetizer s)(t \<mapsto> p), se_queues := (se_queues s)(t \<mapsto> (n, q))\<rparr>"

definition send_intern :: "'a server_send_queued \<Rightarrow> int \<Rightarrow> ip_endpoint \<Rightarrow> byte list \<Rightarrow> bool
    \<Rightarrow> 'a server_endpoint_scheme \<Rightarrow> (bool \<times> server_action list \<times> 'a server_endpoint_scheme) ub" where
  "send_intern sq now t data flush s =
     (if se_max_message_size s \<noteq> MESSAGE_SIZE_UNLIMITED \<and> length data > unat (se_max_message_size s)
      then Some (False, [], s)
      else let p = train_of t s;
               (n, q) = queue_of t s;
               queue_size_zero_on_entry = (q = []);
               (p, n, q) = (if length p + length data > unat (se_max_message_size s) \<and> p \<noteq> []
                            then ([], n + length p, q @ [p]) else (p, n, q))
           in if se_queue_limit s \<noteq> QUEUE_SIZE_UNLIMITED \<and> n + length data > unat (se_queue_limit s)
              then Some (False, [], server_put t p n q s)
              else let p = p @ data;
                       (p, n, q, timer) = (if flush then ([], n + length p, q @ [p], None)
                                           else (p, n, q, Some t));
                       s = (server_put t p n q s)\<lparr>se_flush_timer := timer\<rparr>
                   in if queue_size_zero_on_entry \<and> q \<noteq> []
                      then do { (acts, s) \<leftarrow> sq now t s; Some (True, acts, s) }
                      else Some (True, [], s))"

text \<open>
  A message for a client goes to where its request came from, once; a message that answers
  nothing goes to the default target of its service.  The identifiers are copied with
  \<^verbatim>\<open>memcpy\<close>, as they are when the request is received.
\<close>

definition server_send :: "(u16 \<Rightarrow> 'a server_endpoint_scheme \<Rightarrow> ip_endpoint option) \<Rightarrow> 'a server_send_queued
    \<Rightarrow> int \<Rightarrow> byte list \<Rightarrow> bool \<Rightarrow> 'a server_endpoint_scheme
    \<Rightarrow> (bool \<times> server_action list \<times> 'a server_endpoint_scheme) ub" where
  "server_send target_of sq now data flush s =
     (if 11 < length data
      then if se_sending_blocked s then Some (False, [], s)
           else do {
             its_service \<leftarrow> raw_word data 0;
             its_client \<leftarrow> raw_word data 8;
             its_session \<leftarrow> raw_word data 10;
             case se_clients s its_client of
               Some sessions \<Rightarrow>
                 (case sessions its_session of
                    Some its_target \<Rightarrow>
                      send_intern sq now its_target data flush
                        (s\<lparr>se_clients := (se_clients s)(its_client \<mapsto> sessions(its_session := None))\<rparr>)
                  | None \<Rightarrow> Some (False, [], s))
             | None \<Rightarrow>
                 (case target_of its_service s of
                    Some its_target \<Rightarrow> send_intern sq now its_target data flush s
                  | None \<Rightarrow> Some (False, [], s)) }
      else Some (False, [], s))"

definition server_flush :: "'a server_send_queued \<Rightarrow> int \<Rightarrow> ip_endpoint
    \<Rightarrow> 'a server_endpoint_scheme \<Rightarrow> (bool \<times> server_action list \<times> 'a server_endpoint_scheme) ub" where
  "server_flush sq now t s =
     (case se_queues s t of
        Some (n, b # q) \<Rightarrow> do { (acts, s) \<leftarrow> sq now t s; Some (True, acts, s) }
      | _ \<Rightarrow> Some (False, [], s))"

definition server_flush_cbk :: "'a server_send_queued \<Rightarrow> int \<Rightarrow> ip_endpoint \<Rightarrow> asio_error
    \<Rightarrow> 'a server_endpoint_scheme \<Rightarrow> (server_action list \<times> 'a server_endpoint_scheme) ub" where
  "server_flush_cbk sq now t err s =
     (if err = No_error then map_option snd (server_flush sq now t s) else Some ([], s))"

definition server_send_cbk :: "'a server_send_queued \<Rightarrow> int \<Rightarrow> ip_endpoint \<Rightarrow> asio_error
    \<Rightarrow> 'a server_endpoint_scheme \<Rightarrow> (server_action list \<times> 'a server_endpoint_scheme) ub" where
  "server_send_cbk sq now t err s =
     (case se_queues s t of
        None \<Rightarrow> None
      | Some (n, q) \<Rightarrow>
          if err = No_error
          then (case q of
                  [] \<Rightarrow> None
                | b # q \<Rightarrow>
                    let s = s\<lparr>se_queues := (se_queues s)(t \<mapsto> (n - length b, q))\<rparr>
                    in if q \<noteq> [] then sq now t s else Some ([], s))
          else Some ([], s\<lparr>se_queues := (se_queues s)(t := None)\<rparr>))"

section \<open>UDP and TCP\<close>

definition udp_server_send_queued :: "'a server_send_queued" where
  "udp_server_send_queued now t s =
     (case se_queues s t of Some (n, b # q) \<Rightarrow> Some ([Send_to t b], s) | _ \<Rightarrow> None)"

record tcp_connection =
  tc_max_message_size :: u32
  tc_magic_cookies_enabled :: bool
  tc_last_cookie_sent :: int

record tcp_server = server_endpoint +
  ts_connections :: "ip_endpoint \<rightharpoonup> tcp_connection"




definition tcp_server_stop :: "tcp_server \<Rightarrow> tcp_server" where
  "tcp_server_stop s = (server_stop s)\<lparr>ts_connections := Map.empty\<rparr>"

definition tcp_server_is_established :: "ip_endpoint \<Rightarrow> tcp_server \<Rightarrow> bool" where
  "tcp_server_is_established t s \<longleftrightarrow> ts_connections s t \<noteq> None"

definition tcp_server_get_default_target :: "u16 \<Rightarrow> tcp_server \<Rightarrow> ip_endpoint option" where
  "tcp_server_get_default_target service s = None"


section \<open>A server at work\<close>

text \<open>
  \<open>server_run sq ok s pending popped accepted resent\<close>: per target, the writes that are started
  and not completed, the buffers completed, and the data accepted.  The steps are calls of
  \<^verbatim>\<open>send_intern\<close>, the flush timer expiring, writes completed or failing, and anything that leaves
  queues, trains and limits as they are: the tables of clients, the timer, the connections
  accepted and removed.  The limits of the message and of the queue are arbitrary.

  When the queue of a target is gone, because a write failed or the TCP server has no connection
  to it, what was queued is lost, and the account of the target begins again with its train.  The
  flush timer sends the front of the queue even if it is under way already; \<open>resent\<close> has the
  targets to which that happened.
\<close>

definition sends_of :: "ip_endpoint \<Rightarrow> server_action list \<Rightarrow> byte list list" where
  "sends_of t acts = concat (map (\<lambda>a. case a of Send_to u b \<Rightarrow> if u = t then [b] else []) acts)"

lemma sends_of_simps [simp]:
  "sends_of t [] = []" "sends_of t (Send_to u b # as) = (if u = t then [b] else []) @ sends_of t as"
  by (simp_all add: sends_of_def)






text \<open>What the server has for one target is what a client has for its server.\<close>

definition slot :: "ip_endpoint \<Rightarrow> 'a server_endpoint_scheme \<Rightarrow> client_endpoint" where
  "slot t s = (client_endpoint_init (se_max_message_size s) (se_queue_limit s))
     \<lparr>ce_packetizer := train_of t s, ce_queue := snd (queue_of t s), ce_queue_size := fst (queue_of t s)\<rparr>"

lemma slot_fields [simp]:
  "ce_packetizer (slot t s) = train_of t s" "ce_queue (slot t s) = snd (queue_of t s)"
  "ce_queue_size (slot t s) = fst (queue_of t s)" "ce_max_message_size (slot t s) = se_max_message_size s"
  "ce_queue_limit (slot t s) = se_queue_limit s" "\<not> ce_was_not_connected (slot t s)"
  "\<not> ce_sending_blocked (slot t s)"
  by (simp_all add: slot_def client_endpoint_init_def)

lemma queue_put [simp]:
  "queue_of u (server_put t p n q s) = (if u = t then (n, q) else queue_of u s)"
  "train_of u (server_put t p n q s) = (if u = t then p else train_of u s)"
  "se_max_message_size (server_put t p n q s) = se_max_message_size s"
  "se_queue_limit (server_put t p n q s) = se_queue_limit s"
  "se_queues (server_put t p n q s) = (se_queues s)(t \<mapsto> (n, q))"
  by (simp_all add: server_put_def queue_of_def train_of_def)

lemma queue_of_timer [simp]:
  "queue_of u (s\<lparr>se_flush_timer := x\<rparr>) = queue_of u s" "train_of u (s\<lparr>se_flush_timer := x\<rparr>) = train_of u s"
  by (simp_all add: queue_of_def train_of_def)




section \<open>The contract of send_queued\<close>


section \<open>The UDP and the TCP server as senders\<close>





definition sample_server :: server_endpoint where
  "sample_server = \<lparr>se_max_message_size = 1416, se_queue_limit = QUEUE_SIZE_UNLIMITED, se_sending_blocked = False,
     se_packetizer = Map.empty, se_queues = Map.empty, se_clients = Map.empty,
     se_clients_to_endpoint = Map.empty, se_flush_timer = None\<rparr>"






section \<open>Flushing\<close>

text \<open>
  A server never sends a train because its time is up: the flush timer started by
  \<^verbatim>\<open>send\<close> only sends what is queued, and the data given to \<^verbatim>\<open>send\<close> without the request to flush
  is still in the train afterwards.
\<close>

theorem unflushed_train_is_not_sent:
  assumes "se_queues s t = None" and "train_of t s = []"
    and "length data \<le> unat (se_max_message_size s)"
    and "se_queue_limit s = QUEUE_SIZE_UNLIMITED \<or> length data \<le> unat (se_queue_limit s)"
  shows "\<exists>s'. send_intern sq now t data False s = Some (True, [], s') \<and> se_flush_timer s' = Some t
    \<and> server_flush_cbk sq later t No_error s' = Some ([], s') \<and> train_of t s' = data"
  using assms
  by (auto simp: send_intern_def queue_of_def server_flush_cbk_def server_flush_def server_put_def train_of_def)

theorem unflushed_train_is_not_sent_witness:
  "\<exists>s'. send_intern udp_server_send_queued 0 ([], 1) [7, 8] False sample_server = Some (True, [], s')
    \<and> server_flush_cbk udp_server_send_queued 1 ([], 1) No_error s' = Some ([], s') \<and> train_of ([], 1) s' = [7, 8]"
proof -
  have "se_queues sample_server ([], 1) = None" "train_of ([], 1) sample_server = []"
    "length [7, 8 :: byte] \<le> unat (se_max_message_size sample_server)"
    "se_queue_limit sample_server = QUEUE_SIZE_UNLIMITED"
    by (simp_all add: sample_server_def train_of_def)
  from unflushed_train_is_not_sent [OF this(1-3) disjI1 [OF this(4)]] show ?thesis by blast
qed

text \<open>
  If the timer expires while a datagram is under way, its front is sent a second time, and
  the second of the two completions removes a buffer from a queue that the first may have emptied.
\<close>

theorem flush_while_sending_pops_twice:
  assumes "se_queues s t = Some (n, [b])"
  shows "\<exists>s'. server_flush udp_server_send_queued now t s = Some (True, [Send_to t b], s)
    \<and> server_send_cbk udp_server_send_queued now t No_error s = Some ([], s')
    \<and> server_send_cbk udp_server_send_queued now t No_error s' = None"
  using assms by (simp add: server_flush_def server_send_cbk_def udp_server_send_queued_def)

end
