(* ===== verification/Udp_Endpoint.thy ===== *)
theory Udp_Endpoint
  imports Server_Endpoint "HOL-Library.AList"
begin

text \<open>
  The receiving side of \<^verbatim>\<open>udp_server_endpoint_impl.cpp\<close> and \<^verbatim>\<open>udp_client_endpoint_impl.cpp\<close>, and
  the multicast groups and default targets of the server.  A datagram holds one or more
  messages, which both endpoints cut apart with the same loop; they differ in what they do
  with a message (\<open>on_full\<close>) and with a remainder that is none (\<open>on_bad\<close>).
\<close>

section \<open>The loop over a datagram\<close>

text \<open>The result tells whether the endpoint goes on receiving.\<close>

function udp_loop :: "(nat \<Rightarrow> nat \<Rightarrow> nat \<Rightarrow> 's \<Rightarrow> 's ub) \<Rightarrow> (nat \<Rightarrow> nat \<Rightarrow> nat \<Rightarrow> 's \<Rightarrow> 's ub)
    \<Rightarrow> byte list \<Rightarrow> nat \<Rightarrow> nat \<Rightarrow> 's \<Rightarrow> (bool \<times> 's) ub" where
  "udp_loop on_full on_bad buf i remaining s =
     Option.bind (get_message_size (drop i buf) remaining) (\<lambda>read_message_size.
     if read_message_size > unat MESSAGE_SIZE_UNLIMITED then Some (False, s)
     else if read_message_size > unat VSOMEIP_SOMEIP_HEADER_SIZE \<and> read_message_size \<le> remaining
     then Option.bind (on_full i read_message_size (remaining - read_message_size) s) (\<lambda>s.
       if remaining - read_message_size > 0
       then udp_loop on_full on_bad buf (i + read_message_size) (remaining - read_message_size) s
       else Some (True, s))
     else Option.bind (on_bad i read_message_size remaining s) (\<lambda>s. Some (True, s)))"
  by pat_completeness auto

termination by (relation "measure (\<lambda>(on_full, on_bad, buf, i, remaining, s). remaining)") auto

declare udp_loop.simps [simp del]

section \<open>The UDP server\<close>

definition VSOMEIP_SD_SERVICE :: u16 where "VSOMEIP_SD_SERVICE = 0xFFFF"
definition VSOMEIP_MAX_UDP_MESSAGE_SIZE :: u32 where "VSOMEIP_MAX_UDP_MESSAGE_SIZE = 1416"

record udp_server = server_endpoint +
  us_default_targets :: "u16 \<rightharpoonup> ip_endpoint"
  us_joined :: "(string \<times> bool) list"
  us_joined_group :: bool
  us_recv_buffer :: "byte list"

definition udp_server_init :: "u32 \<Rightarrow> udp_server" where
  "udp_server_init queue_limit =
     \<lparr>se_max_message_size = VSOMEIP_MAX_UDP_MESSAGE_SIZE, se_queue_limit = queue_limit, se_sending_blocked = False,
      se_packetizer = Map.empty, se_queues = Map.empty, se_clients = Map.empty,
      se_clients_to_endpoint = Map.empty, se_flush_timer = None,
      us_default_targets = Map.empty, us_joined = [], us_joined_group = False,
      us_recv_buffer = replicate (unat VSOMEIP_MAX_UDP_MESSAGE_SIZE) 0\<rparr>"

definition us_remember_client :: "ip_endpoint \<Rightarrow> u16 \<Rightarrow> u16 \<Rightarrow> udp_server \<Rightarrow> udp_server" where
  "us_remember_client remote its_client its_session s =
     s\<lparr>se_clients := (se_clients s)(its_client \<mapsto>
          (case se_clients s its_client of Some m \<Rightarrow> m | None \<Rightarrow> Map.empty)(its_session \<mapsto> remote)),
       se_clients_to_endpoint := (se_clients_to_endpoint s)(its_client \<mapsto> remote)\<rparr>"

definition us_mark_received :: "string \<Rightarrow> udp_server \<Rightarrow> udp_server" where
  "us_mark_received destination s =
     (case map_of (us_joined s) destination of
        Some b \<Rightarrow> s\<lparr>us_joined := AList.update destination True (us_joined s)\<rparr>
      | None \<Rightarrow> s)"

definition udp_server_on_full :: "string \<Rightarrow> ip_endpoint \<Rightarrow> byte list \<Rightarrow> nat \<Rightarrow> nat \<Rightarrow> nat
    \<Rightarrow> host_call list \<times> udp_server \<Rightarrow> (host_call list \<times> udp_server) ub" where
  "udp_server_on_full destination remote buf i current_message_size remaining = (\<lambda>(calls, s). do {
     b0 \<leftarrow> vec_get buf i;
     b1 \<leftarrow> vec_get buf (i + 1);
     let its_service = VSOMEIP_BYTES_TO_WORD b0 b1;
     t \<leftarrow> vec_get buf (i + 14);
     s \<leftarrow> (if is_request t
          then do {
            its_client \<leftarrow> raw_word buf (i + 8);
            its_session \<leftarrow> raw_word buf (i + 10);
            Some (us_remember_client remote its_client its_session s) }
          else if its_service \<noteq> VSOMEIP_SD_SERVICE \<and> is_notification t \<and> us_joined_group s
          then Some (us_mark_received destination s)
          else Some s);
     if its_service \<noteq> VSOMEIP_SD_SERVICE
        \<or> current_message_size > unat VSOMEIP_SOMEIP_HEADER_SIZE \<and> current_message_size \<ge> remaining
     then do { m \<leftarrow> slice buf i current_message_size; Some (calls @ [On_message m], s) }
     else Some (calls, s) })"

definition udp_server_on_bad :: "byte list \<Rightarrow> nat \<Rightarrow> nat \<Rightarrow> nat
    \<Rightarrow> host_call list \<times> udp_server \<Rightarrow> (host_call list \<times> udp_server) ub" where
  "udp_server_on_bad buf i read_message_size remaining = (\<lambda>(calls, s).
     if remaining > 1
     then do {
       b0 \<leftarrow> vec_get buf 0;
       b1 \<leftarrow> vec_get buf 1;
       if VSOMEIP_BYTES_TO_WORD b0 b1 \<noteq> VSOMEIP_SD_SERVICE \<and> read_message_size \<noteq> 0
       then do { m \<leftarrow> slice buf i remaining; Some (calls @ [On_error m], s) }
       else Some (calls, s) }
     else Some (calls, s))"

text \<open>
  The callback, for the datagram \<open>bs\<close> that the socket has put at the front of the buffer: whether
  the next receive is started, what the host was told, and the new state.
\<close>

definition udp_server_receive_cbk :: "asio_error \<Rightarrow> byte list \<Rightarrow> string \<Rightarrow> ip_endpoint \<Rightarrow> udp_server
    \<Rightarrow> (bool \<times> host_call list \<times> udp_server) ub" where
  "udp_server_receive_cbk err bs destination remote s =
     (if err = No_error \<and> bs \<noteq> []
      then let buf = bs @ drop (length bs) (us_recv_buffer s)
           in udp_loop (udp_server_on_full destination remote buf) (udp_server_on_bad buf) buf 0 (length bs)
                ([], s\<lparr>us_recv_buffer := buf\<rparr>)
      else Some (True, [], s))"

definition udp_server_get_client :: "ip_endpoint \<Rightarrow> udp_server \<Rightarrow> u16" where
  "udp_server_get_client endpoint s =
     (let ks = {k. se_clients_to_endpoint s k = Some endpoint}
      in if ks = {} then 0 else let k = Min ks in push_bit 8 k OR drop_bit 8 k)"

text \<open>
  Joining and leaving multicast groups.  A socket option that the operating system refuses
  throws; \<open>joins\<close> and \<open>leaves\<close> tell whether it accepts them.
\<close>

definition join_func :: "bool \<Rightarrow> string \<Rightarrow> udp_server \<Rightarrow> udp_server" where
  "join_func joins addr s =
     (if joins then s\<lparr>us_joined := AList.update addr False (us_joined s), us_joined_group := True\<rparr> else s)"

definition udp_leave :: "bool \<Rightarrow> string \<Rightarrow> udp_server \<Rightarrow> udp_server" where
  "udp_leave leaves addr s =
     (if map_of (us_joined s) addr \<noteq> None \<and> leaves
      then let joined = AList.delete addr (us_joined s)
           in s\<lparr>us_joined := joined, us_joined_group := (if joined = [] then False else us_joined_group s)\<rparr>
      else s)"

definition udp_join :: "bool \<Rightarrow> bool \<Rightarrow> string \<Rightarrow> udp_server \<Rightarrow> udp_server" where
  "udp_join joins leaves addr s =
     (case map_of (us_joined s) addr of
        None \<Rightarrow> join_func joins addr s
      | Some has_received \<Rightarrow> if \<not> has_received then join_func joins addr (udp_leave leaves addr s) else s)"

definition add_default_target :: "u16 \<Rightarrow> ip_endpoint \<Rightarrow> udp_server \<Rightarrow> udp_server" where
  "add_default_target service target s = s\<lparr>us_default_targets := (us_default_targets s)(service \<mapsto> target)\<rparr>"

definition remove_default_target :: "u16 \<Rightarrow> udp_server \<Rightarrow> udp_server" where
  "remove_default_target service s = s\<lparr>us_default_targets := (us_default_targets s)(service := None)\<rparr>"

definition get_default_target :: "u16 \<Rightarrow> udp_server \<Rightarrow> ip_endpoint option" where
  "get_default_target service s = us_default_targets s service"

section \<open>The UDP client\<close>

definition udp_client_on_full :: "byte list \<Rightarrow> nat \<Rightarrow> nat \<Rightarrow> nat \<Rightarrow> host_call list \<Rightarrow> host_call list ub" where
  "udp_client_on_full buf i current_message_size remaining calls = do {
     m \<leftarrow> slice buf i current_message_size;
     Some (calls @ [On_message m]) }"

definition udp_client_on_bad :: "nat \<Rightarrow> nat \<Rightarrow> nat \<Rightarrow> host_call list \<Rightarrow> host_call list ub" where
  "udp_client_on_bad i read_message_size remaining calls = Some calls"

definition udp_client_receive_cbk :: "asio_error \<Rightarrow> byte list \<Rightarrow> byte list \<Rightarrow> client_endpoint
    \<Rightarrow> (client_action list \<times> host_call list \<times> client_endpoint) ub" where
  "udp_client_receive_cbk err bs recv_buffer e =
     (if err = Operation_aborted then Some ([], [], e)
      else if err = No_error
      then if bs \<noteq> []
           then let buf = bs @ drop (length bs) recv_buffer
                in map_option (\<lambda>(again, calls). (if again then [Receive] else [], calls, e))
                     (udp_loop (udp_client_on_full buf) udp_client_on_bad buf 0 (length bs) [])
           else Some ([Receive], [], e)
      else if err = Connection_refused
      then let (acts, e) = shutdown_and_close_socket False e in Some (acts, [], e)
      else Some ([Receive], [], e))"

section \<open>Datagrams of messages\<close>

definition udp_message :: "byte list \<Rightarrow> bool" where
  "udp_message m \<longleftrightarrow> 16 \<le> length m \<and> get_message_size m (length m) = Some (length m)"

text \<open>
  The contract of \<open>on_full\<close>: on a message of the expected kind it has the effect \<open>f\<close>, wherever the
  message stands in the buffer.  Then a datagram of such messages has the effect of all of them in turn.
\<close>

locale datagram =
  fixes on_full :: "byte list \<Rightarrow> nat \<Rightarrow> nat \<Rightarrow> nat \<Rightarrow> 's \<Rightarrow> 's ub"
    and f :: "byte list \<Rightarrow> 's \<Rightarrow> 's"
    and good :: "byte list \<Rightarrow> bool"
  assumes good_message: "good m \<Longrightarrow> udp_message m"
    and full: "good m \<Longrightarrow> on_full (pre @ m @ post) (length pre) (length m) k s = Some (f m s)"
begin

lemma good_not_empty: "good m \<Longrightarrow> m \<noteq> []"
  using good_message by (force simp: udp_message_def)

lemma loop_messages:
  assumes "ms \<noteq> []" and "list_all good ms" and "buf = pre @ concat ms @ post"
  shows "udp_loop (on_full buf) on_bad buf (length pre) (length (concat ms)) s = Some (True, fold f ms s)"
  using assms
proof (induction ms arbitrary: pre s)
  case (Cons m ms)
  have m: "16 \<le> length m" "get_message_size m (length m) = Some (length m)"
    using Cons.prems(2) good_message by (auto simp: udp_message_def)
  have sz: "get_message_size (drop (length pre) buf) (length (concat (m # ms))) = Some (length m)"
    using m Cons.prems(3)
      get_message_size_prefix [of m "length (concat (m # ms))" "length m" "concat ms @ post"] by simp
  have step: "on_full buf (length pre) (length m) (length (concat ms)) s = Some (f m s)"
    using full [of m pre "concat ms @ post"] Cons.prems(2,3) by simp
  have bound: "\<not> length m > unat MESSAGE_SIZE_UNLIMITED" using get_message_size_bound [OF m(2)] by simp
  show ?case
  proof (cases "ms = []")
    case True
    then show ?thesis
      using m sz step bound by (subst udp_loop.simps) (simp del: unat_numeral)
  next
    case False
    then have "concat ms \<noteq> []" using Cons.prems(2) good_not_empty by (cases ms) auto
    moreover have "udp_loop (on_full buf) on_bad buf (length (pre @ m)) (length (concat ms)) (f m s)
        = Some (True, fold f ms (f m s))"
      using Cons.IH [of "pre @ m"] False Cons.prems(2,3) by simp
    ultimately show ?thesis
      using m sz step bound by (subst udp_loop.simps) simp
  qed
qed simp

end

lemma slice_middle: "slice (pre @ m @ post) (length pre) (length m) = Some m"
  by (simp add: slice_def)

lemma vec_get_middle: "i < length m \<Longrightarrow> vec_get (pre @ m @ post) (length pre + i) = Some (m ! i)"
  by (simp add: nth_append)

interpretation udp_client: datagram udp_client_on_full "\<lambda>m calls. calls @ [On_message m]" udp_message
  by unfold_locales (simp_all add: udp_client_on_full_def slice_middle)

text \<open>What a server notes of a message: where a request came from, or that a group is alive.\<close>

definition raw_id :: "byte list \<Rightarrow> nat \<Rightarrow> u16" where
  "raw_id m k = VSOMEIP_BYTES_TO_WORD (m ! (k + 1)) (m ! k)"

definition us_note :: "string \<Rightarrow> ip_endpoint \<Rightarrow> byte list \<Rightarrow> udp_server \<Rightarrow> udp_server" where
  "us_note destination remote m s =
     (if is_request (m ! 14) then us_remember_client remote (raw_id m 8) (raw_id m 10) s
      else if is_notification (m ! 14) \<and> us_joined_group s then us_mark_received destination s else s)"

definition us_message :: "byte list \<Rightarrow> bool" where
  "us_message m \<longleftrightarrow> udp_message m \<and> VSOMEIP_BYTES_TO_WORD (m ! 0) (m ! 1) \<noteq> VSOMEIP_SD_SERVICE"

lemma raw_word_middle:
  "k + 1 < length m \<Longrightarrow> raw_word (pre @ m @ post) (length pre + k) = Some (raw_id m k)"
  using vec_get_middle [of k m pre post] vec_get_middle [of "k + 1" m pre post]
  by (simp add: raw_word_def raw_id_def del: vec_get_Some)

interpretation udp_server_rx: datagram "udp_server_on_full destination remote"
  "\<lambda>m (calls, s). (calls @ [On_message m], us_note destination remote m s)" us_message
  for destination remote
proof (unfold_locales, goal_cases)
  case (2 m pre post k s)
  then have m: "16 \<le> length m" "VSOMEIP_BYTES_TO_WORD (m ! 0) (m ! 1) \<noteq> VSOMEIP_SD_SERVICE"
    by (simp_all add: us_message_def udp_message_def)
  have "m \<noteq> []" using m(1) by force
  then have get: "vec_get (pre @ m @ post) (length pre) = Some (m ! 0)"
    "vec_get (pre @ m @ post) (length pre + 1) = Some (m ! 1)"
    "vec_get (pre @ m @ post) (length pre + 14) = Some (m ! 14)"
    using vec_get_middle [of 0 m pre post] vec_get_middle [of 1 m pre post] vec_get_middle [of 14 m pre post] m(1)
    by (auto simp del: vec_get_Some)
  have raw: "raw_word (pre @ m @ post) (length pre + 8) = Some (raw_id m 8)"
    "raw_word (pre @ m @ post) (length pre + 10) = Some (raw_id m 10)"
    using m(1) by (simp_all add: raw_word_middle)
  show ?case
    using m unfolding udp_server_on_full_def us_note_def
    by (cases s) (simp only: prod.case get raw slice_middle Let_def bind.bind_lunit if_distrib, simp)
qed (simp add: us_message_def)

lemma fold_calls:
  "fold (\<lambda>m (calls, s). (calls @ [On_message m], g m s)) ms (calls, s) = (calls @ map On_message ms, fold g ms s)"
  by (induction ms arbitrary: calls s) simp_all

lemma udp_server_messages:
  assumes "ms \<noteq> []" and "list_all us_message ms"
  shows "udp_server_receive_cbk No_error (concat ms) destination remote s
    = Some (True, map On_message ms, fold (us_note destination remote) ms
        (s\<lparr>us_recv_buffer := concat ms @ drop (length (concat ms)) (us_recv_buffer s)\<rparr>))"
proof -
  let ?buf = "concat ms @ drop (length (concat ms)) (us_recv_buffer s)"
  have "concat ms \<noteq> []" using assms udp_server_rx.good_not_empty by (cases ms) auto
  moreover from udp_server_rx.loop_messages [OF assms, of ?buf "[]" "drop (length (concat ms)) (us_recv_buffer s)"]
  have "udp_loop (udp_server_on_full destination remote ?buf) (udp_server_on_bad ?buf) ?buf 0 (length (concat ms))
      ([], s\<lparr>us_recv_buffer := ?buf\<rparr>)
    = Some (True, map On_message ms, fold (us_note destination remote) ms (s\<lparr>us_recv_buffer := ?buf\<rparr>))"
    by (simp add: fold_calls)
  ultimately show ?thesis by (simp add: udp_server_receive_cbk_def)
qed

text \<open>
  C32. A datagram that consists of messages (of services other than service discovery) is handed to
  the host message by message, in order and without an access outside the buffer; the
  server goes on receiving, and has noted of each request where it came from.
\<close>

theorem udp_server_datagram_delivered:
  assumes "ms \<noteq> []" and "list_all us_message ms"
  shows "udp_server_receive_cbk No_error (concat ms) destination remote s
    = Some (True, map On_message ms, fold (us_note destination remote) ms
        (s\<lparr>us_recv_buffer := concat ms @ drop (length (concat ms)) (us_recv_buffer s)\<rparr>))"
  using assms by (rule udp_server_messages)

lemma sample_frame_us: "us_message sample_frame"
  by (simp add: us_message_def udp_message_def sample_frame_size)
    (simp add: sample_frame_def VSOMEIP_SD_SERVICE_def VSOMEIP_BYTES_TO_WORD_def)

theorem udp_server_datagram_delivered_witness:
  "\<exists>s. udp_server_receive_cbk No_error (sample_frame @ sample_frame) ''224.0.0.1'' ([], 1)
      (udp_server_init QUEUE_SIZE_UNLIMITED) = Some (True, [On_message sample_frame, On_message sample_frame], s)"
  using udp_server_datagram_delivered [of "[sample_frame, sample_frame]" "''224.0.0.1''" "([], 1)"
      "udp_server_init QUEUE_SIZE_UNLIMITED"] sample_frame_us
  by simp

text \<open>C107. The same of a UDP client, for every datagram of messages.\<close>

theorem udp_client_datagram_delivered:
  assumes "ms \<noteq> []" and "list_all udp_message ms"
  shows "udp_client_receive_cbk No_error (concat ms) recv_buffer e = Some ([Receive], map On_message ms, e)"
proof -
  let ?buf = "concat ms @ drop (length (concat ms)) recv_buffer"
  have "fold (\<lambda>m calls. calls @ [On_message m]) ms calls = calls @ map On_message ms" for calls
    by (induction ms arbitrary: calls) simp_all
  moreover have "concat ms \<noteq> []" using assms udp_client.good_not_empty by (cases ms) auto
  ultimately show ?thesis
    using udp_client.loop_messages [OF assms, of ?buf "[]" "drop (length (concat ms)) recv_buffer" udp_client_on_bad "[]"]
    by (simp add: udp_client_receive_cbk_def)
qed

theorem udp_client_datagram_delivered_witness:
  "udp_client_receive_cbk No_error sample_frame (replicate 1416 0) ce_sample
    = Some ([Receive], [On_message sample_frame], ce_sample)"
  using udp_client_datagram_delivered [of "[sample_frame]" "replicate 1416 0" ce_sample] sample_frame_us
  by (simp add: us_message_def)

section \<open>Requests and responses\<close>

lemma raw_word_eq: "k + 1 < length m \<Longrightarrow> raw_word m k = Some (raw_id m k)"
  using raw_word_middle [of k m "[]" "[]"] by simp

lemma server_send_found:
  assumes "11 < length r" and "\<not> se_sending_blocked s"
    and "se_clients s (raw_id r 8) = Some sessions" and "sessions (raw_id r 10) = Some target"
  shows "server_send target_of sq now r flush s
    = send_intern sq now target r flush
        (s\<lparr>se_clients := (se_clients s)(raw_id r 8 \<mapsto> sessions(raw_id r 10 := None))\<rparr>)"
  using assms by (simp add: server_send_def raw_word_eq)

lemma server_send_answered:
  assumes "11 < length r" and "\<not> se_sending_blocked s"
    and "se_clients s (raw_id r 8) = Some sessions" and "sessions (raw_id r 10) = None"
  shows "server_send target_of sq now r flush s = Some (False, [], s)"
  using assms by (simp add: server_send_def raw_word_eq)

text \<open>
  C13. The response to a request received in a datagram of its own goes to the endpoint the request came
  from, whatever the server knew before; the request is then answered, so that a second
  response to it is refused.
\<close>

theorem response_goes_to_requester:
  assumes "us_message m" and "is_request (m ! 14)"
    and "udp_server_receive_cbk No_error m destination remote s = Some (again, calls, s1)"
    and "\<not> se_sending_blocked s" and "11 < length r"
    and "raw_id r 8 = raw_id m 8" and "raw_id r 10 = raw_id m 10"
  shows "\<exists>s2. server_send get_default_target sq now r flush s1 = send_intern sq now remote r flush s2
    \<and> s2 = s1\<lparr>se_clients := se_clients s2\<rparr>
    \<and> (\<forall>s3. se_clients s3 = se_clients s2 \<and> \<not> se_sending_blocked s3 \<longrightarrow>
          server_send get_default_target sq now r flush s3 = Some (False, [], s3))"
proof -
  let ?sessions = "(case se_clients s (raw_id m 8) of Some x \<Rightarrow> x | None \<Rightarrow> Map.empty)(raw_id m 10 \<mapsto> remote)"
  from udp_server_messages [of "[m]" destination remote s] assms(1-3)
  have s1: "s1 = us_remember_client remote (raw_id m 8) (raw_id m 10)
      (s\<lparr>us_recv_buffer := m @ drop (length m) (us_recv_buffer s)\<rparr>)"
    by (simp add: us_note_def)
  let ?s2 = "s1\<lparr>se_clients := (se_clients s1)(raw_id r 8 \<mapsto> ?sessions(raw_id r 10 := None))\<rparr>"
  have "server_send get_default_target sq now r flush s1 = send_intern sq now remote r flush ?s2"
    using assms(4-7) by (intro server_send_found) (simp_all add: s1 us_remember_client_def)
  moreover have "server_send get_default_target sq now r flush s3 = Some (False, [], s3)"
    if "se_clients s3 = se_clients ?s2" "\<not> se_sending_blocked s3" for s3
    using that assms(5)
    by (intro server_send_answered [where sessions = "?sessions(raw_id r 10 := None)"]) simp_all
  ultimately show ?thesis by (intro exI [of _ ?s2]) simp
qed

definition sample_request :: "byte list" where
  "sample_request = [0x12, 0x34, 0, 1, 0, 0, 0, 8, 0, 1, 0, 1, 1, 0, 0, 0]"

lemma sample_request_us: "us_message sample_request" "is_request (sample_request ! 14)"
proof -
  have "get_message_size sample_request 16 = Some 16" by code_simp
  moreover have "length sample_request = 16" by (simp add: sample_request_def)
  moreover have "VSOMEIP_BYTES_TO_WORD (sample_request ! 0) (sample_request ! 1) \<noteq> VSOMEIP_SD_SERVICE" by code_simp
  ultimately show "us_message sample_request" by (simp add: us_message_def udp_message_def)
  show "is_request (sample_request ! 14)" by code_simp
qed

theorem response_goes_to_requester_witness:
  "\<exists>calls s1 s2. udp_server_receive_cbk No_error sample_request ''10.0.0.1'' ([10, 0, 0, 2], 30490)
      (udp_server_init QUEUE_SIZE_UNLIMITED) = Some (True, calls, s1)
    \<and> server_send get_default_target udp_server_send_queued 0 sample_frame True s1
      = send_intern udp_server_send_queued 0 ([10, 0, 0, 2], 30490) sample_frame True s2"
proof -
  obtain s1 where "udp_server_receive_cbk No_error sample_request ''10.0.0.1'' ([10, 0, 0, 2], 30490)
      (udp_server_init QUEUE_SIZE_UNLIMITED) = Some (True, [On_message sample_request], s1)"
    using udp_server_messages [of "[sample_request]" "''10.0.0.1''" "([10, 0, 0, 2], 30490)"
        "udp_server_init QUEUE_SIZE_UNLIMITED"] sample_request_us by simp
  moreover have "\<not> se_sending_blocked (udp_server_init QUEUE_SIZE_UNLIMITED)" by (simp add: udp_server_init_def)
  moreover have "raw_id sample_frame 8 = raw_id sample_request 8" "raw_id sample_frame 10 = raw_id sample_request 10"
    by (simp_all add: raw_id_def sample_frame_def sample_request_def)
  ultimately show ?thesis
    using response_goes_to_requester [OF sample_request_us, of "''10.0.0.1''" "([10, 0, 0, 2], 30490)"
        "udp_server_init QUEUE_SIZE_UNLIMITED" True _ s1 sample_frame udp_server_send_queued 0 True]
    by auto
qed

section \<open>Multicast groups\<close>

inductive udp_reachable :: "udp_server \<Rightarrow> bool" where
  init: "udp_reachable (udp_server_init queue_limit)"
| join: "udp_reachable s \<Longrightarrow> udp_reachable (udp_join joins leaves addr s)"
| leave: "udp_reachable s \<Longrightarrow> udp_reachable (udp_leave leaves addr s)"
| receive: "udp_reachable s \<Longrightarrow> udp_server_receive_cbk err bs destination remote s = Some (again, calls, s') \<Longrightarrow>
    udp_reachable s'"

definition groups_ok :: "udp_server \<Rightarrow> bool" where
  "groups_ok s \<longleftrightarrow> (us_joined_group s \<longleftrightarrow> us_joined s \<noteq> []) \<and> distinct (map fst (us_joined s))"

lemma update_not_Nil [simp]: "AList.update k v al \<noteq> []"
  by (cases al) auto

lemma groups_ok_join [simp]: "groups_ok s \<Longrightarrow> groups_ok (join_func joins addr s)"
  by (simp add: groups_ok_def join_func_def distinct_update)

lemma groups_ok_leave [simp]: "groups_ok s \<Longrightarrow> groups_ok (udp_leave leaves addr s)"
  by (auto simp: groups_ok_def udp_leave_def Let_def distinct_delete)

lemma groups_ok_mark [simp]: "groups_ok s \<Longrightarrow> groups_ok (us_mark_received destination s)"
  by (auto simp: groups_ok_def us_mark_received_def distinct_update split: option.split)

lemma groups_ok_remember [simp]: "groups_ok (us_remember_client remote c d s) = groups_ok s"
  by (simp add: groups_ok_def us_remember_client_def)

text \<open>What a message may not destroy, a datagram does not destroy.\<close>

lemma udp_loop_preserves:
  assumes "udp_loop on_full on_bad buf i remaining s = Some (again, s')" and "P s"
    and "\<And>i k r s s'. on_full i k r s = Some s' \<Longrightarrow> P s \<Longrightarrow> P s'"
    and "\<And>i k r s s'. on_bad i k r s = Some s' \<Longrightarrow> P s \<Longrightarrow> P s'"
  shows "P s'"
  using assms(1,2)
proof (induction remaining arbitrary: i s rule: less_induct)
  case (less remaining)
  from less.prems(1) obtain k where k: "get_message_size (drop i buf) remaining = Some k"
    by (subst (asm) udp_loop.simps) auto
  note loop = less.prems(1) [unfolded udp_loop.simps [of on_full on_bad buf i] k bind.bind_lunit]
  consider (big) "k > unat MESSAGE_SIZE_UNLIMITED"
    | (full) "\<not> k > unat MESSAGE_SIZE_UNLIMITED" "k > unat VSOMEIP_SOMEIP_HEADER_SIZE \<and> k \<le> remaining"
    | (bad) "\<not> k > unat MESSAGE_SIZE_UNLIMITED" "\<not> (k > unat VSOMEIP_SOMEIP_HEADER_SIZE \<and> k \<le> remaining)"
    by blast
  then show ?case
  proof cases
    case big
    with loop less.prems(2) show ?thesis by simp
  next
    case full
    from loop [unfolded if_not_P [OF full(1)] if_P [OF full(2)]] obtain s1 where
      s1: "on_full i k (remaining - k) s = Some s1"
      and rest: "(if remaining - k > 0 then udp_loop on_full on_bad buf (i + k) (remaining - k) s1
        else Some (True, s1)) = Some (again, s')"
      by auto
    from assms(3) [OF s1 less.prems(2)] have "P s1" .
    with rest less.IH [of "remaining - k" "i + k" s1] full(2) show ?thesis by (auto split: if_splits)
  next
    case bad
    from loop [unfolded if_not_P [OF bad(1)] if_not_P [OF bad(2)]]
    have "on_bad i k remaining s = Some s'" by auto
    from assms(4) [OF this less.prems(2)] show ?thesis .
  qed
qed

lemma groups_ok_full:
  assumes "udp_server_on_full destination remote buf i k r (calls, s) = Some (calls', s')" and "groups_ok s"
  shows "groups_ok s'"
  using assms
  by (auto simp: udp_server_on_full_def Let_def bind_eq_Some_conv split: if_splits)

lemma groups_ok_bad:
  assumes "udp_server_on_bad buf i k r (calls, s) = Some (calls', s')" and "groups_ok s"
  shows "groups_ok s'"
  using assms by (auto simp: udp_server_on_bad_def bind_eq_Some_conv split: if_splits)

lemma groups_ok_receive:
  assumes "udp_server_receive_cbk err bs destination remote s = Some (again, calls, s')" and ok: "groups_ok s"
  shows "groups_ok s'"
proof (cases "err = No_error \<and> bs \<noteq> []")
  case True
  let ?buf = "bs @ drop (length bs) (us_recv_buffer s)"
  have loop: "udp_loop (udp_server_on_full destination remote ?buf) (udp_server_on_bad ?buf) ?buf 0 (length bs)
      ([], s\<lparr>us_recv_buffer := ?buf\<rparr>) = Some (again, (calls, s'))"
    using assms(1) True by (simp add: udp_server_receive_cbk_def Let_def)
  have "groups_ok (snd (calls, s'))"
  proof (rule udp_loop_preserves [OF loop, of "\<lambda>x. groups_ok (snd x)"])
    show "groups_ok (snd ([], s\<lparr>us_recv_buffer := ?buf\<rparr>))" using ok by (simp add: groups_ok_def)
  qed (metis groups_ok_full prod.collapse, metis groups_ok_bad prod.collapse)
  then show ?thesis by simp
next
  case False
  with assms show ?thesis by (auto simp: udp_server_receive_cbk_def)
qed

text \<open>
  Whatever groups are joined and left, accepted or refused by the operating system, and whatever is
  received, \<^verbatim>\<open>joined_group_\<close> is set exactly when a group is joined, and no group is listed twice.
\<close>

theorem joined_group_consistent:
  "udp_reachable s \<Longrightarrow> (us_joined_group s \<longleftrightarrow> us_joined s \<noteq> []) \<and> distinct (map fst (us_joined s))"
  unfolding groups_ok_def [symmetric]
proof (induction rule: udp_reachable.induct)
  case (init queue_limit)
  show ?case by (simp add: groups_ok_def udp_server_init_def)
next
  case (join s joins leaves addr)
  then show ?case by (simp add: udp_join_def split: option.split)
qed (auto intro: groups_ok_receive)

theorem joined_group_consistent_witness:
  "us_joined_group (udp_join True True ''224.0.0.1'' (udp_server_init 0))
    \<and> us_joined (udp_join True True ''224.0.0.1'' (udp_server_init 0)) = [(''224.0.0.1'', False)]"
  using joined_group_consistent [OF udp_reachable.join [OF udp_reachable.init], of True True "''224.0.0.1''" 0]
  by (simp add: udp_join_def join_func_def udp_server_init_def)

section \<open>Arbitrary datagrams\<close>

text \<open>A loop whose handlers are defined on what lies inside the datagram is defined.\<close>

lemma udp_loop_defined:
  assumes "i + remaining \<le> length bs" and "length bs \<le> length buf"
    and "\<And>i k r s. 8 < k \<Longrightarrow> i + k + r \<le> length bs \<Longrightarrow> on_full i k r s \<noteq> None"
    and "\<And>i k r s. i + r \<le> length bs \<Longrightarrow> on_bad i k r s \<noteq> None"
  shows "udp_loop on_full on_bad buf i remaining s \<noteq> None"
  using assms(1)
proof (induction remaining arbitrary: i s rule: less_induct)
  case (less remaining)
  have "get_message_size (drop i buf) remaining \<noteq> None"
    using less.prems assms(2) by (cases "8 \<le> remaining") (simp_all add: get_message_size_def)
  then obtain k where k: "get_message_size (drop i buf) remaining = Some k" by blast
  show ?case
  proof (cases "8 < k \<and> k \<le> remaining")
    case True
    then obtain s1 where "on_full i k (remaining - k) s = Some s1"
      using assms(3) [of k i "remaining - k" s] less.prems by auto
    moreover have "udp_loop on_full on_bad buf (i + k) (remaining - k) s1 \<noteq> None"
      using True less.prems by (intro less.IH) auto
    moreover have "\<not> k > unat MESSAGE_SIZE_UNLIMITED" using get_message_size_bound [OF k] by simp
    ultimately show ?thesis using k True by (subst udp_loop.simps) auto
  next
    case False
    then obtain s1 where "on_bad i k remaining s = Some s1" using assms(4) less.prems by fastforce
    with k False show ?thesis by (subst udp_loop.simps) auto
  qed
qed

lemma udp_server_on_full_defined:
  assumes "8 < k" and "i + k + 6 \<le> length buf"
  shows "udp_server_on_full destination remote buf i k r x \<noteq> None"
  using assms by (cases x) (simp add: udp_server_on_full_def raw_word_def Let_def)

lemma udp_server_on_bad_defined:
  assumes "i + r \<le> length buf"
  shows "udp_server_on_bad buf i k r x \<noteq> None"
proof (cases "1 < r")
  case True
  then have "0 < length buf" "1 < length buf" using assms by linarith+
  then have "vec_get buf 0 = Some (buf ! 0)" "vec_get buf 1 = Some (buf ! 1)" by (simp_all only: vec_get_Some)
  with assms True show ?thesis by (cases x) (simp add: udp_server_on_bad_def)
next
  case False
  then show ?thesis by (cases x) (simp add: udp_server_on_bad_def)
qed

text \<open>
  C33. Whatever bytes arrive: the UDP client handles every datagram that its buffer can hold, and the
  UDP server every datagram that is at least six bytes shorter, without an access outside the
  buffer, and both come to an end.
\<close>

theorem datagrams_handled_in_bounds:
  "(length bs \<le> length recv_buffer \<longrightarrow> (\<exists>acts calls e'. udp_client_receive_cbk err bs recv_buffer e = Some (acts, calls, e')))
    \<and> (length bs + 6 \<le> length (us_recv_buffer s) \<longrightarrow>
        (\<exists>again calls s'. udp_server_receive_cbk err bs destination remote s = Some (again, calls, s')))"
proof (intro conjI impI)
  assume len: "length bs \<le> length recv_buffer"
  let ?buf = "bs @ drop (length bs) recv_buffer"
  have "udp_loop (udp_client_on_full ?buf) udp_client_on_bad ?buf 0 (length bs) [] \<noteq> None"
    by (rule udp_loop_defined [of _ _ bs]) (simp_all add: udp_client_on_full_def udp_client_on_bad_def)
  then show "\<exists>acts calls e'. udp_client_receive_cbk err bs recv_buffer e = Some (acts, calls, e')"
    by (auto simp: udp_client_receive_cbk_def Let_def split: prod.split)
next
  assume len: "length bs + 6 \<le> length (us_recv_buffer s)"
  let ?buf = "bs @ drop (length bs) (us_recv_buffer s)"
  have "udp_loop (udp_server_on_full destination remote ?buf) (udp_server_on_bad ?buf) ?buf 0 (length bs)
      ([], s\<lparr>us_recv_buffer := ?buf\<rparr>) \<noteq> None"
    using len by (intro udp_loop_defined [of _ _ bs] udp_server_on_full_defined udp_server_on_bad_defined) simp_all
  then show "\<exists>again calls s'. udp_server_receive_cbk err bs destination remote s = Some (again, calls, s')"
    by (auto simp: udp_server_receive_cbk_def Let_def)
qed

theorem datagrams_handled_in_bounds_witness:
  "\<exists>again calls s'. udp_server_receive_cbk No_error [0, 0, 0, 0, 0, 0, 0, 1, 0] ''10.0.0.1'' ([], 1) (udp_server_init 0)
    = Some (again, calls, s')"
  using datagrams_handled_in_bounds [of "[0, 0, 0, 0, 0, 0, 0, 1, 0]" "[]" No_error ce_sample "udp_server_init 0"
      "''10.0.0.1''" "([], 1)"]
  by (simp add: udp_server_init_def VSOMEIP_MAX_UDP_MESSAGE_SIZE_def)

section \<open>Short messages at the end of a datagram\<close>

text \<open>
  A last message of nine bytes, of a datagram that fills the buffer, passes the test of its
  length; its message type is then read five bytes behind the end of the buffer.
\<close>

theorem udp_short_message_overread:
  assumes "length pre = 1407"
  shows "udp_loop (udp_server_on_full destination remote (pre @ [a, b, c, d, 0, 0, 0, 1, x])) on_bad
      (pre @ [a, b, c, d, 0, 0, 0, 1, x]) 1407 9 s = None"
proof -
  let ?buf = "pre @ [a, b, c, d, 0, 0, 0, 1, x]"
  have "get_message_size (drop 1407 ?buf) 9 = Some 9"
    using assms by (simp add: get_message_size_def VSOMEIP_BYTES_TO_LONG_def)
  moreover have "udp_server_on_full destination remote ?buf 1407 9 0 s = None"
    using assms by (simp add: udp_server_on_full_def vec_get_def split: prod.split)
  moreover have "\<not> 9 > unat MESSAGE_SIZE_UNLIMITED" by (simp add: MESSAGE_SIZE_UNLIMITED_def)
  ultimately show ?thesis by (subst udp_loop.simps) simp
qed

end
