(* ===== verification/Local_Server_Endpoint.thy ===== *)
theory Local_Server_Endpoint
  imports Server_Endpoint
begin

text \<open>
  The connections of \<^verbatim>\<open>local_server_endpoint_impl.cpp\<close>, over which the applications of one
  machine exchange commands.  A command stands between a start and an end tag; its size,
  in the byte order of the machine, is at offset three.  The callback looks for the tags and
  uses the size to skip the data between them.

  Positions are natural numbers, so that the checks for their overflow never strike.
\<close>

section \<open>The callback\<close>

record local_rx = rx +
  lr_command_size :: u32

definition VSOMEIP_COMMAND_HEADER_SIZE :: nat where "VSOMEIP_COMMAND_HEADER_SIZE = 7"

definition local_config :: "u32 \<Rightarrow> u32 \<Rightarrow> rx_config" where
  "local_config limit threshold =
     \<lparr>rc_max_message_size = limit, rc_buffer_shrink_threshold = threshold,
      rc_recv_buffer_size_initial = VSOMEIP_COMMAND_HEADER_SIZE + 0 + (2 + 1 + 1) + 8\<rparr>"

definition local_connection_init :: "rx_config \<Rightarrow> local_rx" where
  "local_connection_init c =
     \<lparr>rx_buffer = replicate (rc_recv_buffer_size_initial c) 0, rx_size = 0, rx_gap = 0,
      rx_missing_capacity = 0, rx_shrink_count = 0, rx_magic_cookies = False, rx_calls = [],
      rx_status = Rx_running, lr_command_size = 0\<rparr>"

text \<open>The loops that look for a tag in the first \<open>avail\<close> bytes.\<close>

function find_tag :: "byte list \<Rightarrow> byte list \<Rightarrow> nat \<Rightarrow> nat \<Rightarrow> nat ub" where
  "find_tag tag buf avail i =
     (if i + 3 < avail
      then Option.bind (slice buf i 4) (\<lambda>b. if b \<noteq> tag then find_tag tag buf avail (i + 1) else Some i)
      else Some i)"
  by pat_completeness auto

termination by (relation "measure (\<lambda>(tag, buf, avail, i). avail - i)") auto

declare find_tag.simps [simp del]

definition local_missing :: "u32 \<Rightarrow> local_rx \<Rightarrow> local_rx" where
  "local_missing its_command_size s =
     (if its_command_size \<noteq> 0 \<and> unat (its_command_size + 15) > rx_size s
      then s\<lparr>rx_missing_capacity := unat (its_command_size + 15 - of_nat (rx_size s))\<rparr>
      else if rx_size s < 11 then s\<lparr>rx_missing_capacity := unat (11 - of_nat (rx_size s) :: u32)\<rparr>
      else s)"

text \<open>
  One pass of the loop.  When the search for the start tag ends three bytes before the end of the
  data, nothing is moved to the front of the buffer.
\<close>

definition local_step :: "rx_config \<Rightarrow> local_rx \<Rightarrow> (bool \<times> local_rx) ub" where
  "local_step c s = do {
     let avail = rx_size s + rx_gap s;
     its_start \<leftarrow> find_tag LOCAL_START_TAG (rx_buffer s) avail (rx_gap s);
     if its_start + 3 = avail then Some (False, s\<lparr>rx_gap := 0\<rparr>)
     else do {
       let its_start = its_start + 4;
       (its_command_size, its_end) \<leftarrow>
         (if its_start + 6 < avail
          then do {
            b6 \<leftarrow> vec_get (rx_buffer s) (its_start + 6);
            b5 \<leftarrow> vec_get (rx_buffer s) (its_start + 5);
            b4 \<leftarrow> vec_get (rx_buffer s) (its_start + 4);
            b3 \<leftarrow> vec_get (rx_buffer s) (its_start + 3);
            let sz = VSOMEIP_BYTES_TO_LONG b6 b5 b4 b3;
            Some (sz, its_start + 6 + unat sz) }
          else Some (lr_command_size s, its_start));
       let s = s\<lparr>lr_command_size := its_command_size\<rparr>;
       if its_command_size \<noteq> 0 \<and> rc_max_message_size c \<noteq> MESSAGE_SIZE_UNLIMITED
          \<and> its_command_size > rc_max_message_size c
       then Some (False, s\<lparr>rx_buffer := vec_resize (rc_recv_buffer_size_initial c) (rx_buffer s),
                           rx_status := Rx_disabled\<rparr>)
       else do {
         its_end \<leftarrow> find_tag LOCAL_END_TAG (rx_buffer s) avail its_end;
         full \<leftarrow> (if avail < its_end + 4 then Some False
                 else do { b \<leftarrow> slice (rx_buffer s) its_end 4; Some (b = LOCAL_END_TAG) });
         let s = (if full then s else local_missing its_command_size s);
         if its_end + 3 < avail
         then do {
           m \<leftarrow> slice (rx_buffer s) its_start (its_end - its_start);
           let s = calculate_shrink_count c (s\<lparr>rx_calls := rx_calls s @ [On_message m]\<rparr>);
           Some (True, s\<lparr>rx_size := rx_size s - (its_end + 4 - rx_gap s), rx_missing_capacity := 0,
                         lr_command_size := 0, rx_gap := its_end + 4\<rparr>) }
         else do { s \<leftarrow> rx_shift s; Some (False, s) } } } }"

definition local_server_receive_cbk :: "rx_config \<Rightarrow> asio_error \<Rightarrow> byte list \<Rightarrow> local_rx
    \<Rightarrow> (local_rx \<times> nat option) ub" where
  "local_server_receive_cbk c err bs s =
     (if err = Operation_aborted then Some (s, None)
      else if err = No_error \<and> bs \<noteq> [] then rx_data c (local_step c) bs (s\<lparr>lr_command_size := 0\<rparr>)
      else if err \<in> {End_of_file, Connection_reset} then Some (s\<lparr>rx_status := Rx_closed\<rparr>, None)
      else if err \<noteq> Bad_descriptor then Some (rx_receive c s)
      else Some (s, None))"

definition local_connection_start :: "rx_config \<Rightarrow> local_rx \<times> nat option" where
  "local_connection_start c = rx_receive c (local_connection_init c)"

section \<open>Sending\<close>

text \<open>A local endpoint is its path, with port zero.  The connection is asked twice to send.\<close>

record local_server = server_endpoint +
  ls_connections :: "ip_endpoint set"

definition local_connection_send_queued :: "ip_endpoint \<Rightarrow> local_server \<Rightarrow> server_action list ub" where
  "local_connection_send_queued t s =
     (case se_queues s t of Some (n, b # q) \<Rightarrow> Some [Send_to t b] | _ \<Rightarrow> None)"

definition local_server_send_queued :: "int \<Rightarrow> ip_endpoint \<Rightarrow> local_server \<Rightarrow> (server_action list \<times> local_server) ub" where
  "local_server_send_queued now t s =
     (if t \<in> ls_connections s
      then do {
        acts \<leftarrow> local_connection_send_queued t s;
        acts' \<leftarrow> local_connection_send_queued t s;
        Some (acts @ acts', s) }
      else Some ([], s\<lparr>se_queues := (se_queues s)(t := None)\<rparr>))"

text \<open>One message in the queue is sent twice, and the second completion removes a buffer from an empty queue.\<close>

theorem local_server_sends_twice:
  assumes "t \<in> ls_connections s" and "se_queues s t = Some (n, [b])"
  shows "local_server_send_queued now t s = Some ([Send_to t b, Send_to t b], s)
    \<and> (\<exists>s'. server_send_cbk local_server_send_queued now t No_error s = Some ([], s')
        \<and> server_send_cbk local_server_send_queued now t No_error s' = None)"
  using assms by (simp add: local_server_send_queued_def local_connection_send_queued_def server_send_cbk_def)

section \<open>Frames\<close>

text \<open>
  A command as the receiver expects it between the tags: seven bytes of header, with the
  size of the rest, no more than the maximum.  Its header must not contain the end
  tag, for the receiver looks for it there as long as it does not have the size.
\<close>

definition local_size :: "byte list \<Rightarrow> u32" where
  "local_size d = VSOMEIP_BYTES_TO_LONG (d ! 6) (d ! 5) (d ! 4) (d ! 3)"

definition local_command :: "rx_config \<Rightarrow> byte list \<Rightarrow> bool" where
  "local_command c d \<longleftrightarrow> 7 \<le> length d \<and> length d = 7 + unat (local_size d) \<and> length d + 8 < 2 ^ 32
     \<and> (rc_max_message_size c = MESSAGE_SIZE_UNLIMITED \<or> local_size d \<le> rc_max_message_size c)
     \<and> (\<forall>i<3. take 4 (drop i d) \<noteq> LOCAL_END_TAG)"

definition local_frame :: "byte list \<Rightarrow> byte list" where
  "local_frame d = LOCAL_START_TAG @ d @ LOCAL_END_TAG"

definition local_good :: "rx_config \<Rightarrow> byte list \<Rightarrow> bool" where
  "local_good c m \<longleftrightarrow> local_command c (take (length m - 8) (drop 4 m)) \<and> m = local_frame (take (length m - 8) (drop 4 m))"

lemma tag_lengths [simp]: "length LOCAL_START_TAG = 4" "length LOCAL_END_TAG = 4"
  by (simp_all add: LOCAL_START_TAG_def LOCAL_END_TAG_def)

lemma local_goodE:
  assumes "local_good c m"
  obtains d where "m = local_frame d" and "local_command c d"
  using assms unfolding local_good_def by blast

lemma local_good_not_empty: "local_good c m \<Longrightarrow> m \<noteq> []"
  by (erule local_goodE) (auto simp: local_frame_def LOCAL_START_TAG_def)

lemma local_good_frame: "local_command c d \<Longrightarrow> local_good c (local_frame d)"
  by (simp add: local_good_def local_frame_def)

lemma find_tag_here: "i + 3 < avail \<Longrightarrow> slice buf i 4 = Some tag \<Longrightarrow> find_tag tag buf avail i = Some i"
  by (subst find_tag.simps) simp

lemma find_tag_next:
  "i + 3 < avail \<Longrightarrow> slice buf i 4 = Some b \<Longrightarrow> b \<noteq> tag \<Longrightarrow>
    find_tag tag buf avail i = find_tag tag buf avail (Suc i)"
  by (subst find_tag.simps) simp

lemma find_tag_end: "avail \<le> i + 3 \<Longrightarrow> find_tag tag buf avail i = Some i"
  by (subst find_tag.simps) simp

lemma find_tag_absent:
  assumes "avail \<le> length buf" and "\<And>j. i \<le> j \<Longrightarrow> j + 3 < avail \<Longrightarrow> take 4 (drop j buf) \<noteq> tag"
  shows "\<exists>e. find_tag tag buf avail i = Some e \<and> avail \<le> e + 3"
  using assms(2)
proof (induction "avail - i" arbitrary: i)
  case 0
  then show ?case using find_tag_end [of avail i] by auto
next
  case (Suc n)
  show ?case
  proof (cases "i + 3 < avail")
    case True
    then have "find_tag tag buf avail i = find_tag tag buf avail (Suc i)"
      using Suc.prems [of i] assms(1) by (intro find_tag_next) simp_all
    moreover have "\<exists>e. find_tag tag buf avail (Suc i) = Some e \<and> avail \<le> e + 3"
      using Suc.hyps(2) Suc.prems by (intro Suc.hyps(1)) simp_all
    ultimately show ?thesis by simp
  next
    case False
    then show ?thesis using find_tag_end [of avail i] by auto
  qed
qed

text \<open>The end tag is not found one byte early, where the last byte of the command stands.\<close>

lemma end_tag_not_early: "take 4 (x # LOCAL_END_TAG @ post) \<noteq> LOCAL_END_TAG"
  by (simp add: LOCAL_END_TAG_def)

lemma end_tag_prefix_not_early: "x # take 3 LOCAL_END_TAG \<noteq> LOCAL_END_TAG"
  by (simp add: LOCAL_END_TAG_def)

lemma drop_in_frame:
  assumes "buf = pre @ LOCAL_START_TAG @ d @ rest"
  shows "k \<le> length d \<Longrightarrow> drop (length pre + 4 + k) buf = drop k d @ rest"
    and "k < length d \<Longrightarrow> vec_get buf (length pre + 4 + k) = Some (d ! k)"
    and "slice buf (length pre) 4 = Some LOCAL_START_TAG"
  using assms by (simp_all add: drop_append nth_append vec_get_def)

text \<open>The size in the header.\<close>

lemma local_header:
  assumes "buf = pre @ LOCAL_START_TAG @ d @ rest" and "7 \<le> length d"
  shows "vec_get buf (length pre + 4 + 6) = Some (d ! 6)" "vec_get buf (length pre + 4 + 5) = Some (d ! 5)"
    "vec_get buf (length pre + 4 + 4) = Some (d ! 4)" "vec_get buf (length pre + 4 + 3) = Some (d ! 3)"
  by (rule drop_in_frame(2) [OF assms(1)], use assms(2) in simp)+

lemma local_step_full:
  assumes buf: "rx_buffer s = pre @ local_frame d @ post" and gap: "rx_gap s = length pre"
    and size: "length d + 8 \<le> rx_size s" "rx_size s + rx_gap s \<le> length (rx_buffer s)"
    and d: "local_command c d"
  shows "\<exists>s'. local_step c s = Some (True, s') \<and> rx_buffer s' = rx_buffer s \<and> rx_size s' = rx_size s - (length d + 8)
    \<and> rx_gap s' = rx_gap s + (length d + 8) \<and> rx_missing_capacity s' = 0 \<and> lr_command_size s' = 0
    \<and> rx_calls s' = rx_calls s @ [On_message d] \<and> rx_status s' = rx_status s
    \<and> rx_magic_cookies s' = rx_magic_cookies s"
proof -
  let ?buf = "rx_buffer s" and ?g = "length pre" and ?avail = "rx_size s + length pre"
  have b: "?buf = pre @ LOCAL_START_TAG @ d @ (LOCAL_END_TAG @ post)" using buf by (simp add: local_frame_def)
  have d7: "7 \<le> length d" "length d = 7 + unat (local_size d)" using d by (simp_all add: local_command_def)
  note in_frame = drop_in_frame [OF b]
  have start: "find_tag LOCAL_START_TAG ?buf ?avail ?g = Some ?g"
    using size d7 in_frame(3) by (intro find_tag_here) simp_all
  have "drop (length d - 1) d = [last d]" using d7(1) by (cases d rule: rev_cases) simp_all
  then have early: "slice ?buf (?g + 4 + (length d - 1)) 4 = Some (take 4 (last d # LOCAL_END_TAG @ post))"
    using in_frame(1) [of "length d - 1"] size gap d7 by (simp add: slice_def)
  have at_end: "slice ?buf (?g + 4 + length d) 4 = Some LOCAL_END_TAG"
    using in_frame(1) [of "length d"] size gap by (simp add: slice_def)
  have "find_tag LOCAL_END_TAG ?buf ?avail (?g + 4 + (length d - 1)) = find_tag LOCAL_END_TAG ?buf ?avail (?g + 4 + length d)"
    using find_tag_next [OF _ early end_tag_not_early] size d7 by simp
  moreover have "\<dots> = Some (?g + 4 + length d)" using size by (intro find_tag_here at_end) simp
  moreover have "?g + 4 + 6 + unat (local_size d) = ?g + 4 + (length d - 1)" using d7 by linarith
  ultimately have found: "find_tag LOCAL_END_TAG ?buf ?avail (?g + 4 + 6 + unat (local_size d)) = Some (?g + 4 + length d)"
    by metis
  have cmd: "slice ?buf (?g + 4) (length d) = Some d"
    using in_frame(1) [of 0] size gap by (simp add: slice_def)
  have small: "\<not> (local_size d \<noteq> 0 \<and> rc_max_message_size c \<noteq> MESSAGE_SIZE_UNLIMITED
      \<and> local_size d > rc_max_message_size c)"
    using d by (auto simp: local_command_def)
  have kept: "rx_buffer (s\<lparr>lr_command_size := x\<rparr>) = rx_buffer s" for x by simp
  have lt: "?g + 4 + 6 < ?avail" "\<not> ?avail < ?g + 4 + length d + 4" "?g + 4 + length d + 3 < ?avail" "?g + 3 \<noteq> ?avail"
    using size d7 by simp_all
  show ?thesis
    unfolding local_step_def gap Let_def start bind.bind_lunit if_not_P [OF lt(4)] if_P [OF lt(1)]
      local_header [OF b d7(1)] local_size_def [symmetric] prod.case if_not_P [OF small] kept
      found if_not_P [OF lt(2)] at_end if_P [OF lt(3)]
    using cmd gap by (simp add: calculate_shrink_count_def add.commute [of 8])
qed

text \<open>An incomplete command: how much is missing, and the way back to the front of the buffer.\<close>

lemma local_missing_bound:
  assumes "rx_missing_capacity s = 0" and "rx_size s < 15 + unat cmd" and "15 + unat cmd < 2 ^ 32"
    and "15 \<le> length (rx_buffer s)"
  shows "rx_missing_capacity (local_missing cmd s) \<le> unat MESSAGE_SIZE_UNLIMITED"
    and "rx_missing_capacity (local_missing cmd s) = 0 \<Longrightarrow> rx_size s < length (rx_buffer s)"
proof -
  have top: "unat (x :: u32) \<le> unat MESSAGE_SIZE_UNLIMITED" for x
    using unsigned_less [of x, where ?'a = nat] by (simp add: MESSAGE_SIZE_UNLIMITED_def)
  then show "rx_missing_capacity (local_missing cmd s) \<le> unat MESSAGE_SIZE_UNLIMITED"
    using assms(1) by (simp add: local_missing_def)
  have sum: "unat (cmd + 15) = unat cmd + 15" using assms(3) by (simp add: unat_word_ariths)
  have sz: "unat (of_nat (rx_size s) :: u32) = rx_size s" using assms(2,3) by (simp add: unat_of_nat)
  have "unat (cmd + 15 - of_nat (rx_size s)) = unat cmd + 15 - rx_size s"
    using assms(2) sum sz by (subst unat_sub) (simp_all add: word_le_nat_alt)
  moreover have "unat (11 - of_nat (rx_size s) :: u32) = 11 - rx_size s" if "rx_size s < 11"
    using that sz by (subst unat_sub) (simp_all add: word_le_nat_alt)
  ultimately show "rx_missing_capacity (local_missing cmd s) = 0 \<Longrightarrow> rx_size s < length (rx_buffer s)"
    using assms sum by (cases "cmd = 0") (auto simp: local_missing_def split: if_splits)
qed

lemma command_size_fields [simp]:
  "rx_ready (s\<lparr>lr_command_size := x\<rparr>) = rx_ready s" "rx_bytes (s\<lparr>lr_command_size := x\<rparr>) = rx_bytes s"
  by (simp_all add: rx_ready_def rx_bytes_def)

lemma local_missing_fields [simp]:
  "rx_ready (local_missing cmd s) = rx_ready s" "rx_bytes (local_missing cmd s) = rx_bytes s"
  "rx_size (local_missing cmd s) = rx_size s" "rx_buffer (local_missing cmd s) = rx_buffer s"
  "rx_calls (local_missing cmd s) = rx_calls s"
proof -
  have "s = s\<lparr>rx_missing_capacity := rx_missing_capacity s\<rparr>" by simp
  then obtain k where "local_missing cmd s = s\<lparr>rx_missing_capacity := k\<rparr>"
    unfolding local_missing_def by metis
  then show "rx_ready (local_missing cmd s) = rx_ready s" "rx_bytes (local_missing cmd s) = rx_bytes s"
    "rx_size (local_missing cmd s) = rx_size s" "rx_buffer (local_missing cmd s) = rx_buffer s"
    "rx_calls (local_missing cmd s) = rx_calls s"
    by (simp_all add: rx_ready_def rx_bytes_def)
qed

definition kept_waiting :: "local_rx \<Rightarrow> local_rx \<Rightarrow> bool" where
  "kept_waiting s s' \<longleftrightarrow> rx_ready s' \<and> rx_gap s' = 0 \<and> rx_bytes s' = rx_bytes s \<and> rx_size s' = rx_size s
     \<and> length (rx_buffer s') = length (rx_buffer s) \<and> rx_calls s' = rx_calls s
     \<and> rx_missing_capacity s' \<le> unat MESSAGE_SIZE_UNLIMITED
     \<and> (rx_missing_capacity s' = 0 \<longrightarrow> rx_size s' < length (rx_buffer s'))"

lemma local_shift_kept:
  assumes "rx_ready s" and "rx_missing_capacity s = 0" and "rx_size s < 15 + unat cmd" and "15 + unat cmd < 2 ^ 32"
    and "15 \<le> length (rx_buffer s)"
  shows "\<exists>s'. rx_shift (local_missing cmd (s\<lparr>lr_command_size := cmd\<rparr>)) = Some s' \<and> kept_waiting s s'"
proof -
  let ?s = "local_missing cmd (s\<lparr>lr_command_size := cmd\<rparr>)"
  have r: "rx_ready ?s" "rx_bytes ?s = rx_bytes s" "rx_size ?s = rx_size s" "length (rx_buffer ?s) = length (rx_buffer s)"
    "rx_calls ?s = rx_calls s"
    using assms(1) by simp_all
  note bound = local_missing_bound [of "s\<lparr>lr_command_size := cmd\<rparr>" cmd, simplified, OF assms(2-5) [simplified]]
  from rx_shift_eq [OF r(1)] obtain s' where "rx_shift ?s = Some s'" "rx_ready s'" "rx_gap s' = 0"
    "rx_size s' = rx_size ?s" "rx_bytes s' = rx_bytes ?s" "length (rx_buffer s') = length (rx_buffer ?s)"
    "rx_calls s' = rx_calls ?s"
    "rx_missing_capacity s' = rx_missing_capacity ?s \<or> rx_missing_capacity s' = 0 \<and> rx_size ?s < length (rx_buffer ?s)"
    by metis
  with r bound show ?thesis by (auto simp: kept_waiting_def)
qed

lemma local_step_incomplete:
  assumes ready: "rx_ready s" "rx_missing_capacity s = 0" "15 \<le> length (rx_buffer s)"
    and start: "find_tag LOCAL_START_TAG (rx_buffer s) (rx_size s + rx_gap s) (rx_gap s) = Some (rx_gap s)"
      "rx_size s \<noteq> 3"
    and hdr: "(if rx_gap s + 4 + 6 < rx_size s + rx_gap s
       then do { b6 \<leftarrow> vec_get (rx_buffer s) (rx_gap s + 4 + 6); b5 \<leftarrow> vec_get (rx_buffer s) (rx_gap s + 4 + 5);
                 b4 \<leftarrow> vec_get (rx_buffer s) (rx_gap s + 4 + 4); b3 \<leftarrow> vec_get (rx_buffer s) (rx_gap s + 4 + 3);
                 Some (VSOMEIP_BYTES_TO_LONG b6 b5 b4 b3, rx_gap s + 4 + 6 + unat (VSOMEIP_BYTES_TO_LONG b6 b5 b4 b3)) }
       else Some (lr_command_size s, rx_gap s + 4)) = Some (cmd, e0)"
    and small: "\<not> (cmd \<noteq> 0 \<and> rc_max_message_size c \<noteq> MESSAGE_SIZE_UNLIMITED \<and> cmd > rc_max_message_size c)"
    and stop: "find_tag LOCAL_END_TAG (rx_buffer s) (rx_size s + rx_gap s) e0 = Some e" "rx_size s + rx_gap s \<le> e + 3"
    and size: "rx_size s < 15 + unat cmd" "15 + unat cmd < 2 ^ 32"
  shows "\<exists>s'. local_step c s = Some (False, s') \<and> kept_waiting s s'"
proof -
  from local_shift_kept [OF ready(1,2) size ready(3)] obtain s' where
    s': "rx_shift (local_missing cmd (s\<lparr>lr_command_size := cmd\<rparr>)) = Some s'" "kept_waiting s s'" by blast
  have ne: "rx_gap s + 3 \<noteq> rx_size s + rx_gap s" using start(2) by simp
  have kept: "rx_buffer (s\<lparr>lr_command_size := x\<rparr>) = rx_buffer s" for x by simp
  have nfull: "rx_size s + rx_gap s < e + 4" "\<not> e + 3 < rx_size s + rx_gap s" using stop(2) by simp_all
  have "local_step c s = Some (False, s')"
    unfolding local_step_def Let_def start(1) bind.bind_lunit if_not_P [OF ne] hdr prod.case if_not_P [OF small]
      kept stop(1) if_P [OF nfull(1)] if_not_P [OF nfull(2)] if_False s'(1) ..
  with s'(2) show ?thesis by blast
qed

text \<open>The state between two passes of the loop.\<close>

definition local_between :: "local_rx \<Rightarrow> bool" where
  "local_between s \<longleftrightarrow> rx_ready s \<and> rx_missing_capacity s = 0 \<and> lr_command_size s = 0
     \<and> 15 \<le> length (rx_buffer s) \<and> (rx_gap s \<noteq> 0 \<longrightarrow> take 3 (rx_buffer s) = take 3 LOCAL_START_TAG)"

lemma local_betweenD:
  assumes "local_between s"
  shows "rx_ready s" "rx_missing_capacity s = 0" "15 \<le> length (rx_buffer s)"
  using assms by (simp_all add: local_between_def)

text \<open>
  Three bytes are not moved to the front; but there the first three bytes of a start tag
  are left over from the command before.
\<close>

lemma local_step_three:
  assumes s: "local_between s" and p: "rx_bytes s = p" "p @ q = local_frame d" "length p = 3"
  shows "\<exists>s'. local_step c s = Some (False, s') \<and> kept_waiting s s'"
proof -
  note ready = local_betweenD [OF s]
  have size: "rx_size s = 3" using rx_bytesD(2) [OF ready(1) p(1)] p(3) by simp
  have "find_tag LOCAL_START_TAG (rx_buffer s) (rx_size s + rx_gap s) (rx_gap s) = Some (rx_gap s)"
    using size by (intro find_tag_end) simp
  then have step: "local_step c s = Some (False, s\<lparr>rx_gap := 0\<rparr>)" using size by (simp add: local_step_def)
  have "p = take 3 (p @ q)" using p(3) by simp
  also have "\<dots> = take 3 LOCAL_START_TAG" unfolding p(2) by (simp add: local_frame_def)
  finally have "rx_bytes (s\<lparr>rx_gap := 0\<rparr>) = rx_bytes s"
    using s p(1) size by (cases "rx_gap s = 0") (auto simp: local_between_def rx_bytes_def)
  moreover have "rx_ready (s\<lparr>rx_gap := 0\<rparr>)" using ready(1) by (simp add: rx_ready_def)
  ultimately show ?thesis using step ready size by (auto simp: kept_waiting_def)
qed

lemma local_step_short:
  assumes s: "local_between s" and p: "rx_bytes s = p" "length p < 3"
  shows "\<exists>s'. local_step c s = Some (False, s') \<and> kept_waiting s s'"
proof -
  note ready = local_betweenD [OF s]
  have size: "rx_size s < 3" using rx_bytesD(2) [OF ready(1) p(1)] p(2) by simp
  have "lr_command_size s = 0" using s by (simp add: local_between_def)
  with size show ?thesis
    by (intro local_step_incomplete [OF ready, where cmd = 0 and ?e0.0 = "rx_gap s + 4" and e = "rx_gap s + 4"]
        find_tag_end) simp_all
qed

text \<open>The start tag has arrived: the buffer from the tag on.\<close>

lemma local_partialE:
  assumes "local_between s" and "rx_bytes s = p" and "p @ q = local_frame d" and "4 \<le> length p"
  obtains pre p' tl where "rx_buffer s = pre @ LOCAL_START_TAG @ p' @ tl" and "rx_gap s = length pre"
    and "rx_size s = 4 + length p'" and "p' @ q = d @ LOCAL_END_TAG"
    and "find_tag LOCAL_START_TAG (rx_buffer s) (rx_size s + rx_gap s) (rx_gap s) = Some (rx_gap s)"
proof -
  define p' where "p' = drop 4 p"
  have "take 4 p = take 4 (p @ q)" using assms(4) by simp
  also have "\<dots> = LOCAL_START_TAG" unfolding assms(3) by (simp add: local_frame_def)
  finally have p1: "p = LOCAL_START_TAG @ p'" unfolding p'_def by (metis append_take_drop_id)
  moreover have "p' @ q = d @ LOCAL_END_TAG" using assms(3) by (simp add: p1 local_frame_def)
  ultimately have p': "p = LOCAL_START_TAG @ p'" "p' @ q = d @ LOCAL_END_TAG" by simp_all
  from rx_bytesD [OF local_betweenD(1) [OF assms(1)] assms(2)] obtain tl where
    tl: "drop (rx_gap s) (rx_buffer s) = p @ tl" and size: "rx_size s = length p"
    and len: "rx_gap s + length p \<le> length (rx_buffer s)" by blast
  let ?pre = "take (rx_gap s) (rx_buffer s)"
  have buf: "rx_buffer s = ?pre @ LOCAL_START_TAG @ p' @ tl"
    using tl p'(1) append_take_drop_id [of "rx_gap s" "rx_buffer s"] by simp
  have gap: "rx_gap s = length ?pre" using len by simp
  have "slice (rx_buffer s) (rx_gap s) 4 = Some LOCAL_START_TAG"
    using drop_in_frame(3) [OF buf] gap by simp
  then have "find_tag LOCAL_START_TAG (rx_buffer s) (rx_size s + rx_gap s) (rx_gap s) = Some (rx_gap s)"
    using size p'(1) by (intro find_tag_here) simp_all
  with that [OF buf gap _ p'(2)] size p'(1) show ?thesis by simp
qed

lemma local_step_header:
  assumes s: "local_between s" and p: "rx_bytes s = p" "p @ q = local_frame d" "4 \<le> length p" "length p < 11"
    and d: "local_command c d"
  shows "\<exists>s'. local_step c s = Some (False, s') \<and> kept_waiting s s'"
proof -
  note ready = local_betweenD [OF s]
  from local_partialE [OF s p(1-3)] obtain pre p' tl where
    buf: "rx_buffer s = pre @ LOCAL_START_TAG @ p' @ tl" and gap: "rx_gap s = length pre"
    and size: "rx_size s = 4 + length p'" and p': "p' @ q = d @ LOCAL_END_TAG"
    and start: "find_tag LOCAL_START_TAG (rx_buffer s) (rx_size s + rx_gap s) (rx_gap s) = Some (rx_gap s)" .
  have len: "length p' < 7" using rx_bytesD(2) [OF ready(1) p(1)] size p(4) by simp
  have d7: "7 \<le> length d" using d by (simp add: local_command_def)
  have "p' = take (length p') (d @ LOCAL_END_TAG)" using p' by (metis append_eq_conv_conj)
  then have pd: "p' = take (length p') d" using len d7 by simp
  have "take 4 (drop j (rx_buffer s)) \<noteq> LOCAL_END_TAG"
    if j: "rx_gap s + 4 \<le> j" "j + 3 < rx_size s + rx_gap s" for j
  proof -
    define i where "i = j - (length pre + 4)"
    have ji: "j = length pre + 4 + i" and i: "i + 4 \<le> length p'" using j gap size by (simp_all add: i_def)
    have "take 4 (drop j (rx_buffer s)) = take 4 (drop i p')"
      using drop_in_frame(1) [OF buf, of i] i unfolding ji by simp
    also have "\<dots> = take 4 (drop i d)" using i by (subst pd) (simp add: drop_take min_def)
    finally show ?thesis using d i len by (auto simp: local_command_def)
  qed
  moreover have "rx_size s + rx_gap s \<le> length (rx_buffer s)" using ready(1) by (simp add: rx_ready_def)
  ultimately obtain e where
    "find_tag LOCAL_END_TAG (rx_buffer s) (rx_size s + rx_gap s) (rx_gap s + 4) = Some e" "rx_size s + rx_gap s \<le> e + 3"
    using find_tag_absent [of "rx_size s + rx_gap s" "rx_buffer s" "rx_gap s + 4" LOCAL_END_TAG] by auto
  moreover have "lr_command_size s = 0" using s by (simp add: local_between_def)
  ultimately show ?thesis
    using size len p(3)
    by (intro local_step_incomplete [OF ready start, where cmd = 0 and ?e0.0 = "rx_gap s + 4" and e = e])
      (use rx_bytesD(2) [OF ready(1) p(1)] start in simp_all)
qed

lemma local_step_data:
  assumes s: "local_between s" and p: "rx_bytes s = p" "p @ q = local_frame d" "11 \<le> length p" "q \<noteq> []"
    and d: "local_command c d"
  shows "\<exists>s'. local_step c s = Some (False, s') \<and> kept_waiting s s'"
proof -
  note ready = local_betweenD [OF s]
  have "4 \<le> length p" using p(3) by simp
  from local_partialE [OF s p(1,2) this] obtain pre p' tl where
    buf: "rx_buffer s = pre @ LOCAL_START_TAG @ p' @ tl" and gap: "rx_gap s = length pre"
    and size: "rx_size s = 4 + length p'" and p': "p' @ q = d @ LOCAL_END_TAG"
    and start: "find_tag LOCAL_START_TAG (rx_buffer s) (rx_size s + rx_gap s) (rx_gap s) = Some (rx_gap s)" .
  have sp: "rx_size s = length p" using rx_bytesD(2) [OF ready(1) p(1)] .
  then have len: "7 \<le> length p'" using size p(3) by simp
  have "length p' + length q = length d + 4" using arg_cong [OF p', of length] by simp
  with p(4) have lt: "length p' < length d + 4" by (cases q) auto
  have d7: "7 \<le> length d" "length d = 7 + unat (local_size d)" "length d + 8 < 2 ^ 32"
    using d by (simp_all add: local_command_def)
  have pd: "p' = take (length p') (d @ LOCAL_END_TAG)" using p' by (metis append_eq_conv_conj)
  have nth: "p' ! k = d ! k" if "k < 7" for k
    using that len d7(1) by (subst pd) (simp add: nth_append)
  let ?e0 = "rx_gap s + 4 + 6 + unat (local_size d)"
  have hdr: "(if rx_gap s + 4 + 6 < rx_size s + rx_gap s
       then do { b6 \<leftarrow> vec_get (rx_buffer s) (rx_gap s + 4 + 6); b5 \<leftarrow> vec_get (rx_buffer s) (rx_gap s + 4 + 5);
                 b4 \<leftarrow> vec_get (rx_buffer s) (rx_gap s + 4 + 4); b3 \<leftarrow> vec_get (rx_buffer s) (rx_gap s + 4 + 3);
                 Some (VSOMEIP_BYTES_TO_LONG b6 b5 b4 b3, rx_gap s + 4 + 6 + unat (VSOMEIP_BYTES_TO_LONG b6 b5 b4 b3)) }
       else Some (lr_command_size s, rx_gap s + 4)) = Some (local_size d, ?e0)"
    unfolding gap local_header [OF buf len] using size len by (simp add: nth local_size_def)
  have e0: "?e0 = length pre + 4 + (length d - 1)" using d7 gap by linarith
  have absent: "take 4 (drop j (rx_buffer s)) \<noteq> LOCAL_END_TAG" if j: "?e0 \<le> j" "j + 3 < rx_size s + rx_gap s" for j
  proof -
    have j0: "j = ?e0" and full: "length p' = length d + 3" using j e0 gap size lt d7(1) by linarith+
    have "p' = d @ take 3 LOCAL_END_TAG" using full by (subst pd) simp
    moreover have "drop (length d - 1) d = [last d]" using d7(1) by (cases d rule: rev_cases) simp_all
    ultimately have "drop (length d - 1) p' = last d # take 3 LOCAL_END_TAG" by simp
    then have "take 4 (drop j (rx_buffer s)) = last d # take 3 LOCAL_END_TAG"
      using drop_in_frame(1) [OF buf, of "length d - 1"] full unfolding j0 e0 by (simp add: LOCAL_END_TAG_def)
    then show ?thesis using end_tag_prefix_not_early by metis
  qed
  have "rx_size s + rx_gap s \<le> length (rx_buffer s)" using ready(1) by (simp add: rx_ready_def)
  from find_tag_absent [OF this absent] obtain e where
    stop: "find_tag LOCAL_END_TAG (rx_buffer s) (rx_size s + rx_gap s) ?e0 = Some e" "rx_size s + rx_gap s \<le> e + 3" by blast
  have "\<not> (local_size d \<noteq> 0 \<and> rc_max_message_size c \<noteq> MESSAGE_SIZE_UNLIMITED \<and> local_size d > rc_max_message_size c)"
    using d by (auto simp: local_command_def)
  moreover have "rx_size s \<noteq> 3" "rx_size s < 15 + unat (local_size d)" "15 + unat (local_size d) < 2 ^ 32"
    using sp p(3) size lt d7 by simp_all
  ultimately show ?thesis by (intro local_step_incomplete [OF ready start _ hdr _ stop])
qed

lemma local_step_partial:
  assumes "local_between s" and "rx_bytes s = p" and "p \<noteq> []" and "local_good c (p @ q)" and "q \<noteq> []"
  shows "\<exists>s'. local_step c s = Some (False, s') \<and> kept_waiting s s'"
proof -
  from assms(4) obtain d where d: "p @ q = local_frame d" "local_command c d" by (rule local_goodE)
  consider "length p < 3" | "length p = 3" | "4 \<le> length p" "length p < 11" | "11 \<le> length p" by linarith
  then show ?thesis
    using assms(1,2,5) d local_step_short local_step_three local_step_header local_step_data
    by cases metis+
qed

section \<open>Segmentation\<close>

definition local_payload :: "byte list \<Rightarrow> byte list" where
  "local_payload m = take (length m - 8) (drop 4 m)"

lemma local_payload_frame [simp]: "local_payload (local_frame d) = d"
  by (simp add: local_payload_def local_frame_def)

lemma length_local_frame [simp]: "length (local_frame d) = length d + 8"
  by (simp add: local_frame_def)

lemma local_step_command:
  assumes s: "local_between s" and bytes: "rx_bytes s = m @ rest" and m: "local_good c m"
  shows "\<exists>s'. local_step c s = Some (True, s') \<and> local_between s' \<and> rx_bytes s' = rest
    \<and> rx_buffer s' = rx_buffer s \<and> rx_calls s' = rx_calls s @ [On_message (local_payload m)]"
proof -
  from m obtain d where d: "m = local_frame d" "local_command c d" by (rule local_goodE)
  from rx_bytesD [OF local_betweenD(1) [OF s] bytes] obtain tl where
    tl: "drop (rx_gap s) (rx_buffer s) = (m @ rest) @ tl" and size: "rx_size s = length (m @ rest)"
    and len: "rx_gap s + length (m @ rest) \<le> length (rx_buffer s)" by blast
  let ?pre = "take (rx_gap s) (rx_buffer s)"
  have buf: "rx_buffer s = ?pre @ local_frame d @ (rest @ tl)"
    using tl d(1) append_take_drop_id [of "rx_gap s" "rx_buffer s"] by simp
  have "rx_gap s = length ?pre" "length d + 8 \<le> rx_size s" "rx_size s + rx_gap s \<le> length (rx_buffer s)"
    using len size d(1) by simp_all
  from local_step_full [OF buf this d(2)] obtain s' where s': "local_step c s = Some (True, s')"
    "rx_buffer s' = rx_buffer s" "rx_size s' = rx_size s - (length d + 8)" "rx_gap s' = rx_gap s + (length d + 8)"
    "rx_missing_capacity s' = 0" "lr_command_size s' = 0" "rx_calls s' = rx_calls s @ [On_message d]"
    "rx_status s' = rx_status s" "rx_magic_cookies s' = rx_magic_cookies s" by blast
  have "rx_bytes s' = rest"
  proof -
    have "drop (rx_gap s + length m) (rx_buffer s) = rest @ tl"
      using arg_cong [OF tl, of "drop (length m)"] by (simp add: add.commute)
    then show ?thesis using size d(1) by (simp add: rx_bytes_def s'(2-4))
  qed
  moreover have "take 3 (rx_buffer s) = take 3 LOCAL_START_TAG"
  proof (cases "rx_gap s = 0")
    case True
    then show ?thesis by (subst buf) (simp add: local_frame_def)
  qed (use s in \<open>simp add: local_between_def\<close>)
  moreover have "rx_ready s'" using local_betweenD(1) [OF s] s'(2-4,8,9) len size d(1) by (simp add: rx_ready_def)
  ultimately show ?thesis using s s' d(1) by (simp add: local_between_def)
qed

lemma local_loop:
  assumes "local_between s" and "rx_bytes s = concat ms @ rest" and "rx_bytes s \<noteq> []"
    and "\<And>m. m \<in> set ms \<Longrightarrow> local_good c m" and rest: "rest = [] \<or> (\<exists>q. local_good c (rest @ q) \<and> q \<noteq> [])"
  shows "\<exists>s'. rx_loop (local_step c) s = Some s' \<and> rx_ready s' \<and> rx_bytes s' = rest
    \<and> length (rx_buffer s') = length (rx_buffer s)
    \<and> rx_calls s' = rx_calls s @ map (On_message \<circ> local_payload) ms
    \<and> rx_missing_capacity s' \<le> unat MESSAGE_SIZE_UNLIMITED
    \<and> (rx_missing_capacity s' = 0 \<longrightarrow> rx_size s' < length (rx_buffer s'))"
  using assms(1-4)
proof (induction ms arbitrary: s)
  case Nil
  with rest obtain q where "local_good c (rest @ q)" "q \<noteq> []" by auto
  with Nil local_step_partial [of s rest c q] obtain s' where
    s': "local_step c s = Some (False, s')" "kept_waiting s s'" by auto
  from s'(1) have "rx_loop (local_step c) s = Some s'" by (subst rx_loop.simps) simp
  moreover from s'(2) have "rx_ready s'" "rx_bytes s' = rx_bytes s" "length (rx_buffer s') = length (rx_buffer s)"
    "rx_calls s' = rx_calls s" "rx_missing_capacity s' \<le> unat MESSAGE_SIZE_UNLIMITED"
    "rx_missing_capacity s' = 0 \<longrightarrow> rx_size s' < length (rx_buffer s')"
    unfolding kept_waiting_def by blast+
  ultimately show ?case using Nil.prems(2) by simp
next
  case (Cons m ms)
  then have "rx_bytes s = m @ (concat ms @ rest)" "local_good c m" by auto
  from local_step_command [OF Cons.prems(1) this] obtain s1 where
    s1: "local_step c s = Some (True, s1)" "local_between s1" "rx_bytes s1 = concat ms @ rest"
      "rx_buffer s1 = rx_buffer s" "rx_calls s1 = rx_calls s @ [On_message (local_payload m)]" by blast
  have size: "rx_size s1 = length (rx_bytes s1)" using rx_bytesD(2) [OF local_betweenD(1) [OF s1(2)]] by simp
  show ?case
  proof (cases "rx_bytes s1 = []")
    case True
    have "ms = []" using True s1(3) Cons.prems(4) local_good_not_empty by (cases ms) auto
    moreover have "rx_loop (local_step c) s = Some s1" using s1(1) True size by (subst rx_loop.simps) simp
    ultimately show ?thesis
      using True s1 size local_betweenD [OF s1(2)] by auto
  next
    case False
    have "rx_loop (local_step c) s = rx_loop (local_step c) s1"
      using s1(1) False size by (subst rx_loop.simps) simp
    with Cons.IH [OF s1(2,3) False] Cons.prems(4) s1(4,5) show ?thesis by simp
  qed
qed

lemma rx_receive_length:
  "length (rx_buffer (fst (rx_receive c s))) \<ge> min (length (rx_buffer s)) (rc_recv_buffer_size_initial c)"
  by (auto simp: rx_receive_def Let_def)

definition local_waiting :: "byte list \<Rightarrow> nat \<Rightarrow> local_rx \<Rightarrow> bool" where
  "local_waiting p r s \<longleftrightarrow> rx_waiting p r s \<and> 15 \<le> length (rx_buffer s)"

lemma local_callback_delivers:
  assumes w: "local_waiting p r s" and bs: "bs \<noteq> []" "length bs \<le> r"
    and eq: "p @ bs = concat ms @ rest" and good: "\<And>m. m \<in> set ms \<Longrightarrow> local_good c m"
    and rest: "rest = [] \<or> (\<exists>q. local_good c (rest @ q) \<and> q \<noteq> [])"
    and c: "15 \<le> rc_recv_buffer_size_initial c"
  shows "\<exists>s' r'. local_server_receive_cbk c No_error bs s = Some (s', Some r') \<and> local_waiting rest r' s'
    \<and> rx_calls s' = rx_calls s @ map (On_message \<circ> local_payload) ms"
proof -
  let ?s0 = "s\<lparr>lr_command_size := 0\<rparr>"
  let ?s = "(rx_store bs ?s0)\<lparr>rx_size := rx_size ?s0 + length bs, rx_gap := 0\<rparr>"
  have w': "rx_waiting p r s" "15 \<le> length (rx_buffer s)" using w by (simp_all add: local_waiting_def)
  then have buf: "length (rx_buffer ?s) = length (rx_buffer s)" using bs by (simp add: rx_waiting_def rx_store_def)
  have "rx_bytes ?s = p @ bs"
    using w'(1) by (auto simp: rx_waiting_def rx_bytes_def rx_store_def)
  then have bytes: "rx_bytes ?s = concat ms @ rest" "rx_bytes ?s \<noteq> []" using eq bs(1) by (simp, metis append_is_Nil_conv)
  have "rx_ready ?s" using w' bs buf by (simp add: rx_waiting_def rx_ready_def rx_store_def)
  then have "local_between ?s" using w' buf by (simp add: local_between_def rx_waiting_def rx_store_def)
  from local_loop [OF this bytes good rest] obtain s1 where
    s1: "rx_loop (local_step c) ?s = Some s1" "rx_ready s1" "rx_bytes s1 = rest"
      "length (rx_buffer s1) = length (rx_buffer s)" "rx_calls s1 = rx_calls s @ map (On_message \<circ> local_payload) ms"
      "rx_missing_capacity s1 \<le> unat MESSAGE_SIZE_UNLIMITED"
      "rx_missing_capacity s1 = 0 \<longrightarrow> rx_size s1 < length (rx_buffer s1)"
    using buf by (auto simp: rx_store_def)
  from rx_shift_eq [OF s1(2)] obtain s2 where
    s2: "rx_shift s1 = Some s2" "rx_ready s2" "rx_gap s2 = 0" "rx_size s2 = rx_size s1"
      "rx_bytes s2 = rx_bytes s1" "length (rx_buffer s2) = length (rx_buffer s1)" "rx_calls s2 = rx_calls s1"
      "rx_missing_capacity s2 = rx_missing_capacity s1
       \<or> rx_missing_capacity s2 = 0 \<and> rx_size s1 < length (rx_buffer s1)" by metis
  have "rx_missing_capacity s2 \<le> unat MESSAGE_SIZE_UNLIMITED"
    "rx_missing_capacity s2 = 0 \<Longrightarrow> rx_size s2 < length (rx_buffer s2)" "0 < rc_recv_buffer_size_initial c"
    using s1(6,7) s2(4,6,8) c by auto
  from rx_receive_waiting [OF s2(2,3) this] obtain s3 r3 where
    s3: "rx_receive c s2 = (s3, Some r3)" "rx_waiting (rx_bytes s2) r3 s3" "rx_calls s3 = rx_calls s2" .
  have "15 \<le> length (rx_buffer s3)"
    using rx_receive_length [of s2 c] s3(1) s2(6) s1(4) w'(2) c by simp
  moreover have "local_server_receive_cbk c No_error bs s = Some (s3, Some r3)"
    using bs(1) s1(1,2) s2(1) s3(1) by (simp add: local_server_receive_cbk_def rx_data_def rx_ready_def)
  ultimately show ?thesis using s1 s2 s3 by (simp add: local_waiting_def)
qed

interpretation local_server: stream_receiver "local_server_receive_cbk (local_config limit threshold) No_error"
  "local_good (local_config limit threshold)" local_payload local_waiting
  for limit threshold
proof (unfold_locales, goal_cases)
  case (1 m)
  then show ?case by (rule local_good_not_empty)
next
  case (2 p r s)
  then show ?case by (simp add: local_waiting_def rx_waiting_def)
next
  case (3 p r s bs ms rest)
  then show ?case
    by (intro local_callback_delivers) (simp_all add: local_config_def VSOMEIP_COMMAND_HEADER_SIZE_def)
qed

lemma local_start_waiting:
  "\<exists>s r. local_connection_start (local_config limit threshold) = (s, Some r) \<and> local_waiting [] r s \<and> rx_calls s = []"
  by (simp add: local_connection_start_def local_connection_init_def local_config_def rx_receive_def
      local_waiting_def rx_waiting_def rx_ready_def rx_bytes_def VSOMEIP_COMMAND_HEADER_SIZE_def)

lemma local_server_stream:
  assumes "\<forall>d\<in>set ds. local_command (local_config limit threshold) d"
    and "length (concat (map local_frame ds)) \<le> length ks"
  shows "\<exists>s' r'. rx_run (local_server_receive_cbk (local_config limit threshold) No_error) ks (concat (map local_frame ds))
      (local_connection_start (local_config limit threshold)) = Some ([], (s', Some r'))
    \<and> 0 < r' \<and> rx_size s' = 0 \<and> rx_calls s' = map On_message ds"
proof -
  obtain s r where s: "local_connection_start (local_config limit threshold) = (s, Some r)" "local_waiting [] r s"
    "rx_calls s = []"
    using local_start_waiting by blast
  have "local_good (local_config limit threshold) m" if "m \<in> set (map local_frame ds)" for m
    using that assms(1) local_good_frame by auto
  from local_server.stream_delivered [OF s(2) this assms(2)] s
  show ?thesis by (fastforce simp: local_waiting_def rx_waiting_def o_def)
qed

text \<open>
  C30. A connection of the local server is indifferent to segmentation: commands between tags reach the
  host as exactly these commands, in order, however the reads cut the stream, even
  within a tag.  Every read asks for at least one byte, and no byte outside the buffer is touched.
\<close>

theorem local_server_stream_delivered:
  assumes "\<forall>d\<in>set ds. local_command (local_config limit threshold) d"
    and "length (concat (map local_frame ds)) \<le> length ks"
  shows "\<exists>s' r'. rx_run (local_server_receive_cbk (local_config limit threshold) No_error) ks (concat (map local_frame ds))
      (local_connection_start (local_config limit threshold)) = Some ([], (s', Some r'))
    \<and> 0 < r' \<and> rx_size s' = 0 \<and> rx_calls s' = map On_message ds"
  using assms by (rule local_server_stream)

definition sample_command :: "byte list" where
  "sample_command = [0x17, 0x44, 0x13, 2, 0, 0, 0, 0xAA, 0x07]"

lemma sample_command_ok: "local_command (local_config MESSAGE_SIZE_UNLIMITED 0) sample_command"
proof -
  have "local_size sample_command = 2" by code_simp
  moreover have "take 4 (drop i sample_command) \<noteq> LOCAL_END_TAG" if "i < 3" for i
  proof -
    from that have "i = 0 \<or> i = 1 \<or> i = 2" by auto
    then show ?thesis by (auto simp: sample_command_def LOCAL_END_TAG_def)
  qed
  ultimately show ?thesis by (simp add: local_command_def local_config_def) (simp add: sample_command_def)
qed

theorem local_server_stream_delivered_witness:
  "\<exists>s' r'. rx_run (local_server_receive_cbk (local_config MESSAGE_SIZE_UNLIMITED 0) No_error) (replicate 34 3)
      (local_frame sample_command @ local_frame sample_command)
      (local_connection_start (local_config MESSAGE_SIZE_UNLIMITED 0)) = Some ([], (s', Some r'))
    \<and> rx_calls s' = [On_message sample_command, On_message sample_command]"
proof -
  have "length sample_command = 9" by (simp add: sample_command_def)
  then show ?thesis
    using local_server_stream_delivered [of "[sample_command, sample_command]" MESSAGE_SIZE_UNLIMITED 0 "replicate 34 3"]
      sample_command_ok by auto
qed

text \<open>
  While the size of a command is not received completely, the end tag is looked for
  right behind the start tag: a header that contains it, here a command \<open>0x07\<close> of client \<open>0x376D\<close>
  with a size that ends in \<open>0x67\<close>, is then taken for the end of an empty command.
\<close>

theorem header_taken_for_end_tag:
  assumes "rx_buffer s = LOCAL_START_TAG @ [0x07, 0x6D, 0x37, 0x67] @ rest" and "rx_gap s = 0" and "rx_size s = 8"
    and "lr_command_size s = 0"
  shows "\<exists>s'. local_step c s = Some (True, s') \<and> rx_calls s' = rx_calls s @ [On_message []] \<and> rx_size s' = 0"
proof -
  have "find_tag LOCAL_START_TAG (rx_buffer s) 8 0 = Some 0" "find_tag LOCAL_END_TAG (rx_buffer s) 8 4 = Some 4"
    using assms(1) by (auto intro!: find_tag_here simp: LOCAL_START_TAG_def LOCAL_END_TAG_def)
  then show ?thesis
    using assms by (simp add: local_step_def Let_def LOCAL_END_TAG_def calculate_shrink_count_def)
qed

end
