(* ===== verification/Tables.thy ===== *)
theory Tables
  imports Prelude "HOL-Library.Product_Lexorder"
begin

text \<open>
  The containers of the routing managers: nested \<^verbatim>\<open>std::map\<close>s, which are maps to maps with the
  insertion of \<^verbatim>\<open>operator[]\<close>, and \<^verbatim>\<open>std::set\<close>s of structures ordered by some of their
  members, which are lists in that order.
\<close>

section \<open>Nested maps\<close>

type_synonym ('a, 'b, 'v) map2 = "'a \<rightharpoonup> ('b \<rightharpoonup> 'v)"
type_synonym ('a, 'b, 'c, 'v) map3 = "'a \<rightharpoonup> ('b \<rightharpoonup> ('c \<rightharpoonup> 'v))"

definition lookup2 :: "('a, 'b, 'v) map2 \<Rightarrow> 'a \<Rightarrow> 'b \<Rightarrow> 'v option" where
  "lookup2 m a b = Option.bind (m a) (\<lambda>n. n b)"

definition put2 :: "'a \<Rightarrow> 'b \<Rightarrow> 'v \<Rightarrow> ('a, 'b, 'v) map2 \<Rightarrow> ('a, 'b, 'v) map2" where
  "put2 a b v m = m(a \<mapsto> (case m a of Some n \<Rightarrow> n | None \<Rightarrow> Map.empty)(b \<mapsto> v))"

definition erase2 :: "'a \<Rightarrow> 'b \<Rightarrow> ('a, 'b, 'v) map2 \<Rightarrow> ('a, 'b, 'v) map2" where
  "erase2 a b m = (case m a of Some n \<Rightarrow> m(a \<mapsto> n(b := None)) | None \<Rightarrow> m)"

text \<open>Erasing an element and, when it was the last one of its map, that map.\<close>

definition prune2 :: "'a \<Rightarrow> 'b \<Rightarrow> ('a, 'b, 'v) map2 \<Rightarrow> ('a, 'b, 'v) map2" where
  "prune2 a b m =
     (case m a of
        Some n \<Rightarrow> m(a := (if n(b := None) = Map.empty then None else Some (n(b := None))))
      | None \<Rightarrow> m)"

definition lookup3 :: "('a, 'b, 'c, 'v) map3 \<Rightarrow> 'a \<Rightarrow> 'b \<Rightarrow> 'c \<Rightarrow> 'v option" where
  "lookup3 m a b c = Option.bind (lookup2 m a b) (\<lambda>n. n c)"

definition put3 :: "'a \<Rightarrow> 'b \<Rightarrow> 'c \<Rightarrow> 'v \<Rightarrow> ('a, 'b, 'c, 'v) map3 \<Rightarrow> ('a, 'b, 'c, 'v) map3" where
  "put3 a b c v m = put2 a b ((case lookup2 m a b of Some n \<Rightarrow> n | None \<Rightarrow> Map.empty)(c \<mapsto> v)) m"

definition erase3 :: "'a \<Rightarrow> 'b \<Rightarrow> 'c \<Rightarrow> ('a, 'b, 'c, 'v) map3 \<Rightarrow> ('a, 'b, 'c, 'v) map3" where
  "erase3 a b c m =
     (case lookup2 m a b of Some n \<Rightarrow> put2 a b (n(c := None)) m | None \<Rightarrow> m)"

text \<open>The contract of a table: what a lookup gives after an insertion and after a removal.\<close>

locale table =
  fixes get :: "'m \<Rightarrow> 'k \<Rightarrow> 'v option"
    and put :: "'k \<Rightarrow> 'v \<Rightarrow> 'm \<Rightarrow> 'm"
    and del :: "'k \<Rightarrow> 'm \<Rightarrow> 'm"
  assumes get_put: "get (put k v m) k' = (if k' = k then Some v else get m k')"
    and get_del: "get (del k m) k' = (if k' = k then None else get m k')"
begin

lemma get_puts:
  "get (fold (\<lambda>k. put k (f k)) ks m) k' = (if k' \<in> set ks then Some (f k') else get m k')"
  by (induction ks arbitrary: m) (auto simp: get_put)

lemma get_dels: "get (fold del ks m) k' = (if k' \<in> set ks then None else get m k')"
  by (induction ks arbitrary: m) (auto simp: get_del)

lemma dom_put: "{k'. get (put k v m) k' \<noteq> None} = insert k {k'. get m k' \<noteq> None}"
  by (auto simp: get_put)

end

lemma lookup2_put2: "lookup2 (put2 a b v m) a' b' = (if a' = a \<and> b' = b then Some v else lookup2 m a' b')"
  by (simp add: lookup2_def put2_def split: option.splits)

lemma lookup2_erase2: "lookup2 (erase2 a b m) a' b' = (if a' = a \<and> b' = b then None else lookup2 m a' b')"
  by (auto simp: lookup2_def erase2_def split: option.splits)

lemma lookup2_prune2: "lookup2 (prune2 a b m) a' b' = (if a' = a \<and> b' = b then None else lookup2 m a' b')"
proof (cases "m a")
  case (Some n)
  have "n b' = None" if "n(b := None) = Map.empty" and "b' \<noteq> b"
    using fun_cong [OF that(1), of b'] that(2) by simp
  with Some show ?thesis by (cases "n(b := None) = Map.empty") (simp_all add: lookup2_def prune2_def)
qed (auto simp: lookup2_def prune2_def)

lemma lookup3_put3:
  "lookup3 (put3 a b c v m) a' b' c' = (if a' = a \<and> b' = b \<and> c' = c then Some v else lookup3 m a' b' c')"
  by (auto simp: lookup3_def put3_def lookup2_put2 split: option.splits)

lemma lookup3_erase3:
  "lookup3 (erase3 a b c m) a' b' c' = (if a' = a \<and> b' = b \<and> c' = c then None else lookup3 m a' b' c')"
  by (auto simp: lookup3_def erase3_def lookup2_put2 split: option.splits)

interpretation two: table "\<lambda>m (a, b). lookup2 m a b" "\<lambda>(a, b). put2 a b" "\<lambda>(a, b). erase2 a b"
  by unfold_locales (auto simp: lookup2_put2 lookup2_erase2 split: if_splits)

interpretation pruned: table "\<lambda>m (a, b). lookup2 m a b" "\<lambda>(a, b). put2 a b" "\<lambda>(a, b). prune2 a b"
  by unfold_locales (auto simp: lookup2_put2 lookup2_prune2 split: if_splits)

interpretation three: table "\<lambda>m (a, b, c). lookup3 m a b c" "\<lambda>(a, b, c). put3 a b c"
    "\<lambda>(a, b, c). erase3 a b c"
  by unfold_locales (auto simp: lookup3_put3 lookup3_erase3 split: if_splits)

lemmas table_simps = lookup2_put2 lookup2_erase2 lookup2_prune2 lookup3_put3 lookup3_erase3

lemma empty_lookups [simp]: "lookup2 Map.empty a b = None" "lookup3 Map.empty a b c = None"
  by (simp_all add: lookup2_def lookup3_def)

section \<open>Sets ordered by a key\<close>

text \<open>An insertion keeps the element that is there when one with the same key is.\<close>

fun oset_insert :: "('a \<Rightarrow> 'k :: linorder) \<Rightarrow> 'a \<Rightarrow> 'a list \<Rightarrow> 'a list" where
  "oset_insert key x [] = [x]"
| "oset_insert key x (y # ys) =
     (if key x < key y then x # y # ys
      else if key x = key y then y # ys
      else y # oset_insert key x ys)"

definition oset_ok :: "('a \<Rightarrow> 'k :: linorder) \<Rightarrow> 'a list \<Rightarrow> bool" where
  "oset_ok key xs \<longleftrightarrow> sorted_wrt (<) (map key xs)"

fun erase_first :: "('a \<Rightarrow> bool) \<Rightarrow> 'a list \<Rightarrow> 'a list" where
  "erase_first P [] = []"
| "erase_first P (x # xs) = (if P x then xs else x # erase_first P xs)"

lemma set_oset_insert:
  "oset_ok key xs \<Longrightarrow> set (oset_insert key x xs)
     = (if key x \<in> key ` set xs then set xs else insert x (set xs))"
  by (induction xs) (auto simp: oset_ok_def)

lemma oset_ok_insert: "oset_ok key xs \<Longrightarrow> oset_ok key (oset_insert key x xs)"
proof (induction xs)
  case (Cons y ys)
  then have "oset_ok key ys" and less: "\<forall>z\<in>set ys. key y < key z" by (auto simp: oset_ok_def)
  moreover have "\<forall>z\<in>set (oset_insert key x ys). key y < key z" if "key y < key x"
    using less that \<open>oset_ok key ys\<close> by (simp add: set_oset_insert)
  ultimately show ?case using Cons by (auto simp: oset_ok_def)
qed (simp add: oset_ok_def)

lemma oset_ok_filter: "oset_ok key xs \<Longrightarrow> oset_ok key (filter P xs)"
  by (induction xs) (auto simp: oset_ok_def)

lemma oset_ok_unique:
  "oset_ok key xs \<Longrightarrow> x \<in> set xs \<Longrightarrow> y \<in> set xs \<Longrightarrow> key x = key y \<Longrightarrow> x = y"
proof (induction xs)
  case (Cons z zs)
  then have "\<forall>w\<in>set zs. key z < key w" "oset_ok key zs" by (simp_all add: oset_ok_def)
  with Cons show ?case by (metis less_irrefl set_ConsD)
qed simp

lemma erase_first_filter:
  assumes "oset_ok key xs" and "\<And>x y. P x \<Longrightarrow> P y \<Longrightarrow> key x = key y"
  shows "erase_first P xs = filter (\<lambda>x. \<not> P x) xs"
  using assms(1)
proof (induction xs)
  case (Cons x xs)
  show ?case
  proof (cases "P x")
    case True
    have "\<not> P y" if "y \<in> set xs" for y
      using Cons.prems that True assms(2) [of x y] by (auto simp: oset_ok_def)
    with True show ?thesis by simp
  qed (use Cons in \<open>simp add: oset_ok_def\<close>)
qed simp

end
