(* ===== verification/Serviceinfo.thy ===== *)
theory Serviceinfo
  imports Eventgroupinfo
begin

text \<open>
  What is known of a service instance, of a subscription to a remote eventgroup and of a request
  for a service: \<^verbatim>\<open>routing/src/serviceinfo.cpp\<close>, \<^verbatim>\<open>service_discovery/src/subscription.cpp\<close>
  and \<^verbatim>\<open>request.cpp\<close>.  Endpoints are shared objects, known by a number; a null pointer is
  \<open>None\<close>.  The time to live of a service is kept in milliseconds and exchanged in seconds.
\<close>

section \<open>Services\<close>

record serviceinfo =
  si_group :: "nat option"
  si_major :: byte
  si_minor :: u32
  si_ttl :: int
  si_reliable :: "nat option"
  si_unreliable :: "nat option"
  si_requesters :: "u16 set"
  si_is_local :: bool
  si_is_in_mainphase :: bool

definition ANY_MAJOR :: byte where [simp]: "ANY_MAJOR = 0xFF"
definition ANY_MINOR :: u32 where [simp]: "ANY_MINOR = 0xFFFFFFFF"
definition DEFAULT_MINOR :: u32 where [simp]: "DEFAULT_MINOR = 0"

text \<open>\<^verbatim>\<open>duration_cast\<close> between seconds and milliseconds rounds towards zero.\<close>

definition to_milliseconds :: "u32 \<Rightarrow> int" where
  "to_milliseconds ttl = 1000 * uint ttl"

definition to_seconds :: "int \<Rightarrow> u32" where
  "to_seconds ms = of_int (if ms < 0 then - (- ms div 1000) else ms div 1000)"

definition serviceinfo_init :: "byte \<Rightarrow> u32 \<Rightarrow> u32 \<Rightarrow> bool \<Rightarrow> serviceinfo" where
  "serviceinfo_init major minor ttl is_local =
     \<lparr>si_group = None, si_major = major, si_minor = minor, si_ttl = to_milliseconds ttl,
      si_reliable = None, si_unreliable = None, si_requesters = {}, si_is_local = is_local,
      si_is_in_mainphase = False\<rparr>"

definition si_set_group :: "nat option \<Rightarrow> serviceinfo \<Rightarrow> serviceinfo" where
  "si_set_group g i = i\<lparr>si_group := g\<rparr>"

definition si_get_ttl :: "serviceinfo \<Rightarrow> u32" where
  "si_get_ttl i = to_seconds (si_ttl i)"

definition si_set_ttl :: "u32 \<Rightarrow> serviceinfo \<Rightarrow> serviceinfo" where
  "si_set_ttl ttl i = i\<lparr>si_ttl := to_milliseconds ttl\<rparr>"

definition si_set_precise_ttl :: "int \<Rightarrow> serviceinfo \<Rightarrow> serviceinfo" where
  "si_set_precise_ttl ttl i = i\<lparr>si_ttl := ttl\<rparr>"

definition si_get_endpoint :: "bool \<Rightarrow> serviceinfo \<Rightarrow> nat option" where
  "si_get_endpoint reliable i = (if reliable then si_reliable i else si_unreliable i)"

definition si_set_endpoint :: "nat option \<Rightarrow> bool \<Rightarrow> serviceinfo \<Rightarrow> serviceinfo" where
  "si_set_endpoint e reliable i = (if reliable then i\<lparr>si_reliable := e\<rparr> else i\<lparr>si_unreliable := e\<rparr>)"

definition add_client :: "u16 \<Rightarrow> serviceinfo \<Rightarrow> serviceinfo" where
  "add_client c i = i\<lparr>si_requesters := insert c (si_requesters i)\<rparr>"

definition remove_client :: "u16 \<Rightarrow> serviceinfo \<Rightarrow> serviceinfo" where
  "remove_client c i = i\<lparr>si_requesters := si_requesters i - {c}\<rparr>"

definition get_requesters_size :: "serviceinfo \<Rightarrow> u32" where
  "get_requesters_size i = of_nat (card (si_requesters i))"

definition set_is_in_mainphase :: "bool \<Rightarrow> serviceinfo \<Rightarrow> serviceinfo" where
  "set_is_in_mainphase b i = i\<lparr>si_is_in_mainphase := b\<rparr>"

section \<open>Subscriptions and requests\<close>

record subscription =
  sub_major :: byte
  sub_ttl :: u32
  sub_reliable :: "nat option"
  sub_unreliable :: "nat option"
  sub_is_acknowledged :: bool
  sub_tcp_connection_established :: bool
  sub_udp_connection_established :: bool
  sub_subscription_type :: byte
  sub_counter :: byte

definition subscription_init ::
  "byte \<Rightarrow> u32 \<Rightarrow> nat option \<Rightarrow> nat option \<Rightarrow> byte \<Rightarrow> byte \<Rightarrow> subscription" where
  "subscription_init major ttl reliable unreliable subscription_type counter =
     \<lparr>sub_major = major, sub_ttl = ttl, sub_reliable = reliable, sub_unreliable = unreliable,
      sub_is_acknowledged = True, sub_tcp_connection_established = False,
      sub_udp_connection_established = False, sub_subscription_type = subscription_type,
      sub_counter = counter\<rparr>"

definition sub_set_ttl :: "u32 \<Rightarrow> subscription \<Rightarrow> subscription" where
  "sub_set_ttl ttl s = s\<lparr>sub_ttl := ttl\<rparr>"

definition sub_get_endpoint :: "bool \<Rightarrow> subscription \<Rightarrow> nat option" where
  "sub_get_endpoint reliable s = (if reliable then sub_reliable s else sub_unreliable s)"

definition sub_set_endpoint :: "nat option \<Rightarrow> bool \<Rightarrow> subscription \<Rightarrow> subscription" where
  "sub_set_endpoint e reliable s =
     (if reliable then s\<lparr>sub_reliable := e\<rparr> else s\<lparr>sub_unreliable := e\<rparr>)"

definition set_acknowledged :: "bool \<Rightarrow> subscription \<Rightarrow> subscription" where
  "set_acknowledged b s = s\<lparr>sub_is_acknowledged := b\<rparr>"

definition set_tcp_connection_established :: "bool \<Rightarrow> subscription \<Rightarrow> subscription" where
  "set_tcp_connection_established b s = s\<lparr>sub_tcp_connection_established := b\<rparr>"

definition set_udp_connection_established :: "bool \<Rightarrow> subscription \<Rightarrow> subscription" where
  "set_udp_connection_established b s = s\<lparr>sub_udp_connection_established := b\<rparr>"

record request =
  req_major :: byte
  req_minor :: u32
  req_ttl :: u32
  req_sent_counter :: byte

definition request_init :: "byte \<Rightarrow> u32 \<Rightarrow> u32 \<Rightarrow> request" where
  "request_init major minor ttl =
     \<lparr>req_major = major, req_minor = minor, req_ttl = ttl, req_sent_counter = 0\<rparr>"

definition req_set_major :: "byte \<Rightarrow> request \<Rightarrow> request" where
  "req_set_major v r = r\<lparr>req_major := v\<rparr>"
definition req_set_minor :: "u32 \<Rightarrow> request \<Rightarrow> request" where
  "req_set_minor v r = r\<lparr>req_minor := v\<rparr>"
definition req_set_ttl :: "u32 \<Rightarrow> request \<Rightarrow> request" where
  "req_set_ttl v r = r\<lparr>req_ttl := v\<rparr>"
definition set_sent_counter :: "byte \<Rightarrow> request \<Rightarrow> request" where
  "set_sent_counter v r = r\<lparr>req_sent_counter := v\<rparr>"

section \<open>Laws\<close>

lemma to_seconds_milliseconds [simp]: "to_seconds (to_milliseconds t) = t"
  by (simp add: to_seconds_def to_milliseconds_def)

lemma si_get_set_ttl [simp]: "si_get_ttl (si_set_ttl t i) = t"
  by (simp add: si_get_ttl_def si_set_ttl_def)

text \<open>What is left of a time to live, rounded down to seconds.\<close>

lemma si_get_precise_ttl:
  assumes "0 \<le> ms" and "ms < 1000 * 2 ^ 32"
  shows "uint (si_get_ttl (si_set_precise_ttl ms i)) = ms div 1000"
  using assms by (simp add: si_get_ttl_def si_set_precise_ttl_def to_seconds_def unsigned_of_int take_bit_int_eq_self)

lemma si_get_set_endpoint [simp]:
  "si_get_endpoint r (si_set_endpoint e r' i) = (if r = r' then e else si_get_endpoint r i)"
  by (simp add: si_get_endpoint_def si_set_endpoint_def)

lemma get_requesters_size_card: "unat (get_requesters_size i) = card (si_requesters i)"
proof -
  have "card (si_requesters i) \<le> card (UNIV :: u16 set)" by (intro card_mono) simp_all
  also have "\<dots> < 2 ^ 32" by (simp add: card_word)
  finally show ?thesis by (simp add: get_requesters_size_def unsigned_of_nat take_bit_nat_eq_self)
qed

lemma requesters_update [simp]:
  "si_requesters (add_client c i) = insert c (si_requesters i)"
  "si_requesters (remove_client c i) = si_requesters i - {c}"
  by (simp_all add: add_client_def remove_client_def)

end
