(* ===== verification/Debounce.thy ===== *)
theory Debounce
  imports Event
begin

text \<open>
  The comparison that \<^verbatim>\<open>routing_manager_base::register_event\<close> installs for a shadow event with a
  debounce configuration (\<^verbatim>\<open>configuration/include/debounce.hpp\<close>): an update is forwarded when
  its bytes differ outside what is ignored, or when an interval has passed since one was.

  The time of the steady clock is an argument, in nanoseconds; that nothing has been forwarded yet
  (\<^verbatim>\<open>time_point::max()\<close>) is \<open>None\<close>.
\<close>

record debounce =
  db_on_change :: bool
  db_on_change_resets_interval :: bool
  db_ignore :: "nat \<rightharpoonup> byte"
  db_interval :: int
  db_last_forwarded :: "int option"

definition debounce_init :: debounce where
  "debounce_init = \<lparr>db_on_change = False, db_on_change_resets_interval = False, db_ignore = Map.empty,
     db_interval = 0, db_last_forwarded = None\<rparr>"

text \<open>
  The loop over the bytes that only the longer payload has.  Its condition
  \<^verbatim>\<open>j == end() && j->second == 0xFF\<close> reads through the end iterator for an index that is not
  ignored, and is false for one that is.
\<close>

fun debounce_additional :: "(nat \<rightharpoonup> byte) \<Rightarrow> nat \<Rightarrow> nat \<Rightarrow> bool ub" where
  "debounce_additional ignore i 0 = Some False"
| "debounce_additional ignore i (Suc n) =
     (if ignore i = None then None else debounce_additional ignore (Suc i) n)"

fun debounce_common :: "(nat \<rightharpoonup> byte) \<Rightarrow> byte list \<Rightarrow> byte list \<Rightarrow> nat \<Rightarrow> nat \<Rightarrow> bool ub" where
  "debounce_common ignore its_old its_new i 0 = Some False"
| "debounce_common ignore its_old its_new i (Suc n) = do {
     x \<leftarrow> vec_get its_old i;
     y \<leftarrow> vec_get its_new i;
     if (case ignore i of None \<Rightarrow> x \<noteq> y | Some m \<Rightarrow> m \<noteq> 0xFF \<and> (x AND NOT m) \<noteq> (y AND NOT m))
     then Some True else debounce_common ignore its_old its_new (Suc i) n }"

definition debounce_changed :: "debounce \<Rightarrow> payload \<Rightarrow> payload \<Rightarrow> bool ub" where
  "debounce_changed d p_old p_new =
     (if db_on_change d
      then let l_old = unat (payload_get_length p_old); l_new = unat (payload_get_length p_new);
               its_min_length = min l_old l_new; its_max_length = max l_old l_new
           in Option.bind (debounce_additional (db_ignore d) its_min_length (its_max_length - its_min_length))
                (\<lambda>is_changed. if is_changed then Some True
                   else debounce_common (db_ignore d) (pl_data p_old) (pl_data p_new) 0 its_min_length)
      else Some False)"

definition debounce_elapsed :: "int \<Rightarrow> debounce \<Rightarrow> bool" where
  "debounce_elapsed now d = (case db_last_forwarded d of
       None \<Rightarrow> True
     | Some t \<Rightarrow> db_interval d \<le> (now - t) div 1000000)"

definition debounce_check :: "int \<Rightarrow> payload \<Rightarrow> payload \<Rightarrow> debounce \<Rightarrow> (bool \<times> debounce) ub" where
  "debounce_check now p_old p_new d = do {
     is_changed \<leftarrow> debounce_changed d p_old p_new;
     if - 1 < db_interval d
     then let is_elapsed = debounce_elapsed now d
          in Some (is_changed \<or> is_elapsed,
               if is_elapsed \<or> is_changed \<and> db_on_change_resets_interval d
               then d\<lparr>db_last_forwarded := Some now\<rparr> else d)
     else Some (is_changed, d) }"

section \<open>What is forwarded\<close>

definition visible :: "(nat \<rightharpoonup> byte) \<Rightarrow> nat \<Rightarrow> byte \<Rightarrow> byte" where
  "visible ignore i b = b AND NOT (case ignore i of None \<Rightarrow> 0 | Some m \<Rightarrow> m)"

definition visibly_differ :: "(nat \<rightharpoonup> byte) \<Rightarrow> byte list \<Rightarrow> byte list \<Rightarrow> nat \<Rightarrow> bool" where
  "visibly_differ ignore xs ys n \<longleftrightarrow>
     (\<exists>k\<in>{0..<n}. visible ignore k (xs ! k) \<noteq> visible ignore k (ys ! k))"

lemma and_nothing: "(x :: byte) AND NOT 0xFF = 0"
proof -
  have "(0xFF :: byte) = - 1" by simp
  then show ?thesis by (simp only: bit.compl_one and_zero_eq)
qed

lemma visible_differs:
  "(case ignore i of None \<Rightarrow> x \<noteq> y | Some m \<Rightarrow> m \<noteq> 0xFF \<and> (x AND NOT m) \<noteq> (y AND NOT m))
     \<longleftrightarrow> visible ignore i x \<noteq> visible ignore i y"
  using and_nothing [of x] and_nothing [of y] by (auto simp: visible_def split: option.splits)

lemma debounce_common_step:
  "i < length xs \<Longrightarrow> i < length ys \<Longrightarrow> debounce_common ignore xs ys i (Suc n) =
     (if visible ignore i (xs ! i) \<noteq> visible ignore i (ys ! i) then Some True
      else debounce_common ignore xs ys (Suc i) n)"
  by (simp add: visible_differs)

lemma debounce_common_eq:
  assumes "i + n \<le> length xs" and "i + n \<le> length ys"
  shows "debounce_common ignore xs ys i n
    = Some (\<exists>k<n. visible ignore (i + k) (xs ! (i + k)) \<noteq> visible ignore (i + k) (ys ! (i + k)))"
  using assms
proof (induction n arbitrary: i)
  case (Suc n)
  have "(\<exists>k<Suc n. P (i + k)) \<longleftrightarrow> P i \<or> (\<exists>k<n. P (Suc i + k))" for P
    by (metis add.right_neutral add_Suc add_Suc_right less_Suc_eq_0_disj)
  note split = this [of "\<lambda>k. visible ignore k (xs ! k) \<noteq> visible ignore k (ys ! k)"]
  show ?case
    unfolding split using Suc.prems Suc.IH [of "Suc i"]
    by (simp add: debounce_common_step del: debounce_common.simps)
qed simp

lemma debounce_additional_undefined:
  "k < n \<Longrightarrow> ignore (i + k) = None \<Longrightarrow> debounce_additional ignore i n = None"
proof (induction n arbitrary: i k)
  case (Suc n)
  then show ?case by (cases k) auto
qed simp

lemma debounce_additional_defined:
  "(\<And>k. k < n \<Longrightarrow> ignore (i + k) \<noteq> None) \<Longrightarrow> debounce_additional ignore i n = Some False"
proof (induction n arbitrary: i)
  case (Suc n)
  from Suc.prems [of 0] have "ignore i \<noteq> None" by simp
  moreover have "debounce_additional ignore (Suc i) n = Some False"
    by (rule Suc.IH) (use Suc.prems [of "Suc _"] in simp)
  ultimately show ?case by simp
qed simp

text \<open>
  C28. Debouncing: when the bytes that only one of two payloads has are all ignored, the check is
  defined, and an update is forwarded exactly when the payloads differ in a bit that is not ignored
  or the interval has passed since the last update that was; then, or with every change when
  configured so, the interval starts anew.
\<close>

theorem debounce_forwards_changes:
  assumes "payload_fits p_old" and "payload_fits p_new"
    and "m = min (length (pl_data p_old)) (length (pl_data p_new))"
    and "\<forall>k < max (length (pl_data p_old)) (length (pl_data p_new)) - m. db_ignore d (m + k) \<noteq> None"
    and "changed \<longleftrightarrow> db_on_change d \<and> visibly_differ (db_ignore d) (pl_data p_old) (pl_data p_new) m"
    and "elapsed \<longleftrightarrow> 0 \<le> db_interval d \<and> debounce_elapsed now d"
  shows "debounce_check now p_old p_new d = Some (changed \<or> elapsed,
    if elapsed \<or> 0 \<le> db_interval d \<and> changed \<and> db_on_change_resets_interval d
    then d\<lparr>db_last_forwarded := Some now\<rparr> else d)"
proof -
  have "debounce_additional (db_ignore d) m
      (max (length (pl_data p_old)) (length (pl_data p_new)) - m) = Some False"
    using assms(4) by (intro debounce_additional_defined) auto
  moreover have "debounce_common (db_ignore d) (pl_data p_old) (pl_data p_new) 0 m
      = Some (visibly_differ (db_ignore d) (pl_data p_old) (pl_data p_new) m)"
    using assms(3) by (subst debounce_common_eq) (auto simp: visibly_differ_def)
  ultimately have "debounce_changed d p_old p_new = Some changed"
    using assms(1-3,5) by (simp add: debounce_changed_def)
  then show ?thesis
    using assms(6) by (cases "0 \<le> db_interval d") (simp_all add: debounce_check_def Let_def)
qed

theorem debounce_forwards_changes_witness:
  "debounce_check 5000000 (create_payload [1, 2]) (create_payload [1, 3, 9])
      \<lparr>db_on_change = True, db_on_change_resets_interval = True, db_ignore = [1 \<mapsto> 0x0F, 2 \<mapsto> 0xFF],
       db_interval = 10, db_last_forwarded = Some 0\<rparr>
    = Some (False, \<lparr>db_on_change = True, db_on_change_resets_interval = True,
       db_ignore = [1 \<mapsto> 0x0F, 2 \<mapsto> 0xFF], db_interval = 10, db_last_forwarded = Some 0\<rparr>)"
proof -
  have fits: "payload_fits (create_payload [1, 2])" "payload_fits (create_payload [1, 3, 9])"
    by (simp_all add: payload_fits_def create_payload_def)
  have "visibly_differ [1 \<mapsto> 0x0F, 2 \<mapsto> 0xFF] [1, 2] [1, 3, 9] 2 = False"
    by code_simp
  then show ?thesis
    using debounce_forwards_changes [OF fits, where m = 2 and changed = False and elapsed = False
        and now = 5000000 and d = "\<lparr>db_on_change = True, db_on_change_resets_interval = True,
          db_ignore = [1 \<mapsto> 0x0F, 2 \<mapsto> 0xFF], db_interval = 10, db_last_forwarded = Some 0\<rparr>"]
    by (simp add: create_payload_def debounce_elapsed_def)
qed

text \<open>
  A payload that is longer or shorter by a byte whose index is not ignored does not count as a
  change: the check reads the entry behind the last of the ignored indices.
\<close>

theorem debounce_reads_end_iterator:
  assumes "db_on_change d" and "payload_fits p_old" and "payload_fits p_new"
    and "m = min (length (pl_data p_old)) (length (pl_data p_new))"
    and "k < max (length (pl_data p_old)) (length (pl_data p_new)) - m" and "db_ignore d (m + k) = None"
  shows "debounce_check now p_old p_new d = None"
proof -
  have "debounce_additional (db_ignore d) m
      (max (length (pl_data p_old)) (length (pl_data p_new)) - m) = None"
    using assms by (intro debounce_additional_undefined [of k]) auto
  then show ?thesis using assms(1-4) by (simp add: debounce_check_def debounce_changed_def)
qed

theorem debounce_reads_end_iterator_witness:
  "debounce_check 0 (create_payload []) (create_payload [1]) (debounce_init\<lparr>db_on_change := True\<rparr>) = None"
  by (rule debounce_reads_end_iterator [where m = 0 and k = 0])
    (simp_all add: debounce_init_def payload_fits_def create_payload_def)

end
