(* ===== verification/Local_Command.thy ===== *)
theory Local_Command
  imports Local_Server_Endpoint
begin

text \<open>
  The commands that applications and the routing manager of one device exchange over local
  endpoints (\<^verbatim>\<open>configuration/include/internal.hpp\<close>): a type, the client that sends, the size of
  what follows, and the payload.  Integers are copied with \<^verbatim>\<open>memcpy\<close> in the byte order of the host,
  here little endian.
\<close>

section \<open>Native integers\<close>

definition le16 :: "u16 \<Rightarrow> byte list" where
  "le16 v = [VSOMEIP_WORD_BYTE0 v, VSOMEIP_WORD_BYTE1 v]"

definition le32 :: "u32 \<Rightarrow> byte list" where
  "le32 v = [VSOMEIP_LONG_BYTE0 v, VSOMEIP_LONG_BYTE1 v, VSOMEIP_LONG_BYTE2 v, VSOMEIP_LONG_BYTE3 v]"

definition le_bool :: "bool \<Rightarrow> byte list" where
  "le_bool b = [if b then 1 else 0]"

definition mem16 :: "byte list \<Rightarrow> nat \<Rightarrow> u16 ub" where
  "mem16 buf i = do { b0 \<leftarrow> vec_get buf i; b1 \<leftarrow> vec_get buf (i + 1); Some (VSOMEIP_BYTES_TO_WORD b1 b0) }"

definition mem32 :: "byte list \<Rightarrow> nat \<Rightarrow> u32 ub" where
  "mem32 buf i = do {
     b0 \<leftarrow> vec_get buf i; b1 \<leftarrow> vec_get buf (i + 1); b2 \<leftarrow> vec_get buf (i + 2); b3 \<leftarrow> vec_get buf (i + 3);
     Some (VSOMEIP_BYTES_TO_LONG b3 b2 b1 b0) }"

definition mem_bool :: "byte list \<Rightarrow> nat \<Rightarrow> bool ub" where
  "mem_bool buf i = map_option (\<lambda>b. b \<noteq> 0) (vec_get buf i)"

lemma length_le [simp]: "length (le16 v) = 2" "length (le32 w) = 4" "length (le_bool b) = 1"
  by (simp_all add: le16_def le32_def le_bool_def)

text \<open>A copy of \<open>n\<close> bytes from a position on.\<close>

definition copy_of :: "byte list \<Rightarrow> nat \<Rightarrow> nat \<Rightarrow> byte list ub" where
  "copy_of data i n = (if i + n \<le> length data then Some (take n (drop i data)) else None)"

section \<open>Commands\<close>

declare VSOMEIP_COMMAND_HEADER_SIZE_def [simp]
definition VSOMEIP_COMMAND_SIZE_POS_MAX :: nat where [simp]: "VSOMEIP_COMMAND_SIZE_POS_MAX = 5"
definition VSOMEIP_COMMAND_PAYLOAD_POS :: nat where [simp]: "VSOMEIP_COMMAND_PAYLOAD_POS = 7"

definition VSOMEIP_REGISTER_APPLICATION :: byte where [simp]: "VSOMEIP_REGISTER_APPLICATION = 0x00"
definition VSOMEIP_DEREGISTER_APPLICATION :: byte where [simp]: "VSOMEIP_DEREGISTER_APPLICATION = 0x01"
definition VSOMEIP_ROUTING_INFO :: byte where [simp]: "VSOMEIP_ROUTING_INFO = 0x03"
definition VSOMEIP_REGISTERED_ACK :: byte where [simp]: "VSOMEIP_REGISTERED_ACK = 0x04"
definition VSOMEIP_PING :: byte where [simp]: "VSOMEIP_PING = 0x0E"
definition VSOMEIP_PONG :: byte where [simp]: "VSOMEIP_PONG = 0x0F"
definition VSOMEIP_OFFER_SERVICE :: byte where [simp]: "VSOMEIP_OFFER_SERVICE = 0x10"
definition VSOMEIP_STOP_OFFER_SERVICE :: byte where [simp]: "VSOMEIP_STOP_OFFER_SERVICE = 0x11"
definition VSOMEIP_SUBSCRIBE :: byte where [simp]: "VSOMEIP_SUBSCRIBE = 0x12"
definition VSOMEIP_UNSUBSCRIBE :: byte where [simp]: "VSOMEIP_UNSUBSCRIBE = 0x13"
definition VSOMEIP_REQUEST_SERVICE :: byte where [simp]: "VSOMEIP_REQUEST_SERVICE = 0x14"
definition VSOMEIP_RELEASE_SERVICE :: byte where [simp]: "VSOMEIP_RELEASE_SERVICE = 0x15"
definition VSOMEIP_SUBSCRIBE_NACK :: byte where [simp]: "VSOMEIP_SUBSCRIBE_NACK = 0x16"
definition VSOMEIP_SUBSCRIBE_ACK :: byte where [simp]: "VSOMEIP_SUBSCRIBE_ACK = 0x17"
definition VSOMEIP_SEND :: byte where [simp]: "VSOMEIP_SEND = 0x18"
definition VSOMEIP_NOTIFY :: byte where [simp]: "VSOMEIP_NOTIFY = 0x19"
definition VSOMEIP_NOTIFY_ONE :: byte where [simp]: "VSOMEIP_NOTIFY_ONE = 0x1A"
definition VSOMEIP_REGISTER_EVENT :: byte where [simp]: "VSOMEIP_REGISTER_EVENT = 0x1B"
definition VSOMEIP_UNREGISTER_EVENT :: byte where [simp]: "VSOMEIP_UNREGISTER_EVENT = 0x1C"
definition VSOMEIP_ID_RESPONSE :: byte where [simp]: "VSOMEIP_ID_RESPONSE = 0x1D"
definition VSOMEIP_ID_REQUEST :: byte where [simp]: "VSOMEIP_ID_REQUEST = 0x1E"
definition VSOMEIP_OFFERED_SERVICES_REQUEST :: byte where [simp]: "VSOMEIP_OFFERED_SERVICES_REQUEST = 0x1F"
definition VSOMEIP_OFFERED_SERVICES_RESPONSE :: byte where [simp]: "VSOMEIP_OFFERED_SERVICES_RESPONSE = 0x20"
definition VSOMEIP_UNSUBSCRIBE_ACK :: byte where [simp]: "VSOMEIP_UNSUBSCRIBE_ACK = 0x21"

definition command :: "byte \<Rightarrow> u16 \<Rightarrow> byte list \<Rightarrow> byte list" where
  "command cmd client payload = cmd # le16 client @ le32 (of_nat (length payload)) @ payload"

definition RIE_ADD_CLIENT :: u32 where [simp]: "RIE_ADD_CLIENT = 0"
definition RIE_ADD_SERVICE_INSTANCE :: u32 where [simp]: "RIE_ADD_SERVICE_INSTANCE = 1"
definition RIE_DEL_SERVICE_INSTANCE :: u32 where [simp]: "RIE_DEL_SERVICE_INSTANCE = 2"
definition RIE_DEL_CLIENT :: u32 where [simp]: "RIE_DEL_CLIENT = 3"

text \<open>A service that is offered or requested; sets of them are ordered by their key.\<close>

record service_data =
  svc_service :: u16
  svc_instance :: u16
  svc_major :: byte
  svc_minor :: u32
  svc_use_exclusive_proxy :: bool

definition service_key :: "service_data \<Rightarrow> u16 \<times> u16" where
  "service_key d = (svc_service d, svc_instance d)"

section \<open>Reading what was written\<close>

lemma mem16_here [simp]: "mem16 (pre @ le16 v @ post) (length pre) = Some v"
  by (simp add: mem16_def le16_def nth_append)

lemma mem32_here [simp]: "mem32 (pre @ le32 v @ post) (length pre) = Some v"
  by (simp add: mem32_def le32_def nth_append)

lemma mem_bool_here [simp]: "mem_bool (pre @ le_bool b @ post) (length pre) = Some b"
  by (simp add: mem_bool_def le_bool_def nth_append)

lemma mem16_at: "length pre = i \<Longrightarrow> mem16 (pre @ le16 v @ post) i = Some v"
  by auto

lemma mem32_at: "length pre = i \<Longrightarrow> mem32 (pre @ le32 v @ post) i = Some v"
  by auto

lemma mem_bool_at: "length pre = i \<Longrightarrow> mem_bool (pre @ le_bool b @ post) i = Some b"
  by auto

lemma length_command [simp]: "length (command cmd c p) = 7 + length p"
  by (simp add: command_def)

lemma command_header [simp]:
  "command cmd c p ! 0 = cmd" "mem16 (command cmd c p) 1 = Some c"
  "mem32 (command cmd c p) 3 = Some (of_nat (length p))" "drop 7 (command cmd c p) = p"
proof -
  show "mem16 (command cmd c p) 1 = Some c"
    using mem16_at [of "[cmd]" 1 c "le32 (of_nat (length p)) @ p"] by (simp add: command_def)
  show "mem32 (command cmd c p) 3 = Some (of_nat (length p))"
    using mem32_at [of "cmd # le16 c" 3 "of_nat (length p)" p] by (simp add: command_def)
  show "drop 7 (command cmd c p) = p" by (simp add: command_def)
qed (simp add: command_def)

text \<open>Positions in the payload of a command are positions in the command.\<close>

lemma vec_get_command: "vec_get (command cmd c p) (7 + i) = vec_get p i"
  by (simp add: command_def vec_get_def le16_def le32_def)

lemma mem_command:
  "mem16 (command cmd c p) (7 + i) = mem16 p i" "mem32 (command cmd c p) (7 + i) = mem32 p i"
  "mem_bool (command cmd c p) (7 + i) = mem_bool p i"
  using vec_get_command [of cmd c p i] vec_get_command [of cmd c p "i + 1"]
    vec_get_command [of cmd c p "i + 2"] vec_get_command [of cmd c p "i + 3"]
  by (simp_all add: mem16_def mem32_def mem_bool_def add.assoc)

text \<open>A command is what the receiving side of a local endpoint takes for one, unless its header
  happens to hold the end tag.\<close>

lemma command_is_local_command:
  assumes "length p + 15 < 2 ^ 32"
    and "rc_max_message_size cfg = MESSAGE_SIZE_UNLIMITED \<or> of_nat (length p) \<le> rc_max_message_size cfg"
    and "\<forall>i<3. take 4 (drop i (command cmd c p)) \<noteq> LOCAL_END_TAG"
  shows "local_command cfg (command cmd c p)"
proof -
  have "local_size (command cmd c p) = of_nat (length p)"
    by (simp add: local_size_def command_def le16_def le32_def)
  moreover have "unat (of_nat (length p) :: u32) = length p"
    using assms(1) by (simp add: unsigned_of_nat take_bit_nat_eq_self)
  ultimately show ?thesis using assms by (simp add: local_command_def)
qed

end
