(* ===== verification/Routing_Base.thy ===== *)
theory Routing_Base
  imports Tables Serviceinfo Debounce Local_Command
begin

text \<open>
  \<^verbatim>\<open>routing/src/routing_manager_base.cpp\<close>: the state and the operations that the routing manager
  and the proxies of the applications share: known services, local clients with their endpoints,
  events, eventgroups and subscriptions.

  Service informations and events are shared objects: the tables hold their numbers, and
  \<open>rb_infos\<close> and \<open>rb_event_objs\<close> what they contain; sets of pointers are walked in the order of the
  numbers.  An eventgroup is reached through its table only and is kept there.  The configuration is
  an argument (\<open>routing_env\<close>); \<open>env_epsilon\<close> is the comparison the debounce configuration yields for an
  event, if there is one (theory \<open>Debounce\<close>).  What an operation asks of its host, of endpoints or of
  the virtual methods of the derived classes is a list of actions, in order.  The record is extended
  by the derived classes.
\<close>

section \<open>State\<close>

record subscription_data =
  sd_service :: u16
  sd_instance :: u16
  sd_eventgroup :: u16
  sd_major :: byte
  sd_event :: u16
  sd_subscription_type :: byte

definition subscription_key :: "subscription_data \<Rightarrow> u16 \<times> u16 \<times> u16 \<times> u16" where
  "subscription_key d = (sd_service d, sd_instance d, sd_eventgroup d, sd_event d)"

record routing_env =
  env_host_client :: u16
  env_event_reliable :: "u16 \<Rightarrow> u16 \<Rightarrow> u16 \<Rightarrow> bool"
  env_epsilon :: "u16 \<Rightarrow> u16 \<Rightarrow> u16 \<Rightarrow> epsilon_change_func option"
  env_multicast :: "u16 \<Rightarrow> u16 \<Rightarrow> u16 \<Rightarrow> (address option \<times> u16) option"
  env_threshold :: "u16 \<Rightarrow> u16 \<Rightarrow> u16 \<Rightarrow> byte"

record routing_base =
  rb_client :: u16
  rb_infos :: "nat \<Rightarrow> serviceinfo"
  rb_next_info :: nat
  rb_services :: "(u16, u16, nat) map2"
  rb_services_remote :: "(u16, u16, nat) map2"
  rb_local_services :: "(u16, u16, byte \<times> u32 \<times> u16) map2"
  rb_event_objs :: "nat \<Rightarrow> event"
  rb_next_event :: nat
  rb_events :: "(u16, u16, u16, nat) map3"
  rb_eventgroups :: "(u16, u16, u16, eventgroupinfo) map3"
  rb_pending_subscriptions :: "subscription_data list"
  rb_local_endpoints :: "u16 \<rightharpoonup> nat"
  rb_next_endpoint :: nat
  rb_pending_notify_ones :: "(u16, u16, u16, message) map3"
  rb_free_deserializers :: nat

datatype routing_action =
    Routing_send sent
  | Host_on_error
  | Host_on_state bool
  | Host_on_subscription u16 u16 u16 u16 bool
  | Host_on_subscription_status u16 u16 u16 u16 byte
  | Host_on_subscription_error u16 u16 u16 byte
  | Host_on_availability u16 u16 bool byte u32
  | Host_on_message message
  | Host_on_offered_services "(u16 \<times> u16) list"
  | Host_send message bool
  | Endpoint_create nat u16
  | Endpoint_handler nat "u16 option"
  | Endpoint_start nat
  | Endpoint_stop nat
  | Endpoint_restart nat
  | Endpoint_send nat "byte list"
  | Endpoint_set_connected nat
  | Receiver_start
  | Receiver_stop
  | Timer_start nat int
  | Timer_cancel nat

definition ANY_INSTANCE :: u16 where [simp]: "ANY_INSTANCE = 0xFFFF"
definition ANY_EVENT :: u16 where "ANY_EVENT = 0xFFFF"
definition ANY_METHOD :: u16 where [simp]: "ANY_METHOD = 0xFFFF"
definition VSOMEIP_MAX_DESERIALIZER :: nat where [simp]: "VSOMEIP_MAX_DESERIALIZER = 5"

definition rb_init :: "u16 \<Rightarrow> routing_base" where
  "rb_init client =
     \<lparr>rb_client = client, rb_infos = (\<lambda>_. serviceinfo_init 0 0 0 False), rb_next_info = 0,
      rb_services = Map.empty, rb_services_remote = Map.empty, rb_local_services = Map.empty,
      rb_event_objs = (\<lambda>_. event_init False), rb_next_event = 0, rb_events = Map.empty,
      rb_eventgroups = Map.empty, rb_pending_subscriptions = [], rb_local_endpoints = Map.empty,
      rb_next_endpoint = 0, rb_pending_notify_ones = Map.empty,
      rb_free_deserializers = VSOMEIP_MAX_DESERIALIZER\<rparr>"

definition put_event :: "nat \<Rightarrow> event \<Rightarrow> 'a routing_base_scheme \<Rightarrow> 'a routing_base_scheme" where
  "put_event r e st = st\<lparr>rb_event_objs := (rb_event_objs st)(r := e)\<rparr>"

definition put_info :: "nat \<Rightarrow> serviceinfo \<Rightarrow> 'a routing_base_scheme \<Rightarrow> 'a routing_base_scheme" where
  "put_info r i st = st\<lparr>rb_infos := (rb_infos st)(r := i)\<rparr>"

definition put_group :: "u16 \<Rightarrow> u16 \<Rightarrow> u16 \<Rightarrow> eventgroupinfo \<Rightarrow> 'a routing_base_scheme \<Rightarrow> 'a routing_base_scheme" where
  "put_group s i g x st = st\<lparr>rb_eventgroups := put3 s i g x (rb_eventgroups st)\<rparr>"

text \<open>The objects of all events of a service instance, and an operation on each of them.\<close>

definition events_of :: "u16 \<Rightarrow> u16 \<Rightarrow> 'a routing_base_scheme \<Rightarrow> nat set" where
  "events_of s i st = (case lookup2 (rb_events st) s i of Some m \<Rightarrow> ran m | None \<Rightarrow> {})"

definition on_events :: "(event \<Rightarrow> event) \<Rightarrow> nat set \<Rightarrow> 'a routing_base_scheme \<Rightarrow> 'a routing_base_scheme" where
  "on_events f R st = st\<lparr>rb_event_objs := (\<lambda>r. if r \<in> R then f (rb_event_objs st r) else rb_event_objs st r)\<rparr>"

section \<open>Services\<close>

definition rb_find_service :: "u16 \<Rightarrow> u16 \<Rightarrow> 'a routing_base_scheme \<Rightarrow> nat option" where
  "rb_find_service s i st = lookup2 (rb_services st) s i"

definition rb_create_service_info ::
  "u16 \<Rightarrow> u16 \<Rightarrow> byte \<Rightarrow> u32 \<Rightarrow> u32 \<Rightarrow> bool \<Rightarrow> 'a routing_base_scheme \<Rightarrow> nat \<times> 'a routing_base_scheme" where
  "rb_create_service_info s i major minor ttl is_local_service st =
     (let r = rb_next_info st;
          st = (put_info r (serviceinfo_init major minor ttl is_local_service) st)\<lparr>rb_next_info := Suc r\<rparr>;
          st = st\<lparr>rb_services := put2 s i r (rb_services st)\<rparr>
      in (r, if \<not> is_local_service then st\<lparr>rb_services_remote := put2 s i r (rb_services_remote st)\<rparr> else st))"

definition rb_offer_service ::
  "u16 \<Rightarrow> u16 \<Rightarrow> byte \<Rightarrow> u32 \<Rightarrow> 'a routing_base_scheme \<Rightarrow> bool \<times> routing_action list \<times> 'a routing_base_scheme" where
  "rb_offer_service s i major minor st =
     (let set_versions = (\<lambda>st. on_events (event_set_version major) (events_of s i st) st)
      in case rb_find_service s i st of
           Some r \<Rightarrow>
             (let its_info = rb_infos st r
              in if \<not> si_is_local its_info then (False, [], st)
                 else if si_major its_info = major \<and> si_minor its_info = minor
                 then (True, [], set_versions (put_info r (si_set_ttl DEFAULT_TTL its_info) st))
                 else (False, [Host_on_error], st))
         | None \<Rightarrow> (True, [], set_versions (snd (rb_create_service_info s i major minor DEFAULT_TTL True st))))"

definition rb_stop_offer_service :: "u16 \<Rightarrow> u16 \<Rightarrow> 'a routing_base_scheme \<Rightarrow> 'a routing_base_scheme" where
  "rb_stop_offer_service s i st =
     on_events (\<lambda>e. clear_subscribers (unset_payload False e)) (events_of s i st) st"

definition rb_request_service ::
  "u16 \<Rightarrow> u16 \<Rightarrow> u16 \<Rightarrow> byte \<Rightarrow> u32 \<Rightarrow> 'a routing_base_scheme \<Rightarrow> routing_action list \<times> 'a routing_base_scheme" where
  "rb_request_service c s i major minor st =
     (case rb_find_service s i st of
        Some r \<Rightarrow>
          (let its_info = rb_infos st r
           in if (major = si_major its_info \<or> DEFAULT_MAJOR = si_major its_info \<or> ANY_MAJOR = major)
                 \<and> (minor \<le> si_minor its_info \<or> DEFAULT_MINOR = si_minor its_info \<or> minor = ANY_MINOR)
              then ([], put_info r (add_client c its_info) st)
              else ([Host_on_error], st))
      | None \<Rightarrow> ([], st))"

definition rb_release_service :: "u16 \<Rightarrow> u16 \<Rightarrow> u16 \<Rightarrow> 'a routing_base_scheme \<Rightarrow> 'a routing_base_scheme" where
  "rb_release_service c s i st =
     (case rb_find_service s i st of
        Some r \<Rightarrow> put_info r (remove_client c (rb_infos st r)) st
      | None \<Rightarrow> st)"

text \<open>\<^verbatim>\<open>services_remote_\<close> loses the whole service with the last instance of \<^verbatim>\<open>services_\<close>.\<close>

definition rb_clear_service_info :: "u16 \<Rightarrow> u16 \<Rightarrow> bool \<Rightarrow> 'a routing_base_scheme \<Rightarrow> 'a routing_base_scheme" where
  "rb_clear_service_info s i reliable st =
     (case rb_find_service s i st of
        None \<Rightarrow> st
      | Some r \<Rightarrow>
          (let its_info = rb_infos st r;
               last = (case rb_services st s of Some m \<Rightarrow> card (dom m) \<le> 1 | None \<Rightarrow> True)
           in if si_get_endpoint (\<not> reliable) its_info = None
              then if last
                   then let st = st\<lparr>rb_services := (rb_services st)(s := None)\<rparr>
                        in if \<not> si_is_local its_info
                           then st\<lparr>rb_services_remote := (rb_services_remote st)(s := None)\<rparr> else st
                   else let st = st\<lparr>rb_services := erase2 s i (rb_services st)\<rparr>
                        in if \<not> si_is_local its_info
                           then st\<lparr>rb_services_remote := erase2 s i (rb_services_remote st)\<rparr> else st
              else put_info r (si_set_endpoint None reliable its_info) st))"

definition rb_is_available :: "u16 \<Rightarrow> u16 \<Rightarrow> byte \<Rightarrow> 'a routing_base_scheme \<Rightarrow> bool" where
  "rb_is_available s i major st =
     (case rb_local_services st s of
        None \<Rightarrow> False
      | Some m \<Rightarrow>
          if i = ANY_INSTANCE then True
          else (case m i of
                  None \<Rightarrow> False
                | Some (its_major, its_minor, its_client) \<Rightarrow>
                    if major = ANY_MAJOR then True else its_major = major))"

definition rb_find_local_client :: "u16 \<Rightarrow> u16 \<Rightarrow> 'a routing_base_scheme \<Rightarrow> u16" where
  "rb_find_local_client s i st =
     (case lookup2 (rb_local_services st) s i of
        Some (its_major, its_minor, its_client) \<Rightarrow> its_client
      | None \<Rightarrow> VSOMEIP_ROUTING_CLIENT)"

section \<open>Local endpoints\<close>

definition rb_create_local :: "u16 \<Rightarrow> 'a routing_base_scheme \<Rightarrow> nat \<times> routing_action list \<times> 'a routing_base_scheme" where
  "rb_create_local c st =
     (let h = rb_next_endpoint st; st = st\<lparr>rb_next_endpoint := Suc h\<rparr>
      in (h, [Endpoint_create h c, Endpoint_handler h (Some c)],
          if c \<noteq> VSOMEIP_ROUTING_CLIENT
          then st\<lparr>rb_local_endpoints := (rb_local_endpoints st)(c \<mapsto> h)\<rparr> else st))"

definition rb_find_local :: "u16 \<Rightarrow> 'a routing_base_scheme \<Rightarrow> nat option" where
  "rb_find_local c st = rb_local_endpoints st c"

definition rb_find_or_create_local ::
  "u16 \<Rightarrow> 'a routing_base_scheme \<Rightarrow> nat \<times> routing_action list \<times> 'a routing_base_scheme" where
  "rb_find_or_create_local c st =
     (case rb_find_local c st of
        Some h \<Rightarrow> (h, [], st)
      | None \<Rightarrow> (case rb_create_local c st of (h, acts, st) \<Rightarrow> (h, acts @ [Endpoint_start h], st)))"

definition rb_find_local_of_service :: "u16 \<Rightarrow> u16 \<Rightarrow> 'a routing_base_scheme \<Rightarrow> nat option" where
  "rb_find_local_of_service s i st = rb_find_local (rb_find_local_client s i st) st"

definition rb_get_connected_clients :: "'a routing_base_scheme \<Rightarrow> u16 set" where
  "rb_get_connected_clients st = dom (rb_local_endpoints st)"

section \<open>Events and eventgroups\<close>

definition rb_find_event :: "u16 \<Rightarrow> u16 \<Rightarrow> u16 \<Rightarrow> 'a routing_base_scheme \<Rightarrow> nat option" where
  "rb_find_event s i ev st = lookup3 (rb_events st) s i ev"

text \<open>A lookup of an eventgroup brings what it holds of its service and configuration up to date.\<close>

definition rb_find_eventgroup :: "routing_env \<Rightarrow> u16 \<Rightarrow> u16 \<Rightarrow> u16 \<Rightarrow> 'a routing_base_scheme
    \<Rightarrow> eventgroupinfo option \<times> 'a routing_base_scheme" where
  "rb_find_eventgroup env s i g st =
     (case lookup3 (rb_eventgroups st) s i g of
        None \<Rightarrow> (None, st)
      | Some its_info \<Rightarrow>
          (case rb_find_service s i st of
             None \<Rightarrow> (Some its_info, st)
           | Some r \<Rightarrow>
               (let its_info = (case env_multicast env s i g of
                      Some (Some a, p) \<Rightarrow> set_multicast a p its_info
                    | _ \<Rightarrow> its_info);
                    its_info = egi_set_major (si_major (rb_infos st r)) its_info;
                    its_info = egi_set_ttl (si_get_ttl (rb_infos st r)) its_info;
                    its_info = set_threshold (env_threshold env s i g) its_info
                in (Some its_info, put_group s i g its_info st))))"

definition rb_remove_eventgroup_info :: "u16 \<Rightarrow> u16 \<Rightarrow> u16 \<Rightarrow> 'a routing_base_scheme \<Rightarrow> 'a routing_base_scheme" where
  "rb_remove_eventgroup_info s i g st = st\<lparr>rb_eventgroups := erase3 s i g (rb_eventgroups st)\<rparr>"

definition rb_find_events :: "u16 \<Rightarrow> u16 \<Rightarrow> u16 \<Rightarrow> 'a routing_base_scheme \<Rightarrow> nat set" where
  "rb_find_events s i g st =
     (case lookup3 (rb_eventgroups st) s i g of Some x \<Rightarrow> egi_events x | None \<Rightarrow> {})"

definition add_eventgroups :: "u16 set \<Rightarrow> event \<Rightarrow> event" where
  "add_eventgroups gs e = fold add_eventgroup (sorted_list_of_set gs) e"

text \<open>Registration of an event that is known; the flag tells whether it matched.\<close>

definition update_registered :: "routing_env \<Rightarrow> u16 \<Rightarrow> u16 set \<Rightarrow> bool \<Rightarrow> bool \<Rightarrow> bool \<Rightarrow> event \<Rightarrow> bool \<times> event" where
  "update_registered env c gs is_field is_provided is_shadow e =
     (if ev_is_field e = is_field
      then let e = (if is_provided then event_set_provided True e else e);
               e = (if is_shadow \<and> is_provided then event_set_shadow is_shadow e else e);
               e = (if c = env_host_client env \<and> is_provided then event_set_shadow False e else e)
           in (True, add_eventgroups gs e)
      else (False, e))"

text \<open>Registration of an event that so far was a placeholder; \<open>version\<close> is that of its service.\<close>

definition fill_placeholder :: "routing_env \<Rightarrow> u16 \<Rightarrow> u16 \<Rightarrow> u16 set \<Rightarrow> bool \<Rightarrow> int \<Rightarrow> bool
    \<Rightarrow> epsilon_change_func option \<Rightarrow> bool \<Rightarrow> bool \<Rightarrow> byte option \<Rightarrow> event \<Rightarrow> event" where
  "fill_placeholder env c ev gs is_field cycle change_resets_cycle epsilon is_provided is_shadow version e =
     (let e = (if \<not> is_field then unset_payload True e else e);
          e = (if is_shadow \<and> is_provided then event_set_shadow is_shadow e else e);
          e = (if c = env_host_client env \<and> is_provided then event_set_shadow False e else e);
          e = event_set_cache_placeholder False (event_set_provided is_provided (event_set_field is_field e));
          e = (case version of Some v \<Rightarrow> event_set_version v e | None \<Rightarrow> e);
          e = (if gs = {} then set_eventgroups {ev} e else add_eventgroups gs e)
      in set_update_cycle cycle (set_change_resets_cycle change_resets_cycle
           (set_epsilon_change_function epsilon e)))"

definition new_event :: "routing_env \<Rightarrow> u16 \<Rightarrow> u16 \<Rightarrow> u16 \<Rightarrow> u16 set \<Rightarrow> bool \<Rightarrow> int \<Rightarrow> bool
    \<Rightarrow> epsilon_change_func option \<Rightarrow> bool \<Rightarrow> bool \<Rightarrow> bool \<Rightarrow> byte option \<Rightarrow> event" where
  "new_event env s i ev gs is_field cycle change_resets_cycle epsilon is_provided is_shadow
       is_cache_placeholder version =
     (let e = event_set_reliable (env_event_reliable env s i ev) (event_init is_shadow);
          e = event_set_event ev (event_set_instance i (event_set_service s e));
          e = event_set_cache_placeholder is_cache_placeholder
                (event_set_provided is_provided (event_set_field is_field e));
          e = (case version of Some v \<Rightarrow> event_set_version v e | None \<Rightarrow> e);
          e = (if gs = {} then set_eventgroups {ev} e else set_eventgroups gs e);
          epsilon = (if is_shadow \<and> epsilon = None
                     then (case env_epsilon env s i ev of
                             Some f \<Rightarrow> Some f
                           | None \<Rightarrow> Some (\<lambda>_ _. Some True))
                     else epsilon)
      in set_update_cycle cycle (set_change_resets_cycle change_resets_cycle
           (set_epsilon_change_function epsilon e)))"

text \<open>The subscribers that a placeholder for all events holds in the eventgroups registered.\<close>

definition transfer_subscribers :: "u16 set \<Rightarrow> event \<Rightarrow> event \<Rightarrow> event" where
  "transfer_subscribers gs any_event e =
     fold (\<lambda>g e. if g \<in> get_eventgroups any_event
                 then fold (\<lambda>c e. snd (add_subscriber g c e)) (sorted_list_of_set (get_subscribers g any_event)) e
                 else e)
       (sorted_list_of_set gs) e"

definition join_eventgroup :: "routing_env \<Rightarrow> u16 \<Rightarrow> u16 \<Rightarrow> nat \<Rightarrow> u16 \<Rightarrow> 'a routing_base_scheme \<Rightarrow> 'a routing_base_scheme" where
  "join_eventgroup env s i r g st =
     (case rb_find_eventgroup env s i g st of
        (its_info, st) \<Rightarrow>
          put_group s i g (add_event r (ev_is_reliable (rb_event_objs st r))
            (case its_info of Some x \<Rightarrow> x | None \<Rightarrow> eventgroupinfo_init DEFAULT_MAJOR DEFAULT_TTL)) st)"

definition rb_register_event :: "routing_env \<Rightarrow> u16 \<Rightarrow> u16 \<Rightarrow> u16 \<Rightarrow> u16 \<Rightarrow> u16 set \<Rightarrow> bool \<Rightarrow> int \<Rightarrow> bool
    \<Rightarrow> epsilon_change_func option \<Rightarrow> bool \<Rightarrow> bool \<Rightarrow> bool \<Rightarrow> 'a routing_base_scheme \<Rightarrow> 'a routing_base_scheme" where
  "rb_register_event env c s i ev gs is_field cycle change_resets_cycle epsilon is_provided is_shadow
       is_cache_placeholder st =
     (let version = map_option (\<lambda>r. si_major (rb_infos st r)) (rb_find_service s i st);
          (r, transfer, e, st) =
            (case rb_find_event s i ev st of
               Some r \<Rightarrow>
                 (let e = rb_event_objs st r
                  in if \<not> ev_is_cache_placeholder e
                     then (case update_registered env c gs is_field is_provided is_shadow e of
                             (matched, e) \<Rightarrow> (r, matched, e, st))
                     else (r, False, fill_placeholder env c ev gs is_field cycle change_resets_cycle epsilon
                             is_provided is_shadow version e, st))
             | None \<Rightarrow>
                 (rb_next_event st, is_provided,
                  new_event env s i ev gs is_field cycle change_resets_cycle epsilon is_provided is_shadow
                    is_cache_placeholder version,
                  st\<lparr>rb_next_event := Suc (rb_next_event st)\<rparr>));
          e = (if transfer
               then (case rb_find_event s i ANY_EVENT st of
                       Some a \<Rightarrow> transfer_subscribers gs (if a = r then e else rb_event_objs st a) e
                     | None \<Rightarrow> e)
               else e);
          e = (if \<not> is_cache_placeholder then add_ref c is_provided e else e);
          st = fold (join_eventgroup env s i r) (sorted_list_of_set gs) (put_event r e st)
      in st\<lparr>rb_events := put3 s i ev r (rb_events st)\<rparr>)"

definition leave_eventgroup :: "routing_env \<Rightarrow> u16 \<Rightarrow> u16 \<Rightarrow> nat \<Rightarrow> u16 \<Rightarrow> 'a routing_base_scheme \<Rightarrow> 'a routing_base_scheme" where
  "leave_eventgroup env s i r g st =
     (case rb_find_eventgroup env s i g st of
        (None, st) \<Rightarrow> st
      | (Some its_info, st) \<Rightarrow>
          (let its_info = remove_event r its_info; st = put_group s i g its_info st
           in if egi_events its_info = {} then rb_remove_eventgroup_info s i g st else st))"

definition rb_unregister_event ::
  "routing_env \<Rightarrow> u16 \<Rightarrow> u16 \<Rightarrow> u16 \<Rightarrow> u16 \<Rightarrow> bool \<Rightarrow> 'a routing_base_scheme \<Rightarrow> 'a routing_base_scheme" where
  "rb_unregister_event env c s i ev is_provided st =
     (case rb_find_event s i ev st of
        None \<Rightarrow> st
      | Some r \<Rightarrow>
          (let e = remove_ref c is_provided (rb_event_objs st r); st = put_event r e st
           in if \<not> has_refs e
              then fold (leave_eventgroup env s i r) (sorted_list_of_set (get_eventgroups e))
                     (st\<lparr>rb_events := erase3 s i ev (rb_events st)\<rparr>)
              else if is_provided then put_event r (event_set_provided False e) st
              else st))"

section \<open>Notification\<close>

definition rb_notify :: "u16 \<Rightarrow> u16 \<Rightarrow> u16 \<Rightarrow> payload \<Rightarrow> bool \<Rightarrow> bool \<Rightarrow> 'a routing_base_scheme
    \<Rightarrow> (routing_action list \<times> 'a routing_base_scheme) ub" where
  "rb_notify s i ev p force flush st =
     (case rb_find_event s i ev st of
        Some r \<Rightarrow> map_option (\<lambda>(out, e). (map Routing_send out, put_event r e st))
                   (event_set_payload p force flush (rb_event_objs st r))
      | None \<Rightarrow> Some ([], st))"

text \<open>The first eventgroup of an event, in ascending order, that is known for its service.\<close>

fun valid_group :: "routing_env \<Rightarrow> u16 \<Rightarrow> u16 \<Rightarrow> u16 list \<Rightarrow> 'a routing_base_scheme
    \<Rightarrow> u16 option \<times> 'a routing_base_scheme" where
  "valid_group env s i [] st = (None, st)"
| "valid_group env s i (g # gs) st =
     (case rb_find_eventgroup env s i g st of
        (None, st) \<Rightarrow> valid_group env s i gs st
      | (Some _, st) \<Rightarrow> (Some g, st))"

definition rb_notify_one :: "routing_env \<Rightarrow> u16 \<Rightarrow> u16 \<Rightarrow> u16 \<Rightarrow> payload \<Rightarrow> u16 \<Rightarrow> bool \<Rightarrow> bool
    \<Rightarrow> 'a routing_base_scheme \<Rightarrow> (routing_action list \<times> 'a routing_base_scheme) ub" where
  "rb_notify_one env s i ev p c force flush st =
     (case rb_find_event s i ev st of
        None \<Rightarrow> Some ([], st)
      | Some r \<Rightarrow>
          (case valid_group env s i (sorted_list_of_set (get_eventgroups (rb_event_objs st r))) st of
             (None, st) \<Rightarrow> Some ([], st)
           | (Some g, st) \<Rightarrow>
               if rb_find_local c st \<noteq> None \<longrightarrow> has_subscriber g c (rb_event_objs st r)
               then map_option (\<lambda>(out, e). (map Routing_send out, put_event r e st))
                      (event_set_payload_client p c force flush (rb_event_objs st r))
               else let m = set_payload (Some p) (set_method ev (set_instance i (set_service s
                              (create_notification False))));
                        m = (case rb_find_service s i st of
                               Some q \<Rightarrow> set_interface_version (si_major (rb_infos st q)) m
                             | None \<Rightarrow> m)
                    in Some ([], st\<lparr>rb_pending_notify_ones := put3 s i g m (rb_pending_notify_ones st)\<rparr>)))"

definition rb_send_pending_notify_ones :: "routing_env \<Rightarrow> u16 \<Rightarrow> u16 \<Rightarrow> u16 \<Rightarrow> u16
    \<Rightarrow> 'a routing_base_scheme \<Rightarrow> (routing_action list \<times> 'a routing_base_scheme) ub" where
  "rb_send_pending_notify_ones env s i g c st =
     (case lookup3 (rb_pending_notify_ones st) s i g of
        None \<Rightarrow> Some ([], st)
      | Some m \<Rightarrow> do {
          p \<leftarrow> msg_payload m;
          (acts, st) \<leftarrow> rb_notify_one env s i (get_method m) p c False True st;
          Some (acts, st\<lparr>rb_pending_notify_ones := erase3 s i g (rb_pending_notify_ones st)\<rparr>) })"

definition rb_unset_all_eventpayloads :: "u16 \<Rightarrow> u16 \<Rightarrow> 'a routing_base_scheme \<Rightarrow> 'a routing_base_scheme" where
  "rb_unset_all_eventpayloads s i st =
     on_events (unset_payload True)
       (case lookup2 (rb_eventgroups st) s i of Some m \<Rightarrow> (\<Union>x\<in>ran m. egi_events x) | None \<Rightarrow> {}) st"

definition rb_unset_eventgroup_payloads :: "u16 \<Rightarrow> u16 \<Rightarrow> u16 \<Rightarrow> 'a routing_base_scheme \<Rightarrow> 'a routing_base_scheme" where
  "rb_unset_eventgroup_payloads s i g st = on_events (unset_payload True) (rb_find_events s i g st) st"

definition rb_notify_one_current_value :: "routing_env \<Rightarrow> u16 \<Rightarrow> u16 \<Rightarrow> u16 \<Rightarrow> u16 \<Rightarrow> u16 \<Rightarrow> u16 set
    \<Rightarrow> 'a routing_base_scheme \<Rightarrow> routing_action list \<times> 'a routing_base_scheme" where
  "rb_notify_one_current_value env c s i g ev events_to_exclude st =
     (if ev \<noteq> ANY_EVENT
      then (case rb_find_event s i ev st of
              Some r \<Rightarrow> (if ev_is_field (rb_event_objs st r)
                         then map Routing_send (notify_one c True (rb_event_objs st r)) else [], st)
            | None \<Rightarrow> ([], st))
      else (case rb_find_eventgroup env s i g st of
              (None, st) \<Rightarrow> ([], st)
            | (Some its_info, st) \<Rightarrow>
                (concat (map (\<lambda>r. let e = rb_event_objs st r
                                  in if ev_is_field e \<and> event_get_event e \<notin> events_to_exclude
                                     then map Routing_send (notify_one c True e) else [])
                          (sorted_list_of_set (egi_events its_info))), st)))"

section \<open>Subscription\<close>

text \<open>
  The method \<^verbatim>\<open>create_placeholder_event_and_subscribe\<close> of the derived class, given as an argument:
  for service, instance, eventgroup, event and client it tells whether the client was added.
\<close>

type_synonym 'a create_placeholder = "u16 \<Rightarrow> u16 \<Rightarrow> u16 \<Rightarrow> u16 \<Rightarrow> u16
    \<Rightarrow> 'a routing_base_scheme \<Rightarrow> bool \<times> routing_action list \<times> 'a routing_base_scheme"

fun subscribe_events :: "u16 \<Rightarrow> u16 \<Rightarrow> nat list \<Rightarrow> 'a routing_base_scheme
    \<Rightarrow> bool \<times> u16 set \<times> 'a routing_base_scheme" where
  "subscribe_events g c [] st = (False, {}, st)"
| "subscribe_events g c (r # rs) st =
     (let e = rb_event_objs st r; (added, e') = add_subscriber g c e;
          (is_inserted, already, st) = subscribe_events g c rs (put_event r e' st)
      in (added \<or> is_inserted, (if is_subscribed c e then {event_get_event e} else {}) \<union> already, st))"

definition rb_insert_subscription :: "routing_env \<Rightarrow> 'a create_placeholder \<Rightarrow> u16 \<Rightarrow> u16 \<Rightarrow> u16 \<Rightarrow> u16 \<Rightarrow> u16
    \<Rightarrow> 'a routing_base_scheme \<Rightarrow> bool \<times> u16 set \<times> routing_action list \<times> 'a routing_base_scheme" where
  "rb_insert_subscription env place s i g ev c st =
     (let placeholder = (\<lambda>st. case place s i g ev c st of (ins, acts, st) \<Rightarrow> (ins, {}, acts, st))
      in if ev \<noteq> ANY_EVENT
         then (case rb_find_event s i ev st of
                 Some r \<Rightarrow> (case add_subscriber g c (rb_event_objs st r) of
                             (ins, e) \<Rightarrow> (ins, {}, [], put_event r e st))
               | None \<Rightarrow> placeholder st)
         else (case rb_find_eventgroup env s i g st of
                 (None, st) \<Rightarrow> placeholder st
               | (Some its_info, st) \<Rightarrow>
                   if egi_events its_info = {} then placeholder st
                   else (case subscribe_events g c (sorted_list_of_set (egi_events its_info)) st of
                           (ins, already, st) \<Rightarrow> (ins, already, [], st))))"

definition rb_subscribe :: "routing_env \<Rightarrow> 'a create_placeholder \<Rightarrow> u16 \<Rightarrow> u16 \<Rightarrow> u16 \<Rightarrow> u16 \<Rightarrow> u16
    \<Rightarrow> 'a routing_base_scheme \<Rightarrow> routing_action list \<times> 'a routing_base_scheme" where
  "rb_subscribe env place c s i g ev st =
     (case rb_insert_subscription env place s i g ev c st of
        (inserted, already, acts, st) \<Rightarrow>
          if inserted
          then (case rb_notify_one_current_value env c s i g ev already st of
                  (acts', st) \<Rightarrow> (acts @ acts', st))
          else (acts, st))"

definition rb_unsubscribe :: "routing_env \<Rightarrow> u16 \<Rightarrow> u16 \<Rightarrow> u16 \<Rightarrow> u16 \<Rightarrow> u16
    \<Rightarrow> 'a routing_base_scheme \<Rightarrow> 'a routing_base_scheme" where
  "rb_unsubscribe env c s i g ev st =
     (if ev \<noteq> ANY_EVENT
      then (case rb_find_event s i ev st of
              Some r \<Rightarrow> put_event r (remove_subscriber g c (rb_event_objs st r)) st
            | None \<Rightarrow> st)
      else (case rb_find_eventgroup env s i g st of
              (None, st) \<Rightarrow> st
            | (Some its_info, st) \<Rightarrow> on_events (remove_subscriber g c) (egi_events its_info) st))"

definition rb_get_subscriptions :: "u16 \<Rightarrow> 'a routing_base_scheme \<Rightarrow> (u16 \<times> u16 \<times> u16) set" where
  "rb_get_subscriptions c st =
     {(s, i, g). \<exists>r\<in>events_of s i st. g \<in> get_eventgroups_of c (rb_event_objs st r)}"

definition rb_remove_local_subscriptions :: "routing_env \<Rightarrow> u16 \<Rightarrow> (u16 \<times> u16 \<times> u16) list
    \<Rightarrow> 'a routing_base_scheme \<Rightarrow> 'a routing_base_scheme" where
  "rb_remove_local_subscriptions env c subs st =
     fold (\<lambda>(s, i, g). rb_unsubscribe env c s i g ANY_EVENT) subs st"

text \<open>The services a client offers, with their versions.\<close>

definition services_of_client :: "u16 \<Rightarrow> 'a routing_base_scheme \<Rightarrow> (u16 \<times> u16) set" where
  "services_of_client c st =
     {(s, i). \<exists>major minor. lookup2 (rb_local_services st) s i = Some (major, minor, c)}"

definition rb_remove_local_with :: "routing_env \<Rightarrow> u16 \<Rightarrow> (u16 \<times> u16 \<times> u16) set
    \<Rightarrow> 'a routing_base_scheme \<Rightarrow> routing_action list \<times> 'a routing_base_scheme" where
  "rb_remove_local_with env c subscribed_eventgroups st =
     (let subs = sorted_list_of_set subscribed_eventgroups;
          acts = map (\<lambda>(s, i, g). Host_on_subscription s i g c False) subs;
          st = rb_remove_local_subscriptions env c subs st;
          (acts', st) = (case rb_find_local c st of
             Some h \<Rightarrow> ([Endpoint_handler h None, Endpoint_stop h],
                       st\<lparr>rb_local_endpoints := (rb_local_endpoints st)(c := None)\<rparr>)
           | None \<Rightarrow> ([], st));
          its_services = sorted_list_of_set (services_of_client c st);
          acts'' = map (\<lambda>(s, i). case lookup2 (rb_local_services st) s i of
                      Some (major, minor, _) \<Rightarrow> Host_on_availability s i False major minor
                    | None \<Rightarrow> Host_on_availability s i False 0 0) its_services
      in (acts @ acts' @ acts'',
          st\<lparr>rb_local_services := fold (\<lambda>(s, i). prune2 s i) its_services (rb_local_services st)\<rparr>))"

definition rb_remove_local :: "routing_env \<Rightarrow> u16 \<Rightarrow> 'a routing_base_scheme
    \<Rightarrow> routing_action list \<times> 'a routing_base_scheme" where
  "rb_remove_local env c st = rb_remove_local_with env c (rb_get_subscriptions c st) st"

definition rb_send_pending_subscriptions :: "u16 \<Rightarrow> u16 \<Rightarrow> byte \<Rightarrow> 'a routing_base_scheme \<Rightarrow> subscription_data list" where
  "rb_send_pending_subscriptions s i major st =
     filter (\<lambda>ps. sd_service ps = s \<and> sd_instance ps = i \<and> sd_major ps = major) (rb_pending_subscriptions st)"

definition rb_remove_pending_subscription :: "u16 \<Rightarrow> u16 \<Rightarrow> u16 \<Rightarrow> u16 \<Rightarrow> 'a routing_base_scheme \<Rightarrow> 'a routing_base_scheme" where
  "rb_remove_pending_subscription s i g ev st =
     st\<lparr>rb_pending_subscriptions :=
       (if g = 0xFFFF
        then filter (\<lambda>d. \<not> (sd_service d = s \<and> sd_instance d = i)) (rb_pending_subscriptions st)
        else if ev = ANY_EVENT
        then filter (\<lambda>d. \<not> (sd_service d = s \<and> sd_instance d = i \<and> sd_eventgroup d = g))
               (rb_pending_subscriptions st)
        else erase_first (\<lambda>d. sd_service d = s \<and> sd_instance d = i \<and> sd_eventgroup d = g \<and> sd_event d = ev)
               (rb_pending_subscriptions st))\<rparr>"

section \<open>Sending\<close>

definition rb_send_local :: "nat \<Rightarrow> u16 \<Rightarrow> byte list \<Rightarrow> u16 \<Rightarrow> bool \<Rightarrow> bool \<Rightarrow> byte \<Rightarrow> bool
    \<Rightarrow> 'a routing_base_scheme \<Rightarrow> routing_action" where
  "rb_send_local target c data i flush reliable cmd is_valid_crc st =
     Endpoint_send target (command cmd (rb_client st)
       (data @ le16 i @ le_bool flush @ le_bool reliable @ le_bool is_valid_crc
        @ (if cmd = VSOMEIP_NOTIFY_ONE then le16 c else [])))"

text \<open>
  A notification goes to every local subscriber of the event that has an endpoint; the result tells
  whether the routing manager is a subscriber too, that is whether a remote client is.
\<close>

definition rb_send_local_notification :: "u16 \<Rightarrow> byte list \<Rightarrow> u16 \<Rightarrow> bool \<Rightarrow> bool \<Rightarrow> bool
    \<Rightarrow> 'a routing_base_scheme \<Rightarrow> (bool \<times> routing_action list) ub" where
  "rb_send_local_notification c data i flush reliable is_valid_crc st = do {
     m0 \<leftarrow> vec_get data 2; m1 \<leftarrow> vec_get data 3; s0 \<leftarrow> vec_get data 0; s1 \<leftarrow> vec_get data 1;
     Some (case rb_find_event (VSOMEIP_BYTES_TO_WORD s0 s1) i (VSOMEIP_BYTES_TO_WORD m0 m1) st of
       None \<Rightarrow> (False, [])
     | Some r \<Rightarrow>
         if ev_is_shadow (rb_event_objs st r) then (False, [])
         else let subscribers = get_all_subscribers (rb_event_objs st r)
              in (VSOMEIP_ROUTING_CLIENT \<in> subscribers,
                  concat (map (\<lambda>its_client.
                      if its_client = VSOMEIP_ROUTING_CLIENT then []
                      else (case rb_find_local its_client st of
                              Some h \<Rightarrow> [rb_send_local h c data i flush reliable VSOMEIP_SEND is_valid_crc st]
                            | None \<Rightarrow> []))
                    (sorted_list_of_set subscribers)))) }"

definition rb_send_identify_request :: "u16 \<Rightarrow> u16 \<Rightarrow> byte \<Rightarrow> bool \<Rightarrow> 'a routing_base_scheme \<Rightarrow> routing_action list" where
  "rb_send_identify_request s i major reliable st =
     [Host_send (set_message_type MT_REQUEST (set_interface_version major (set_method (ANY_METHOD - 1)
        (set_client (rb_client st) (set_instance i (set_service s (create_message reliable))))))) True]"

text \<open>
  Sending a message: the bytes handed to the virtual \<^verbatim>\<open>send\<close>, with the instance and reliability of
  the message; nothing when it could not be serialised.
\<close>

definition rb_serialize :: "u16 \<Rightarrow> message \<Rightarrow> serializer \<Rightarrow> (byte list \<times> u16 \<times> bool) option" where
  "rb_serialize c m ser =
     (let m = (if is_request (get_message_type m) then set_client c m else m)
      in case message_serialize m ser of
           (ok, ser) \<Rightarrow> if ok then Some (ser_data ser, get_instance m, msg_reliable m) else None)"

text \<open>The pool of deserializers; \<open>None\<close> is a wait for one to be put back.\<close>

definition rb_get_deserializer :: "'a routing_base_scheme \<Rightarrow> 'a routing_base_scheme option" where
  "rb_get_deserializer st =
     (if rb_free_deserializers st = 0 then None
      else Some (st\<lparr>rb_free_deserializers := rb_free_deserializers st - 1\<rparr>))"

definition rb_put_deserializer :: "'a routing_base_scheme \<Rightarrow> 'a routing_base_scheme" where
  "rb_put_deserializer st = st\<lparr>rb_free_deserializers := Suc (rb_free_deserializers st)\<rparr>"

section \<open>Events keep their identity\<close>

definition event_id :: "event \<Rightarrow> u16 \<times> u16 \<times> u16" where
  "event_id e = (event_get_service e, event_get_instance e, event_get_event e)"

definition same_event :: "event \<Rightarrow> event \<Rightarrow> bool" where
  "same_event e e' \<longleftrightarrow> event_id e' = event_id e \<and> (payload_ok e \<longrightarrow> payload_ok e')"

lemma same_event_refl [simp]: "same_event e e"
  by (simp add: same_event_def)

lemma same_event_trans [trans]: "same_event e e' \<Longrightarrow> same_event e' e'' \<Longrightarrow> same_event e e''"
  by (simp add: same_event_def)

lemma same_event_message:
  "ev_message e' = ev_message e \<Longrightarrow> ev_is_set e' = ev_is_set e \<Longrightarrow> same_event e e'"
  by (simp add: same_event_def event_id_def event_get_service_def event_get_instance_def event_get_event_def
      payload_ok_def)

lemma same_event_configure [simp]:
  "same_event e (event_set_field b e)" "same_event e (event_set_provided b e)"
  "same_event e (event_set_shadow b e)" "same_event e (event_set_cache_placeholder b e)"
  "same_event e (event_set_reliable b e)" "same_event e (set_change_resets_cycle b e)"
  "same_event e (set_epsilon_change_function f e)" "same_event e (set_update_cycle t e)"
  "same_event e (add_eventgroup g e)" "same_event e (set_eventgroups gs e)"
  "same_event e (snd (add_subscriber g c e))" "same_event e (remove_subscriber g c e)"
  "same_event e (clear_subscribers e)" "same_event e (add_ref c b e)" "same_event e (remove_ref c b e)"
  by (rule same_event_message; auto simp: event_simple_ops Let_def split: option.splits)+

lemma same_event_version [simp]: "same_event e (event_set_version v e)"
  by (simp add: same_event_def event_id_def event_get_service_def event_get_instance_def event_get_event_def
      payload_ok_def event_set_version_def message_setters get_service_def get_instance_def get_method_def)

lemma same_event_unset [simp]: "same_event e (unset_payload force e)"
  by (auto simp: same_event_def event_id_def event_get_service_def event_get_instance_def event_get_event_def
      payload_ok_def unset_payload_def Let_def message_setters get_service_def get_instance_def get_method_def
      create_payload_def payload_fits_def)

lemma same_event_fold: "(\<And>x e. same_event e (f x e)) \<Longrightarrow> same_event e (fold f xs e)"
  by (induction xs arbitrary: e) (simp, metis fold_simps(2) same_event_trans)

lemma same_event_add_eventgroups [simp]: "same_event e (add_eventgroups gs e)"
  by (simp add: add_eventgroups_def same_event_fold)

lemma same_event_transfer [simp]: "same_event e (transfer_subscribers gs a e)"
  by (simp add: transfer_subscribers_def same_event_fold)

lemmas same_event_ids = same_event_configure same_event_version same_event_unset
  same_event_add_eventgroups same_event_transfer

lemmas event_ids = same_event_ids [THEN same_event_def [THEN iffD1], THEN conjunct1]

lemmas event_payloads = same_event_ids [THEN same_event_def [THEN iffD1], THEN conjunct2, rule_format]

lemma same_event_update_registered:
  "update_registered env c gs is_field is_provided is_shadow e = (b, e') \<Longrightarrow> same_event e e'"
  unfolding same_event_def update_registered_def Let_def
  by (auto simp: event_ids event_payloads split: if_splits)

lemma same_event_fill_placeholder:
  "same_event e (fill_placeholder env c ev gs is_field cycle resets epsilon is_provided is_shadow version e)"
  unfolding same_event_def fill_placeholder_def Let_def
  by (cases version) (simp_all add: event_ids event_payloads)

lemma new_event_id:
  "event_id (new_event env s i ev gs is_field cycle resets epsilon is_provided is_shadow placeholder version) = (s, i, ev)
   \<and> payload_ok (new_event env s i ev gs is_field cycle resets epsilon is_provided is_shadow placeholder version)"
proof -
  let ?e = "event_set_event ev (event_set_instance i (event_set_service s
      (event_set_reliable (env_event_reliable env s i ev) (event_init is_shadow))))"
  have "same_event ?e (new_event env s i ev gs is_field cycle resets epsilon is_provided is_shadow placeholder version)"
    unfolding same_event_def new_event_def Let_def
    by (cases version) (simp_all add: event_ids event_payloads)
  moreover have "event_id ?e = (s, i, ev)" "payload_ok ?e"
    by (simp_all add: event_id_def event_get_service_def event_get_instance_def event_get_event_def event_simple_ops
        get_service_def get_instance_def get_method_def message_setters payload_ok_def event_init_def
        create_notification_def message_init_def create_payload_def payload_fits_def)
  ultimately show ?thesis by (simp add: same_event_def)
qed

section \<open>Well-formed states\<close>

text \<open>
  Numbers in the tables are those of objects that exist; an event is registered under its own
  identifiers, an eventgroup holds events of its service instance only, the services known to be
  remote are not local ones, pending subscriptions are in order, and two clients never share an
  endpoint.
\<close>

definition events_ok :: "(nat \<Rightarrow> event) \<Rightarrow> nat \<Rightarrow> (u16, u16, u16, nat) map3 \<Rightarrow> bool" where
  "events_ok objs n evs \<longleftrightarrow> (\<forall>r. payload_ok (objs r))
     \<and> (\<forall>s i ev r. lookup3 evs s i ev = Some r \<longrightarrow> r < n \<and> event_id (objs r) = (s, i, ev))"

definition group_ok :: "(nat \<Rightarrow> event) \<Rightarrow> nat \<Rightarrow> u16 \<Rightarrow> u16 \<Rightarrow> eventgroupinfo \<Rightarrow> bool" where
  "group_ok objs n s i x \<longleftrightarrow> finite (egi_events x)
     \<and> (\<forall>r\<in>egi_events x. r < n \<and> (\<exists>ev. event_id (objs r) = (s, i, ev)))"

definition eventgroups_ok :: "(nat \<Rightarrow> event) \<Rightarrow> nat \<Rightarrow> (u16, u16, u16, eventgroupinfo) map3 \<Rightarrow> bool" where
  "eventgroups_ok objs n gs \<longleftrightarrow> (\<forall>s i g x. lookup3 gs s i g = Some x \<longrightarrow> group_ok objs n s i x)"

definition infos_ok :: "(nat \<Rightarrow> serviceinfo) \<Rightarrow> nat \<Rightarrow> (u16, u16, nat) map2 \<Rightarrow> (u16, u16, nat) map2 \<Rightarrow> bool" where
  "infos_ok infos n svcs remote \<longleftrightarrow> (\<forall>s i r. lookup2 svcs s i = Some r \<longrightarrow> r < n)
     \<and> (\<forall>s i r. lookup2 remote s i = Some r \<longrightarrow> r < n \<and> \<not> si_is_local (infos r))"

definition endpoints_ok :: "(u16 \<rightharpoonup> nat) \<Rightarrow> nat \<Rightarrow> bool" where
  "endpoints_ok eps n \<longleftrightarrow> (\<forall>h\<in>ran eps. h < n) \<and> inj_on eps (dom eps) \<and> eps VSOMEIP_ROUTING_CLIENT = None"

definition rb_ok :: "'a routing_base_scheme \<Rightarrow> bool" where
  "rb_ok st \<longleftrightarrow> events_ok (rb_event_objs st) (rb_next_event st) (rb_events st)
     \<and> eventgroups_ok (rb_event_objs st) (rb_next_event st) (rb_eventgroups st)
     \<and> infos_ok (rb_infos st) (rb_next_info st) (rb_services st) (rb_services_remote st)
     \<and> endpoints_ok (rb_local_endpoints st) (rb_next_endpoint st)
     \<and> oset_ok subscription_key (rb_pending_subscriptions st)"

lemma rb_ok_init: "rb_ok (rb_init c)"
proof -
  have "payload_ok (event_init False)"
    by (simp add: payload_ok_def event_init_def create_notification_def message_setters message_init_def
        create_payload_def payload_fits_def)
  then show ?thesis
    by (simp add: rb_ok_def rb_init_def events_ok_def eventgroups_ok_def infos_ok_def endpoints_ok_def oset_ok_def)
qed

text \<open>Which components an operation has to respect.\<close>

lemma rb_ok_objs:
  assumes "rb_ok st" and "\<And>r. same_event (rb_event_objs st r) (objs r)"
  shows "rb_ok (st\<lparr>rb_event_objs := objs\<rparr>)"
proof -
  have id: "event_id (objs r) = event_id (rb_event_objs st r)" and
    p: "payload_ok (rb_event_objs st r) \<Longrightarrow> payload_ok (objs r)" for r
    using assms(2) [of r] by (simp_all add: same_event_def)
  show ?thesis
    using assms(1) p unfolding rb_ok_def events_ok_def eventgroups_ok_def group_ok_def by (simp add: id)
qed

lemma rb_ok_put_event: "rb_ok st \<Longrightarrow> same_event (rb_event_objs st r) e \<Longrightarrow> rb_ok (put_event r e st)"
  unfolding put_event_def by (rule rb_ok_objs) simp_all

lemma rb_ok_on_events: "rb_ok st \<Longrightarrow> (\<And>e. same_event e (f e)) \<Longrightarrow> rb_ok (on_events f R st)"
  unfolding on_events_def by (rule rb_ok_objs) simp_all

lemma rb_ok_put_info:
  "rb_ok st \<Longrightarrow> si_is_local x = si_is_local (rb_infos st r) \<Longrightarrow> rb_ok (put_info r x st)"
  by (simp add: rb_ok_def put_info_def infos_ok_def)

lemma rb_ok_put_group:
  "rb_ok st \<Longrightarrow> group_ok (rb_event_objs st) (rb_next_event st) s i x \<Longrightarrow> rb_ok (put_group s i g x st)"
  by (simp add: rb_ok_def put_group_def eventgroups_ok_def table_simps)

lemma rb_ok_more:
  "rb_ok st \<Longrightarrow> rb_ok (st\<lparr>rb_local_services := x\<rparr>)" "rb_ok st \<Longrightarrow> rb_ok (st\<lparr>rb_pending_notify_ones := y\<rparr>)"
  "rb_ok st \<Longrightarrow> rb_ok (st\<lparr>rb_free_deserializers := z\<rparr>)"
  by (simp_all add: rb_ok_def)

section \<open>Operations keep states well-formed\<close>

text \<open>What a lookup of an eventgroup leaves as it is.\<close>

lemma find_eventgroup_spec:
  "(lookup3 (rb_eventgroups st) s i g = None \<and> rb_find_eventgroup env s i g st = (None, st))
   \<or> (\<exists>y z. lookup3 (rb_eventgroups st) s i g = Some z \<and> egi_events y = egi_events z
      \<and> (rb_find_eventgroup env s i g st = (Some y, put_group s i g y st)
         \<or> rb_find_eventgroup env s i g st = (Some y, st)))"
proof (cases "lookup3 (rb_eventgroups st) s i g")
  case None
  then show ?thesis by (simp add: rb_find_eventgroup_def)
next
  case (Some z)
  show ?thesis
  proof (cases "rb_find_service s i st")
    case None
    with Some show ?thesis by (auto simp: rb_find_eventgroup_def)
  next
    case r: (Some r)
    let ?y = "set_threshold (env_threshold env s i g) (egi_set_ttl (si_get_ttl (rb_infos st r))
      (egi_set_major (si_major (rb_infos st r))
        (case env_multicast env s i g of Some (Some a, p) \<Rightarrow> set_multicast a p z | _ \<Rightarrow> z)))"
    have "egi_events ?y = egi_events z"
      by (simp add: set_multicast_def egi_set_major_def egi_set_ttl_def set_threshold_def
          split: option.split prod.split)
    moreover have "rb_find_eventgroup env s i g st = (Some ?y, put_group s i g ?y st)"
      unfolding rb_find_eventgroup_def Let_def Some r option.case by (rule refl)
    ultimately show ?thesis using Some by blast
  qed
qed

lemma put_group_fields [simp]:
  "rb_event_objs (put_group s i g x st) = rb_event_objs st" "rb_next_event (put_group s i g x st) = rb_next_event st"
  "rb_events (put_group s i g x st) = rb_events st" "rb_local_services (put_group s i g x st) = rb_local_services st"
  "rb_local_endpoints (put_group s i g x st) = rb_local_endpoints st"
  "rb_services (put_group s i g x st) = rb_services st" "rb_infos (put_group s i g x st) = rb_infos st"
  "rb_client (put_group s i g x st) = rb_client st"
  "rb_pending_notify_ones (put_group s i g x st) = rb_pending_notify_ones st"
  "rb_find_events s' i' g' (put_group s i g x st)
    = (if s' = s \<and> i' = i \<and> g' = g then egi_events x else rb_find_events s' i' g' st)"
  by (simp_all add: put_group_def rb_find_events_def table_simps)

lemma find_eventgroup_fields:
  fixes st :: "'a routing_base_scheme" and env s i g
  defines "st' \<equiv> snd (rb_find_eventgroup env s i g st)"
  shows "rb_event_objs st' = rb_event_objs st" "rb_next_event st' = rb_next_event st" "rb_events st' = rb_events st"
    "rb_find_events s' i' g' st' = rb_find_events s' i' g' st" "rb_local_services st' = rb_local_services st"
    "rb_local_endpoints st' = rb_local_endpoints st" "rb_services st' = rb_services st" "rb_infos st' = rb_infos st"
    "rb_client st' = rb_client st" "rb_pending_notify_ones st' = rb_pending_notify_ones st"
  unfolding st'_def using find_eventgroup_spec [of st s i g env]
  by (auto simp: rb_find_events_def put_group_def table_simps split: if_splits)

lemma find_eventgroup_events:
  "fst (rb_find_eventgroup env s i g st) = Some x \<Longrightarrow> egi_events x = rb_find_events s i g st"
  using find_eventgroup_spec [of st s i g env] by (auto simp: rb_find_events_def)

lemma find_eventgroup_None:
  "fst (rb_find_eventgroup env s i g st) = None \<longleftrightarrow> lookup3 (rb_eventgroups st) s i g = None"
  using find_eventgroup_spec [of st s i g env] by auto

lemma rb_ok_group: "rb_ok st \<Longrightarrow> lookup3 (rb_eventgroups st) s i g = Some x \<Longrightarrow>
    group_ok (rb_event_objs st) (rb_next_event st) s i x"
  by (auto simp: rb_ok_def eventgroups_ok_def)

lemma rb_ok_find_eventgroup:
  assumes "rb_ok st"
  shows "rb_ok (snd (rb_find_eventgroup env s i g st))"
    and "fst (rb_find_eventgroup env s i g st) = Some y \<Longrightarrow>
      group_ok (rb_event_objs st) (rb_next_event st) s i y"
proof -
  have g: "group_ok (rb_event_objs st) (rb_next_event st) s i y"
    if "lookup3 (rb_eventgroups st) s i g = Some z" "egi_events y = egi_events z" for y z
    using rb_ok_group [OF assms that(1)] that(2) by (simp add: group_ok_def)
  show "rb_ok (snd (rb_find_eventgroup env s i g st))"
    using find_eventgroup_spec [of st s i g env] by (auto simp: assms intro!: rb_ok_put_group [OF assms] g)
  show "fst (rb_find_eventgroup env s i g st) = Some y \<Longrightarrow> group_ok (rb_event_objs st) (rb_next_event st) s i y"
    using find_eventgroup_spec [of st s i g env] by (auto intro: g)
qed

lemma rb_ok_offer_service: "rb_ok st \<Longrightarrow> rb_offer_service s i major minor st = (b, acts, st') \<Longrightarrow> rb_ok st'"
proof -
  assume ok: "rb_ok st" and offer: "rb_offer_service s i major minor st = (b, acts, st')"
  have "rb_ok (snd (rb_create_service_info s i major minor ttl True st))" for ttl
    using ok by (fastforce simp: rb_create_service_info_def Let_def rb_ok_def put_info_def infos_ok_def table_simps
        less_Suc_eq split: if_splits)
  then show ?thesis
    using offer ok by (auto simp: rb_offer_service_def Let_def si_set_ttl_def split: option.splits if_splits
        intro!: rb_ok_on_events rb_ok_put_info)
qed

lemma rb_ok_services:
  assumes "rb_ok st"
  shows "rb_ok (rb_stop_offer_service s i st)" "rb_ok (snd (rb_request_service c s i major minor st))"
    "rb_ok (rb_release_service c s i st)" "rb_ok (rb_clear_service_info s i reliable st)"
proof -
  show "rb_ok (rb_stop_offer_service s i st)"
    unfolding rb_stop_offer_service_def
    by (rule rb_ok_on_events [OF assms]) (simp add: same_event_def event_ids event_payloads)
  show "rb_ok (snd (rb_request_service c s i major minor st))"
    using assms by (auto simp: rb_request_service_def Let_def add_client_def split: option.split intro!: rb_ok_put_info)
  show "rb_ok (rb_release_service c s i st)"
    using assms by (auto simp: rb_release_service_def remove_client_def split: option.split intro!: rb_ok_put_info)
  have drop: "lookup2 (m(s := None)) a b = Some r \<Longrightarrow> lookup2 m a b = Some r" for m :: "(u16, u16, nat) map2" and a b r
    by (simp add: lookup2_def split: if_splits)
  show "rb_ok (rb_clear_service_info s i reliable st)"
    using assms unfolding rb_clear_service_info_def Let_def
    by (auto simp: rb_ok_def infos_ok_def put_info_def si_set_endpoint_def table_simps split: option.split dest!: drop)
qed

lemma endpoints_ok_new:
  assumes "endpoints_ok eps n" and "eps c = None" and "c \<noteq> VSOMEIP_ROUTING_CLIENT"
  shows "endpoints_ok (eps(c \<mapsto> n)) (Suc n)"
proof -
  have lt: "h < n" if "eps d = Some h" for d h
    using assms(1) that by (auto simp: endpoints_ok_def ran_def)
  have "inj_on (eps(c \<mapsto> n)) (dom (eps(c \<mapsto> n)))"
  proof (rule inj_onI)
    fix x y
    assume "x \<in> dom (eps(c \<mapsto> n))" "y \<in> dom (eps(c \<mapsto> n))" "(eps(c \<mapsto> n)) x = (eps(c \<mapsto> n)) y"
    then show "x = y"
      using assms(1) lt by (auto simp: endpoints_ok_def inj_on_def split: if_splits) (metis less_irrefl)+
  qed
  then show ?thesis
    using assms lt by (auto simp: endpoints_ok_def ran_def less_Suc_eq)
qed

lemma rb_ok_create_local:
  assumes "rb_ok st" and "rb_create_local c st = (h, acts, st')" and "rb_local_endpoints st c = None"
  shows "rb_ok st'"
proof -
  have "endpoints_ok (rb_local_endpoints st) (Suc (rb_next_endpoint st))"
    using assms(1) by (auto simp: rb_ok_def endpoints_ok_def less_Suc_eq)
  then show ?thesis
    using assms endpoints_ok_new [of "rb_local_endpoints st" "rb_next_endpoint st" c]
    by (auto simp: rb_create_local_def Let_def rb_ok_def)
qed

lemma rb_ok_find_or_create_local:
  "rb_ok st \<Longrightarrow> rb_find_or_create_local c st = (h, acts, st') \<Longrightarrow> rb_ok st'"
  by (auto simp: rb_find_or_create_local_def rb_find_local_def split: option.splits prod.splits
      dest: rb_ok_create_local)

lemma rb_ok_find_event:
  "rb_ok st \<Longrightarrow> rb_find_event s i ev st = Some r \<Longrightarrow>
    r < rb_next_event st \<and> event_id (rb_event_objs st r) = (s, i, ev)"
  by (auto simp: rb_ok_def events_ok_def rb_find_event_def)

lemma group_ok_add:
  "group_ok objs n s i x \<Longrightarrow> r < n \<Longrightarrow> event_id (objs r) = (s, i, ev) \<Longrightarrow> group_ok objs n s i (add_event r b x)"
  by (auto simp: group_ok_def add_event_def Let_def)

lemma join_eventgroup_ok:
  assumes "rb_ok st" and "r < rb_next_event st" and "event_id (rb_event_objs st r) = (s, i, ev)"
  shows "rb_ok (join_eventgroup env s i r g st)"
    and "rb_event_objs (join_eventgroup env s i r g st) = rb_event_objs st"
    and "rb_next_event (join_eventgroup env s i r g st) = rb_next_event st"
    and "rb_events (join_eventgroup env s i r g st) = rb_events st"
    and "rb_find_events s' i' g' (join_eventgroup env s i r g st)
      = (if s' = s \<and> i' = i \<and> g' = g then insert r (rb_find_events s i g st) else rb_find_events s' i' g' st)"
proof -
  obtain x st1 where found: "rb_find_eventgroup env s i g st = (x, st1)" by fastforce
  note fields = find_eventgroup_fields [where env = env and s = s and i = i and g = g and st = st, unfolded found snd_conv]
  let ?x = "case x of Some x \<Rightarrow> x | None \<Rightarrow> eventgroupinfo_init DEFAULT_MAJOR DEFAULT_TTL"
  have join: "join_eventgroup env s i r g st
      = put_group s i g (add_event r (ev_is_reliable (rb_event_objs st1 r)) ?x) st1"
    by (simp add: join_eventgroup_def found)
  have ok: "rb_ok st1" "x = Some y \<Longrightarrow> group_ok (rb_event_objs st) (rb_next_event st) s i y" for y
    using rb_ok_find_eventgroup [OF assms(1), where env = env and s = s and i = i and g = g] by (simp_all add: found)
  have "group_ok (rb_event_objs st) (rb_next_event st) s i ?x"
    using ok(2) by (cases x) (simp_all add: group_ok_def eventgroupinfo_init_def)
  from group_ok_add [of "rb_event_objs st", OF this assms(2,3)] show "rb_ok (join_eventgroup env s i r g st)"
    unfolding join by (intro rb_ok_put_group ok(1)) (simp add: fields)
  show "rb_event_objs (join_eventgroup env s i r g st) = rb_event_objs st"
    "rb_next_event (join_eventgroup env s i r g st) = rb_next_event st"
    "rb_events (join_eventgroup env s i r g st) = rb_events st"
    by (simp_all add: join fields)
  have "egi_events ?x = rb_find_events s i g st"
    using find_eventgroup_events [of env s i g st] find_eventgroup_None [of env s i g st]
    by (cases x) (auto simp: found eventgroupinfo_init_def rb_find_events_def)
  then show "rb_find_events s' i' g' (join_eventgroup env s i r g st)
      = (if s' = s \<and> i' = i \<and> g' = g then insert r (rb_find_events s i g st) else rb_find_events s' i' g' st)"
    by (simp add: join fields add_event_def Let_def)
qed

lemma join_eventgroups_ok:
  assumes "rb_ok st" and "r < rb_next_event st" and "event_id (rb_event_objs st r) = (s, i, ev)"
  shows "rb_ok (fold (join_eventgroup env s i r) gs st)
    \<and> rb_event_objs (fold (join_eventgroup env s i r) gs st) = rb_event_objs st
    \<and> rb_next_event (fold (join_eventgroup env s i r) gs st) = rb_next_event st
    \<and> rb_events (fold (join_eventgroup env s i r) gs st) = rb_events st
    \<and> rb_find_events s' i' g' (fold (join_eventgroup env s i r) gs st)
      = (if s' = s \<and> i' = i \<and> g' \<in> set gs then insert r (rb_find_events s i g' st) else rb_find_events s' i' g' st)"
  using assms
proof (induction gs arbitrary: st)
  case (Cons g gs)
  note j = join_eventgroup_ok [OF Cons.prems, where env = env and g = g]
  have "rb_event_objs (join_eventgroup env s i r g st) r = rb_event_objs st r" by (simp add: j)
  with Cons.IH [OF j(1)] Cons.prems show ?case by (auto simp: j)
qed simp

text \<open>The event that a registration leaves in the tables.\<close>

definition registered :: "routing_env \<Rightarrow> u16 \<Rightarrow> u16 \<Rightarrow> u16 \<Rightarrow> u16 \<Rightarrow> u16 set \<Rightarrow> bool \<Rightarrow> int \<Rightarrow> bool
    \<Rightarrow> epsilon_change_func option \<Rightarrow> bool \<Rightarrow> bool \<Rightarrow> bool \<Rightarrow> 'a routing_base_scheme \<Rightarrow> nat \<times> event" where
  "registered env c s i ev gs is_field cycle resets epsilon is_provided is_shadow placeholder st =
     (let version = map_option (\<lambda>r. si_major (rb_infos st r)) (rb_find_service s i st);
          (r, transfer, e) =
            (case rb_find_event s i ev st of
               Some r \<Rightarrow>
                 (let e = rb_event_objs st r
                  in if \<not> ev_is_cache_placeholder e
                     then (case update_registered env c gs is_field is_provided is_shadow e of
                             (matched, e) \<Rightarrow> (r, matched, e))
                     else (r, False, fill_placeholder env c ev gs is_field cycle resets epsilon
                             is_provided is_shadow version e))
             | None \<Rightarrow>
                 (rb_next_event st, is_provided,
                  new_event env s i ev gs is_field cycle resets epsilon is_provided is_shadow placeholder version));
          e = (if transfer
               then (case rb_find_event s i ANY_EVENT st of
                       Some a \<Rightarrow> transfer_subscribers gs (if a = r then e else rb_event_objs st a) e
                     | None \<Rightarrow> e)
               else e)
      in (r, if \<not> placeholder then add_ref c is_provided e else e))"

lemma register_event_eq:
  "rb_register_event env c s i ev gs is_field cycle resets epsilon is_provided is_shadow placeholder st =
     (case registered env c s i ev gs is_field cycle resets epsilon is_provided is_shadow placeholder st of
        (r, e) \<Rightarrow> (let st = st\<lparr>rb_next_event := (if rb_find_event s i ev st = None then Suc (rb_next_event st)
                                else rb_next_event st)\<rparr>;
                       st = fold (join_eventgroup env s i r) (sorted_list_of_set gs) (put_event r e st)
                   in st\<lparr>rb_events := put3 s i ev r (rb_events st)\<rparr>))"
proof (cases "rb_find_event s i ev st")
  case None
  then show ?thesis
    by (simp add: rb_register_event_def registered_def Let_def rb_find_event_def split: option.split)
next
  case (Some r)
  then show ?thesis
    by (cases "update_registered env c gs is_field is_provided is_shadow (rb_event_objs st r)")
      (simp add: rb_register_event_def registered_def Let_def)
qed

lemma registered_ok:
  assumes "rb_ok st"
    and "registered env c s i ev gs is_field cycle resets epsilon is_provided is_shadow placeholder st = (r, e)"
  shows "event_id e = (s, i, ev) \<and> payload_ok e
    \<and> (case rb_find_event s i ev st of Some r' \<Rightarrow> r = r' | None \<Rightarrow> r = rb_next_event st)"
proof -
  have ok: "payload_ok (rb_event_objs st r)" for r using assms(1) by (simp add: rb_ok_def events_ok_def)
  have keep: "event_id x = (s, i, ev) \<and> payload_ok x" if "same_event y x" "event_id y = (s, i, ev)" "payload_ok y" for x y
    using that by (simp add: same_event_def)
  have add: "event_id (if b then add_ref c is_provided x else x) = event_id x"
    "payload_ok x \<Longrightarrow> payload_ok (if b then add_ref c is_provided x else x)" for b x
    by (simp_all add: event_ids event_payloads)
  show ?thesis
  proof (cases "rb_find_event s i ev st")
    case None
    with assms(2) show ?thesis
      by (auto simp: registered_def Let_def event_ids event_payloads new_event_id split: option.splits if_splits)
  next
    case (Some r')
    note id = rb_ok_find_event [OF assms(1) Some]
    obtain b x where upd: "update_registered env c gs is_field is_provided is_shadow (rb_event_objs st r') = (b, x)"
      by fastforce
    note x = keep [OF same_event_update_registered [OF upd] conjunct2 [OF id] ok]
    note fill = keep [OF same_event_fill_placeholder conjunct2 [OF id] ok]
    from Some assms(2) x fill show ?thesis
      by (auto simp: registered_def Let_def upd event_ids event_payloads split: option.splits if_splits)
  qed
qed

lemma rb_ok_new_event:
  assumes "rb_ok st" and "r = n \<and> n' = Suc n \<or> r < n \<and> n' = n" and "n = rb_next_event st"
    and "event_id e = (s, i, ev)" and "payload_ok e" and "r < n \<Longrightarrow> event_id (rb_event_objs st r) = (s, i, ev)"
  shows "rb_ok (put_event r e (st\<lparr>rb_next_event := n'\<rparr>))"
proof -
  let ?objs = "(rb_event_objs st)(r := e)"
  have lt: "q < n \<Longrightarrow> q < n'" "q < n \<Longrightarrow> event_id (?objs q) = event_id (rb_event_objs st q)" for q
    using assms(2,4,6) by (auto split: if_splits)
  have "events_ok ?objs n' (rb_events st)"
    using assms(1,3,5) lt unfolding rb_ok_def events_ok_def by fastforce
  moreover have "eventgroups_ok ?objs n' (rb_eventgroups st)"
    using assms(1,3) lt unfolding rb_ok_def eventgroups_ok_def group_ok_def by metis
  ultimately show ?thesis using assms(1) by (simp add: rb_ok_def put_event_def)
qed

lemma rb_ok_put_events:
  "rb_ok st \<Longrightarrow> r < rb_next_event st \<Longrightarrow> event_id (rb_event_objs st r) = (s, i, ev) \<Longrightarrow>
    rb_ok (st\<lparr>rb_events := put3 s i ev r (rb_events st)\<rparr>)"
  by (auto simp: rb_ok_def events_ok_def table_simps split: if_splits)

lemma register_event_ok:
  assumes "rb_ok st"
    and "st' = rb_register_event env c s i ev gs is_field cycle resets epsilon is_provided is_shadow placeholder st"
    and "registered env c s i ev gs is_field cycle resets epsilon is_provided is_shadow placeholder st = (r, e)"
  shows "rb_ok st'" and "rb_find_event s' i' ev' st' = (if s' = s \<and> i' = i \<and> ev' = ev then Some r else rb_find_event s' i' ev' st)"
    and "rb_event_objs st' = (rb_event_objs st)(r := e)"
    and "rb_find_events s' i' g' st' = (if s' = s \<and> i' = i \<and> g' \<in> gs then insert r (rb_find_events s i g' st)
      else rb_find_events s' i' g' st)"
proof -
  note e = registered_ok [OF assms(1,3)]
  let ?n = "if rb_find_event s i ev st = None then Suc (rb_next_event st) else rb_next_event st"
  let ?st = "put_event r e (st\<lparr>rb_next_event := ?n\<rparr>)"
  have r: "r < ?n" "r = rb_next_event st \<and> ?n = Suc (rb_next_event st) \<or> r < rb_next_event st \<and> ?n = rb_next_event st"
    and old: "r < rb_next_event st \<Longrightarrow> event_id (rb_event_objs st r) = (s, i, ev)"
    using e rb_ok_find_event [OF assms(1), of s i ev] by (auto split: option.splits)
  have "rb_ok ?st" by (rule rb_ok_new_event [OF assms(1) r(2) refl]) (use e old in auto)
  moreover have "r < rb_next_event ?st" "event_id (rb_event_objs ?st r) = (s, i, ev)"
    using r(1) e by (simp_all add: put_event_def)
  moreover have fin: "set (sorted_list_of_set gs) = gs" by simp
  ultimately have j: "rb_ok (fold (join_eventgroup env s i r) (sorted_list_of_set gs) ?st)
    \<and> rb_event_objs (fold (join_eventgroup env s i r) (sorted_list_of_set gs) ?st) = rb_event_objs ?st
    \<and> rb_next_event (fold (join_eventgroup env s i r) (sorted_list_of_set gs) ?st) = rb_next_event ?st
    \<and> rb_events (fold (join_eventgroup env s i r) (sorted_list_of_set gs) ?st) = rb_events ?st
    \<and> rb_find_events s' i' g' (fold (join_eventgroup env s i r) (sorted_list_of_set gs) ?st)
      = (if s' = s \<and> i' = i \<and> g' \<in> gs then insert r (rb_find_events s i g' ?st) else rb_find_events s' i' g' ?st)"
    for s' i' g' using join_eventgroups_ok [of ?st r s i ev env "sorted_list_of_set gs" s' i' g'] by simp
  have st': "st' = (fold (join_eventgroup env s i r) (sorted_list_of_set gs) ?st)\<lparr>rb_events :=
      put3 s i ev r (rb_events (fold (join_eventgroup env s i r) (sorted_list_of_set gs) ?st))\<rparr>"
    by (simp add: assms(2) register_event_eq assms(3) Let_def)
  show "rb_ok st'"
    unfolding st' by (rule rb_ok_put_events) (use j r(1) e in \<open>simp_all add: put_event_def\<close>)
  show "rb_find_event s' i' ev' st' = (if s' = s \<and> i' = i \<and> ev' = ev then Some r else rb_find_event s' i' ev' st)"
    using j by (simp add: st' rb_find_event_def table_simps put_event_def)
  show "rb_event_objs st' = (rb_event_objs st)(r := e)"
    using j by (simp add: st' put_event_def)
  show "rb_find_events s' i' g' st' = (if s' = s \<and> i' = i \<and> g' \<in> gs then insert r (rb_find_events s i g' st)
      else rb_find_events s' i' g' st)"
    using j [of s' i' g'] by (simp add: st' rb_find_events_def put_event_def)
qed

lemma leave_eventgroup_ok:
  assumes "rb_ok st"
  shows "rb_ok (leave_eventgroup env s i r g st)"
    and "rb_event_objs (leave_eventgroup env s i r g st) = rb_event_objs st"
    and "rb_events (leave_eventgroup env s i r g st) = rb_events st"
    and "rb_find_events s' i' g' (leave_eventgroup env s i r g st)
      = (if s' = s \<and> i' = i \<and> g' = g then rb_find_events s i g st - {r} else rb_find_events s' i' g' st)"
proof -
  obtain x st1 where found: "rb_find_eventgroup env s i g st = (x, st1)" by fastforce
  note fields = find_eventgroup_fields [where env = env and s = s and i = i and g = g and st = st, unfolded found snd_conv]
  have ok: "rb_ok st1" "x = Some y \<Longrightarrow> group_ok (rb_event_objs st) (rb_next_event st) s i y" for y
    using rb_ok_find_eventgroup [OF assms, where env = env and s = s and i = i and g = g] by (simp_all add: found)
  have ev: "x = Some y \<Longrightarrow> egi_events y = rb_find_events s i g st" "x = None \<Longrightarrow> rb_find_events s i g st = {}" for y
    using find_eventgroup_events [of env s i g st] find_eventgroup_None [of env s i g st]
    by (auto simp: found rb_find_events_def)
  have put: "rb_ok (put_group s i g (remove_event r y) st1)" if "x = Some y" for y
    using ok(2) [OF that] by (intro rb_ok_put_group ok(1)) (auto simp: fields group_ok_def remove_event_def)
  have rem: "rb_ok st \<Longrightarrow> rb_ok (rb_remove_eventgroup_info s i g st)" for st :: "'a routing_base_scheme"
    by (simp add: rb_ok_def eventgroups_ok_def rb_remove_eventgroup_info_def table_simps)
  show "rb_ok (leave_eventgroup env s i r g st)"
    by (auto simp: leave_eventgroup_def found Let_def ok put rem split: option.split)
  show "rb_event_objs (leave_eventgroup env s i r g st) = rb_event_objs st"
    "rb_events (leave_eventgroup env s i r g st) = rb_events st"
    by (auto simp: leave_eventgroup_def found Let_def fields rb_remove_eventgroup_info_def split: option.split)
  have rem: "rb_find_events s' i' g' (rb_remove_eventgroup_info s i g st)
      = (if s' = s \<and> i' = i \<and> g' = g then {} else rb_find_events s' i' g' st)" for st :: "'a routing_base_scheme" and s' i' g'
    by (simp add: rb_remove_eventgroup_info_def rb_find_events_def table_simps)
  show "rb_find_events s' i' g' (leave_eventgroup env s i r g st)
      = (if s' = s \<and> i' = i \<and> g' = g then rb_find_events s i g st - {r} else rb_find_events s' i' g' st)"
    by (cases x) (auto simp: leave_eventgroup_def found Let_def fields rem ev remove_event_def)
qed

lemma leave_eventgroups_ok:
  assumes "rb_ok st"
  shows "rb_ok (fold (leave_eventgroup env s i r) gs st)
    \<and> rb_event_objs (fold (leave_eventgroup env s i r) gs st) = rb_event_objs st
    \<and> rb_events (fold (leave_eventgroup env s i r) gs st) = rb_events st
    \<and> rb_find_events s' i' g' (fold (leave_eventgroup env s i r) gs st)
      = (if s' = s \<and> i' = i \<and> g' \<in> set gs then rb_find_events s i g' st - {r} else rb_find_events s' i' g' st)"
  using assms
proof (induction gs arbitrary: st)
  case (Cons g gs)
  note l = leave_eventgroup_ok [OF Cons.prems, where env = env and g = g]
  from Cons.IH [OF l(1)] show ?case by (auto simp: l)
qed simp

lemma rb_ok_unregister_event: "rb_ok st \<Longrightarrow> rb_ok (rb_unregister_event env c s i ev is_provided st)"
proof (cases "rb_find_event s i ev st")
  case (Some r)
  assume ok: "rb_ok st"
  let ?e = "remove_ref c is_provided (rb_event_objs st r)"
  have put: "rb_ok (put_event r ?e st)" by (rule rb_ok_put_event [OF ok]) simp
  have "rb_ok (st\<lparr>rb_events := erase3 s i ev (rb_events st)\<rparr>)" if "rb_ok st" for st :: "'a routing_base_scheme"
    using that by (auto simp: rb_ok_def events_ok_def table_simps split: if_splits)
  from leave_eventgroups_ok [OF this [OF put]]
  have "rb_ok (fold (leave_eventgroup env s i r) gs
      ((put_event r ?e st)\<lparr>rb_events := erase3 s i ev (rb_events (put_event r ?e st))\<rparr>))" for gs by blast
  moreover have "rb_ok (put_event r (event_set_provided False ?e) (put_event r ?e st))"
    by (rule rb_ok_put_event [OF put]) (simp add: put_event_def)
  ultimately show ?thesis using Some put by (cases is_provided) (simp_all add: rb_unregister_event_def Let_def)
qed (simp add: rb_unregister_event_def)

lemma same_event_reset:
  "payload_fits p \<Longrightarrow> ev_message e' = ev_message (reset_payload p e) \<Longrightarrow> ev_is_set e' \<Longrightarrow> same_event e e'"
  using payload_ok_cong [of e' "reset_payload p e"] payload_ok_reset [of p e]
  by (simp add: same_event_def event_id_def event_get_service_def event_get_instance_def event_get_event_def
      get_service_def get_instance_def get_method_def)

lemma same_event_set_payload:
  assumes "payload_fits p"
  shows "event_set_payload p force flush e = Some (out, e') \<Longrightarrow> same_event e e'"
    and "event_set_payload_client p c force flush e = Some (out, e') \<Longrightarrow> same_event e e'"
    and "set_payload_dont_notify p e = Some (b, e') \<Longrightarrow> same_event e e'"
  using payload_change_cases [of p force flush e out e'] payload_change_cases [of p force flush e out e' c]
    payload_change_cases [where p = p and e = e and e' = e' and r = b] same_event_reset [OF assms, of e' e]
  by auto

lemma rb_ok_notify:
  "rb_ok st \<Longrightarrow> payload_fits p \<Longrightarrow> rb_notify s i ev p force flush st = Some (acts, st') \<Longrightarrow> rb_ok st'"
  by (auto simp: rb_notify_def split: option.splits intro: rb_ok_put_event same_event_set_payload(1))

lemma valid_group_ok:
  "rb_ok st \<Longrightarrow> rb_ok (snd (valid_group env s i gs st))
    \<and> rb_event_objs (snd (valid_group env s i gs st)) = rb_event_objs st
    \<and> rb_local_endpoints (snd (valid_group env s i gs st)) = rb_local_endpoints st
    \<and> (case fst (valid_group env s i gs st) of
        Some g \<Rightarrow> g \<in> set gs \<and> lookup3 (rb_eventgroups st) s i g \<noteq> None
      | None \<Rightarrow> \<forall>g\<in>set gs. lookup3 (rb_eventgroups st) s i g = None)"
proof (induction gs arbitrary: st)
  case (Cons g gs)
  obtain x st1 where found: "rb_find_eventgroup env s i g st = (x, st1)" by fastforce
  note fields = find_eventgroup_fields [where env = env and s = s and i = i and g = g and st = st, unfolded found snd_conv]
  have ok: "rb_ok st1" using rb_ok_find_eventgroup(1) [OF Cons.prems, of env s i g] by (simp add: found)
  show ?case
  proof (cases x)
    case None
    then have "lookup3 (rb_eventgroups st) s i g = None" "st1 = st"
      using find_eventgroup_spec [of st s i g env] by (auto simp: found)
    with None Cons.IH [OF Cons.prems] show ?thesis by (auto simp: found split: option.splits)
  next
    case (Some y)
    with find_eventgroup_None [of env s i g st] ok fields show ?thesis by (auto simp: found)
  qed
qed simp

lemma rb_ok_notify_one:
  assumes "rb_ok st" and "payload_fits p" and "rb_notify_one env s i ev p c force flush st = Some (acts, st')"
  shows "rb_ok st'"
proof (cases "rb_find_event s i ev st")
  case (Some r)
  obtain g st1 where g: "valid_group env s i (sorted_list_of_set (get_eventgroups (rb_event_objs st r))) st = (g, st1)"
    by fastforce
  have ok: "rb_ok st1" "rb_event_objs st1 = rb_event_objs st"
    using valid_group_ok [OF assms(1), of env s i "sorted_list_of_set (get_eventgroups (rb_event_objs st r))"]
    by (simp_all add: g)
  have put: "rb_ok (put_event r e' st1)"
    if "event_set_payload_client p c force flush (rb_event_objs st r) = Some (out, e')" for out e'
    using same_event_set_payload(2) [OF assms(2) that] by (intro rb_ok_put_event [OF ok(1)]) (simp add: ok(2))
  show ?thesis
    using assms(3) ok(1) put
    by (auto simp: rb_notify_one_def Some g ok(2) Let_def rb_ok_more split: option.splits if_splits)
qed (use assms in \<open>simp add: rb_notify_one_def\<close>)

lemma rb_ok_send_pending_notify_ones:
  assumes "rb_ok st" and "\<And>s i g m p. lookup3 (rb_pending_notify_ones st) s i g = Some m \<Longrightarrow> msg_payload m = Some p \<Longrightarrow>
      payload_fits p"
    and "rb_send_pending_notify_ones env s i g c st = Some (acts, st')"
  shows "rb_ok st'"
  using assms(1,3) rb_ok_notify_one [OF assms(1) assms(2)]
  by (auto simp: rb_send_pending_notify_ones_def rb_ok_more bind_eq_Some_conv split: option.splits)

lemma rb_ok_unset_payloads:
  "rb_ok st \<Longrightarrow> rb_ok (rb_unset_all_eventpayloads s i st)" "rb_ok st \<Longrightarrow> rb_ok (rb_unset_eventgroup_payloads s i g st)"
  by (simp_all add: rb_unset_all_eventpayloads_def rb_unset_eventgroup_payloads_def rb_ok_on_events)

lemma notify_one_current_value_state:
  "snd (rb_notify_one_current_value env c s i g ev ex st)
     = (if ev \<noteq> ANY_EVENT then st else snd (rb_find_eventgroup env s i g st))"
  using find_eventgroup_spec [of st s i g env]
  by (auto simp: rb_notify_one_current_value_def split: option.splits prod.splits)

lemma rb_ok_notify_one_current_value:
  "rb_ok st \<Longrightarrow> rb_ok (snd (rb_notify_one_current_value env c s i g ev ex st))"
  by (simp add: notify_one_current_value_state rb_ok_find_eventgroup)

text \<open>Subscribing a client to a list of different events.\<close>

lemma subscribe_events_eq:
  assumes "distinct rs"
  shows "subscribe_events g c rs st =
    (\<exists>r\<in>set rs. c \<notin> get_subscribers g (rb_event_objs st r),
     (\<lambda>r. event_get_event (rb_event_objs st r)) ` {r \<in> set rs. is_subscribed c (rb_event_objs st r)},
     on_events (\<lambda>e. snd (add_subscriber g c e)) (set rs) st)"
  using assms
proof (induction rs arbitrary: st)
  case (Cons r rs)
  have put: "on_events f (set rs) (put_event r (f (rb_event_objs st r)) st) = on_events f (set (r # rs)) st" for f
    using Cons.prems by (auto simp: on_events_def put_event_def fun_eq_iff)
  have obj: "rb_event_objs (put_event r e st) q = rb_event_objs st q" if "q \<in> set rs" for e q
    using Cons.prems that by (auto simp: put_event_def)
  have fst: "fst (add_subscriber g c e) = (c \<notin> get_subscribers g e)" for e
    by (simp add: add_subscriber_def get_subscribers_def Let_def split: option.split)
  let ?st = "put_event r (snd (add_subscriber g c (rb_event_objs st r))) st"
  have "subscribe_events g c rs ?st = (\<exists>q\<in>set rs. c \<notin> get_subscribers g (rb_event_objs st q),
     (\<lambda>q. event_get_event (rb_event_objs st q)) ` {q \<in> set rs. is_subscribed c (rb_event_objs st q)},
     on_events (\<lambda>e. snd (add_subscriber g c e)) (set (r # rs)) st)"
  proof -
    have "(\<lambda>q. event_get_event (rb_event_objs ?st q)) ` {q \<in> set rs. is_subscribed c (rb_event_objs ?st q)}
        = (\<lambda>q. event_get_event (rb_event_objs st q)) ` {q \<in> set rs. is_subscribed c (rb_event_objs st q)}"
      by (rule image_cong) (auto simp: obj)
    then show ?thesis
      using Cons.prems put [of "\<lambda>e. snd (add_subscriber g c e)"] Cons.IH [of ?st] by (simp add: obj)
  qed
  then show ?case
    by (cases "add_subscriber g c (rb_event_objs st r)")
      (use fst [of "rb_event_objs st r"] in \<open>auto simp: Let_def\<close>)
qed (simp add: on_events_def)

lemma rb_ok_insert_subscription:
  assumes "rb_ok st"
    and place: "\<And>st b acts st'. rb_ok st \<Longrightarrow> place s i g ev c st = (b, acts, st') \<Longrightarrow> rb_ok st'"
    and "rb_insert_subscription env place s i g ev c st = (b, already, acts, st')"
  shows "rb_ok st'"
proof (cases "ev = ANY_EVENT")
  case False
  show ?thesis
  proof (cases "rb_find_event s i ev st")
    case None
    with assms(3) False place [OF assms(1)] show ?thesis
      by (auto simp: rb_insert_subscription_def Let_def split: prod.splits)
  next
    case (Some r)
    have "rb_ok (put_event r (snd (add_subscriber g c (rb_event_objs st r))) st)"
      by (rule rb_ok_put_event [OF assms(1)]) simp
    with assms(3) False Some show ?thesis
      by (auto simp: rb_insert_subscription_def Let_def split: prod.splits)
  qed
next
  case True
  obtain x st1 where found: "rb_find_eventgroup env s i g st = (x, st1)" by fastforce
  have ok: "rb_ok st1" "x = Some y \<Longrightarrow> finite (egi_events y)" for y
    using rb_ok_find_eventgroup [OF assms(1), where env = env and s = s and i = i and g = g]
    by (auto simp: found group_ok_def)
  have "rb_ok (on_events (\<lambda>e. snd (add_subscriber g c e)) R st1)" for R
    by (rule rb_ok_on_events [OF ok(1)]) simp
  then show ?thesis
    using assms(3) True place [OF ok(1)] ok(2)
    by (auto simp: rb_insert_subscription_def Let_def found subscribe_events_eq
        split: prod.splits option.splits if_splits)
qed

lemma rb_ok_subscribe:
  assumes "rb_ok st"
    and place: "\<And>st b acts st'. rb_ok st \<Longrightarrow> place s i g ev c st = (b, acts, st') \<Longrightarrow> rb_ok st'"
  shows "rb_ok (snd (rb_subscribe env place c s i g ev st))"
proof -
  obtain b already acts st1 where ins: "rb_insert_subscription env place s i g ev c st = (b, already, acts, st1)"
    by (metis prod_cases4)
  have "rb_ok st1" by (rule rb_ok_insert_subscription [OF assms(1) place ins])
  then show ?thesis
    using rb_ok_notify_one_current_value [of st1 env c s i g ev already]
    by (auto simp: rb_subscribe_def ins split: prod.splits)
qed

lemma rb_ok_unsubscribe: "rb_ok st \<Longrightarrow> rb_ok (rb_unsubscribe env c s i g ev st)"
  using rb_ok_find_eventgroup(1) [of st env s i g]
  by (auto simp: rb_unsubscribe_def split: option.split prod.splits intro: rb_ok_put_event rb_ok_on_events)

lemma rb_ok_remove_subscriptions: "rb_ok st \<Longrightarrow> rb_ok (rb_remove_local_subscriptions env c subs st)"
  unfolding rb_remove_local_subscriptions_def
  by (induction subs arbitrary: st) (auto simp: rb_ok_unsubscribe)

lemma rb_ok_remove_local: "rb_ok st \<Longrightarrow> rb_ok (snd (rb_remove_local_with env c subs st))"
proof -
  assume "rb_ok st"
  note ok = rb_ok_remove_subscriptions [OF this, of env c "sorted_list_of_set subs"]
  have "rb_ok (st\<lparr>rb_local_endpoints := (rb_local_endpoints st)(c := None)\<rparr>)" if "rb_ok st" for st :: "'a routing_base_scheme"
    using that by (auto simp: rb_ok_def endpoints_ok_def ran_def inj_on_def split: if_splits)
  from this [OF ok] ok show ?thesis
    by (auto simp: rb_remove_local_with_def Let_def rb_ok_more split: option.split prod.splits)
qed

lemma rb_ok_remove_pending: "rb_ok st \<Longrightarrow> rb_ok (rb_remove_pending_subscription s i g ev st)"
proof -
  assume ok: "rb_ok st"
  then have "oset_ok subscription_key (rb_pending_subscriptions st)" by (simp add: rb_ok_def)
  moreover from this have "erase_first (\<lambda>d. sd_service d = s \<and> sd_instance d = i \<and> sd_eventgroup d = g \<and> sd_event d = ev)
      (rb_pending_subscriptions st) = filter (\<lambda>d. \<not> (sd_service d = s \<and> sd_instance d = i \<and> sd_eventgroup d = g \<and> sd_event d = ev))
      (rb_pending_subscriptions st)"
    by (rule erase_first_filter) (auto simp: subscription_key_def)
  ultimately show ?thesis using ok by (simp add: rb_ok_def rb_remove_pending_subscription_def oset_ok_filter)
qed

end
