(* ===== verification/Routing_Subscription.thy ===== *)
theory Routing_Subscription
  imports Routing_Base
begin

text \<open>
  What the operations of \<^verbatim>\<open>routing_manager_base.cpp\<close> promise their callers: subscriptions reach the
  events of an eventgroup and their current values the subscriber, notifications reach the local
  subscribers, registrations can be undone, and a client that is removed is forgotten.
\<close>

section \<open>Subscriptions\<close>

lemma add_subscriber_fields [simp]:
  "ev_message (snd (add_subscriber g c e)) = ev_message e" "ev_is_set (snd (add_subscriber g c e)) = ev_is_set e"
  "ev_is_field (snd (add_subscriber g c e)) = ev_is_field e"
  "event_get_event (snd (add_subscriber g c e)) = event_get_event e"
  by (simp_all add: add_subscriber_def Let_def event_get_event_def)

lemma get_subscribers_update [simp]:
  "get_subscribers g' (snd (add_subscriber g c e)) =
     (if g' = g then insert c (get_subscribers g e) else get_subscribers g' e)"
  "get_subscribers g' (remove_subscriber g c e) =
     (if g' = g then get_subscribers g e - {c} else get_subscribers g' e)"
  by (auto simp: get_subscribers_def add_subscriber_def remove_subscriber_def Let_def split: option.split)

lemma on_events_fields [simp]:
  "rb_event_objs (on_events f R st) = (\<lambda>r. if r \<in> R then f (rb_event_objs st r) else rb_event_objs st r)"
  "rb_eventgroups (on_events f R st) = rb_eventgroups st" "rb_events (on_events f R st) = rb_events st"
  "rb_find_events s i g (on_events f R st) = rb_find_events s i g st"
  "rb_local_endpoints (on_events f R st) = rb_local_endpoints st"
  "rb_local_services (on_events f R st) = rb_local_services st"
  "on_events f {} st = st"
  by (simp_all add: on_events_def rb_find_events_def)

lemma find_eventgroup_known:
  "lookup3 (rb_eventgroups (snd (rb_find_eventgroup env s i g st))) s' i' g' = None
    \<longleftrightarrow> lookup3 (rb_eventgroups st) s' i' g' = None"
  using find_eventgroup_spec [of st s i g env] by (auto simp: put_group_def table_simps split: if_splits)

lemma insert_subscription_group:
  assumes "rb_ok st" and "lookup3 (rb_eventgroups st) s i g = Some x" and "egi_events x \<noteq> {}"
  shows "rb_insert_subscription env place s i g ANY_EVENT c st
    = (\<exists>r\<in>egi_events x. c \<notin> get_subscribers g (rb_event_objs st r),
       (\<lambda>q. event_get_event (rb_event_objs st q)) ` {q \<in> egi_events x. is_subscribed c (rb_event_objs st q)}, [],
       on_events (\<lambda>e. snd (add_subscriber g c e)) (egi_events x) (snd (rb_find_eventgroup env s i g st)))"
proof -
  obtain y st1 where found: "rb_find_eventgroup env s i g st = (Some y, st1)" and y: "egi_events y = egi_events x"
    using find_eventgroup_spec [of st s i g env] assms(2) by auto
  note fields = find_eventgroup_fields [where env = env and s = s and i = i and g = g and st = st, unfolded found snd_conv]
  have "finite (egi_events x)" using rb_ok_group [OF assms(1,2)] by (simp add: group_ok_def)
  then show ?thesis
    by (simp add: rb_insert_subscription_def found y assms(3) subscribe_events_eq fields Let_def)
qed

lemma current_values:
  assumes "lookup3 (rb_eventgroups st) s i g \<noteq> None"
  shows "rb_notify_one_current_value env c s i g ANY_EVENT ex st =
    (map (\<lambda>r. Routing_send (Send c (ev_message (rb_event_objs st r)) True))
      (filter (\<lambda>r. ev_is_field (rb_event_objs st r) \<and> ev_is_set (rb_event_objs st r)
          \<and> event_get_event (rb_event_objs st r) \<notin> ex) (sorted_list_of_set (rb_find_events s i g st))),
     snd (rb_find_eventgroup env s i g st))"
proof -
  obtain y st1 where found: "rb_find_eventgroup env s i g st = (Some y, st1)"
    using find_eventgroup_spec [of st s i g env] assms by auto
  have y: "egi_events y = rb_find_events s i g st"
    using find_eventgroup_events [of env s i g st y] by (simp add: found)
  note fields = find_eventgroup_fields [where env = env and s = s and i = i and g = g and st = st, unfolded found snd_conv]
  have "concat (map (\<lambda>r. if ev_is_field (rb_event_objs st r) \<and> event_get_event (rb_event_objs st r) \<notin> ex
        then map Routing_send (notify_one c True (rb_event_objs st r)) else []) rs)
      = map (\<lambda>r. Routing_send (Send c (ev_message (rb_event_objs st r)) True))
          (filter (\<lambda>r. ev_is_field (rb_event_objs st r) \<and> ev_is_set (rb_event_objs st r)
            \<and> event_get_event (rb_event_objs st r) \<notin> ex) rs)" for rs
    by (induction rs) (simp_all add: notify_one_def)
  then show ?thesis
    by (simp add: rb_notify_one_current_value_def found Let_def y) (simp only: fields)
qed

lemma if_pair:
  assumes "(a, b) = (if P then (x, y) else (z, w))"
  shows "a = (if P then x else z)" and "b = y \<or> b = w"
  using assms by (simp_all split: if_splits)

lemma if_bex: "(if \<exists>r\<in>A. \<not> P r then x else y) = (if \<forall>r\<in>A. P r then y else x)"
  by simp

lemma unsubscribe_all:
  "rb_unsubscribe env c s i g ANY_EVENT st =
     on_events (remove_subscriber g c) (rb_find_events s i g st) (snd (rb_find_eventgroup env s i g st))"
  using find_eventgroup_spec [of st s i g env]
  by (auto simp: rb_unsubscribe_def rb_find_events_def)

text \<open>
  C26. A subscription to all events of an eventgroup that holds events: the client becomes a
  subscriber of each of them in that eventgroup and of no other event, and is sent the current value
  of every field that has one, in order, except for those events it had subscribed to before through
  this or another eventgroup; when it was a subscriber of all of them nothing is sent.  Unsubscribing
  makes it a subscriber of none of them in that eventgroup.
\<close>

theorem subscription_reaches_events:
  assumes "rb_ok st" and "lookup3 (rb_eventgroups st) s i g = Some x" and "egi_events x \<noteq> {}"
    and "rb_subscribe env place c s i g ANY_EVENT st = (acts, st')"
  shows "rb_event_objs st' = (\<lambda>r. if r \<in> egi_events x then snd (add_subscriber g c (rb_event_objs st r))
        else rb_event_objs st r)
    \<and> (\<forall>r\<in>egi_events x. c \<in> get_subscribers g (rb_event_objs st' r)
        \<and> c \<notin> get_subscribers g (rb_event_objs (rb_unsubscribe env c s i g ANY_EVENT st') r))
    \<and> acts = (if \<forall>r\<in>egi_events x. c \<in> get_subscribers g (rb_event_objs st r) then []
        else map (\<lambda>r. Routing_send (Send c (ev_message (rb_event_objs st r)) True))
          (filter (\<lambda>r. ev_is_field (rb_event_objs st r) \<and> ev_is_set (rb_event_objs st r)
              \<and> event_get_event (rb_event_objs st r) \<notin> (\<lambda>q. event_get_event (rb_event_objs st q)) `
                  {q \<in> egi_events x. is_subscribed c (rb_event_objs st q)})
            (sorted_list_of_set (egi_events x))))"
proof -
  let ?already = "(\<lambda>q. event_get_event (rb_event_objs st q)) ` {q \<in> egi_events x. is_subscribed c (rb_event_objs st q)}"
  let ?st2 = "on_events (\<lambda>e. snd (add_subscriber g c e)) (egi_events x) (snd (rb_find_eventgroup env s i g st))"
  let ?objs = "\<lambda>r. if r \<in> egi_events x then snd (add_subscriber g c (rb_event_objs st r)) else rb_event_objs st r"
  let ?acts = "map (\<lambda>r. Routing_send (Send c (ev_message (rb_event_objs st r)) True))
          (filter (\<lambda>r. ev_is_field (rb_event_objs st r) \<and> ev_is_set (rb_event_objs st r)
              \<and> event_get_event (rb_event_objs st r) \<notin> ?already) (sorted_list_of_set (egi_events x)))"
  have ev: "rb_find_events s i g st = egi_events x" by (simp add: rb_find_events_def assms(2))
  have objs: "rb_event_objs ?st2 = ?objs" "rb_find_events s i g ?st2 = egi_events x"
    "lookup3 (rb_eventgroups ?st2) s i g \<noteq> None"
    by (simp_all add: find_eventgroup_fields ev find_eventgroup_known assms(2) fun_eq_iff)
  have same: "ev_message (?objs r) = ev_message (rb_event_objs st r)" "ev_is_set (?objs r) = ev_is_set (rb_event_objs st r)"
    "ev_is_field (?objs r) = ev_is_field (rb_event_objs st r)"
    "event_get_event (?objs r) = event_get_event (rb_event_objs st r)" for r by simp_all
  have cur: "rb_notify_one_current_value env c s i g ANY_EVENT ?already ?st2
      = (?acts, snd (rb_find_eventgroup env s i g ?st2))"
    unfolding current_values [OF objs(3)] objs(1,2) same by (rule refl)
  have sub: "rb_subscribe env place c s i g ANY_EVENT st =
      (if \<exists>r\<in>egi_events x. c \<notin> get_subscribers g (rb_event_objs st r)
       then (?acts, snd (rb_find_eventgroup env s i g ?st2)) else ([], ?st2))"
    unfolding rb_subscribe_def insert_subscription_group [OF assms(1-3)] prod.case cur append_Nil by (rule refl)
  note result = if_pair [OF trans [OF sym [OF assms(4)] sub]]
  have "rb_event_objs (snd (rb_find_eventgroup env s i g ?st2)) = ?objs"
    "rb_find_events s i g (snd (rb_find_eventgroup env s i g ?st2)) = egi_events x"
    by (simp_all only: find_eventgroup_fields objs)
  with objs(1,2) result(2) have st': "rb_event_objs st' = ?objs" "rb_find_events s i g st' = egi_events x"
    by (elim disjE, simp_all only:)+
  have "rb_event_objs (rb_unsubscribe env c s i g ANY_EVENT st') r = remove_subscriber g c (?objs r)"
    if "r \<in> egi_events x" for r
    using that unfolding unsubscribe_all by (simp add: find_eventgroup_fields st')
  then have "\<forall>r\<in>egi_events x. c \<in> get_subscribers g (rb_event_objs st' r)
        \<and> c \<notin> get_subscribers g (rb_event_objs (rb_unsubscribe env c s i g ANY_EVENT st') r)"
    by (simp add: st')
  with st'(1) result(1) [unfolded if_bex] show ?thesis by (intro conjI)
qed

definition sample_routing_env :: routing_env where
  "sample_routing_env = \<lparr>env_host_client = 0x1343, env_event_reliable = (\<lambda>_ _ _. False), env_epsilon = (\<lambda>_ _ _. None),
     env_multicast = (\<lambda>_ _ _. None), env_threshold = (\<lambda>_ _ _. 0)\<rparr>"

definition sample_routing :: routing_base where
  "sample_routing = rb_register_event sample_routing_env 0x1343 0x1234 0x5678 0x8001 {0x4465} True 0 False None True False False
     (rb_init 0x1343)"

lemma sample_registered:
  "fst (registered sample_routing_env 0x1343 0x1234 0x5678 0x8001 {0x4465} True 0 False None True False False (rb_init 0x1343)) = 0"
  by (simp add: registered_def Let_def rb_find_event_def rb_init_def)

lemma sample_routing_ok:
  "rb_ok sample_routing" "rb_find_event 0x1234 0x5678 0x8001 sample_routing = Some 0"
  "rb_find_events 0x1234 0x5678 0x4465 sample_routing = {0}"
proof -
  obtain e where e: "registered sample_routing_env 0x1343 0x1234 0x5678 0x8001 {0x4465} True 0 False None True False False
      (rb_init 0x1343) = (0, e)"
    using sample_registered by (metis prod.collapse)
  note r = register_event_ok [OF rb_ok_init sample_routing_def e]
  show "rb_ok sample_routing" by (rule r(1))
  show "rb_find_event 0x1234 0x5678 0x8001 sample_routing = Some 0" by (simp add: r(2))
  show "rb_find_events 0x1234 0x5678 0x4465 sample_routing = {0}"
    unfolding r(4) by (simp add: rb_find_events_def rb_init_def)
qed

lemma sample_group:
  obtains x where "lookup3 (rb_eventgroups sample_routing) 0x1234 0x5678 0x4465 = Some x" and "egi_events x = {0}"
  using sample_routing_ok(3) by (auto simp: rb_find_events_def split: option.splits)

theorem subscription_reaches_events_witness:
  "\<exists>acts st'. rb_subscribe sample_routing_env (\<lambda>s i g ev c st. (False, [], st)) 0x0101 0x1234 0x5678 0x4465 ANY_EVENT sample_routing
      = (acts, st')
    \<and> 0x0101 \<in> get_subscribers 0x4465 (rb_event_objs st' 0)"
proof -
  obtain x where x: "lookup3 (rb_eventgroups sample_routing) 0x1234 0x5678 0x4465 = Some x" "egi_events x = {0}"
    by (rule sample_group)
  obtain acts st' where sub: "rb_subscribe sample_routing_env (\<lambda>s i g ev c st. (False, [], st)) 0x0101 0x1234 0x5678 0x4465
      ANY_EVENT sample_routing = (acts, st')" by fastforce
  from x(2) have "egi_events x \<noteq> {}" by simp
  from subscription_reaches_events [OF sample_routing_ok(1) x(1) this sub] x(2) sub show ?thesis by blast
qed

section \<open>Removal of a client\<close>

lemma get_eventgroups_subscribers: "c \<in> get_subscribers g e \<Longrightarrow> g \<in> get_eventgroups e"
  by (auto simp: get_subscribers_def get_eventgroups_def split: option.splits)

lemma get_eventgroups_of_subscribers: "get_eventgroups_of c e = {g. c \<in> get_subscribers g e}"
  by (auto simp: get_eventgroups_of_def get_subscribers_def split: option.splits)

lemma get_subscriptions_iff:
  "(s, i, g) \<in> rb_get_subscriptions c st \<longleftrightarrow> (\<exists>r\<in>events_of s i st. c \<in> get_subscribers g (rb_event_objs st r))"
  by (simp add: rb_get_subscriptions_def get_eventgroups_of_subscribers)

text \<open>Withdrawing subscriptions to whole eventgroups, and what it leaves as it is.\<close>

lemma remove_subscriptions_eq:
  "rb_events (rb_remove_local_subscriptions env c subs st) = rb_events st
   \<and> rb_local_endpoints (rb_remove_local_subscriptions env c subs st) = rb_local_endpoints st
   \<and> rb_local_services (rb_remove_local_subscriptions env c subs st) = rb_local_services st
   \<and> rb_find_events s' i' g' (rb_remove_local_subscriptions env c subs st) = rb_find_events s' i' g' st
   \<and> get_subscribers g (rb_event_objs (rb_remove_local_subscriptions env c subs st) r) =
      (if \<exists>s i. (s, i, g) \<in> set subs \<and> r \<in> rb_find_events s i g st
       then get_subscribers g (rb_event_objs st r) - {c} else get_subscribers g (rb_event_objs st r))"
  unfolding rb_remove_local_subscriptions_def
proof (induction subs arbitrary: st)
  case (Cons x subs)
  obtain s i h where x: "x = (s, i, h)" by (metis prod_cases3)
  let ?st = "rb_unsubscribe env c s i h ANY_EVENT st"
  have st: "rb_events ?st = rb_events st" "rb_local_endpoints ?st = rb_local_endpoints st"
    "rb_local_services ?st = rb_local_services st" "rb_find_events s' i' g' ?st = rb_find_events s' i' g' st"
    "rb_event_objs ?st = (\<lambda>r. if r \<in> rb_find_events s i h st then remove_subscriber h c (rb_event_objs st r)
       else rb_event_objs st r)" for s' i' g'
    unfolding unsubscribe_all by (simp_all add: find_eventgroup_fields fun_eq_iff)
  show ?case
    unfolding x fold_simps prod.case
    by (simp only: Cons.IH [of ?st] st simp_thms) (auto simp: x)
qed simp

lemma services_of_client_iff:
  "(s, i) \<in> services_of_client c st \<longleftrightarrow> (\<exists>major minor. lookup2 (rb_local_services st) s i = Some (major, minor, c))"
  by (simp add: services_of_client_def)

text \<open>What is left of a state when a client is removed.\<close>

lemma remove_local_state:
  fixes st :: "'a routing_base_scheme" and env c subs
  defines "st' \<equiv> snd (rb_remove_local_with env c subs st)"
  shows "rb_local_endpoints st' = (rb_local_endpoints st)(c := None)"
    and "lookup2 (rb_local_services st') s i = (if (s, i) \<in> services_of_client c st then None else lookup2 (rb_local_services st) s i)"
    and "events_of s i st' = events_of s i st"
    and "get_subscribers g (rb_event_objs st' r) =
      (if \<exists>s i. (s, i, g) \<in> subs \<and> r \<in> rb_find_events s i g st
       then get_subscribers g (rb_event_objs st r) - {c} else get_subscribers g (rb_event_objs st r))"
proof -
  let ?st1 = "rb_remove_local_subscriptions env c (sorted_list_of_set subs) st"
  let ?st2 = "snd (case rb_find_local c ?st1 of
             Some h \<Rightarrow> ([Endpoint_handler h None, Endpoint_stop h],
                       ?st1\<lparr>rb_local_endpoints := (rb_local_endpoints ?st1)(c := None)\<rparr>)
           | None \<Rightarrow> ([], ?st1))"
  note eq = remove_subscriptions_eq [of env c "sorted_list_of_set subs" st]
  have st': "st' = ?st2\<lparr>rb_local_services := fold (\<lambda>(s, i). prune2 s i)
      (sorted_list_of_set (services_of_client c ?st2)) (rb_local_services ?st2)\<rparr>"
    unfolding st'_def rb_remove_local_with_def Let_def by (simp split: prod.split)
  have st2: "rb_local_endpoints ?st2 = (rb_local_endpoints st)(c := None)" "rb_local_services ?st2 = rb_local_services st"
    "rb_events ?st2 = rb_events st" "rb_event_objs ?st2 = rb_event_objs ?st1"
    using eq by (auto simp: rb_find_local_def split: option.split)
  have own: "services_of_client c ?st2 = services_of_client c st" by (simp add: services_of_client_def st2(2))
  show "rb_local_endpoints st' = (rb_local_endpoints st)(c := None)" by (simp add: st' st2(1))
  show "lookup2 (rb_local_services st') s i = (if (s, i) \<in> services_of_client c st then None else lookup2 (rb_local_services st) s i)"
    using pruned.get_dels [of "sorted_list_of_set (services_of_client c st)" "rb_local_services st" "(s, i)"]
    by (simp add: st' own st2(2))
  show "events_of s i st' = events_of s i st" by (simp add: events_of_def st' st2(3))
  show "get_subscribers g (rb_event_objs st' r) =
      (if \<exists>s i. (s, i, g) \<in> subs \<and> r \<in> rb_find_events s i g st
       then get_subscribers g (rb_event_objs st r) - {c} else get_subscribers g (rb_event_objs st r))"
    using eq by (simp add: st' st2(4))
qed

text \<open>
  C25. A client that is removed is forgotten: it has no endpoint, offers no service and, when every
  event is a member of the eventgroups it is subscribed in, has no subscription left, while the
  endpoints, services and subscriptions of the other clients stay as they are.
\<close>

theorem removed_client_is_forgotten:
  assumes "\<And>s i r g. r \<in> events_of s i st \<Longrightarrow> g \<in> get_eventgroups (rb_event_objs st r) \<Longrightarrow> r \<in> rb_find_events s i g st"
    and "rb_remove_local env c st = (acts, st')"
  shows "rb_find_local c st' = None \<and> services_of_client c st' = {} \<and> rb_get_subscriptions c st' = {}
    \<and> (\<forall>c'. c' \<noteq> c \<longrightarrow> rb_find_local c' st' = rb_find_local c' st
        \<and> services_of_client c' st' = services_of_client c' st
        \<and> rb_get_subscriptions c' st' = rb_get_subscriptions c' st)"
proof -
  have st': "st' = snd (rb_remove_local_with env c (rb_get_subscriptions c st) st)"
    using assms(2) by (simp add: rb_remove_local_def)
  note s = remove_local_state [where st = st and env = env and c = c and subs = "rb_get_subscriptions c st", folded st']
  have "rb_get_subscriptions c st' = {}"
  proof (rule ccontr)
    assume "rb_get_subscriptions c st' \<noteq> {}"
    then obtain s i g r where r: "r \<in> events_of s i st" "c \<in> get_subscribers g (rb_event_objs st' r)"
      by (auto simp: get_subscriptions_iff s(3)) (metis get_subscriptions_iff prod_cases3 s(3))
    then have old: "c \<in> get_subscribers g (rb_event_objs st r)" by (simp add: s(4) split: if_splits)
    then have "(s, i, g) \<in> rb_get_subscriptions c st" using r(1) by (auto simp: get_subscriptions_iff)
    moreover have "r \<in> rb_find_events s i g st"
      by (rule assms(1) [OF r(1) get_eventgroups_subscribers [OF old]])
    ultimately have "get_subscribers g (rb_event_objs st' r) = get_subscribers g (rb_event_objs st r) - {c}"
      by (subst s(4)) auto
    with r(2) show False by simp
  qed
  moreover have "rb_get_subscriptions c' st' = rb_get_subscriptions c' st" if "c' \<noteq> c" for c'
    using that by (auto simp: rb_get_subscriptions_def get_eventgroups_of_subscribers s(3,4))
  moreover have "services_of_client c st' = {}"
    using s(2) by (auto simp: services_of_client_def split: if_splits)
  moreover have "services_of_client c' st' = services_of_client c' st" if "c' \<noteq> c" for c'
    using that s(2) by (auto simp: services_of_client_def)
  ultimately show ?thesis by (simp add: rb_find_local_def s(1))
qed

lemma events_of_iff: "r \<in> events_of s i st \<longleftrightarrow> (\<exists>ev. rb_find_event s i ev st = Some r)"
  by (auto simp: events_of_def rb_find_event_def lookup3_def ran_def split: option.split)

lemma subscribe_event_state:
  "ev \<noteq> ANY_EVENT \<Longrightarrow> rb_find_event s i ev st = Some r \<Longrightarrow>
    snd (rb_subscribe env place c s i g ev st) = put_event r (snd (add_subscriber g c (rb_event_objs st r))) st"
  by (auto simp: rb_subscribe_def rb_insert_subscription_def rb_notify_one_current_value_def Let_def
      split: prod.splits option.splits)

lemma sample_event:
  "get_eventgroups (rb_event_objs sample_routing 0) = {0x4465}" "get_subscribers g (rb_event_objs sample_routing 0) = {}"
  "events_of s i sample_routing = (if s = 0x1234 \<and> i = 0x5678 then {0} else {})"
proof -
  obtain e where e: "registered sample_routing_env 0x1343 0x1234 0x5678 0x8001 {0x4465} True 0 False None True False False
      (rb_init 0x1343) = (0, e)"
    using sample_registered by (metis prod.collapse)
  have ge: "ev_eventgroups e = [0x4465 \<mapsto> {}]"
    using e by (auto simp: registered_def Let_def rb_find_event_def rb_init_def rb_find_service_def new_event_def
        add_ref_def event_simple_ops event_init_def fun_eq_iff split: if_splits option.splits)
  note r = register_event_ok [OF rb_ok_init sample_routing_def e]
  show "get_eventgroups (rb_event_objs sample_routing 0) = {0x4465}"
    "get_subscribers g (rb_event_objs sample_routing 0) = {}"
    by (simp_all add: r(3) ge get_eventgroups_def get_subscribers_def)
  have "rb_find_event s i ev sample_routing = (if s = 0x1234 \<and> i = 0x5678 \<and> ev = 0x8001 then Some 0 else None)" for ev
    using r(2) [of s i ev] by (simp add: rb_find_event_def rb_init_def)
  then show "events_of s i sample_routing = (if s = 0x1234 \<and> i = 0x5678 then {0} else {})"
    by (auto simp: events_of_iff split: if_splits)
qed

definition sample_subscribed :: routing_base where
  "sample_subscribed = snd (rb_subscribe sample_routing_env (\<lambda>s i g ev c st. (False, [], st)) 0x0101 0x1234 0x5678 0x4465 0x8001
     sample_routing)"

theorem removed_client_is_forgotten_witness:
  "rb_get_subscriptions 0x0101 sample_subscribed = {(0x1234, 0x5678, 0x4465)}
   \<and> rb_get_subscriptions 0x0101 (snd (rb_remove_local sample_routing_env 0x0101 sample_subscribed)) = {}"
proof -
  have st: "sample_subscribed = put_event 0 (snd (add_subscriber 0x4465 0x0101 (rb_event_objs sample_routing 0))) sample_routing"
    unfolding sample_subscribed_def by (rule subscribe_event_state [OF _ sample_routing_ok(2)]) (simp add: ANY_EVENT_def)
  have ev: "events_of s i sample_subscribed = (if s = 0x1234 \<and> i = 0x5678 then {0} else {})" for s i
    using sample_event(3) [of s i] by (simp add: st put_event_def events_of_def)
  have gs: "get_subscribers g (rb_event_objs sample_subscribed 0) = (if g = 0x4465 then {0x0101} else {})" for g
    using sample_event(2) by (simp add: st put_event_def)
  have groups: "get_eventgroups (rb_event_objs sample_subscribed 0) = {0x4465}"
    using sample_event(1) by (simp add: st put_event_def add_subscriber_def get_eventgroups_def Let_def)
  have "rb_get_subscriptions 0x0101 sample_subscribed = {(0x1234, 0x5678, 0x4465)}"
    by (auto simp: rb_get_subscriptions_def get_eventgroups_of_subscribers ev gs split: if_splits)
  moreover have "rb_get_subscriptions 0x0101 (snd (rb_remove_local sample_routing_env 0x0101 sample_subscribed)) = {}"
  proof -
    obtain acts st' where rm: "rb_remove_local sample_routing_env 0x0101 sample_subscribed = (acts, st')" by fastforce
    have "rb_find_events 0x1234 0x5678 0x4465 sample_subscribed = {0}"
      using sample_routing_ok(3) by (simp add: st put_event_def rb_find_events_def)
    then have "r \<in> rb_find_events s i g sample_subscribed"
      if "r \<in> events_of s i sample_subscribed" "g \<in> get_eventgroups (rb_event_objs sample_subscribed r)" for s i r g
      using that by (simp add: ev groups split: if_splits)
    from removed_client_is_forgotten [OF this rm] show ?thesis unfolding rm snd_conv by blast
  qed
  ultimately show ?thesis ..
qed

text \<open>
  A subscription to one event under an eventgroup that is not known is entered and outlives
  the client: the removal of the client withdraws subscriptions through the table of eventgroups only.
\<close>

theorem foreign_subscription_survives_removal:
  assumes "rb_ok st" and "ev \<noteq> ANY_EVENT" and "rb_find_event s i ev st = Some r"
    and "lookup3 (rb_eventgroups st) s i g = None"
  shows "c \<in> get_subscribers g (rb_event_objs (snd (rb_remove_local env c (snd (rb_subscribe env place c s i g ev st)))) r)"
proof -
  let ?st = "snd (rb_subscribe env place c s i g ev st)"
  have st: "?st = put_event r (snd (add_subscriber g c (rb_event_objs st r))) st"
    by (rule subscribe_event_state [OF assms(2,3)])
  have "r \<notin> rb_find_events s' i' g ?st" for s' i'
  proof
    assume "r \<in> rb_find_events s' i' g ?st"
    then obtain x where "lookup3 (rb_eventgroups st) s' i' g = Some x" "r \<in> egi_events x"
      by (auto simp: st put_event_def rb_find_events_def split: option.splits)
    with rb_ok_group [OF assms(1) this(1)] rb_ok_find_event [OF assms(1,3)] assms(4) show False
      by (auto simp: group_ok_def)
  qed
  then show ?thesis
    unfolding rb_remove_local_def by (simp add: remove_local_state) (simp add: st put_event_def)
qed

theorem foreign_subscription_survives_removal_witness:
  "0x0101 \<in> get_subscribers 0x4466 (rb_event_objs (snd (rb_remove_local sample_routing_env 0x0101
      (snd (rb_subscribe sample_routing_env (\<lambda>s i g ev c st. (False, [], st)) 0x0101 0x1234 0x5678 0x4466 0x8001 sample_routing)))) 0)"
proof -
  have "lookup3 (rb_eventgroups sample_routing) 0x1234 0x5678 0x4466 = None"
    by (simp add: sample_routing_def register_event_eq registered_def Let_def rb_find_event_def rb_init_def
        join_eventgroup_def rb_find_eventgroup_def put_group_def put_event_def lookup3_put3 split: prod.split)
  with sample_routing_ok show ?thesis
    by (intro foreign_subscription_survives_removal) (simp_all add: ANY_EVENT_def)
qed

section \<open>Notifications\<close>

lemma concat_map_option: "concat (map (\<lambda>x. case f x of Some y \<Rightarrow> [g y] | None \<Rightarrow> []) xs) = map g (List.map_filter f xs)"
  by (induction xs) (auto simp: map_filter_simps split: option.split)

text \<open>
  C24. A notification of an event that the application itself provides is handed to the endpoint of
  every local client that subscribed to it, to each exactly once and to no other endpoint, as a
  command that carries the message, its instance and its flags; the result tells whether a remote
  client has subscribed.
\<close>

theorem notification_reaches_local_subscribers:
  assumes "rb_ok st" and "rb_find_event s i ev st = Some r" and "\<not> ev_is_shadow (rb_event_objs st r)"
    and "subscribers = get_all_subscribers (rb_event_objs st r)"
  shows "\<exists>acts. rb_send_local_notification c (bytes16 s @ bytes16 ev @ data) i flush reliable crc st
      = Some (VSOMEIP_ROUTING_CLIENT \<in> subscribers, acts)
    \<and> distinct acts
    \<and> set acts = {Endpoint_send h (command VSOMEIP_SEND (rb_client st) (bytes16 s @ bytes16 ev @ data
          @ le16 i @ le_bool flush @ le_bool reliable @ le_bool crc)) | h.
        \<exists>c'\<in>subscribers - {VSOMEIP_ROUTING_CLIENT}. rb_find_local c' st = Some h}"
proof -
  let ?data = "bytes16 s @ bytes16 ev @ data"
  let ?f = "\<lambda>c'. if c' = VSOMEIP_ROUTING_CLIENT then None else rb_find_local c' st"
  let ?send = "\<lambda>h. rb_send_local h c ?data i flush reliable VSOMEIP_SEND crc st"
  let ?acts = "map ?send (List.map_filter ?f (sorted_list_of_set subscribers))"
  have bytes: "vec_get ?data 0 = Some (VSOMEIP_WORD_BYTE1 s)" "vec_get ?data 1 = Some (VSOMEIP_WORD_BYTE0 s)"
    "vec_get ?data 2 = Some (VSOMEIP_WORD_BYTE1 ev)" "vec_get ?data 3 = Some (VSOMEIP_WORD_BYTE0 ev)"
    by (simp_all add: bytes16_def vec_get_def)
  have "(\<lambda>its_client. if its_client = VSOMEIP_ROUTING_CLIENT then []
        else (case rb_find_local its_client st of Some h \<Rightarrow> [?send h] | None \<Rightarrow> []))
      = (\<lambda>its_client. case ?f its_client of Some h \<Rightarrow> [?send h] | None \<Rightarrow> [])"
    by (simp add: fun_eq_iff)
  then have eq: "concat (map (\<lambda>its_client. if its_client = VSOMEIP_ROUTING_CLIENT then []
        else (case rb_find_local its_client st of Some h \<Rightarrow> [?send h] | None \<Rightarrow> [])) (sorted_list_of_set subscribers)) = ?acts"
    by (simp only: concat_map_option)
  have run: "rb_send_local_notification c ?data i flush reliable crc st = Some (VSOMEIP_ROUTING_CLIENT \<in> subscribers, ?acts)"
    unfolding rb_send_local_notification_def bytes
    using eq by (simp add: assms(2,3) assms(4) [symmetric] Let_def del: VSOMEIP_SEND_def VSOMEIP_ROUTING_CLIENT_def)
  have inj: "c1 = c2" if "?f c1 = Some h" "?f c2 = Some h" for c1 c2 h
    using assms(1) that by (auto simp: rb_ok_def endpoints_ok_def inj_on_def rb_find_local_def dom_def split: if_splits)
  have "distinct (List.map_filter ?f xs)" if "distinct xs" for xs
    using that
  proof (induction xs)
    case (Cons x xs)
    have "h \<notin> set (List.map_filter ?f xs)" if "?f x = Some h" for h
    proof
      assume "h \<in> set (List.map_filter ?f xs)"
      then obtain y where "y \<in> set xs" "?f y = Some h" by (auto simp: map_filter_def)
      with inj [OF that this(2)] Cons.prems show False by simp
    qed
    with Cons show ?case by (auto simp: map_filter_simps split: option.split)
  qed (simp add: map_filter_simps)
  then have "distinct (List.map_filter ?f (sorted_list_of_set subscribers))" by simp
  moreover have "inj_on ?send A" for A by (rule inj_onI) (simp add: rb_send_local_def)
  ultimately have "distinct ?acts" unfolding distinct_map by (rule conjI)
  moreover have "set ?acts = {Endpoint_send h (command VSOMEIP_SEND (rb_client st) (?data
          @ le16 i @ le_bool flush @ le_bool reliable @ le_bool crc)) | h.
        \<exists>c'\<in>subscribers - {VSOMEIP_ROUTING_CLIENT}. rb_find_local c' st = Some h}"
    by (auto simp: map_filter_def rb_send_local_def split: if_splits) force
  ultimately show ?thesis using run by auto
qed

lemma sample_not_shadow: "\<not> ev_is_shadow (rb_event_objs sample_routing 0)"
proof -
  obtain e where e: "registered sample_routing_env 0x1343 0x1234 0x5678 0x8001 {0x4465} True 0 False None True False False
      (rb_init 0x1343) = (0, e)"
    using sample_registered by (metis prod.collapse)
  have "\<not> ev_is_shadow e"
    using e by (auto simp: registered_def Let_def rb_find_event_def rb_init_def rb_find_service_def new_event_def
        add_ref_def event_simple_ops event_init_def split: if_splits option.splits)
  then show ?thesis by (simp add: register_event_ok(3) [OF rb_ok_init sample_routing_def e])
qed

text \<open>One local subscriber with an endpoint and the routing manager, which stands for remote ones.\<close>

definition sample_notifying :: routing_base where
  "sample_notifying = put_event 0 (snd (add_subscriber 0x4465 0 (rb_event_objs sample_subscribed 0)))
     (snd (snd (rb_find_or_create_local 0x0101 sample_subscribed)))"

theorem notification_reaches_local_subscribers_witness:
  "\<exists>acts. rb_send_local_notification 0x1343 (bytes16 0x1234 @ bytes16 0x8001 @ [7]) 0x5678 True False True sample_notifying
      = Some (True, acts)
    \<and> Endpoint_send 0 (command VSOMEIP_SEND 0x1343 (bytes16 0x1234 @ bytes16 0x8001 @ [7] @ le16 0x5678
        @ le_bool True @ le_bool False @ le_bool True)) \<in> set acts"
proof -
  have sub: "sample_subscribed = put_event 0 (snd (add_subscriber 0x4465 0x0101 (rb_event_objs sample_routing 0))) sample_routing"
    unfolding sample_subscribed_def by (rule subscribe_event_state [OF _ sample_routing_ok(2)]) (simp add: ANY_EVENT_def)
  have init: "rb_local_endpoints sample_routing = Map.empty" "rb_next_endpoint sample_routing = 0" "rb_client sample_routing = 0x1343"
    by (simp_all add: sample_routing_def register_event_eq registered_def Let_def rb_find_event_def rb_init_def
        join_eventgroup_def rb_find_eventgroup_def put_group_def put_event_def split: prod.split)
  have "rb_ok sample_subscribed" unfolding sub by (rule rb_ok_put_event [OF sample_routing_ok(1)]) simp
  then have "rb_ok (snd (snd (rb_find_or_create_local 0x0101 sample_subscribed)))"
    using rb_ok_find_or_create_local [of sample_subscribed "0x0101"] by (metis prod.collapse)
  moreover have objs: "rb_event_objs (snd (snd (rb_find_or_create_local 0x0101 sample_subscribed))) = rb_event_objs sample_subscribed"
    by (simp add: rb_find_or_create_local_def rb_find_local_def sub put_event_def init rb_create_local_def)
  ultimately have ok: "rb_ok sample_notifying"
    unfolding sample_notifying_def by (intro rb_ok_put_event) (simp_all add: objs)
  have ev: "rb_find_event 0x1234 0x5678 0x8001 sample_notifying = Some 0" and h: "rb_find_local 0x0101 sample_notifying = Some 0"
    and c: "rb_client sample_notifying = 0x1343"
    using sample_routing_ok(2)
    by (simp_all add: sample_notifying_def put_event_def rb_find_event_def rb_find_or_create_local_def rb_find_local_def
        rb_create_local_def sub init)
  have sh: "\<not> ev_is_shadow (rb_event_objs sample_notifying 0)"
    using sample_not_shadow by (simp add: sample_notifying_def put_event_def sub add_subscriber_def Let_def)
  have "get_subscribers 0x4465 (rb_event_objs sample_notifying 0) = {0, 0x0101}"
    by (simp add: sample_notifying_def put_event_def sub sample_event(2))
  then have subs: "0 \<in> get_all_subscribers (rb_event_objs sample_notifying 0)"
    "0x0101 \<in> get_all_subscribers (rb_event_objs sample_notifying 0)"
    by (auto simp: get_subscribers_def get_all_subscribers_def ran_def split: option.splits)
  from notification_reaches_local_subscribers [OF ok ev sh refl, of "0x1343" "[7]" True False True]
  obtain acts where
    "rb_send_local_notification 0x1343 (bytes16 0x1234 @ bytes16 0x8001 @ [7]) 0x5678 True False True sample_notifying
      = Some (VSOMEIP_ROUTING_CLIENT \<in> get_all_subscribers (rb_event_objs sample_notifying 0), acts)"
    and "set acts = {Endpoint_send h (command VSOMEIP_SEND (rb_client sample_notifying) (bytes16 0x1234 @ bytes16 0x8001 @ [7]
          @ le16 0x5678 @ le_bool True @ le_bool False @ le_bool True)) | h.
        \<exists>c'\<in>get_all_subscribers (rb_event_objs sample_notifying 0) - {VSOMEIP_ROUTING_CLIENT}.
          rb_find_local c' sample_notifying = Some h}"
    by blast
  moreover have "0x0101 \<in> get_all_subscribers (rb_event_objs sample_notifying 0) - {VSOMEIP_ROUTING_CLIENT}"
    using subs by simp
  ultimately show ?thesis using subs(1) h c by auto
qed

section \<open>Registration\<close>

lemma get_subscribers_fold_add:
  "get_subscribers g' (fold (\<lambda>c e. snd (add_subscriber g c e)) cs e) =
     (if g' = g then set cs \<union> get_subscribers g e else get_subscribers g' e)"
  by (induction cs arbitrary: e) auto

lemma get_subscribers_transfer:
  "get_subscribers g (transfer_subscribers gs any_event e) =
     (if g \<in> gs then get_subscribers g any_event else {}) \<union> get_subscribers g e"
proof -
  have none: "get_subscribers h any_event = {}" if "h \<notin> get_eventgroups any_event" for h
    using that by (auto simp: get_subscribers_def get_eventgroups_def split: option.split)
  have "get_subscribers g (fold (\<lambda>g e. if g \<in> get_eventgroups any_event
          then fold (\<lambda>c e. snd (add_subscriber g c e)) (sorted_list_of_set (get_subscribers g any_event)) e else e) hs e)
      = (if g \<in> set hs then get_subscribers g any_event else {}) \<union> get_subscribers g e" for hs
    by (induction hs arbitrary: e) (auto simp: get_subscribers_fold_add none)
  then show ?thesis by (simp add: transfer_subscribers_def)
qed

text \<open>What registration does to the subscribers that an event has already: nothing.\<close>

lemma get_subscribers_configure [simp]:
  "get_subscribers g (event_set_provided b e) = get_subscribers g e"
  "get_subscribers g (event_set_shadow b e) = get_subscribers g e"
  "get_subscribers g (event_set_field b e) = get_subscribers g e"
  "get_subscribers g (event_set_cache_placeholder b e) = get_subscribers g e"
  "get_subscribers g (event_set_version v e) = get_subscribers g e"
  "get_subscribers g (event_set_reliable b e) = get_subscribers g e"
  "get_subscribers g (event_set_service w e) = get_subscribers g e"
  "get_subscribers g (event_set_instance w e) = get_subscribers g e"
  "get_subscribers g (event_set_event w e) = get_subscribers g e"
  "get_subscribers g (set_change_resets_cycle b e) = get_subscribers g e"
  "get_subscribers g (set_epsilon_change_function f e) = get_subscribers g e"
  "get_subscribers g (set_update_cycle n e) = get_subscribers g e"
  "get_subscribers g (unset_payload b e) = get_subscribers g e"
  "get_subscribers g (add_ref c b e) = get_subscribers g e"
  "get_subscribers g (add_eventgroup h e) = get_subscribers g e"
  by (simp_all add: get_subscribers_def event_simple_ops unset_payload_def add_ref_def Let_def split: option.split)

lemma get_subscribers_add_eventgroups [simp]: "get_subscribers g (add_eventgroups gs e) = get_subscribers g e"
proof -
  have "get_subscribers g (fold add_eventgroup hs e) = get_subscribers g e" for hs
    by (induction hs arbitrary: e) simp_all
  then show ?thesis by (simp add: add_eventgroups_def)
qed

lemma get_subscribers_update_registered:
  "get_subscribers g (snd (update_registered env c gs is_field is_provided is_shadow e)) = get_subscribers g e"
  "fst (update_registered env c gs is_field is_provided is_shadow e) \<longleftrightarrow> ev_is_field e = is_field"
  by (simp_all add: update_registered_def Let_def)

lemma get_subscribers_fill_placeholder:
  "gs \<noteq> {} \<Longrightarrow> get_subscribers g (fill_placeholder env c ev gs is_field cycle resets epsilon is_provided is_shadow version e)
    = get_subscribers g e"
  by (simp add: fill_placeholder_def Let_def split: option.split)

lemma get_subscribers_new_event:
  "get_subscribers g (new_event env s i ev gs is_field cycle resets epsilon is_provided is_shadow placeholder version) = {}"
  unfolding new_event_def Let_def get_subscribers_configure
  by (cases version) (simp_all add: get_subscribers_def event_simple_ops event_init_def)

text \<open>
  C27. A client may subscribe to all events of an eventgroup before the events are offered; the
  placeholder for all events then holds it as a subscriber.  When an event of the service is
  registered as provided, it is entered at each eventgroup of the registration and takes over the
  subscribers that the placeholder for all events holds there, if the event was not known before,
  or was known as a proper event of the same kind (field or not).  The subscribers it had are
  kept.  If it was known as a proper event of the other kind, or only as a placeholder for a
  cached value, it takes over none; in the latter case the registration succeeds and the early
  subscribers are not entered.
\<close>

theorem early_subscribers_are_taken_over:
  assumes "rb_ok st" and "rb_find_event s i ANY_EVENT st = Some a" and "ev \<noteq> ANY_EVENT"
    and "st' = rb_register_event env c s i ev gs is_field cycle resets epsilon True is_shadow False st"
    and "g \<in> gs"
  shows "\<exists>r. rb_find_event s i ev st' = Some r \<and> r \<in> rb_find_events s i g st'
    \<and> get_subscribers g (rb_event_objs st' r) =
        (case rb_find_event s i ev st of
           None \<Rightarrow> get_subscribers g (rb_event_objs st a)
         | Some r' \<Rightarrow> get_subscribers g (rb_event_objs st r')
             \<union> (if \<not> ev_is_cache_placeholder (rb_event_objs st r') \<and> ev_is_field (rb_event_objs st r') = is_field
                then get_subscribers g (rb_event_objs st a) else {}))"
proof -
  obtain r e where reg: "registered env c s i ev gs is_field cycle resets epsilon True is_shadow False st = (r, e)"
    by fastforce
  have a: "a < rb_next_event st" "event_id (rb_event_objs st a) = (s, i, ANY_EVENT)"
    using rb_ok_find_event [OF assms(1,2)] by simp_all
  have "get_subscribers g e = (case rb_find_event s i ev st of
           None \<Rightarrow> get_subscribers g (rb_event_objs st a)
         | Some r' \<Rightarrow> get_subscribers g (rb_event_objs st r')
             \<union> (if \<not> ev_is_cache_placeholder (rb_event_objs st r') \<and> ev_is_field (rb_event_objs st r') = is_field
                then get_subscribers g (rb_event_objs st a) else {}))"
  proof (cases "rb_find_event s i ev st")
    case None
    with reg a(1) assms(2) have "e = add_ref c True (transfer_subscribers gs (rb_event_objs st a)
        (new_event env s i ev gs is_field cycle resets epsilon True is_shadow False
          (map_option (\<lambda>r. si_major (rb_infos st r)) (rb_find_service s i st))))"
      by (simp add: registered_def Let_def)
    with None assms(5) show ?thesis by (simp add: get_subscribers_transfer get_subscribers_new_event)
  next
    case (Some r')
    let ?old = "rb_event_objs st r'"
    have "a \<noteq> r'" using a(2) rb_ok_find_event [OF assms(1) Some] assms(3) by auto
    then have e: "e = add_ref c True (if ev_is_cache_placeholder ?old
        then fill_placeholder env c ev gs is_field cycle resets epsilon True is_shadow
          (map_option (\<lambda>r. si_major (rb_infos st r)) (rb_find_service s i st)) ?old
        else if fst (update_registered env c gs is_field True is_shadow ?old)
        then transfer_subscribers gs (rb_event_objs st a) (snd (update_registered env c gs is_field True is_shadow ?old))
        else snd (update_registered env c gs is_field True is_shadow ?old))"
      using reg Some assms(2) by (simp add: registered_def Let_def case_prod_beta split: if_splits)
    have "gs \<noteq> {}" using assms(5) by blast
    with Some assms(5) show ?thesis
      unfolding e by (simp add: get_subscribers_transfer get_subscribers_fill_placeholder get_subscribers_update_registered Un_commute)
  qed
  with register_event_ok [OF assms(1,4) reg] assms(5) show ?thesis by simp
qed

definition sample_early :: routing_base where
  "sample_early = (let st = rb_register_event sample_routing_env 0x1343 0x1234 0x5678 ANY_EVENT {0x4465} True 0 False None False False True
        (rb_init 0x1343)
      in put_event 0 (snd (add_subscriber 0x4465 0x0101 (rb_event_objs st 0))) st)"

theorem early_subscribers_are_taken_over_witness:
  "\<exists>r. rb_find_event 0x1234 0x5678 0x8001 (rb_register_event sample_routing_env 0x1343 0x1234 0x5678 0x8001 {0x4465} True 0 False None
        True False False sample_early) = Some r
    \<and> 0x0101 \<in> get_subscribers 0x4465 (rb_event_objs (rb_register_event sample_routing_env 0x1343 0x1234 0x5678 0x8001 {0x4465} True 0
        False None True False False sample_early) r)"
proof -
  let ?st = "rb_register_event sample_routing_env 0x1343 0x1234 0x5678 ANY_EVENT {0x4465} True 0 False None False False True (rb_init 0x1343)"
  obtain e where reg: "registered sample_routing_env 0x1343 0x1234 0x5678 ANY_EVENT {0x4465} True 0 False None False False True
      (rb_init 0x1343) = (0, e)"
    by (simp add: registered_def Let_def rb_find_event_def rb_init_def)
  note r = register_event_ok [OF rb_ok_init refl reg]
  have early: "sample_early = put_event 0 (snd (add_subscriber 0x4465 0x0101 (rb_event_objs ?st 0))) ?st"
    by (simp only: sample_early_def Let_def)
  have ok: "rb_ok sample_early" unfolding early by (rule rb_ok_put_event [OF r(1)]) simp
  have find: "rb_find_event s i ev sample_early = rb_find_event s i ev ?st" for s i ev
    by (simp add: early put_event_def rb_find_event_def)
  have any: "rb_find_event 0x1234 0x5678 ANY_EVENT sample_early = Some 0"
    "rb_find_event 0x1234 0x5678 0x8001 sample_early = None"
    unfolding find r(2) by (simp_all add: ANY_EVENT_def rb_find_event_def rb_init_def)
  have "0x0101 \<in> get_subscribers 0x4465 (rb_event_objs sample_early 0)"
    by (simp add: early put_event_def)
  moreover have "(0x8001 :: u16) \<noteq> ANY_EVENT" "(0x4465 :: u16) \<in> {0x4465}" by (simp_all add: ANY_EVENT_def)
  ultimately show ?thesis
    using early_subscribers_are_taken_over [OF ok any(1) _ refl, where ev = "0x8001" and env = sample_routing_env and c = "0x1343"
        and gs = "{0x4465}" and g = "0x4465" and is_field = True and cycle = 0 and resets = False and epsilon = None
        and is_shadow = False] any(2)
    by auto
qed

end
