(* ===== verification/Steps.thy ===== *)
theory Steps
  imports Prelude
begin

text \<open>
  Operations that change a state and ask for actions, composed: the actions are those of the first
  followed by those of the second, which starts in the state the first has left.
\<close>

definition followed :: "'a list \<times> 's \<Rightarrow> ('s \<Rightarrow> 'a list \<times> 's) \<Rightarrow> 'a list \<times> 's" where
  "followed r f = (case r of (acts, st) \<Rightarrow> (case f st of (acts', st) \<Rightarrow> (acts @ acts', st)))"

definition each :: "('x \<Rightarrow> 's \<Rightarrow> 'a list \<times> 's) \<Rightarrow> 'x list \<Rightarrow> 's \<Rightarrow> 'a list \<times> 's" where
  "each f xs st = fold (\<lambda>x r. followed r (f x)) xs ([], st)"

lemma followed_assoc: "followed (followed r f) g = followed r (\<lambda>st. followed (f st) g)"
  by (simp add: followed_def split: prod.split)

lemma followed_skip [simp]: "followed ([], st) f = f st" "followed r (\<lambda>st. ([], st)) = r"
  by (simp_all add: followed_def split: prod.split)

lemma followed_simps: "fst (followed r f) = fst r @ fst (f (snd r))" "snd (followed r f) = snd (f (snd r))"
  by (simp_all add: followed_def split: prod.split)

lemma each_Nil [simp]: "each f [] st = ([], st)"
  by (simp add: each_def)

lemma each_Cons: "each f (x # xs) st = followed (f x st) (each f xs)"
proof -
  have "fold (\<lambda>x r. followed r (f x)) xs r = followed r (\<lambda>st. fold (\<lambda>x r. followed r (f x)) xs ([], st))" for r
  proof (induction xs arbitrary: r)
    case (Cons x xs)
    have "fold (\<lambda>x r. followed r (f x)) (x # xs) r
        = followed r (\<lambda>st. followed (f x st) (\<lambda>st. fold (\<lambda>x r. followed r (f x)) xs ([], st)))"
      using Cons [of "followed r (f x)"] by (simp add: followed_assoc)
    moreover have "fold (\<lambda>x r. followed r (f x)) (x # xs) ([], st)
        = followed (f x st) (\<lambda>st. fold (\<lambda>x r. followed r (f x)) xs ([], st))" for st
      using Cons [of "followed ([], st) (f x)"] by simp
    ultimately show ?case by simp
  qed simp
  note unroll = this
  have "each f xs = (\<lambda>st. fold (\<lambda>x r. followed r (f x)) xs ([], st))" by (rule ext) (simp add: each_def)
  then show ?thesis using unroll [of "f x st"] by (simp add: each_def)
qed

text \<open>What every step keeps holds at the end, and what one of them does is done.\<close>

lemma each_keeps:
  assumes "P st" and "\<And>x st. x \<in> set xs \<Longrightarrow> P st \<Longrightarrow> P (snd (f x st))"
  shows "P (snd (each f xs st))"
  using assms by (induction xs arbitrary: st) (simp_all add: each_Cons followed_simps)

lemma each_does:
  assumes "P st" and "\<And>x st. x \<in> set xs \<Longrightarrow> P st \<Longrightarrow> P (snd (f x st))"
    and "x \<in> set xs" and "\<And>st. P st \<Longrightarrow> \<exists>a\<in>set (fst (f x st)). Q a"
  shows "\<exists>a\<in>set (fst (each f xs st)). Q a"
  using assms
proof (induction xs arbitrary: st)
  case (Cons y ys)
  have "\<exists>a\<in>set (fst (f y st)) \<union> set (fst (each f ys (snd (f y st)))). Q a"
  proof (cases "x = y")
    case True
    with Cons.prems(1,4) show ?thesis by blast
  next
    case False
    with Cons.prems(3) have "x \<in> set ys" by simp
    moreover have "P (snd (f y st))" using Cons.prems(1,2) by simp
    ultimately have "\<exists>a\<in>set (fst (each f ys (snd (f y st)))). Q a"
      using Cons.prems(2,4) by (intro Cons.IH) auto
    then show ?thesis by blast
  qed
  then show ?case by (simp add: each_Cons followed_simps)
qed simp

end
