(* ===== verification/Routing_Proxy.thy ===== *)
theory Routing_Proxy
  imports Routing_Base Steps "HOL-Library.List_Lexorder"
begin

text \<open>
  The routing manager of an application that is not the routing manager of its device
  (\<^verbatim>\<open>routing/src/routing_manager_proxy.cpp\<close>): it registers at the stub of the routing manager,
  tells it what the application offers, requests and subscribes to, exchanges messages with other
  applications directly, and keeps what it has to tell again after a new registration.

  The state extends that of \<^verbatim>\<open>routing_manager_base\<close>.  What the code asks of the configuration, the
  credentials and the creation of the receiving endpoint is an argument, as is the order in which a
  hash set is traversed.  A call of the host with a callback is an action, and the callback an operation
  of its own.  Logging and the waiting for condition variables are left out; the parts of \<^verbatim>\<open>stop\<close>
  between the waits are operations.
\<close>

section \<open>State\<close>

record event_data =
  evd_service :: u16
  evd_instance :: u16
  evd_event :: u16
  evd_is_field :: bool
  evd_is_provided :: bool
  evd_eventgroups :: "u16 set"

definition event_key :: "event_data \<Rightarrow> u16 \<times> u16 \<times> u16 \<times> bool \<times> bool \<times> u16 list" where
  "event_key d = (evd_service d, evd_instance d, evd_event d, evd_is_field d, evd_is_provided d,
     sorted_list_of_set (evd_eventgroups d))"

datatype proxy_state = ST_REGISTERED | ST_DEREGISTERED | ST_REGISTERING

record proxy_env =
  pe_routing :: routing_env
  pe_request_debouncing :: nat
  pe_security_enabled :: bool
  pe_routing_host_id :: u16
  pe_client_allowed :: "u16 \<Rightarrow> u16 \<Rightarrow> u16 \<Rightarrow> bool"
  pe_credentials :: bool
  pe_receiver_created :: bool
  pe_hash_order :: "u16 set \<Rightarrow> u16 list"

record routing_proxy = routing_base +
  rp_is_connected :: bool
  rp_is_started :: bool
  rp_state :: proxy_state
  rp_sender :: "nat option"
  rp_receiver :: bool
  rp_known_clients :: "u16 set"
  rp_pending_offers :: "service_data list"
  rp_requests :: "service_data list"
  rp_requests_to_debounce :: "service_data list"
  rp_pending_event_registrations :: "event_data list"
  rp_pending_incoming_subscriptions :: "u16 \<rightharpoonup> subscription_data list"
  rp_remote_subscriber_count :: "(u16, u16, u16, u32) map3"
  rp_request_debounce_timer_running :: bool

type_synonym proxy_result = "routing_action list \<times> routing_proxy"

definition SU_RELIABLE_AND_UNRELIABLE :: byte where [simp]: "SU_RELIABLE_AND_UNRELIABLE = 0"
definition register_application_timer :: nat where [simp]: "register_application_timer = 0"
definition request_debounce_timer :: nat where [simp]: "request_debounce_timer = 1"

definition rp_create :: "u16 \<Rightarrow> routing_proxy" where
  "rp_create client = routing_base.extend (rb_init client) (routing_proxy.fields
     False False ST_DEREGISTERED None False {} [] [] [] [] Map.empty Map.empty False)"

definition to_sender :: "byte list \<Rightarrow> routing_proxy \<Rightarrow> routing_action list" where
  "to_sender cmd st = (case rp_sender st of Some h \<Rightarrow> [Endpoint_send h cmd] | None \<Rightarrow> [])"

section \<open>Commands\<close>

definition offer_command :: "byte \<Rightarrow> u16 \<Rightarrow> u16 \<Rightarrow> u16 \<Rightarrow> byte \<Rightarrow> u32 \<Rightarrow> byte list" where
  "offer_command cmd c s i major minor = command cmd c (le16 s @ le16 i @ [major] @ le32 minor)"

definition rp_send_offer_service :: "u16 \<Rightarrow> u16 \<Rightarrow> byte \<Rightarrow> u32 \<Rightarrow> routing_proxy \<Rightarrow> routing_action list" where
  "rp_send_offer_service s i major minor st =
     to_sender (offer_command VSOMEIP_OFFER_SERVICE (rb_client st) s i major minor) st"

definition request_entry :: "service_data \<Rightarrow> byte list" where
  "request_entry d = le16 (svc_service d) @ le16 (svc_instance d) @ [svc_major d] @ le32 (svc_minor d)
     @ le_bool (svc_use_exclusive_proxy d)"

definition rp_send_request_services :: "service_data list \<Rightarrow> routing_proxy \<Rightarrow> routing_action list" where
  "rp_send_request_services requests st =
     (if requests = [] \<or> 2 ^ 32 \<le> 10 * length requests then []
      else to_sender (command VSOMEIP_REQUEST_SERVICE (rb_client st) (concat (map request_entry requests))) st)"

definition rp_send_release_service :: "u16 \<Rightarrow> u16 \<Rightarrow> routing_proxy \<Rightarrow> routing_action list" where
  "rp_send_release_service s i st =
     to_sender (command VSOMEIP_RELEASE_SERVICE (rb_client st) (le16 s @ le16 i)) st"

definition register_event_payload :: "event_data \<Rightarrow> byte list" where
  "register_event_payload d = le16 (evd_service d) @ le16 (evd_instance d) @ le16 (evd_event d)
     @ le_bool (evd_is_field d) @ le_bool (evd_is_provided d)
     @ concat (map le16 (sorted_list_of_set (evd_eventgroups d)))"

definition rp_send_register_event :: "event_data \<Rightarrow> routing_proxy \<Rightarrow> routing_action list" where
  "rp_send_register_event d st =
     to_sender (command VSOMEIP_REGISTER_EVENT (rb_client st) (register_event_payload d)) st"

definition rp_send_registered_ack :: "routing_proxy \<Rightarrow> routing_action list" where
  "rp_send_registered_ack st = to_sender (command VSOMEIP_REGISTERED_ACK (rb_client st) []) st"

definition rp_send_pong :: "routing_proxy \<Rightarrow> routing_action list" where
  "rp_send_pong st =
     (if rp_is_connected st then to_sender (command VSOMEIP_PONG (rb_client st) []) st else [])"

definition rp_on_identify_response :: "u16 \<Rightarrow> u16 \<Rightarrow> u16 \<Rightarrow> bool \<Rightarrow> routing_proxy \<Rightarrow> routing_action list" where
  "rp_on_identify_response c s i reliable st =
     to_sender (command VSOMEIP_ID_RESPONSE c (le16 s @ le16 i @ le_bool reliable)) st"

definition rp_send_get_offered_services_info :: "u16 \<Rightarrow> byte \<Rightarrow> routing_proxy \<Rightarrow> routing_action list" where
  "rp_send_get_offered_services_info c offer_type st =
     to_sender (command VSOMEIP_OFFERED_SERVICES_REQUEST c [offer_type]) st"

definition rp_send_unsubscribe_ack :: "u16 \<Rightarrow> u16 \<Rightarrow> u16 \<Rightarrow> u16 \<Rightarrow> routing_proxy \<Rightarrow> routing_action list" where
  "rp_send_unsubscribe_ack s i g subscription_id st =
     to_sender (command VSOMEIP_UNSUBSCRIBE_ACK (rb_client st) (le16 s @ le16 i @ le16 g @ le16 subscription_id)) st"

definition rp_send_subscribe_answer :: "byte \<Rightarrow> u16 \<Rightarrow> u16 \<Rightarrow> u16 \<Rightarrow> u16 \<Rightarrow> u16 \<Rightarrow> u16
    \<Rightarrow> routing_proxy \<Rightarrow> routing_action list" where
  "rp_send_subscribe_answer cmd subscriber s i g ev subscription_id st =
     (let its_command = command cmd (rb_client st)
            (le16 s @ le16 i @ le16 g @ le16 subscriber @ le16 ev @ le16 subscription_id)
      in case if subscriber \<noteq> VSOMEIP_ROUTING_CLIENT \<and> subscription_id = DEFAULT_SUBSCRIPTION
              then rb_find_local subscriber st else None of
           Some h \<Rightarrow> [Endpoint_send h its_command]
         | None \<Rightarrow> to_sender its_command st)"

definition rp_send_subscribe_nack :: "u16 \<Rightarrow> u16 \<Rightarrow> u16 \<Rightarrow> u16 \<Rightarrow> u16 \<Rightarrow> u16 \<Rightarrow> routing_proxy \<Rightarrow> routing_action list" where
  "rp_send_subscribe_nack = rp_send_subscribe_answer VSOMEIP_SUBSCRIBE_NACK"

definition rp_send_subscribe_ack :: "u16 \<Rightarrow> u16 \<Rightarrow> u16 \<Rightarrow> u16 \<Rightarrow> u16 \<Rightarrow> u16 \<Rightarrow> routing_proxy \<Rightarrow> routing_action list" where
  "rp_send_subscribe_ack = rp_send_subscribe_answer VSOMEIP_SUBSCRIBE_ACK"

definition subscribe_payload :: "subscription_data \<Rightarrow> u16 \<Rightarrow> byte list" where
  "subscribe_payload d subscription_id = le16 (sd_service d) @ le16 (sd_instance d) @ le16 (sd_eventgroup d)
     @ [sd_major d] @ le16 (sd_event d) @ [sd_subscription_type d] @ le16 subscription_id"

definition rp_send_subscribe :: "u16 \<Rightarrow> subscription_data \<Rightarrow> routing_proxy \<Rightarrow> proxy_result" where
  "rp_send_subscribe c d st =
     (let its_command = command VSOMEIP_SUBSCRIBE c (subscribe_payload d DEFAULT_SUBSCRIPTION);
          target_client = rb_find_local_client (sd_service d) (sd_instance d) st
      in if target_client \<noteq> VSOMEIP_ROUTING_CLIENT
         then (case rb_find_or_create_local target_client st of
                 (h, acts, st) \<Rightarrow> (acts @ [Endpoint_send h its_command], st))
         else (to_sender its_command st, st))"

definition rp_send_pending_commands :: "routing_proxy \<Rightarrow> routing_action list" where
  "rp_send_pending_commands st =
     concat (map (\<lambda>po. rp_send_offer_service (svc_service po) (svc_instance po) (svc_major po) (svc_minor po) st)
       (rp_pending_offers st))
     @ concat (map (\<lambda>per. rp_send_register_event per st) (rp_pending_event_registrations st))
     @ rp_send_request_services (rp_requests st) st"

section \<open>Start, registration and stop\<close>

definition rp_init_receiver :: "proxy_env \<Rightarrow> routing_proxy \<Rightarrow> proxy_result" where
  "rp_init_receiver env st =
     (if \<not> pe_credentials env then ([], st)
      else if pe_receiver_created env then ([], st\<lparr>rp_receiver := True\<rparr>)
      else ([Host_on_error], st))"

definition rp_create_sender :: "routing_proxy \<Rightarrow> proxy_result" where
  "rp_create_sender st = (case rb_create_local VSOMEIP_ROUTING_CLIENT st of
     (h, acts, st) \<Rightarrow> (acts, st\<lparr>rp_sender := Some h\<rparr>))"

definition rp_init :: "proxy_env \<Rightarrow> routing_proxy \<Rightarrow> proxy_result" where
  "rp_init env st = followed (rp_create_sender st) (rp_init_receiver env)"

definition rp_start :: "proxy_env \<Rightarrow> routing_proxy \<Rightarrow> proxy_result" where
  "rp_start env st =
     (let st = st\<lparr>rp_is_started := True\<rparr>
      in followed (followed (followed
           (if \<not> rp_receiver st then rp_init_receiver env st else ([], st))
           (\<lambda>st. (if rp_receiver st then [Receiver_start] else [], st)))
           (\<lambda>st. if rp_sender st = None then rp_create_sender st else ([], st)))
           (\<lambda>st. (case rp_sender st of Some h \<Rightarrow> [Endpoint_start h] | None \<Rightarrow> [], st)))"

definition rp_register_application :: "routing_proxy \<Rightarrow> proxy_result" where
  "rp_register_application st =
     (if rp_is_connected st \<and> rp_sender st \<noteq> None
      then (to_sender (command VSOMEIP_REGISTER_APPLICATION (rb_client st) []) st
              @ [Timer_cancel register_application_timer, Timer_start register_application_timer 1000],
            st\<lparr>rp_state := ST_REGISTERING\<rparr>)
      else ([], st))"

text \<open>The payload of the command holds two bytes that stay zero.\<close>

definition rp_deregister_application :: "routing_proxy \<Rightarrow> routing_action list" where
  "rp_deregister_application st =
     (if rp_is_connected st then to_sender (command VSOMEIP_DEREGISTER_APPLICATION (rb_client st) [0, 0]) st else [])"

definition rp_register_application_timeout_cbk :: "bool \<Rightarrow> routing_proxy \<Rightarrow> proxy_result" where
  "rp_register_application_timeout_cbk err st =
     (if \<not> err \<and> rp_state st \<noteq> ST_REGISTERED
      then (case rp_sender st of Some h \<Rightarrow> [Endpoint_restart h] | None \<Rightarrow> [], st\<lparr>rp_state := ST_DEREGISTERED\<rparr>)
      else ([], st))"

definition rp_remove_local :: "proxy_env \<Rightarrow> u16 \<Rightarrow> routing_proxy \<Rightarrow> proxy_result" where
  "rp_remove_local env c st = rb_remove_local (pe_routing env) c st"

text \<open>The parts of \<^verbatim>\<open>stop\<close> before, between and after its waits.\<close>

definition rp_stop_registering :: "routing_proxy \<Rightarrow> routing_action list" where
  "rp_stop_registering st =
     (if rp_state st = ST_REGISTERING then [Timer_cancel register_application_timer] else [])"

definition rp_stop_registered :: "routing_proxy \<Rightarrow> routing_action list" where
  "rp_stop_registered st = (if rp_state st = ST_REGISTERED then rp_deregister_application st else [])"

definition rp_stop_finish :: "proxy_env \<Rightarrow> routing_proxy \<Rightarrow> proxy_result" where
  "rp_stop_finish env st =
     (let acts = [Timer_cancel request_debounce_timer] @ (if rp_receiver st then [Receiver_stop] else [])
            @ (case rp_sender st of Some h \<Rightarrow> [Endpoint_stop h] | None \<Rightarrow> []);
          st = st\<lparr>rp_is_started := False, rp_receiver := False, rp_sender := None\<rparr>
      in followed (acts, st) (each (rp_remove_local env)
           (sorted_list_of_set (rb_get_connected_clients st - {VSOMEIP_ROUTING_CLIENT}))))"

definition rp_on_connect :: "nat \<Rightarrow> routing_proxy \<Rightarrow> proxy_result" where
  "rp_on_connect h st = followed ([Endpoint_set_connected h], st)
     (\<lambda>st. if rp_sender st \<noteq> Some h then ([], st)
           else let st = st\<lparr>rp_is_connected := True\<rparr>
                in if rp_is_started st then rp_register_application st else ([], st))"

definition rp_on_disconnect :: "nat \<Rightarrow> routing_proxy \<Rightarrow> proxy_result" where
  "rp_on_disconnect h st =
     (let st = st\<lparr>rp_is_connected := rp_sender st \<noteq> Some h\<rparr>
      in (if \<not> rp_is_connected st then [Host_on_state False] else [], st))"

definition rp_reconnect :: "proxy_env \<Rightarrow> u16 set \<Rightarrow> routing_proxy \<Rightarrow> proxy_result" where
  "rp_reconnect env clients st = followed (followed ([Host_on_state False], st\<lparr>rp_state := ST_DEREGISTERED\<rparr>)
     (each (rp_remove_local env) (filter (\<lambda>c. c \<noteq> VSOMEIP_ROUTING_CLIENT) (pe_hash_order env clients))))
     (\<lambda>st. (case rp_sender st of Some h \<Rightarrow> [Endpoint_restart h] | None \<Rightarrow> [], st))"

definition rp_handle_client_error :: "proxy_env \<Rightarrow> u16 \<Rightarrow> routing_proxy \<Rightarrow> proxy_result" where
  "rp_handle_client_error env c st =
     (if c \<noteq> VSOMEIP_ROUTING_CLIENT then rp_remove_local env c st
      else if rp_is_started st then rp_reconnect env (rp_known_clients st) st
      else ([], st))"

section \<open>Services\<close>

definition rp_offer_service :: "u16 \<Rightarrow> u16 \<Rightarrow> byte \<Rightarrow> u32 \<Rightarrow> routing_proxy \<Rightarrow> bool \<times> proxy_result" where
  "rp_offer_service s i major minor st =
     (case rb_offer_service s i major minor st of (ok, acts, st) \<Rightarrow>
        (True,
         acts @ (if rp_state st = ST_REGISTERED then rp_send_offer_service s i major minor st else []),
         st\<lparr>rp_pending_offers := oset_insert service_key
              \<lparr>svc_service = s, svc_instance = i, svc_major = major, svc_minor = minor, svc_use_exclusive_proxy = False\<rparr>
              (rp_pending_offers st)\<rparr>))"

definition same_service :: "u16 \<Rightarrow> u16 \<Rightarrow> service_data \<Rightarrow> bool" where
  "same_service s i d \<longleftrightarrow> svc_service d = s \<and> svc_instance d = i"

definition rp_stop_offer_service :: "u16 \<Rightarrow> u16 \<Rightarrow> byte \<Rightarrow> u32 \<Rightarrow> routing_proxy \<Rightarrow> proxy_result" where
  "rp_stop_offer_service s i major minor st =
     (let st = rb_clear_service_info s i False (rb_stop_offer_service s i st)
      in (if rp_state st = ST_REGISTERED
          then to_sender (offer_command VSOMEIP_STOP_OFFER_SERVICE (rb_client st) s i major minor) st else [],
          st\<lparr>rp_pending_offers := erase_first (same_service s i) (rp_pending_offers st)\<rparr>))"

definition rp_request_service :: "proxy_env \<Rightarrow> u16 \<Rightarrow> u16 \<Rightarrow> u16 \<Rightarrow> byte \<Rightarrow> u32 \<Rightarrow> bool
    \<Rightarrow> routing_proxy \<Rightarrow> proxy_result" where
  "rp_request_service env c s i major minor use_exclusive_proxy st =
     followed (rb_request_service c s i major minor st) (\<lambda>st.
       let request = \<lparr>svc_service = s, svc_instance = i, svc_major = major, svc_minor = minor,
             svc_use_exclusive_proxy = use_exclusive_proxy\<rparr>
       in if pe_request_debouncing env = 0
          then (if rp_state st = ST_REGISTERED then rp_send_request_services [request] st else [],
                st\<lparr>rp_requests := oset_insert service_key request (rp_requests st)\<rparr>)
          else (if \<not> rp_request_debounce_timer_running st
                then [Timer_start request_debounce_timer (int (pe_request_debouncing env))] else [],
                st\<lparr>rp_requests_to_debounce := oset_insert service_key request (rp_requests_to_debounce st),
                   rp_request_debounce_timer_running := True\<rparr>))"

text \<open>The loop over the requests to debounce runs to the end, so that none of them is erased.\<close>

definition rp_release_service :: "u16 \<Rightarrow> u16 \<Rightarrow> u16 \<Rightarrow> routing_proxy \<Rightarrow> proxy_result" where
  "rp_release_service c s i st =
     (let st = rb_remove_pending_subscription s i 0xFFFF ANY_EVENT (rb_release_service c s i st);
          pending = list_ex (same_service s i) (rp_requests_to_debounce st)
      in (if \<not> pending \<and> rp_state st = ST_REGISTERED then rp_send_release_service s i st else [],
          st\<lparr>rp_requests := erase_first (same_service s i) (rp_requests st)\<rparr>))"

definition rp_request_debounce_timeout_cbk :: "proxy_env \<Rightarrow> bool \<Rightarrow> routing_proxy \<Rightarrow> proxy_result" where
  "rp_request_debounce_timeout_cbk env err st =
     (if \<not> err \<and> rp_requests_to_debounce st \<noteq> []
      then if rp_state st = ST_REGISTERED
           then (rp_send_request_services (rp_requests_to_debounce st) st,
                 st\<lparr>rp_requests := fold (oset_insert service_key) (rp_requests_to_debounce st) (rp_requests st),
                    rp_requests_to_debounce := [], rp_request_debounce_timer_running := False\<rparr>)
           else ([Timer_start request_debounce_timer (int (pe_request_debouncing env))],
                 st\<lparr>rp_request_debounce_timer_running := True\<rparr>)
      else ([], st\<lparr>rp_request_debounce_timer_running := False\<rparr>))"

section \<open>Events\<close>

text \<open>The base registers the event as one that is neither a shadow nor a placeholder.\<close>

definition rp_register_event :: "proxy_env \<Rightarrow> u16 \<Rightarrow> u16 \<Rightarrow> u16 \<Rightarrow> u16 \<Rightarrow> u16 set \<Rightarrow> bool \<Rightarrow> int \<Rightarrow> bool
    \<Rightarrow> epsilon_change_func option \<Rightarrow> bool \<Rightarrow> routing_proxy \<Rightarrow> proxy_result" where
  "rp_register_event env c s i ev gs is_field cycle change_resets_cycle epsilon is_provided st =
     (let registration = \<lparr>evd_service = s, evd_instance = i, evd_event = ev, evd_is_field = is_field,
            evd_is_provided = is_provided, evd_eventgroups = gs\<rparr>
      in if event_key registration \<notin> event_key ` set (rp_pending_event_registrations st)
         then let st = st\<lparr>rp_pending_event_registrations :=
                     oset_insert event_key registration (rp_pending_event_registrations st)\<rparr>;
                  st = rb_register_event (pe_routing env) c s i ev gs is_field cycle change_resets_cycle epsilon
                     is_provided False False st
              in (if rp_state st = ST_REGISTERED then rp_send_register_event registration st else [], st)
         else ([], st))"

definition rp_unregister_event :: "proxy_env \<Rightarrow> u16 \<Rightarrow> u16 \<Rightarrow> u16 \<Rightarrow> u16 \<Rightarrow> bool \<Rightarrow> routing_proxy \<Rightarrow> proxy_result" where
  "rp_unregister_event env c s i ev is_provided st =
     (let st = rb_unregister_event (pe_routing env) c s i ev is_provided st
      in (if rp_state st = ST_REGISTERED
          then to_sender (command VSOMEIP_UNREGISTER_EVENT (rb_client st)
                 (le16 s @ le16 i @ le16 ev @ le_bool is_provided)) st else [],
          st\<lparr>rp_pending_event_registrations :=
            erase_first (\<lambda>d. evd_service d = s \<and> evd_instance d = i \<and> evd_event d = ev)
              (rp_pending_event_registrations st)\<rparr>))"

definition rp_is_field :: "u16 \<Rightarrow> u16 \<Rightarrow> u16 \<Rightarrow> routing_proxy \<Rightarrow> bool" where
  "rp_is_field s i ev st =
     (case rb_find_event s i ev st of Some r \<Rightarrow> ev_is_field (rb_event_objs st r) | None \<Rightarrow> False)"

definition rp_create_placeholder :: "proxy_env \<Rightarrow> u16 \<Rightarrow> u16 \<Rightarrow> u16 \<Rightarrow> u16 \<Rightarrow> u16
    \<Rightarrow> routing_proxy \<Rightarrow> bool \<times> routing_action list \<times> routing_proxy" where
  "rp_create_placeholder env s i g ev c st =
     (case rp_register_event env (env_host_client (pe_routing env)) s i ev {g} True 0 False None False st of
        (acts, st) \<Rightarrow>
          (case rb_find_event s i ev st of
             Some r \<Rightarrow> (case add_subscriber g c (rb_event_objs st r) of
                         (is_inserted, e) \<Rightarrow> (is_inserted, acts, put_event r e st))
           | None \<Rightarrow> (False, acts, st)))"

definition rp_cache_event_payload :: "proxy_env \<Rightarrow> message \<Rightarrow> routing_proxy \<Rightarrow> routing_proxy ub" where
  "rp_cache_event_payload env m st =
     (let s = get_service m; i = get_instance m; ev = get_method m;
          store = (\<lambda>r st. do { p \<leftarrow> msg_payload m; (_, e) \<leftarrow> set_payload_dont_notify p (rb_event_objs st r);
                             Some (put_event r e st) })
      in case rb_find_event s i ev st of
           Some r \<Rightarrow> if ev_is_field (rb_event_objs st r) then store r st else Some st
         | None \<Rightarrow>
             (let st = rb_register_event (pe_routing env) (env_host_client (pe_routing env)) s i ev {} True 0 False
                    None False False True st
              in case rb_find_event s i ev st of Some r \<Rightarrow> store r st | None \<Rightarrow> Some st))"

definition rp_on_stop_offer_service :: "u16 \<Rightarrow> u16 \<Rightarrow> routing_proxy \<Rightarrow> routing_proxy" where
  "rp_on_stop_offer_service s i st = on_events (unset_payload False) (events_of s i st) st"

section \<open>Sending messages\<close>

text \<open>
  The flag tells whether the bytes were handed to an endpoint, whose answer is the result of the
  code.  A size that includes the message type makes every access below it one inside the bytes.
\<close>

definition rp_is_client_known :: "u16 \<Rightarrow> routing_proxy \<Rightarrow> bool" where
  "rp_is_client_known c st \<longleftrightarrow> c \<in> rp_known_clients st"

definition rp_direct_target :: "u16 \<Rightarrow> routing_proxy \<Rightarrow> nat option \<times> routing_action list \<times> routing_proxy" where
  "rp_direct_target c st =
     (if c \<noteq> VSOMEIP_ROUTING_CLIENT \<and> rp_is_client_known c st
      then (case rb_find_or_create_local c st of (h, acts, st) \<Rightarrow> (Some h, acts, st))
      else (None, [], st))"

definition rp_send :: "u16 \<Rightarrow> byte list \<Rightarrow> u16 \<Rightarrow> bool \<Rightarrow> bool \<Rightarrow> bool
    \<Rightarrow> routing_proxy \<Rightarrow> (bool \<times> routing_action list \<times> routing_proxy) ub" where
  "rp_send c data i flush reliable is_valid_crc st =
     (if rp_state st \<noteq> ST_REGISTERED \<or> length data \<le> 14 then Some (False, [], st)
      else
        let message_type = data ! 14;
            word = (\<lambda>k. VSOMEIP_BYTES_TO_WORD (data ! k) (data ! (k + 1)));
            handed = (\<lambda>target cmd acts st.
              (True, acts @ [rb_send_local target (if cmd = VSOMEIP_NOTIFY_ONE then c else rb_client st) data i
                 flush reliable cmd is_valid_crc st], st));
            or_sender = (\<lambda>target cmd acts st.
              case target of Some h \<Rightarrow> handed h cmd acts st
              | None \<Rightarrow> (case rp_sender st of Some h \<Rightarrow> handed h cmd acts st | None \<Rightarrow> (False, acts, st)))
        in if is_request message_type
           then Some (case rp_direct_target (rb_find_local_client (word 0) i st) st of
                  (target, acts, st) \<Rightarrow> or_sender target VSOMEIP_SEND acts st)
           else if \<not> is_notification message_type
           then Some (case rp_direct_target (word 8) st of
                  (target, acts, st) \<Rightarrow> or_sender target VSOMEIP_SEND acts st)
           else if c = VSOMEIP_ROUTING_CLIENT
           then do {
             (has_remote_subscribers, acts) \<leftarrow>
               rb_send_local_notification (rb_client st) data i flush reliable is_valid_crc st;
             Some (if has_remote_subscribers then or_sender None VSOMEIP_NOTIFY acts st
                   else (False, acts, st)) }
           else Some (case rb_find_local c st of
                  Some h \<Rightarrow> handed h VSOMEIP_SEND [] st
                | None \<Rightarrow> or_sender None VSOMEIP_NOTIFY_ONE [] st))"

definition rp_send_message :: "u16 \<Rightarrow> message \<Rightarrow> bool \<Rightarrow> routing_proxy \<Rightarrow> (bool \<times> routing_action list \<times> routing_proxy) ub" where
  "rp_send_message c m flush st =
     (case rb_serialize c m (ser_init 0) of
        None \<Rightarrow> Some (False, [], st)
      | Some (data, i, reliable) \<Rightarrow> rp_send c data i flush reliable True st)"

text \<open>What the base asks the derived class to send is sent; \<^verbatim>\<open>send_to\<close> of the proxy does nothing.\<close>

fun rp_route :: "routing_action list \<Rightarrow> routing_proxy \<Rightarrow> proxy_result ub" where
  "rp_route [] st = Some ([], st)"
| "rp_route (a # acts) st = do {
     (now, st) \<leftarrow> (case a of
         Routing_send (Send c m flush) \<Rightarrow> map_option snd (rp_send_message c m flush st)
       | Routing_send (sent.Send_to _ _ _) \<Rightarrow> Some ([], st)
       | _ \<Rightarrow> Some ([a], st));
     (rest, st) \<leftarrow> rp_route acts st;
     Some (now @ rest, st) }"

definition rp_notify :: "u16 \<Rightarrow> u16 \<Rightarrow> u16 \<Rightarrow> payload \<Rightarrow> bool \<Rightarrow> bool \<Rightarrow> routing_proxy \<Rightarrow> proxy_result ub" where
  "rp_notify s i ev p force flush st = do { (acts, st) \<leftarrow> rb_notify s i ev p force flush st; rp_route acts st }"

definition rp_notify_one :: "proxy_env \<Rightarrow> u16 \<Rightarrow> u16 \<Rightarrow> u16 \<Rightarrow> payload \<Rightarrow> u16 \<Rightarrow> bool \<Rightarrow> bool
    \<Rightarrow> routing_proxy \<Rightarrow> proxy_result ub" where
  "rp_notify_one env s i ev p c force flush st = do {
     (acts, st) \<leftarrow> rb_notify_one (pe_routing env) s i ev p c force flush st; rp_route acts st }"

section \<open>Subscriptions\<close>

definition rp_subscribe :: "u16 \<Rightarrow> subscription_data \<Rightarrow> routing_proxy \<Rightarrow> proxy_result" where
  "rp_subscribe c d st = followed
     (if rp_state st = ST_REGISTERED \<and> rb_is_available (sd_service d) (sd_instance d) (sd_major d) st
      then rp_send_subscribe c d st else ([], st))
     (\<lambda>st. ([], st\<lparr>rb_pending_subscriptions := oset_insert subscription_key d (rb_pending_subscriptions st)\<rparr>))"

definition rp_unsubscribe :: "u16 \<Rightarrow> u16 \<Rightarrow> u16 \<Rightarrow> u16 \<Rightarrow> u16 \<Rightarrow> routing_proxy \<Rightarrow> proxy_result" where
  "rp_unsubscribe c s i g ev st =
     (let st = rb_remove_pending_subscription s i g ev st;
          its_command = command VSOMEIP_UNSUBSCRIBE c (le16 s @ le16 i @ le16 g @ le16 ev @ le16 DEFAULT_SUBSCRIPTION)
      in (if rp_state st = ST_REGISTERED
          then (case rb_find_local_of_service s i st of
                  Some h \<Rightarrow> [Endpoint_send h its_command]
                | None \<Rightarrow> to_sender its_command st)
          else [], st))"

definition rp_get_remote_subscriber_count :: "u16 \<Rightarrow> u16 \<Rightarrow> u16 \<Rightarrow> bool \<Rightarrow> routing_proxy \<Rightarrow> u32 \<times> routing_proxy" where
  "rp_get_remote_subscriber_count s i g increment st =
     (let store = (\<lambda>n. (n, st\<lparr>rp_remote_subscriber_count := put3 s i g n (rp_remote_subscriber_count st)\<rparr>))
      in case lookup3 (rp_remote_subscriber_count st) s i g of
           Some n \<Rightarrow> store (if increment then n + 1 else if n > 0 then n - 1 else n)
         | None \<Rightarrow> if increment then store 1 else (0, st))"

definition remote_notification :: "u16 \<Rightarrow> u16 \<Rightarrow> event \<Rightarrow> byte option \<Rightarrow> message" where
  "remote_notification s i e version =
     (let m = set_payload (event_get_payload e) (set_method (event_get_event e)
                (set_instance i (set_service s (create_notification False))))
      in case version of Some v \<Rightarrow> set_interface_version v m | None \<Rightarrow> m)"

definition rp_notify_remote_initially :: "proxy_env \<Rightarrow> u16 \<Rightarrow> u16 \<Rightarrow> u16 \<Rightarrow> u16 set \<Rightarrow> routing_proxy \<Rightarrow> proxy_result" where
  "rp_notify_remote_initially env s i g events_to_exclude st =
     (case rb_find_eventgroup (pe_routing env) s i g st of
        (None, st) \<Rightarrow> ([], st)
      | (Some its_eventgroup, st) \<Rightarrow>
          (concat (map (\<lambda>r.
              let e = rb_event_objs st r;
                  m = remote_notification s i e
                        (map_option (\<lambda>q. si_major (rb_infos st q)) (rb_find_service s i st))
              in if ev_is_field e \<and> ev_is_set e \<and> event_get_event e \<notin> events_to_exclude
                 then (case message_serialize m (ser_init 0) of
                         (ok, ser) \<Rightarrow>
                           (case rp_sender st of
                              Some h \<Rightarrow> if ok then [rb_send_local h VSOMEIP_ROUTING_CLIENT (ser_data ser) i
                                                True False VSOMEIP_NOTIFY True st] else []
                            | None \<Rightarrow> []))
                 else []) (sorted_list_of_set (egi_events its_eventgroup))), st))"

text \<open>The callbacks that answer the host's decision on a subscription.\<close>

definition rp_answer_remote :: "proxy_env \<Rightarrow> bool \<Rightarrow> u16 \<Rightarrow> u16 \<Rightarrow> u16 \<Rightarrow> u16 \<Rightarrow> u16 \<Rightarrow> u16
    \<Rightarrow> routing_proxy \<Rightarrow> proxy_result" where
  "rp_answer_remote env accepted c s i g ev subscription_id st =
     (let answer = (if accepted then rp_send_subscribe_ack else rp_send_subscribe_nack) c s i g ev subscription_id st
      in case rb_insert_subscription (pe_routing env) (rp_create_placeholder env) s i g ev VSOMEIP_ROUTING_CLIENT st of
           (inserted, already, acts, st) \<Rightarrow>
             followed (followed (answer @ acts, st)
               (\<lambda>st. if inserted then rp_notify_remote_initially env s i g already st else ([], st)))
               (\<lambda>st. ([], snd (rp_get_remote_subscriber_count s i g True st))))"

definition rp_base_subscribe :: "proxy_env \<Rightarrow> u16 \<Rightarrow> u16 \<Rightarrow> u16 \<Rightarrow> u16 \<Rightarrow> u16 \<Rightarrow> routing_proxy \<Rightarrow> proxy_result ub" where
  "rp_base_subscribe env c s i g ev st =
     (case rb_subscribe (pe_routing env) (rp_create_placeholder env) c s i g ev st of
        (acts, st) \<Rightarrow> rp_route acts st)"

definition rp_pending_notify_ones :: "proxy_env \<Rightarrow> u16 \<Rightarrow> u16 \<Rightarrow> u16 \<Rightarrow> u16 \<Rightarrow> routing_proxy \<Rightarrow> proxy_result ub" where
  "rp_pending_notify_ones env s i g c st = do {
     (acts, st) \<leftarrow> rb_send_pending_notify_ones (pe_routing env) s i g c st; rp_route acts st }"

definition rp_answer_local :: "proxy_env \<Rightarrow> bool \<Rightarrow> u16 \<Rightarrow> u16 \<Rightarrow> u16 \<Rightarrow> u16 \<Rightarrow> u16
    \<Rightarrow> routing_proxy \<Rightarrow> proxy_result ub" where
  "rp_answer_local env accepted c s i g ev st =
     (if \<not> accepted then Some (rp_send_subscribe_nack c s i g ev DEFAULT_SUBSCRIPTION st, st)
      else do {
        let ack = rp_send_subscribe_ack c s i g ev DEFAULT_SUBSCRIPTION st;
        (acts, st) \<leftarrow> rp_base_subscribe env c s i g ev st;
        (acts', st) \<leftarrow> rp_pending_notify_ones env s i g c st;
        Some (ack @ acts @ acts', st) })"

definition rp_answer_pending :: "proxy_env \<Rightarrow> bool \<Rightarrow> u16 \<Rightarrow> u16 \<Rightarrow> u16 \<Rightarrow> u16 \<Rightarrow> u16
    \<Rightarrow> routing_proxy \<Rightarrow> proxy_result ub" where
  "rp_answer_pending env accepted c s i g ev st = do {
     (acts, st) \<leftarrow>
       (if \<not> accepted then Some (rp_send_subscribe_nack c s i g ev DEFAULT_SUBSCRIPTION st, st)
        else do {
          (acts, st) \<leftarrow> rp_base_subscribe env c s i g ev st;
          let ack = rp_send_subscribe_ack c s i g ev DEFAULT_SUBSCRIPTION st;
          (acts', st) \<leftarrow> rp_pending_notify_ones env s i g c st;
          Some (acts @ ack @ acts', st) });
     Some (acts, st\<lparr>rp_pending_incoming_subscriptions := (rp_pending_incoming_subscriptions st)(c := None)\<rparr>) }"

definition rp_on_subscribe_answer :: "byte \<Rightarrow> proxy_env \<Rightarrow> u16 \<Rightarrow> u16 \<Rightarrow> u16 \<Rightarrow> u16 \<Rightarrow> routing_proxy \<Rightarrow> proxy_result" where
  "rp_on_subscribe_answer error env s i g ev st =
     (let report = (\<lambda>ev. [Host_on_subscription_error s i g error, Host_on_subscription_status s i g ev error])
      in if ev = ANY_EVENT
         then (case rb_find_eventgroup (pe_routing env) s i g st of
                 (None, st) \<Rightarrow> ([], st)
               | (Some x, st) \<Rightarrow>
                   (concat (map (\<lambda>r. report (event_get_event (rb_event_objs st r)))
                     (sorted_list_of_set (egi_events x))), st))
         else (report ev, st))"

definition rp_on_subscribe_ack :: "proxy_env \<Rightarrow> u16 \<Rightarrow> u16 \<Rightarrow> u16 \<Rightarrow> u16 \<Rightarrow> routing_proxy \<Rightarrow> proxy_result" where
  "rp_on_subscribe_ack = rp_on_subscribe_answer 0"

definition rp_on_subscribe_nack :: "proxy_env \<Rightarrow> u16 \<Rightarrow> u16 \<Rightarrow> u16 \<Rightarrow> u16 \<Rightarrow> routing_proxy \<Rightarrow> proxy_result" where
  "rp_on_subscribe_nack = rp_on_subscribe_answer 7"

end
