(* ===== verification/Proxy_Receive.thy ===== *)
theory Proxy_Receive
  imports Routing_Proxy
begin

text \<open>
  What \<^verbatim>\<open>routing_manager_proxy\<close> does with the commands it receives: messages of other applications,
  subscriptions, and the routing information of the stub with the clients and services that came and
  went.  Positions in the received bytes are computed in 32 bits as in the code; a read behind the
  bytes received is \<open>None\<close>.
\<close>

section \<open>Routing information\<close>

definition add32 :: "nat \<Rightarrow> nat \<Rightarrow> nat" where
  "add32 a b = (a + b) mod 2 ^ 32"

definition rp_client_added :: "u16 \<Rightarrow> routing_proxy \<Rightarrow> proxy_result" where
  "rp_client_added c st =
     (let st = st\<lparr>rp_known_clients := insert c (rp_known_clients st)\<rparr>
      in if c = rb_client st
         then ([Host_on_state True, Timer_cancel register_application_timer] @ rp_send_registered_ack st
                 @ rp_send_pending_commands st, st\<lparr>rp_state := ST_REGISTERED\<rparr>)
         else ([], st))"

definition rp_client_removed :: "proxy_env \<Rightarrow> u16 \<Rightarrow> routing_proxy \<Rightarrow> proxy_result" where
  "rp_client_removed env c st =
     (let st = st\<lparr>rp_known_clients := rp_known_clients st - {c}\<rparr>
      in if c = rb_client st then ([Host_on_state False], st\<lparr>rp_state := ST_DEREGISTERED\<rparr>)
         else if c \<noteq> VSOMEIP_ROUTING_CLIENT then rp_remove_local env c st
         else ([], st))"

definition rp_pending_subscriptions :: "u16 \<Rightarrow> u16 \<Rightarrow> byte \<Rightarrow> routing_proxy \<Rightarrow> proxy_result" where
  "rp_pending_subscriptions s i major st =
     each (rp_send_subscribe (rb_client st)) (rb_send_pending_subscriptions s i major st) st"

definition rp_service_added :: "u16 \<Rightarrow> u16 \<Rightarrow> u16 \<Rightarrow> byte \<Rightarrow> u32 \<Rightarrow> routing_proxy \<Rightarrow> proxy_result" where
  "rp_service_added c s i major minor st =
     (let st = st\<lparr>rp_known_clients := insert c (rp_known_clients st),
                 rb_local_services := put2 s i (major, minor, c) (rb_local_services st)\<rparr>
      in followed (rp_pending_subscriptions s i major st)
           (\<lambda>st. ([Host_on_availability s i True major minor], st)))"

definition rp_service_removed :: "u16 \<Rightarrow> u16 \<Rightarrow> byte \<Rightarrow> u32 \<Rightarrow> routing_proxy \<Rightarrow> proxy_result" where
  "rp_service_removed s i major minor st =
     (let st = st\<lparr>rb_local_services := prune2 s i (rb_local_services st)\<rparr>
      in ([Host_on_availability s i False major minor], rp_on_stop_offer_service s i st))"

definition rp_routing_service :: "u32 \<Rightarrow> u16 \<Rightarrow> u16 \<Rightarrow> u16 \<Rightarrow> byte \<Rightarrow> u32 \<Rightarrow> routing_proxy \<Rightarrow> proxy_result" where
  "rp_routing_service entry c s i major minor st =
     (if entry = RIE_ADD_SERVICE_INSTANCE then rp_service_added c s i major minor st
      else if entry = RIE_DEL_SERVICE_INSTANCE then rp_service_removed s i major minor st
      else ([], st))"

definition rp_routing_client :: "proxy_env \<Rightarrow> u32 \<Rightarrow> u16 \<Rightarrow> routing_proxy \<Rightarrow> proxy_result" where
  "rp_routing_client env entry c st =
     (if entry = RIE_ADD_CLIENT then rp_client_added c st
      else if entry = RIE_DEL_CLIENT then rp_client_removed env c st
      else ([], st))"

text \<open>The instances of one service, then the services of one client, then the entries.\<close>

function rp_routing_instances :: "u32 \<Rightarrow> u16 \<Rightarrow> u16 \<Rightarrow> byte list \<Rightarrow> nat \<Rightarrow> nat \<Rightarrow> nat
    \<Rightarrow> routing_proxy \<Rightarrow> (routing_action list \<times> nat \<times> routing_proxy) ub" where
  "rp_routing_instances entry c s data i j its_services_size st =
     (if its_services_size < 7 then Some ([], j, st)
      else do {
        its_instance \<leftarrow> mem16 data (add32 i j);
        its_major \<leftarrow> vec_get data (add32 i (add32 j 2));
        its_minor \<leftarrow> mem32 data (add32 i (add32 j 3));
        let (acts, st) = rp_routing_service entry c s its_instance its_major its_minor st;
        (acts', j, st) \<leftarrow> rp_routing_instances entry c s data i (add32 j 7) (its_services_size - 7) st;
        Some (acts @ acts', j, st) })"
  by pat_completeness auto
termination by (relation "measure (\<lambda>(_, _, _, _, _, _, n, _). n)") auto

declare rp_routing_instances.simps [simp del]

partial_function (option) rp_routing_services :: "u32 \<Rightarrow> u16 \<Rightarrow> byte list \<Rightarrow> nat \<Rightarrow> nat \<Rightarrow> nat
    \<Rightarrow> routing_proxy \<Rightarrow> (routing_action list \<times> nat \<times> routing_proxy) ub" where
  "rp_routing_services entry c data i its_client_size j st =
     (if j + 4 \<le> its_client_size
      then Option.bind (mem32 data (add32 i j)) (\<lambda>its_services_size.
        Option.bind
          (if 9 \<le> unat its_services_size
           then Option.bind (mem16 data (add32 i (add32 j 4))) (\<lambda>its_service.
             rp_routing_instances entry c its_service data i (add32 j 6) (unat its_services_size - 2) st)
           else Some ([], add32 j 4, st))
          (\<lambda>r. Option.bind (rp_routing_services entry c data i its_client_size (fst (snd r)) (snd (snd r)))
             (\<lambda>q. Some (fst r @ fst q, snd q))))
      else Some ([], j, st))"

text \<open>The flag tells whether all entries were processed; a bad length ends the processing.\<close>

partial_function (option) rp_routing_entries :: "proxy_env \<Rightarrow> byte list \<Rightarrow> nat \<Rightarrow> nat
    \<Rightarrow> routing_proxy \<Rightarrow> (bool \<times> routing_action list \<times> routing_proxy) ub" where
  "rp_routing_entries env data sz i st =
     (if i + 8 \<le> sz
      then Option.bind (mem32 data i) (\<lambda>entry. Option.bind (mem32 data (i + 4)) (\<lambda>its_client_size.
        if sz < add32 (unat its_client_size) (i + 8) then Some (False, [], st)
        else if i + 10 \<le> sz
        then Option.bind (mem16 data (i + 8)) (\<lambda>c.
          Option.bind (rp_routing_services entry c data (i + 10) (unat its_client_size) 0
              (snd (rp_routing_client env entry c st)))
            (\<lambda>r. Option.bind (rp_routing_entries env data sz (add32 (i + 10) (fst (snd r))) (snd (snd r)))
              (\<lambda>q. Some (fst q, fst (rp_routing_client env entry c st) @ fst r @ fst (snd q), snd (snd q)))))
        else rp_routing_entries env data sz (i + 8) st))
      else Some (True, [], st))"

definition rp_ask_pending :: "u16 \<times> subscription_data \<Rightarrow> routing_proxy \<Rightarrow> proxy_result" where
  "rp_ask_pending = (\<lambda>(c, d) st. case rb_find_or_create_local c st of
     (h, acts, st) \<Rightarrow>
       (acts @ [Host_on_subscription (sd_service d) (sd_instance d) (sd_eventgroup d) c True], st))"

definition rp_pending_incoming :: "proxy_env \<Rightarrow> routing_proxy \<Rightarrow> (u16 \<times> subscription_data) list" where
  "rp_pending_incoming env st =
     rev (concat (map (\<lambda>c. case rp_pending_incoming_subscriptions st c of
         Some ds \<Rightarrow> map (Pair c) ds | None \<Rightarrow> []) (pe_hash_order env (rp_known_clients st))))"

definition rp_on_routing_info :: "proxy_env \<Rightarrow> byte list \<Rightarrow> nat \<Rightarrow> routing_proxy \<Rightarrow> proxy_result ub" where
  "rp_on_routing_info env data sz st = do {
     (complete, acts, st) \<leftarrow> rp_routing_entries env data sz 0 st;
     Some (if complete then followed (acts, st) (\<lambda>st. each rp_ask_pending (rp_pending_incoming env st) st)
           else (acts, st)) }"

partial_function (option) rp_offered_services :: "byte list \<Rightarrow> nat \<Rightarrow> nat \<Rightarrow> (u16 \<times> u16) list
    \<Rightarrow> (u16 \<times> u16) list option ub" where
  "rp_offered_services data sz i found =
     (if i + 8 \<le> sz
      then Option.bind (mem32 data i) (\<lambda>entry. Option.bind (mem32 data (i + 4)) (\<lambda>its_size.
        if sz < add32 (unat its_size) (i + 8) then Some None
        else if 9 \<le> unat its_size
        then Option.bind (mem16 data (i + 8)) (\<lambda>s. Option.bind (mem16 data (i + 10)) (\<lambda>k.
          Option.bind (vec_get data (i + 12)) (\<lambda>major. Option.bind (mem32 data (i + 13)) (\<lambda>minor.
            rp_offered_services data sz (add32 i 17) (found @ [(s, k)])))))
        else rp_offered_services data sz (i + 8) found))
      else Some (Some found))"

definition rp_on_offered_services_info :: "byte list \<Rightarrow> nat \<Rightarrow> routing_action list ub" where
  "rp_on_offered_services_info data sz =
     map_option (\<lambda>r. case r of Some found \<Rightarrow> [Host_on_offered_services found] | None \<Rightarrow> [])
       (rp_offered_services data sz 0 [])"

section \<open>Commands\<close>

definition rp_allowed :: "proxy_env \<Rightarrow> message \<Rightarrow> routing_proxy \<Rightarrow> bool" where
  "rp_allowed env m st = pe_client_allowed env
     (if is_notification (get_message_type m) \<or> \<not> is_request (get_message_type m) then rb_client st
      else get_client m) (get_service m) (get_instance m)"

definition rp_on_send_command :: "proxy_env \<Rightarrow> byte list \<Rightarrow> u32 \<Rightarrow> routing_proxy \<Rightarrow> proxy_result ub" where
  "rp_on_send_command env data its_length st = do {
     its_instance \<leftarrow> mem16 data (length data - 5);
     its_reliable \<leftarrow> mem_bool data (length data - 2);
     its_is_valid_crc \<leftarrow> mem_bool data (length data - 1);
     bytes \<leftarrow> copy_of data 7 (unat (its_length - 5));
     (its_message, _) \<leftarrow> deserialize_message (des_init_data bytes 0);
     (case its_message of
        None \<Rightarrow> Some ([], st)
      | Some m \<Rightarrow>
          (let m = set_is_valid_crc its_is_valid_crc (set_reliable its_reliable (set_instance its_instance m))
           in if \<not> rp_allowed env m st then Some ([], st)
              else do {
                st \<leftarrow> (if is_notification (get_message_type m) then rp_cache_event_payload env m st else Some st);
                Some ([Host_on_message m], st) })) }"

definition rp_on_subscribe_command :: "proxy_env \<Rightarrow> byte list \<Rightarrow> u16 \<Rightarrow> routing_proxy \<Rightarrow> proxy_result ub" where
  "rp_on_subscribe_command env data c st =
     (if length data \<noteq> 19 then Some ([], st)
      else do {
        s \<leftarrow> mem16 data 7; i \<leftarrow> mem16 data 9; g \<leftarrow> mem16 data 11; major \<leftarrow> vec_get data 13;
        ev \<leftarrow> mem16 data 14; its_subscription_id \<leftarrow> mem16 data 17;
        Some (if its_subscription_id \<noteq> DEFAULT_SUBSCRIPTION then ([Host_on_subscription s i g c True], st)
              else if rp_is_client_known c st
              then if \<not> pe_client_allowed env c s i then ([], st)
                   else (case rb_find_or_create_local c st of
                           (h, acts, st) \<Rightarrow> (acts @ [Host_on_subscription s i g c True], st))
              else ([], st\<lparr>rp_pending_incoming_subscriptions := (rp_pending_incoming_subscriptions st)
                (c \<mapsto> oset_insert subscription_key \<lparr>sd_service = s, sd_instance = i, sd_eventgroup = g,
                   sd_major = major, sd_event = ev, sd_subscription_type = SU_RELIABLE_AND_UNRELIABLE\<rparr>
                   (case rp_pending_incoming_subscriptions st c of Some ds \<Rightarrow> ds | None \<Rightarrow> []))\<rparr>)) })"

definition rp_withdraw_remote :: "proxy_env \<Rightarrow> u16 \<Rightarrow> u16 \<Rightarrow> u16 \<Rightarrow> u16 \<Rightarrow> u16 \<Rightarrow> routing_proxy \<Rightarrow> proxy_result" where
  "rp_withdraw_remote env s i g ev subscription_id st =
     (let (count, st) = rp_get_remote_subscriber_count s i g False st;
          st = (if count = 0 then rb_unsubscribe (pe_routing env) VSOMEIP_ROUTING_CLIENT s i g ev st else st)
      in (rp_send_unsubscribe_ack s i g subscription_id st, st))"

definition rp_on_unsubscribe_command :: "proxy_env \<Rightarrow> byte list \<Rightarrow> u16 \<Rightarrow> routing_proxy \<Rightarrow> proxy_result ub" where
  "rp_on_unsubscribe_command env data c st =
     (if length data \<noteq> 17 then Some ([], st)
      else do {
        s \<leftarrow> mem16 data 7; i \<leftarrow> mem16 data 9; g \<leftarrow> mem16 data 11; ev \<leftarrow> mem16 data 13;
        its_subscription_id \<leftarrow> mem16 data 15;
        Some (followed ([Host_on_subscription s i g c False], st)
          (\<lambda>st. if its_subscription_id = DEFAULT_SUBSCRIPTION
                then ([], rb_unsubscribe (pe_routing env) c s i g ev st)
                else rp_withdraw_remote env s i g ev its_subscription_id st)) })"

definition rp_on_subscribe_answer_command ::
  "(proxy_env \<Rightarrow> u16 \<Rightarrow> u16 \<Rightarrow> u16 \<Rightarrow> u16 \<Rightarrow> routing_proxy \<Rightarrow> proxy_result) \<Rightarrow> proxy_env \<Rightarrow> byte list
    \<Rightarrow> routing_proxy \<Rightarrow> proxy_result ub" where
  "rp_on_subscribe_answer_command report env data st =
     (if length data \<noteq> 19 then Some ([], st)
      else do {
        s \<leftarrow> mem16 data 7; i \<leftarrow> mem16 data 9; g \<leftarrow> mem16 data 11; subscriber \<leftarrow> mem16 data 13;
        ev \<leftarrow> mem16 data 15;
        Some (report env s i g ev st) })"

definition rp_on_id_request :: "byte list \<Rightarrow> routing_proxy \<Rightarrow> proxy_result ub" where
  "rp_on_id_request data st =
     (if length data < 13 then Some ([], st)
      else do {
        s \<leftarrow> mem16 data 7; i \<leftarrow> mem16 data 9; major \<leftarrow> vec_get data 11; reliable \<leftarrow> mem_bool data 12;
        Some (rb_send_identify_request s i major reliable st, st) })"

definition rp_on_message :: "proxy_env \<Rightarrow> byte list \<Rightarrow> u16 \<Rightarrow> routing_proxy \<Rightarrow> proxy_result ub" where
  "rp_on_message env data bound_client st =
     (if length data \<le> VSOMEIP_COMMAND_SIZE_POS_MAX then Some ([], st)
      else do {
        cmd \<leftarrow> vec_get data 0; c \<leftarrow> mem16 data 1; its_length \<leftarrow> mem32 data 3;
        let from_host = (\<not> pe_security_enabled env \<or> bound_client = pe_routing_host_id env);
        if \<not> from_host \<and> bound_client \<noteq> c then Some ([], st)
        else if cmd = VSOMEIP_SEND then rp_on_send_command env data its_length st
        else if cmd = VSOMEIP_ROUTING_INFO
        then if from_host then rp_on_routing_info env (drop 7 data) (unat its_length) st else Some ([], st)
        else if cmd = VSOMEIP_PING then Some (rp_send_pong st, st)
        else if cmd = VSOMEIP_SUBSCRIBE then rp_on_subscribe_command env data c st
        else if cmd = VSOMEIP_UNSUBSCRIBE then rp_on_unsubscribe_command env data c st
        else if cmd = VSOMEIP_SUBSCRIBE_NACK then rp_on_subscribe_answer_command rp_on_subscribe_nack env data st
        else if cmd = VSOMEIP_SUBSCRIBE_ACK then rp_on_subscribe_answer_command rp_on_subscribe_ack env data st
        else if cmd = VSOMEIP_ID_REQUEST then rp_on_id_request data st
        else if cmd = VSOMEIP_OFFERED_SERVICES_RESPONSE
        then if from_host
             then map_option (\<lambda>acts. (acts, st)) (rp_on_offered_services_info (drop 7 data) (unat its_length))
             else Some ([], st)
        else Some ([], st) })"

end
