(* ===== verification/Routing_Stub.thy ===== *)
theory Routing_Stub
  imports Routing_Base Steps
begin

text \<open>
  The side of the routing manager that talks to the applications of the device
  (\<^verbatim>\<open>routing/src/routing_manager_stub.cpp\<close>): it takes their commands and hands them to its host
  \<^verbatim>\<open>routing_manager_impl\<close>, registers and deregisters applications, tells every application which
  of the services it requested came and went and which clients it has to know, and watches that the
  applications still answer.

  The calls of the host are actions.  The table of local endpoints is the host's; the part of it the stub
  looks at is kept with the state of the stub.  The configuration, the sockets found at the start and the
  time of the steady clock (in nanoseconds) are arguments; a registration thread that runs over the
  pending registrations is the processing of one batch of them.
\<close>

section \<open>State\<close>

datatype registration_type = REGISTER | DEREGISTER | DEREGISTER_ON_ERROR

type_synonym versions = "(u16, u16, byte \<times> u32) map2"

record stub_env =
  se_client :: u16
  se_security_enabled :: bool
  se_routing_host_id :: u16
  se_client_allowed :: "u16 \<Rightarrow> u16 \<Rightarrow> u16 \<Rightarrow> bool"
  se_offer_allowed :: "u16 \<Rightarrow> u16 \<Rightarrow> u16 \<Rightarrow> bool"
  se_offered_remote :: "u16 \<Rightarrow> u16 \<Rightarrow> bool"
  se_reliable_port :: "u16 \<Rightarrow> u16 \<Rightarrow> u16"
  se_unreliable_port :: "u16 \<Rightarrow> u16 \<Rightarrow> u16"
  se_max_message_size_local :: nat
  se_watchdog_enabled :: bool
  se_watchdog_timeout :: int
  se_allowed_missing_pongs :: nat
  se_credentials :: bool
  se_listen_fds :: nat
  se_endpoint_created :: bool

record routing_stub =
  rs_routing_info :: "u16 \<rightharpoonup> byte \<times> versions"
  rs_endpoint :: bool
  rs_local_receiver :: bool
  rs_is_socket_activated :: bool
  rs_client_registration_running :: bool
  rs_used_client_ids :: "u16 set"
  rs_pending_client_registrations :: "u16 \<rightharpoonup> registration_type list"
  rs_pinged_clients :: "u16 \<rightharpoonup> int"
  rs_service_requests :: "u16 \<rightharpoonup> versions"
  rs_connection_matrix :: "u16 \<Rightarrow> u16 set"
  rs_client_routing_info :: "u16 \<rightharpoonup> byte list"
  rs_offered_services_info :: "u16 \<rightharpoonup> byte list"
  rs_local_endpoints :: "u16 \<rightharpoonup> nat"
  rs_next_endpoint :: nat

datatype (plugins only: code size) stub_action =
    Stub_send nat "byte list"
  | Stub_offer_service u16 u16 u16 byte u32
  | Stub_stop_offer_service u16 u16 u16 byte u32
  | Stub_request_service u16 u16 u16 byte u32 bool
  | Stub_release_service u16 u16 u16
  | Stub_subscribe u16 subscription_data
  | Stub_unsubscribe u16 u16 u16 u16 u16
  | Stub_on_subscribe_ack u16 u16 u16 u16 u16 u16
  | Stub_on_subscribe_nack u16 u16 u16 u16 u16 u16
  | Stub_on_unsubscribe_ack u16 u16 u16 u16 u16
  | Stub_on_message u16 u16 "byte list" bool bool
  | Stub_on_notification u16 u16 u16 "byte list" bool
  | Stub_register_shadow_event u16 u16 u16 u16 "u16 set" bool bool
  | Stub_unregister_shadow_event u16 u16 u16 u16 bool
  | Stub_on_identify_response u16 u16 u16 bool
  | Stub_on_pong u16
  | Stub_on_availability u16 u16 bool byte u32
  | Stub_on_stop_offer_service u16 u16 u16 byte u32
  | Stub_create_local u16
  | Stub_remove_local u16
  | Stub_handle_client_error u16
  | Stub_release_client_id u16
  | Stub_clear_error_handler nat
  | Stub_set_connected nat
  | Stub_endpoint_start
  | Stub_endpoint_stop
  | Stub_receiver_start
  | Stub_receiver_stop
  | Stub_timer_start nat int
  | Stub_timer_cancel nat

type_synonym stub_result = "stub_action list \<times> routing_stub"

definition ANY_SERVICE :: u16 where [simp]: "ANY_SERVICE = 0xFFFF"
definition OT_LOCAL :: byte where [simp]: "OT_LOCAL = 0"
definition OT_REMOTE :: byte where [simp]: "OT_REMOTE = 1"
definition OT_ALL :: byte where [simp]: "OT_ALL = 2"
definition VSOMEIP_MAX_LOCAL_MESSAGE_SIZE :: nat where [simp]: "VSOMEIP_MAX_LOCAL_MESSAGE_SIZE = 0"
definition max_connect_timeout :: int where [simp]: "max_connect_timeout = 1600"
definition client_id_timer :: nat where [simp]: "client_id_timer = 0"
definition watchdog_timer :: nat where [simp]: "watchdog_timer = 1"
definition pinged_clients_timer :: nat where [simp]: "pinged_clients_timer = 2"

definition rs_create :: routing_stub where
  "rs_create = \<lparr>rs_routing_info = Map.empty, rs_endpoint = False, rs_local_receiver = False,
     rs_is_socket_activated = False, rs_client_registration_running = False, rs_used_client_ids = {},
     rs_pending_client_registrations = Map.empty, rs_pinged_clients = Map.empty, rs_service_requests = Map.empty,
     rs_connection_matrix = (\<lambda>_. {}), rs_client_routing_info = Map.empty, rs_offered_services_info = Map.empty,
     rs_local_endpoints = Map.empty, rs_next_endpoint = 0\<rparr>"

definition keys_of :: "(u16 \<rightharpoonup> 'v) \<Rightarrow> u16 list" where
  "keys_of m = sorted_list_of_set (dom m)"

definition versions_of :: "versions \<Rightarrow> (u16 \<times> u16 \<times> byte \<times> u32) list" where
  "versions_of vs = concat (map (\<lambda>s. case vs s of
       None \<Rightarrow> [] | Some m \<Rightarrow> map (\<lambda>i. (s, i, the (m i))) (keys_of m)) (keys_of vs))"

section \<open>Routing information\<close>

definition rs_create_client_routing_info :: "stub_env \<Rightarrow> u16 \<Rightarrow> routing_stub \<Rightarrow> routing_stub" where
  "rs_create_client_routing_info env target st = st\<lparr>rs_client_routing_info := (rs_client_routing_info st)
     (target \<mapsto> VSOMEIP_ROUTING_INFO # le16 (se_client env) @ [0, 0, 0, 0])\<rparr>"

definition rs_create_offered_services_info :: "stub_env \<Rightarrow> u16 \<Rightarrow> routing_stub \<Rightarrow> routing_stub" where
  "rs_create_offered_services_info env target st = st\<lparr>rs_offered_services_info := (rs_offered_services_info st)
     (target \<mapsto> VSOMEIP_OFFERED_SERVICES_RESPONSE # le16 (se_client env) @ [0, 0, 0, 0])\<rparr>"

definition service_entry :: "u16 \<Rightarrow> u16 \<Rightarrow> byte \<Rightarrow> u32 \<Rightarrow> byte list" where
  "service_entry s i major minor = le32 9 @ le16 s @ le16 i @ [major] @ le32 minor"

definition routing_info_entry :: "u32 \<Rightarrow> u16 \<Rightarrow> u16 \<Rightarrow> u16 \<Rightarrow> byte \<Rightarrow> u32 \<Rightarrow> byte list" where
  "routing_info_entry entry c s i major minor =
     (let body = le16 c @ (if entry = RIE_ADD_SERVICE_INSTANCE \<or> entry = RIE_DEL_SERVICE_INSTANCE
                           then service_entry s i major minor else [])
      in le32 entry @ le32 (of_nat (length body)) @ body)"

definition rs_insert_client_routing_info :: "u16 \<Rightarrow> u32 \<Rightarrow> u16 \<Rightarrow> u16 \<Rightarrow> u16 \<Rightarrow> byte \<Rightarrow> u32
    \<Rightarrow> routing_stub \<Rightarrow> routing_stub" where
  "rs_insert_client_routing_info target entry c s i major minor st =
     (case rs_client_routing_info st target of
        None \<Rightarrow> st
      | Some its_command \<Rightarrow>
          st\<lparr>rs_connection_matrix := (rs_connection_matrix st)(target := insert c (rs_connection_matrix st target)),
             rs_client_routing_info := (rs_client_routing_info st)
               (target \<mapsto> its_command @ routing_info_entry entry c s i major minor)\<rparr>)"

definition rs_insert_client :: "u16 \<Rightarrow> u32 \<Rightarrow> u16 \<Rightarrow> routing_stub \<Rightarrow> routing_stub" where
  "rs_insert_client target entry c =
     rs_insert_client_routing_info target entry c ANY_SERVICE ANY_INSTANCE ANY_MAJOR ANY_MINOR"

definition rs_insert_offered_services_info :: "u16 \<Rightarrow> u32 \<Rightarrow> u16 \<Rightarrow> u16 \<Rightarrow> byte \<Rightarrow> u32
    \<Rightarrow> routing_stub \<Rightarrow> routing_stub" where
  "rs_insert_offered_services_info target entry s i major minor st =
     (case rs_offered_services_info st target of
        None \<Rightarrow> st
      | Some its_command \<Rightarrow>
          st\<lparr>rs_offered_services_info := (rs_offered_services_info st)
            (target \<mapsto> its_command @ le32 entry @ service_entry s i major minor)\<rparr>)"

definition with_size :: "byte list \<Rightarrow> byte list" where
  "with_size cmd = take 3 cmd @ le32 (of_nat (length cmd - 7)) @ drop 7 cmd"

definition sendable :: "stub_env \<Rightarrow> byte list \<Rightarrow> bool" where
  "sendable env cmd \<longleftrightarrow> length cmd \<le> se_max_message_size_local env \<or> VSOMEIP_MAX_LOCAL_MESSAGE_SIZE = 0"

definition rs_send_client_routing_info :: "stub_env \<Rightarrow> u16 \<Rightarrow> routing_stub \<Rightarrow> stub_result" where
  "rs_send_client_routing_info env target st =
     (case (rs_client_routing_info st target, rs_local_endpoints st target) of
        (Some its_command, Some h) \<Rightarrow>
          (if sendable env its_command then [Stub_send h (with_size its_command)] else [],
           st\<lparr>rs_client_routing_info := (rs_client_routing_info st)(target := None)\<rparr>)
      | _ \<Rightarrow> ([], st))"

definition rs_send_offered_services_info :: "stub_env \<Rightarrow> u16 \<Rightarrow> routing_stub \<Rightarrow> stub_result" where
  "rs_send_offered_services_info env target st =
     (case (rs_offered_services_info st target, rs_local_endpoints st target) of
        (Some its_command, Some h) \<Rightarrow>
          (if sendable env its_command then [Stub_send h (with_size its_command)] else [],
           st\<lparr>rs_offered_services_info := (rs_offered_services_info st)(target := None)\<rparr>)
      | _ \<Rightarrow> ([], st))"

text \<open>A message with one entry.\<close>

definition rs_tell :: "stub_env \<Rightarrow> u16 \<Rightarrow> u32 \<Rightarrow> u16 \<Rightarrow> u16 \<Rightarrow> u16 \<Rightarrow> byte \<Rightarrow> u32 \<Rightarrow> routing_stub \<Rightarrow> stub_result" where
  "rs_tell env target entry c s i major minor st =
     rs_send_client_routing_info env target
       (rs_insert_client_routing_info target entry c s i major minor (rs_create_client_routing_info env target st))"

definition rs_tell_client :: "stub_env \<Rightarrow> u16 \<Rightarrow> u32 \<Rightarrow> u16 \<Rightarrow> routing_stub \<Rightarrow> stub_result" where
  "rs_tell_client env target entry c = rs_tell env target entry c ANY_SERVICE ANY_INSTANCE ANY_MAJOR ANY_MINOR"

definition rs_is_already_connected :: "u16 \<Rightarrow> u16 \<Rightarrow> routing_stub \<Rightarrow> bool" where
  "rs_is_already_connected source sink st \<longleftrightarrow> sink \<in> rs_connection_matrix st source"

definition is_application :: "stub_env \<Rightarrow> u16 \<Rightarrow> bool" where
  "is_application env c \<longleftrightarrow> c \<noteq> VSOMEIP_ROUTING_CLIENT \<and> c \<noteq> se_client env"

definition requests_instance :: "u16 \<Rightarrow> u16 \<Rightarrow> versions \<Rightarrow> bool" where
  "requests_instance s i vs \<longleftrightarrow> (case vs s of None \<Rightarrow> False | Some m \<Rightarrow> ANY_INSTANCE \<in> dom m \<or> i \<in> dom m)"

definition rs_inform_requester :: "stub_env \<Rightarrow> u16 \<Rightarrow> u16 \<Rightarrow> u16 \<Rightarrow> byte \<Rightarrow> u32 \<Rightarrow> u32 \<Rightarrow> bool \<Rightarrow> u16
    \<Rightarrow> routing_stub \<Rightarrow> stub_result" where
  "rs_inform_requester env hoster s i major minor entry inform_service c st = followed
     (if inform_service \<and> is_application env hoster \<and> \<not> rs_is_already_connected hoster c st
      then rs_tell_client env hoster RIE_ADD_CLIENT c st else ([], st))
     (\<lambda>st. if is_application env c then rs_tell env c entry hoster s i major minor st else ([], st))"

definition rs_inform_requesters :: "stub_env \<Rightarrow> u16 \<Rightarrow> u16 \<Rightarrow> u16 \<Rightarrow> byte \<Rightarrow> u32 \<Rightarrow> u32 \<Rightarrow> bool
    \<Rightarrow> routing_stub \<Rightarrow> stub_result" where
  "rs_inform_requesters env hoster s i major minor entry inform_service st =
     each (rs_inform_requester env hoster s i major minor entry inform_service)
       (filter (\<lambda>c. requests_instance s i (the (rs_service_requests st c))) (keys_of (rs_service_requests st))) st"

text \<open>
  The creation of the receiving endpoint: the code starts the endpoint also when its creation failed,
  which is an access through a null pointer.
\<close>

definition rs_create_local_receiver :: "stub_env \<Rightarrow> routing_stub \<Rightarrow> stub_result ub" where
  "rs_create_local_receiver env st =
     (if rs_local_receiver st \<or> \<not> se_credentials env then Some ([], st)
      else if se_endpoint_created env then Some ([Stub_receiver_start], st\<lparr>rs_local_receiver := True\<rparr>)
      else None)"

definition offers_of :: "u16 \<Rightarrow> routing_stub \<Rightarrow> versions" where
  "offers_of c st = (case rs_routing_info st c of Some (_, vs) \<Rightarrow> vs | None \<Rightarrow> Map.empty)"

definition missed_pongs :: "u16 \<Rightarrow> routing_stub \<Rightarrow> byte" where
  "missed_pongs c st = (case rs_routing_info st c of Some (n, _) \<Rightarrow> n | None \<Rightarrow> 0)"

definition rs_on_offer_service :: "stub_env \<Rightarrow> u16 \<Rightarrow> u16 \<Rightarrow> u16 \<Rightarrow> byte \<Rightarrow> u32 \<Rightarrow> routing_stub \<Rightarrow> stub_result ub" where
  "rs_on_offer_service env c s i major minor st = do {
     r \<leftarrow> (if c = se_client env then rs_create_local_receiver env st else Some ([], st));
     Some (followed r (\<lambda>st.
       if c = VSOMEIP_ROUTING_CLIENT \<or> se_offer_allowed env c s i
       then rs_inform_requesters env c s i major minor RIE_ADD_SERVICE_INSTANCE True
              (st\<lparr>rs_routing_info := (rs_routing_info st)
                 (c \<mapsto> (missed_pongs c st, put2 s i (major, minor) (offers_of c st)))\<rparr>)
       else ([], st))) }"

definition rs_on_stop_offer_service :: "stub_env \<Rightarrow> u16 \<Rightarrow> u16 \<Rightarrow> u16 \<Rightarrow> byte \<Rightarrow> u32 \<Rightarrow> routing_stub \<Rightarrow> stub_result" where
  "rs_on_stop_offer_service env c s i major minor st =
     (case lookup2 (offers_of c st) s i of
        Some found_version \<Rightarrow>
          if found_version = (major, minor) \<or> major = DEFAULT_MAJOR \<and> minor = DEFAULT_MINOR
          then rs_inform_requesters env c s i major minor RIE_DEL_SERVICE_INSTANCE False
                 (st\<lparr>rs_routing_info := (rs_routing_info st)
                    (c \<mapsto> (missed_pongs c st, prune2 s i (offers_of c st)))\<rparr>)
          else ([], st)
      | None \<Rightarrow> ([], st))"

definition rs_contained_in_routing_info :: "u16 \<Rightarrow> u16 \<Rightarrow> u16 \<Rightarrow> byte \<Rightarrow> u32 \<Rightarrow> routing_stub \<Rightarrow> bool" where
  "rs_contained_in_routing_info c s i major minor st \<longleftrightarrow> lookup2 (offers_of c st) s i = Some (major, minor)"

definition rs_is_registered :: "u16 \<Rightarrow> routing_stub \<Rightarrow> bool" where
  "rs_is_registered c st \<longleftrightarrow> rs_routing_info st c \<noteq> None"

section \<open>Requests\<close>

text \<open>The first client, in the order of the table, that offers what is requested.\<close>

definition rs_provider :: "u16 \<Rightarrow> u16 \<Rightarrow> routing_stub \<Rightarrow> u16 option" where
  "rs_provider s i st = find (\<lambda>c. case offers_of c st s of
       None \<Rightarrow> False | Some m \<Rightarrow> i = ANY_INSTANCE \<or> i \<in> dom m) (keys_of (rs_routing_info st))"

text \<open>The provider gets to know the client: with the information being built when it is the client itself.\<close>

definition rs_introduce :: "stub_env \<Rightarrow> u16 \<Rightarrow> u16 \<Rightarrow> routing_stub \<Rightarrow> bool \<times> stub_result" where
  "rs_introduce env provider c st =
     (if is_application env provider \<and> \<not> rs_is_already_connected provider c st
      then if c = provider then (True, [], rs_insert_client provider RIE_ADD_CLIENT c st)
           else (False, rs_tell_client env provider RIE_ADD_CLIENT c st)
      else (False, [], st))"

definition rs_insert_instances :: "u16 \<Rightarrow> u16 \<Rightarrow> u16 \<Rightarrow> (u16 \<times> byte \<times> u32) list \<Rightarrow> routing_stub \<Rightarrow> routing_stub" where
  "rs_insert_instances c provider s instances st =
     fold (\<lambda>(i, major, minor). rs_insert_client_routing_info c RIE_ADD_SERVICE_INSTANCE provider s i major minor)
       instances st"

definition offered_instances :: "u16 \<Rightarrow> u16 \<Rightarrow> versions \<Rightarrow> (u16 \<times> byte \<times> u32) list" where
  "offered_instances s i vs = (case vs s of
       None \<Rightarrow> []
     | Some m \<Rightarrow> if i = ANY_INSTANCE then map (\<lambda>i. (i, the (m i))) (keys_of m)
                else (case m i of Some v \<Rightarrow> [(i, v)] | None \<Rightarrow> []))"

definition rs_handle_request :: "stub_env \<Rightarrow> u16 \<Rightarrow> service_data \<Rightarrow> routing_stub \<Rightarrow> bool \<times> stub_result" where
  "rs_handle_request env c d st =
     (let s = svc_service d; i = svc_instance d;
          requested = (case rs_service_requests st c of Some vs \<Rightarrow> vs | None \<Rightarrow> Map.empty);
          st = st\<lparr>rs_service_requests := (rs_service_requests st)
                 (c \<mapsto> put2 s i (svc_major d, svc_minor d) requested)\<rparr>
      in case rs_provider s i st of
           None \<Rightarrow> (False, [], st)
         | Some provider \<Rightarrow>
             (case rs_introduce env provider c st of (self, acts, st) \<Rightarrow>
                (let instances = offered_instances s i (offers_of provider st)
                 in if is_application env c
                    then (self \<or> instances \<noteq> [], acts, rs_insert_instances c provider s instances st)
                    else (self, acts, st))))"

fun rs_handle_each :: "stub_env \<Rightarrow> u16 \<Rightarrow> service_data list \<Rightarrow> routing_stub \<Rightarrow> bool \<times> stub_result" where
  "rs_handle_each env c [] st = (False, [], st)"
| "rs_handle_each env c (d # ds) st =
     (case rs_handle_request env c d st of (available, acts, st) \<Rightarrow>
       (case rs_handle_each env c ds st of (available', acts', st) \<Rightarrow> (available \<or> available', acts @ acts', st)))"

definition rs_handle_requests :: "stub_env \<Rightarrow> u16 \<Rightarrow> service_data list \<Rightarrow> routing_stub \<Rightarrow> stub_result" where
  "rs_handle_requests env c requests st =
     (if requests = [] then ([], st)
      else (case rs_handle_each env c requests (rs_create_client_routing_info env c st) of
              (service_available, acts, st) \<Rightarrow>
                followed (acts, st) (\<lambda>st. if service_available then rs_send_client_routing_info env c st else ([], st))))"

end
