(* ===== verification/Stub_Commands.thy ===== *)
theory Stub_Commands
  imports Routing_Stub
begin

text \<open>
  The commands the stub receives, the registration of applications, and the watchdog of
  \<^verbatim>\<open>routing_manager_stub.cpp\<close>.  A read behind the bytes of a command is \<open>None\<close>.
\<close>

section \<open>Registration\<close>

definition rs_update_registration :: "u16 \<Rightarrow> registration_type \<Rightarrow> routing_stub \<Rightarrow> stub_result" where
  "rs_update_registration c t st =
     (if t = DEREGISTER
      then (case rs_local_endpoints st c of Some h \<Rightarrow> [Stub_clear_error_handler h] | None \<Rightarrow> []) else [],
      st\<lparr>rs_pending_client_registrations := (rs_pending_client_registrations st)
           (c \<mapsto> (case rs_pending_client_registrations st c of Some ts \<Rightarrow> ts | None \<Rightarrow> []) @ [t]),
         rs_used_client_ids := (if t \<noteq> REGISTER then rs_used_client_ids st - {c} else rs_used_client_ids st)\<rparr>)"

definition rs_on_register_application :: "u16 \<Rightarrow> routing_stub \<Rightarrow> stub_result" where
  "rs_on_register_application c st =
     (if rs_local_endpoints st c \<noteq> None then ([], st)
      else ([Stub_create_local c],
            st\<lparr>rs_local_endpoints := (rs_local_endpoints st)(c \<mapsto> rs_next_endpoint st),
               rs_next_endpoint := Suc (rs_next_endpoint st),
               rs_routing_info := (rs_routing_info st)(c \<mapsto> (0, offers_of c st))\<rparr>))"

definition rs_on_deregister_application :: "u16 \<Rightarrow> routing_stub \<Rightarrow> stub_result" where
  "rs_on_deregister_application c st =
     (concat (map (\<lambda>(s, i, major, minor).
        [Stub_on_availability s i False major minor, Stub_on_stop_offer_service c s i major minor])
        (versions_of (offers_of c st))),
      st\<lparr>rs_routing_info := (rs_routing_info st)(c := None)\<rparr>)"

definition rs_forget_client :: "stub_env \<Rightarrow> u16 \<Rightarrow> routing_stub \<Rightarrow> stub_result" where
  "rs_forget_client env c st = followed
     (each (\<lambda>x. rs_tell_client env x RIE_DEL_CLIENT c)
        (filter (\<lambda>x. x \<noteq> c \<and> is_application env x) (sorted_list_of_set (rs_connection_matrix st c))) st)
     (\<lambda>st. ([], st\<lparr>rs_connection_matrix := (\<lambda>x. if x = c then {} else rs_connection_matrix st x - {c}),
                  rs_service_requests := (rs_service_requests st)(c := None)\<rparr>))"

definition rs_process_registration :: "stub_env \<Rightarrow> u16 \<times> registration_type \<Rightarrow> routing_stub \<Rightarrow> stub_result" where
  "rs_process_registration env = (\<lambda>(c, t) st. followed (followed
     (if t = REGISTER then rs_on_register_application c st else rs_on_deregister_application c st)
     (\<lambda>st. if t \<noteq> DEREGISTER_ON_ERROR
           then rs_tell_client env c (if t = REGISTER then RIE_ADD_CLIENT else RIE_DEL_CLIENT) c st
           else ([], st)))
     (\<lambda>st. if t \<noteq> REGISTER
           then followed (rs_forget_client env c st)
             (\<lambda>st. (Stub_remove_local c # (if t = DEREGISTER_ON_ERROR then [Stub_release_client_id c] else []),
                   st\<lparr>rs_local_endpoints := (rs_local_endpoints st)(c := None)\<rparr>))
           else ([], st)))"

definition rs_process_registrations :: "stub_env \<Rightarrow> routing_stub \<Rightarrow> stub_result" where
  "rs_process_registrations env st =
     (let its_registrations = concat (map (\<lambda>c. map (Pair c) (the (rs_pending_client_registrations st c)))
            (keys_of (rs_pending_client_registrations st)))
      in each (rs_process_registration env) its_registrations
           (st\<lparr>rs_pending_client_registrations := Map.empty\<rparr>))"

section \<open>Watchdog\<close>

definition its_ping :: "byte list" where
  "its_ping = VSOMEIP_PING # [0, 0, 0, 0, 0, 0]"

definition rs_broadcast :: "stub_env \<Rightarrow> byte list \<Rightarrow> routing_stub \<Rightarrow> stub_action list" where
  "rs_broadcast env cmd st = concat (map (\<lambda>c. if is_application env c
       then (case rs_local_endpoints st c of Some h \<Rightarrow> [Stub_send h cmd] | None \<Rightarrow> []) else [])
     (keys_of (rs_routing_info st)))"

definition rs_broadcast_ping :: "stub_env \<Rightarrow> routing_stub \<Rightarrow> stub_action list" where
  "rs_broadcast_ping env st = rs_broadcast env its_ping st"

definition rs_start_watchdog :: "stub_env \<Rightarrow> stub_action" where
  "rs_start_watchdog env = Stub_timer_start watchdog_timer (se_watchdog_timeout env div 2)"

definition rs_check_watchdog :: "stub_env \<Rightarrow> routing_stub \<Rightarrow> stub_result" where
  "rs_check_watchdog env st =
     (let st = st\<lparr>rs_routing_info := (\<lambda>c. map_option (\<lambda>(n, vs). (n + 1, vs)) (rs_routing_info st c))\<rparr>
      in (rs_broadcast_ping env st @ [Stub_timer_start watchdog_timer (se_watchdog_timeout env div 2)], st))"

definition rs_watchdog_expired :: "stub_env \<Rightarrow> routing_stub \<Rightarrow> stub_action list" where
  "rs_watchdog_expired env st =
     map Stub_handle_client_error (filter (\<lambda>c. is_application env c \<and> se_allowed_missing_pongs env < unat (missed_pongs c st))
       (keys_of (rs_routing_info st)))
     @ [rs_start_watchdog env]"

text \<open>The next timeout is the least time a client is waiting already, at most the configured one.\<close>

definition next_ping_timeout :: "stub_env \<Rightarrow> int \<Rightarrow> (u16 \<rightharpoonup> int) \<Rightarrow> int" where
  "next_ping_timeout env now pinged =
     fold (\<lambda>c t. min t ((now - the (pinged c)) div 1000000)) (keys_of pinged) (se_watchdog_timeout env)"

definition rs_send_ping :: "stub_env \<Rightarrow> int \<Rightarrow> u16 \<Rightarrow> routing_stub \<Rightarrow> bool \<times> stub_result" where
  "rs_send_ping env now c st =
     (case rs_local_endpoints st c of
        None \<Rightarrow> (False, [], st)
      | Some h \<Rightarrow>
          if rs_pinged_clients st c \<noteq> None then (True, [], st)
          else (True,
                [Stub_timer_cancel pinged_clients_timer,
                 Stub_timer_start pinged_clients_timer (next_ping_timeout env now (rs_pinged_clients st)),
                 Stub_send h its_ping],
                st\<lparr>rs_pinged_clients := (rs_pinged_clients st)(c \<mapsto> now)\<rparr>))"

definition rs_on_ping_timer_expired :: "stub_env \<Rightarrow> int \<Rightarrow> bool \<Rightarrow> routing_stub \<Rightarrow> stub_result" where
  "rs_on_ping_timer_expired env now err st =
     (if err then ([], st)
      else let timed_out = filter (\<lambda>c. se_watchdog_timeout env * 1000000 \<le> now - the (rs_pinged_clients st c))
                 (keys_of (rs_pinged_clients st));
               remaining = (rs_pinged_clients st) |` (- set timed_out)
           in (map Stub_handle_client_error (rev timed_out)
                 @ (if dom remaining \<noteq> {} then [Stub_timer_start pinged_clients_timer (next_ping_timeout env now remaining)]
                    else []),
               st\<lparr>rs_pinged_clients := remaining\<rparr>))"

definition rs_remove_from_pinged_clients :: "stub_env \<Rightarrow> int \<Rightarrow> u16 \<Rightarrow> routing_stub \<Rightarrow> stub_result" where
  "rs_remove_from_pinged_clients env now c st =
     (if dom (rs_pinged_clients st) = {} then ([], st)
      else let remaining = (rs_pinged_clients st)(c := None)
           in (Stub_timer_cancel pinged_clients_timer
                 # (if dom remaining \<noteq> {} then [Stub_timer_start pinged_clients_timer (next_ping_timeout env now remaining)]
                    else []),
               st\<lparr>rs_pinged_clients := remaining\<rparr>))"

definition rs_on_pong :: "stub_env \<Rightarrow> int \<Rightarrow> u16 \<Rightarrow> routing_stub \<Rightarrow> stub_result" where
  "rs_on_pong env now c st = followed
     (rs_remove_from_pinged_clients env now c
       (st\<lparr>rs_routing_info := (case rs_routing_info st c of
             Some (n, vs) \<Rightarrow> (rs_routing_info st)(c \<mapsto> (0, vs)) | None \<Rightarrow> rs_routing_info st)\<rparr>))
     (\<lambda>st. ([Stub_on_pong c], st))"

definition rs_on_client_id_timer_expired :: "stub_env \<Rightarrow> bool \<Rightarrow> routing_stub \<Rightarrow> stub_result" where
  "rs_on_client_id_timer_expired env err st =
     (if err then []
      else map Stub_handle_client_error (filter (\<lambda>c. is_application env c \<and> rs_routing_info st c = None)
             (sorted_list_of_set (rs_used_client_ids st))),
      st\<lparr>rs_used_client_ids := {}\<rparr>)"

section \<open>Start and stop\<close>

definition rs_init_routing_endpoint :: "stub_env \<Rightarrow> routing_stub \<Rightarrow> routing_stub" where
  "rs_init_routing_endpoint env st =
     (if se_security_enabled env \<and> se_client env \<noteq> se_routing_host_id env \<or> 1 < se_listen_fds env then st
      else st\<lparr>rs_endpoint := (if se_endpoint_created env then True else rs_endpoint st),
              rs_is_socket_activated := se_listen_fds env = 1\<rparr>)"

definition rs_start :: "stub_env \<Rightarrow> u16 set \<Rightarrow> routing_stub \<Rightarrow> stub_result" where
  "rs_start env used_client_ids st =
     (let st = st\<lparr>rs_used_client_ids := used_client_ids\<rparr>;
          st = (if \<not> rs_endpoint st then rs_init_routing_endpoint env st else st)
      in ([Stub_timer_start client_id_timer (max_connect_timeout * 2)]
            @ (if rs_endpoint st then [Stub_endpoint_start] else [])
            @ (if se_watchdog_enabled env then [rs_start_watchdog env] else []),
          st\<lparr>rs_client_registration_running := True,
             rs_routing_info := (rs_routing_info st)(se_client env \<mapsto> (0, offers_of (se_client env) st))\<rparr>))"

text \<open>Without socket activation the routing endpoint is stopped, which is an access through a null pointer
  when there is none.\<close>

definition rs_stop :: "routing_stub \<Rightarrow> stub_result ub" where
  "rs_stop st =
     (if \<not> rs_is_socket_activated st \<and> \<not> rs_endpoint st then None
      else Some ([Stub_timer_cancel watchdog_timer, Stub_timer_cancel client_id_timer]
             @ (if \<not> rs_is_socket_activated st then [Stub_endpoint_stop] else [])
             @ (if rs_local_receiver st then [Stub_receiver_stop] else []),
             st\<lparr>rs_client_registration_running := False,
                rs_endpoint := rs_endpoint st \<and> rs_is_socket_activated st, rs_local_receiver := False\<rparr>))"

definition rs_on_connect :: "nat \<Rightarrow> stub_action list" where
  "rs_on_connect h = [Stub_set_connected h]"

section \<open>Commands to applications\<close>

definition rs_send_subscribe :: "nat option \<Rightarrow> u16 \<Rightarrow> u16 \<Rightarrow> u16 \<Rightarrow> u16 \<Rightarrow> byte \<Rightarrow> u16 \<Rightarrow> u16 \<Rightarrow> stub_action list" where
  "rs_send_subscribe target c s i g major ev subscription_id = (case target of
       Some h \<Rightarrow> [Stub_send h (command VSOMEIP_SUBSCRIBE c
         (le16 s @ le16 i @ le16 g @ [major] @ le16 ev @ [0] @ le16 subscription_id))]
     | None \<Rightarrow> [])"

definition rs_send_unsubscribe :: "nat option \<Rightarrow> u16 \<Rightarrow> u16 \<Rightarrow> u16 \<Rightarrow> u16 \<Rightarrow> u16 \<Rightarrow> u16 \<Rightarrow> stub_action list" where
  "rs_send_unsubscribe target c s i g ev unsubscription_id = (case target of
       Some h \<Rightarrow> [Stub_send h (command VSOMEIP_UNSUBSCRIBE c
         (le16 s @ le16 i @ le16 g @ le16 ev @ le16 unsubscription_id))]
     | None \<Rightarrow> [])"

definition rs_subscribe_answer :: "byte \<Rightarrow> stub_env \<Rightarrow> u16 \<Rightarrow> u16 \<Rightarrow> u16 \<Rightarrow> u16 \<Rightarrow> u16 \<Rightarrow> routing_stub \<Rightarrow> stub_action list" where
  "rs_subscribe_answer cmd env c s i g ev st = (case rs_local_endpoints st c of
       Some h \<Rightarrow> [Stub_send h (command cmd (se_client env)
         (le16 s @ le16 i @ le16 g @ le16 c @ le16 ev @ le16 DEFAULT_SUBSCRIPTION))]
     | None \<Rightarrow> [])"

definition rs_send_subscribe_ack :: "stub_env \<Rightarrow> u16 \<Rightarrow> u16 \<Rightarrow> u16 \<Rightarrow> u16 \<Rightarrow> u16 \<Rightarrow> routing_stub \<Rightarrow> stub_action list" where
  "rs_send_subscribe_ack = rs_subscribe_answer VSOMEIP_SUBSCRIBE_ACK"

definition rs_send_subscribe_nack :: "stub_env \<Rightarrow> u16 \<Rightarrow> u16 \<Rightarrow> u16 \<Rightarrow> u16 \<Rightarrow> u16 \<Rightarrow> routing_stub \<Rightarrow> stub_action list" where
  "rs_send_subscribe_nack = rs_subscribe_answer VSOMEIP_SUBSCRIBE_NACK"

definition rs_send_identify_request_command :: "stub_env \<Rightarrow> nat option \<Rightarrow> u16 \<Rightarrow> u16 \<Rightarrow> byte \<Rightarrow> bool \<Rightarrow> stub_action list" where
  "rs_send_identify_request_command env target s i major reliable = (case target of
       Some h \<Rightarrow> [Stub_send h (command VSOMEIP_ID_REQUEST (se_client env) (le16 s @ le16 i @ [major] @ le_bool reliable))]
     | None \<Rightarrow> [])"

section \<open>Commands from applications\<close>

definition rs_on_offer_command :: "(u16 \<Rightarrow> u16 \<Rightarrow> byte \<Rightarrow> u32 \<Rightarrow> stub_action) \<Rightarrow> byte list \<Rightarrow> stub_action list ub" where
  "rs_on_offer_command call data =
     (if length data \<noteq> 16 then Some []
      else do {
        s \<leftarrow> mem16 data 7; i \<leftarrow> mem16 data 9; major \<leftarrow> vec_get data 11; minor \<leftarrow> mem32 data 12;
        Some [call s i major minor] })"

definition rs_on_subscribe_command :: "stub_env \<Rightarrow> u16 \<Rightarrow> byte list \<Rightarrow> stub_action list ub" where
  "rs_on_subscribe_command env c data =
     (if length data \<noteq> 19 then Some []
      else do {
        s \<leftarrow> mem16 data 7; i \<leftarrow> mem16 data 9; g \<leftarrow> mem16 data 11; major \<leftarrow> vec_get data 13;
        ev \<leftarrow> mem16 data 14; t \<leftarrow> vec_get data 16;
        Some (if se_client_allowed env c s i
              then [Stub_subscribe c \<lparr>sd_service = s, sd_instance = i, sd_eventgroup = g, sd_major = major,
                      sd_event = ev, sd_subscription_type = t\<rparr>] else []) })"

definition rs_on_unsubscribe_command :: "u16 \<Rightarrow> byte list \<Rightarrow> stub_action list ub" where
  "rs_on_unsubscribe_command c data =
     (if length data \<noteq> 17 then Some []
      else do {
        s \<leftarrow> mem16 data 7; i \<leftarrow> mem16 data 9; g \<leftarrow> mem16 data 11; ev \<leftarrow> mem16 data 13;
        Some [Stub_unsubscribe c s i g ev] })"

definition rs_on_subscribe_answer :: "(u16 \<Rightarrow> u16 \<Rightarrow> u16 \<Rightarrow> u16 \<Rightarrow> u16 \<Rightarrow> u16 \<Rightarrow> stub_action) \<Rightarrow> byte list \<Rightarrow> stub_action list ub" where
  "rs_on_subscribe_answer call data =
     (if length data \<noteq> 19 then Some []
      else do {
        s \<leftarrow> mem16 data 7; i \<leftarrow> mem16 data 9; g \<leftarrow> mem16 data 11; subscriber \<leftarrow> mem16 data 13;
        ev \<leftarrow> mem16 data 15; subscription_id \<leftarrow> mem16 data 17;
        Some [call subscriber s i g ev subscription_id] })"

definition rs_on_unsubscribe_ack_command :: "u16 \<Rightarrow> byte list \<Rightarrow> stub_action list ub" where
  "rs_on_unsubscribe_ack_command c data =
     (if length data \<noteq> 15 then Some []
      else do {
        s \<leftarrow> mem16 data 7; i \<leftarrow> mem16 data 9; g \<leftarrow> mem16 data 11; subscription_id \<leftarrow> mem16 data 13;
        Some [Stub_on_unsubscribe_ack c s i g subscription_id] })"

definition big16 :: "byte list \<Rightarrow> nat \<Rightarrow> u16 ub" where
  "big16 data k = do { hi \<leftarrow> vec_get data k; lo \<leftarrow> vec_get data (k + 1); Some (VSOMEIP_BYTES_TO_WORD hi lo) }"

definition rs_on_send_command :: "stub_env \<Rightarrow> byte list \<Rightarrow> u32 \<Rightarrow> stub_action list ub" where
  "rs_on_send_command env data its_size = do {
     s \<leftarrow> big16 data 7;
     its_client_from_header \<leftarrow> big16 data 15;
     i \<leftarrow> mem16 data (length data - 5);
     reliable \<leftarrow> mem_bool data (length data - 2);
     is_valid_crc \<leftarrow> mem_bool data (length data - 1);
     t \<leftarrow> vec_get data 21;
     if \<not> se_client_allowed env (if is_request t then its_client_from_header else se_client env) s i then Some []
     else do {
       bytes \<leftarrow> copy_of data 7 (unat (its_size - 5));
       Some [Stub_on_message s i bytes reliable is_valid_crc] } }"

text \<open>The size that the notification is reduced by leaves out one of the three flags.\<close>

definition rs_on_notify_command :: "byte list \<Rightarrow> u32 \<Rightarrow> stub_action list ub" where
  "rs_on_notify_command data its_size = do {
     s \<leftarrow> big16 data 7;
     i \<leftarrow> mem16 data (length data - 5);
     bytes \<leftarrow> copy_of data 7 (unat (its_size - 4));
     Some [Stub_on_notification VSOMEIP_ROUTING_CLIENT s i bytes False] }"

definition rs_on_notify_one_command :: "byte list \<Rightarrow> u32 \<Rightarrow> stub_action list ub" where
  "rs_on_notify_one_command data its_size = do {
     s \<leftarrow> big16 data 7;
     i \<leftarrow> (if length data < 7 then None else mem16 data (length data - 7));
     target \<leftarrow> mem16 data (length data - 2);
     bytes \<leftarrow> copy_of data 7 (unat (its_size - 6));
     Some [Stub_on_notification target s i bytes True] }"

definition read_request :: "byte list \<Rightarrow> nat \<Rightarrow> service_data ub" where
  "read_request data k = do {
     s \<leftarrow> mem16 data (7 + 10 * k); i \<leftarrow> mem16 data (9 + 10 * k); major \<leftarrow> vec_get data (11 + 10 * k);
     minor \<leftarrow> mem32 data (12 + 10 * k); exclusive \<leftarrow> mem_bool data (16 + 10 * k);
     Some \<lparr>svc_service = s, svc_instance = i, svc_major = major, svc_minor = minor, svc_use_exclusive_proxy = exclusive\<rparr> }"

fun read_requests :: "byte list \<Rightarrow> nat \<Rightarrow> nat \<Rightarrow> service_data list ub" where
  "read_requests data k 0 = Some []"
| "read_requests data k (Suc n) = do { d \<leftarrow> read_request data k; ds \<leftarrow> read_requests data (Suc k) n; Some (d # ds) }"

definition rs_on_request_command :: "stub_env \<Rightarrow> u16 \<Rightarrow> byte list \<Rightarrow> u32 \<Rightarrow> routing_stub \<Rightarrow> stub_result ub" where
  "rs_on_request_command env c data its_size st = do {
     ds \<leftarrow> read_requests data 0 (unat its_size div 10);
     let ds = filter (\<lambda>d. se_client_allowed env c (svc_service d) (svc_instance d)) ds;
     Some (followed (map (\<lambda>d. Stub_request_service c (svc_service d) (svc_instance d) (svc_major d) (svc_minor d)
                               (svc_use_exclusive_proxy d)) ds, st)
             (rs_handle_requests env c (fold (oset_insert service_key) ds []))) }"

definition rs_on_release_command :: "u16 \<Rightarrow> byte list \<Rightarrow> stub_action list ub" where
  "rs_on_release_command c data =
     (if length data \<noteq> 11 then Some []
      else do { s \<leftarrow> mem16 data 7; i \<leftarrow> mem16 data 9; Some [Stub_release_service c s i] })"

text \<open>The loop over the eventgroups advances by one byte.\<close>

fun read_eventgroups :: "byte list \<Rightarrow> nat \<Rightarrow> nat \<Rightarrow> u16 set ub" where
  "read_eventgroups data k 0 = Some {}"
| "read_eventgroups data k (Suc n) = do {
     g \<leftarrow> mem16 data (7 + k); gs \<leftarrow> read_eventgroups data (Suc k) n; Some (insert g gs) }"

definition rs_on_register_event_command :: "stub_env \<Rightarrow> u16 \<Rightarrow> byte list \<Rightarrow> u32 \<Rightarrow> stub_action list ub" where
  "rs_on_register_event_command env c data its_size =
     (if length data < 15 then Some []
      else do {
        s \<leftarrow> mem16 data 7; i \<leftarrow> mem16 data 9; ev \<leftarrow> mem16 data 11;
        is_field \<leftarrow> mem_bool data 13; is_provided \<leftarrow> mem_bool data 14;
        if is_provided \<and> \<not> se_offered_remote env s i then Some []
        else do {
          gs \<leftarrow> read_eventgroups data 8 (unat its_size - 9);
          Some [Stub_register_shadow_event c s i ev gs is_field is_provided] } })"

definition rs_on_unregister_event_command :: "stub_env \<Rightarrow> u16 \<Rightarrow> byte list \<Rightarrow> stub_action list ub" where
  "rs_on_unregister_event_command env c data =
     (if length data \<noteq> 14 then Some []
      else do {
        s \<leftarrow> mem16 data 7; i \<leftarrow> mem16 data 9; ev \<leftarrow> mem16 data 11; is_provided \<leftarrow> mem_bool data 13;
        Some (if is_provided \<and> \<not> se_offered_remote env s i then []
              else [Stub_unregister_shadow_event c s i ev is_provided]) })"

definition rs_on_id_response_command :: "u16 \<Rightarrow> byte list \<Rightarrow> stub_action list ub" where
  "rs_on_id_response_command c data =
     (if length data \<noteq> 12 then Some []
      else do {
        s \<leftarrow> mem16 data 7; i \<leftarrow> mem16 data 9; reliable \<leftarrow> mem_bool data 11;
        Some [Stub_on_identify_response c s i reliable] })"

definition is_offered_as :: "stub_env \<Rightarrow> byte \<Rightarrow> u16 \<Rightarrow> u16 \<Rightarrow> bool" where
  "is_offered_as env offer_type s i =
     (let no_ports = (se_reliable_port env s i = ILLEGAL_PORT \<and> se_unreliable_port env s i = ILLEGAL_PORT)
      in if offer_type = OT_LOCAL then no_ports
         else if offer_type = OT_REMOTE then \<not> no_ports
         else offer_type = OT_ALL)"

definition rs_offered_services :: "stub_env \<Rightarrow> byte \<Rightarrow> routing_stub \<Rightarrow> (u16 \<times> u16 \<times> byte \<times> u32) list" where
  "rs_offered_services env offer_type st =
     filter (\<lambda>(s, i, v). is_offered_as env offer_type s i)
       (concat (map (\<lambda>c. versions_of (offers_of c st))
         (filter (\<lambda>c. c \<noteq> VSOMEIP_ROUTING_CLIENT) (keys_of (rs_routing_info st)))))"

definition rs_on_offered_services_command :: "stub_env \<Rightarrow> u16 \<Rightarrow> byte list \<Rightarrow> routing_stub \<Rightarrow> stub_result ub" where
  "rs_on_offered_services_command env c data st =
     (if length data \<noteq> 8 then Some ([], st)
      else do {
        offer_type \<leftarrow> vec_get data 7;
        Some (rs_send_offered_services_info env c
          (fold (\<lambda>(s, i, major, minor). rs_insert_offered_services_info c RIE_ADD_SERVICE_INSTANCE s i major minor)
             (rs_offered_services env offer_type st) (rs_create_offered_services_info env c st))) })"

definition rs_on_message :: "stub_env \<Rightarrow> int \<Rightarrow> byte list \<Rightarrow> u16 \<Rightarrow> routing_stub \<Rightarrow> stub_result ub" where
  "rs_on_message env now data bound_client st =
     (if length data \<le> VSOMEIP_COMMAND_SIZE_POS_MAX then Some ([], st)
      else do {
        cmd \<leftarrow> vec_get data 0; c \<leftarrow> mem16 data 1;
        if se_security_enabled env \<and> bound_client \<noteq> c then Some ([], st)
        else do {
          its_size \<leftarrow> mem32 data 3;
          let unchanged = map_option (\<lambda>acts. (acts, st));
          if length data - VSOMEIP_COMMAND_HEADER_SIZE < unat its_size then Some ([], st)
          else if cmd = VSOMEIP_REGISTER_APPLICATION then Some (rs_update_registration c REGISTER st)
          else if cmd = VSOMEIP_DEREGISTER_APPLICATION then Some (rs_update_registration c DEREGISTER st)
          else if cmd = VSOMEIP_PONG then Some (rs_on_pong env now c st)
          else if cmd = VSOMEIP_OFFER_SERVICE then unchanged (rs_on_offer_command (Stub_offer_service c) data)
          else if cmd = VSOMEIP_STOP_OFFER_SERVICE then unchanged (rs_on_offer_command (Stub_stop_offer_service c) data)
          else if cmd = VSOMEIP_SUBSCRIBE then unchanged (rs_on_subscribe_command env c data)
          else if cmd = VSOMEIP_UNSUBSCRIBE then unchanged (rs_on_unsubscribe_command c data)
          else if cmd = VSOMEIP_SUBSCRIBE_ACK then unchanged (rs_on_subscribe_answer Stub_on_subscribe_ack data)
          else if cmd = VSOMEIP_SUBSCRIBE_NACK then unchanged (rs_on_subscribe_answer Stub_on_subscribe_nack data)
          else if cmd = VSOMEIP_UNSUBSCRIBE_ACK then unchanged (rs_on_unsubscribe_ack_command c data)
          else if cmd = VSOMEIP_SEND then unchanged (rs_on_send_command env data its_size)
          else if cmd = VSOMEIP_NOTIFY then unchanged (rs_on_notify_command data its_size)
          else if cmd = VSOMEIP_NOTIFY_ONE then unchanged (rs_on_notify_one_command data its_size)
          else if cmd = VSOMEIP_REQUEST_SERVICE then rs_on_request_command env c data its_size st
          else if cmd = VSOMEIP_RELEASE_SERVICE then unchanged (rs_on_release_command c data)
          else if cmd = VSOMEIP_REGISTER_EVENT then unchanged (rs_on_register_event_command env c data its_size)
          else if cmd = VSOMEIP_UNREGISTER_EVENT then unchanged (rs_on_unregister_event_command env c data)
          else if cmd = VSOMEIP_ID_RESPONSE then unchanged (rs_on_id_response_command c data)
          else if cmd = VSOMEIP_OFFERED_SERVICES_REQUEST then rs_on_offered_services_command env c data st
          else Some ([], st) } })"

end
