(* ===== verification/Proxy_Stub.thy ===== *)
theory Proxy_Stub
  imports Proxy_Receive Stub_Commands
begin

text \<open>
  The two sides of the local protocol together: what the proxy of an application writes is what the
  stub of the routing manager reads, and what the stub tells is what the proxies know.
\<close>

section \<open>Commands of the proxy at the stub\<close>

lemmas command_bytes = command_def le16_def le32_def le_bool_def mem16_def mem32_def mem_bool_def

lemma length_request_entry [simp]: "length (request_entry d) = 10"
  by (simp add: request_entry_def)

lemma length_concat_const: "(\<And>x. length (f x) = n) \<Longrightarrow> length (concat (map f xs)) = n * length xs"
  by (induction xs) auto

lemma vec_get_append: "vec_get (pre @ xs) (length pre + k) = vec_get xs k"
  by (simp add: vec_get_def nth_append)

lemma mem_append:
  "mem16 (pre @ xs) (length pre + k) = mem16 xs k" "mem32 (pre @ xs) (length pre + k) = mem32 xs k"
  "mem_bool (pre @ xs) (length pre + k) = mem_bool xs k"
  using vec_get_append [of pre xs "k + 1"] vec_get_append [of pre xs "k + 2"] vec_get_append [of pre xs "k + 3"]
  by (simp_all add: mem16_def mem32_def mem_bool_def vec_get_append add.assoc)

lemma read_request_entry:
  assumes "length pre = 10 * k"
  shows "read_request (command cmd c (pre @ request_entry d @ post)) k = Some d"
proof -
  have pos: "7 + 10 * k = 7 + (length pre + 0)" "9 + 10 * k = 7 + (length pre + 2)" "11 + 10 * k = 7 + (length pre + 4)"
    "12 + 10 * k = 7 + (length pre + 5)" "16 + 10 * k = 7 + (length pre + 9)" using assms by simp_all
  show ?thesis
    unfolding read_request_def pos mem_command vec_get_command mem_append vec_get_append
    by (simp add: request_entry_def command_bytes)
qed

lemma read_requests_entries:
  "read_requests (command cmd c (concat (map request_entry (ds0 @ ds)))) (length ds0) (length ds) = Some ds"
proof (induction ds arbitrary: ds0)
  case (Cons d ds)
  have "read_request (command cmd c (concat (map request_entry ds0) @ request_entry d @ concat (map request_entry ds)))
      (length ds0) = Some d"
    by (rule read_request_entry) (rule length_concat_const, simp)
  with Cons [of "ds0 @ [d]"] show ?case by simp
qed simp

lemma oset_insert_last:
  "oset_ok key (xs @ [x]) \<Longrightarrow> oset_insert key x xs = xs @ [x]"
  by (induction xs) (auto simp: oset_ok_def)

lemma fold_oset_insert:
  "oset_ok key (xs @ ys) \<Longrightarrow> fold (oset_insert key) ys xs = xs @ ys"
proof (induction ys arbitrary: xs)
  case (Cons y ys)
  then have "oset_ok key (xs @ [y])" by (simp add: oset_ok_def sorted_wrt_append)
  with Cons show ?case by (simp add: oset_insert_last)
qed simp

text \<open>The header of a command passes the checks of the stub.\<close>

lemma stub_header:
  assumes "length p < 2 ^ 32"
  shows "length (command cmd c p) - VSOMEIP_COMMAND_HEADER_SIZE = length p"
    and "unat (of_nat (length p) :: u32) = length p" and "vec_get (command cmd c p) 0 = Some cmd"
  using assms by (simp_all add: unsigned_of_nat take_bit_nat_eq_self command_def)

text \<open>The stub takes, one by one, what an application hands to an endpoint.\<close>

fun stub_hears :: "stub_env \<Rightarrow> int \<Rightarrow> u16 \<Rightarrow> nat \<Rightarrow> routing_action list \<Rightarrow> routing_stub \<Rightarrow> stub_result ub" where
  "stub_hears env now bound h [] ss = Some ([], ss)"
| "stub_hears env now bound h (a # acts) ss =
     (case a of
        Endpoint_send h' bytes \<Rightarrow>
          if h' = h
          then do {
            (now_acts, ss) \<leftarrow> rs_on_message env now bytes bound ss;
            (later_acts, ss) \<leftarrow> stub_hears env now bound h acts ss;
            Some (now_acts @ later_acts, ss) }
          else stub_hears env now bound h acts ss
      | _ \<Rightarrow> stub_hears env now bound h acts ss)"

lemma stub_hears_append:
  "stub_hears env now bound h (xs @ ys) ss =
     do { (as, ss) \<leftarrow> stub_hears env now bound h xs ss; (bs, ss) \<leftarrow> stub_hears env now bound h ys ss;
          Some (as @ bs, ss) }"
proof (induction xs arbitrary: ss)
  case (Cons x xs)
  then show ?case
    by (cases x) (auto split: Option.bind_splits)
next
  case Nil
  show ?case by (cases "stub_hears env now bound h ys ss") auto
qed

lemma stub_hears_sender:
  "rp_sender p = Some h \<Longrightarrow> stub_hears env now bound h (to_sender bytes p) ss = rs_on_message env now bytes bound ss"
  by (simp add: to_sender_def)

lemma stub_reads:
  assumes "se_security_enabled env \<longrightarrow> bound = c"
  shows "rs_on_message env now (offer_command VSOMEIP_OFFER_SERVICE c s i major minor) bound ss
      = Some ([Stub_offer_service c s i major minor], ss)"
    and "rs_on_message env now (offer_command VSOMEIP_STOP_OFFER_SERVICE c s i major minor) bound ss
      = Some ([Stub_stop_offer_service c s i major minor], ss)"
    and "rs_on_message env now (command VSOMEIP_RELEASE_SERVICE c (le16 s @ le16 i)) bound ss
      = Some ([Stub_release_service c s i], ss)"
    and "rs_on_message env now (command VSOMEIP_UNSUBSCRIBE c (le16 s @ le16 i @ le16 g @ le16 ev @ le16 sid)) bound ss
      = Some ([Stub_unsubscribe c s i g ev], ss)"
    and "rs_on_message env now (command VSOMEIP_SUBSCRIBE c (subscribe_payload d sid)) bound ss
      = Some (if se_client_allowed env c (sd_service d) (sd_instance d) then [Stub_subscribe c d] else [], ss)"
    and "rs_on_message env now (command VSOMEIP_SUBSCRIBE_ACK c
        (le16 s @ le16 i @ le16 g @ le16 subscriber @ le16 ev @ le16 sid)) bound ss
      = Some ([Stub_on_subscribe_ack subscriber s i g ev sid], ss)"
    and "rs_on_message env now (command VSOMEIP_SUBSCRIBE_NACK c
        (le16 s @ le16 i @ le16 g @ le16 subscriber @ le16 ev @ le16 sid)) bound ss
      = Some ([Stub_on_subscribe_nack subscriber s i g ev sid], ss)"
    and "rs_on_message env now (command VSOMEIP_UNSUBSCRIBE_ACK c (le16 s @ le16 i @ le16 g @ le16 sid)) bound ss
      = Some ([Stub_on_unsubscribe_ack c s i g sid], ss)"
    and "rs_on_message env now (command VSOMEIP_ID_RESPONSE c (le16 s @ le16 i @ le_bool reliable)) bound ss
      = Some ([Stub_on_identify_response c s i reliable], ss)"
    and "rs_on_message env now (command VSOMEIP_UNREGISTER_EVENT c (le16 s @ le16 i @ le16 ev @ le_bool provided)) bound ss
      = Some (if provided \<and> \<not> se_offered_remote env s i then [] else [Stub_unregister_shadow_event c s i ev provided], ss)"
    and "rs_on_message env now (command VSOMEIP_REGISTER_APPLICATION c []) bound ss
      = Some (rs_update_registration c REGISTER ss)"
    and "rs_on_message env now (command VSOMEIP_DEREGISTER_APPLICATION c [0, 0]) bound ss
      = Some (rs_update_registration c DEREGISTER ss)"
    and "rs_on_message env now (command VSOMEIP_PONG c []) bound ss = Some (rs_on_pong env now c ss)"
    and "rs_on_message env now (command VSOMEIP_REGISTERED_ACK c []) bound ss = Some ([], ss)"
  using assms
  by (auto simp: rs_on_message_def offer_command_def command_bytes rs_on_offer_command_def rs_on_release_command_def
      rs_on_unsubscribe_command_def rs_on_subscribe_command_def rs_on_subscribe_answer_def
      rs_on_unsubscribe_ack_command_def rs_on_id_response_command_def rs_on_unregister_event_command_def
      subscribe_payload_def)

section \<open>Routing information of the stub at the proxy\<close>

text \<open>What one entry of the routing information does to a proxy.\<close>

type_synonym info_entry = "u32 \<times> u16 \<times> u16 \<times> u16 \<times> byte \<times> u32"

definition names_service :: "u32 \<Rightarrow> bool" where
  "names_service entry \<longleftrightarrow> entry = RIE_ADD_SERVICE_INSTANCE \<or> entry = RIE_DEL_SERVICE_INSTANCE"

definition info_entry_bytes :: "info_entry \<Rightarrow> byte list" where
  "info_entry_bytes = (\<lambda>(entry, c, s, i, major, minor). routing_info_entry entry c s i major minor)"

definition learn :: "proxy_env \<Rightarrow> info_entry \<Rightarrow> routing_proxy \<Rightarrow> proxy_result" where
  "learn env = (\<lambda>(entry, c, s, i, major, minor) p.
     if names_service entry then rp_routing_service entry c s i major minor p else rp_routing_client env entry c p)"

lemma add32_small: "a + b < 2 ^ 32 \<Longrightarrow> add32 a b = a + b"
  by (simp add: add32_def)

lemma length_routing_info_entry:
  "length (routing_info_entry entry c s i major minor) = (if names_service entry then 23 else 10)"
  by (simp add: routing_info_entry_def service_entry_def names_service_def Let_def)

lemma routing_services_none: "sz < 4 \<Longrightarrow> rp_routing_services entry c data k sz 0 p = Some ([], 0, p)"
  by (subst rp_routing_services.simps) simp

lemma routing_services_one:
  assumes "length pre + 30 < 2 ^ 32"
  shows "rp_routing_services entry c (pre @ service_entry s i major minor @ post) (length pre) 15 0 p
    = Some (fst (rp_routing_service entry c s i major minor p), 13, snd (rp_routing_service entry c s i major minor p))"
proof -
  let ?data = "pre @ service_entry s i major minor @ post"
  have small: "add32 0 k = k" "add32 4 2 = 6" "add32 6 k = 6 + k" "add32 (length pre) k = length pre + k"
    if "k \<le> 13" for k
    using assms that by (simp_all add: add32_def)
  have read: "mem32 ?data (length pre + 0) = Some 9" "mem16 ?data (length pre + 4) = Some s"
    "mem16 ?data (length pre + 6) = Some i" "vec_get ?data (length pre + 8) = Some major"
    "mem32 ?data (length pre + 9) = Some minor"
    unfolding mem_append vec_get_append by (simp_all add: service_entry_def command_bytes)
  have inst: "rp_routing_instances entry c s ?data (length pre) 6 7 p
      = Some (fst (rp_routing_service entry c s i major minor p), 13, snd (rp_routing_service entry c s i major minor p))"
    by (subst rp_routing_instances.simps, subst rp_routing_instances.simps)
      (simp add: small read split_beta)
  have rest: "rp_routing_services entry c ?data (length pre) 15 13 q = Some ([], 13, q)" for q
    by (subst rp_routing_services.simps) simp
  show ?thesis
    by (subst rp_routing_services.simps) (simp add: small read [simplified] inst rest)
qed

lemma learn_entry:
  assumes "length pre + 40 < 2 ^ 32" and "length pre + length (info_entry_bytes e) \<le> sz" and "sz < 2 ^ 32"
  shows "rp_routing_entries env (pre @ info_entry_bytes e @ post) sz (length pre) p =
    do { (ok, acts, q) \<leftarrow> rp_routing_entries env (pre @ info_entry_bytes e @ post) sz (length pre + length (info_entry_bytes e))
           (snd (learn env e p));
         Some (ok, fst (learn env e p) @ acts, q) }"
proof -
  obtain entry c s i major minor where e: "e = (entry, c, s, i, major, minor)" by (cases e)
  let ?body = "if names_service entry then service_entry s i major minor else []"
  let ?data = "pre @ info_entry_bytes e @ post" and ?n = "if names_service entry then 15 else 2 :: nat"
  have bytes: "info_entry_bytes e = le32 entry @ le32 (of_nat ?n) @ le16 c @ ?body"
    by (simp add: e info_entry_bytes_def routing_info_entry_def names_service_def service_entry_def Let_def)
  have len: "length (info_entry_bytes e) = 8 + ?n" by (simp add: bytes service_entry_def)
  have read: "mem32 ?data (length pre + 0) = Some entry" "mem32 ?data (length pre + 4) = Some (of_nat ?n)"
    "mem16 ?data (length pre + 8) = Some c"
    unfolding mem_append bytes by (simp_all add: command_bytes)
  have n: "unat (of_nat ?n :: u32) = ?n" by simp
  have fits: "\<not> sz < add32 ?n (length pre + 8)" "length pre + 8 \<le> sz" "length pre + 10 \<le> sz"
    using assms(2,3) unfolding len by (auto simp: add32_def split: if_splits)
  let ?pre = "pre @ le32 entry @ le32 (of_nat ?n) @ le16 c"
  have "rp_routing_services entry c (?pre @ ?body @ post) (length ?pre) ?n 0 q
      = Some (if names_service entry then fst (rp_routing_service entry c s i major minor q) else [], ?n - 2,
          if names_service entry then snd (rp_routing_service entry c s i major minor q) else q)" for q
    using assms(1) routing_services_one [where pre = ?pre and post = post]
    by (cases "names_service entry") (simp_all add: routing_services_none del: append_assoc)
  then have svc: "rp_routing_services entry c ?data (length pre + 10) ?n 0 q
      = Some (if names_service entry then fst (rp_routing_service entry c s i major minor q) else [], ?n - 2,
          if names_service entry then snd (rp_routing_service entry c s i major minor q) else q)" for q
    by (simp add: bytes)
  have next_pos: "add32 (length pre + 10) (?n - 2) = length pre + length (info_entry_bytes e)"
    using assms(1) unfolding len by (simp add: add32_def)
  have effect: "learn env e p = (if names_service entry then rp_routing_service entry c s i major minor p
      else rp_routing_client env entry c p)" by (simp add: e learn_def)
  have client: "names_service entry \<Longrightarrow> rp_routing_client env entry c p = ([], p)"
    by (auto simp: rp_routing_client_def names_service_def)
  have unfolded: "rp_routing_entries env ?data sz (length pre) p =
      Option.bind (rp_routing_entries env ?data sz (length pre + length (info_entry_bytes e)) (snd (learn env e p)))
        (\<lambda>q. Some (fst q, fst (learn env e p) @ fst (snd q), snd (snd q)))"
    by (subst rp_routing_entries.simps, cases "names_service entry")
      (use fits client next_pos svc in \<open>simp_all add: read [simplified] n effect\<close>)
  show ?thesis unfolding unfolded by (simp add: case_prod_unfold)
qed

lemma length_info_entry_bytes: "length (info_entry_bytes e) \<le> 23"
  by (cases e) (simp add: info_entry_bytes_def length_routing_info_entry)

text \<open>The entries of a message are processed one after the other, and completely.\<close>

lemma learn_entries:
  assumes "length (pre @ concat (map info_entry_bytes es)) + 40 < 2 ^ 32"
  shows "rp_routing_entries env (pre @ concat (map info_entry_bytes es)) (length (pre @ concat (map info_entry_bytes es)))
     (length pre) p = Some (True, each (learn env) es p)"
  using assms
proof (induction es arbitrary: pre p)
  case Nil
  show ?case by (subst rp_routing_entries.simps) simp
next
  case (Cons e es)
  let ?rest = "concat (map info_entry_bytes es)"
  have here: "rp_routing_entries env (pre @ info_entry_bytes e @ ?rest) (length (pre @ info_entry_bytes e @ ?rest)) (length pre) p =
    do { (ok, acts, q) \<leftarrow> rp_routing_entries env (pre @ info_entry_bytes e @ ?rest) (length (pre @ info_entry_bytes e @ ?rest))
           (length pre + length (info_entry_bytes e)) (snd (learn env e p));
         Some (ok, fst (learn env e p) @ acts, q) }"
    using Cons.prems by (intro learn_entry) auto
  have later: "rp_routing_entries env (pre @ info_entry_bytes e @ ?rest) (length (pre @ info_entry_bytes e @ ?rest))
      (length pre + length (info_entry_bytes e)) q = Some (True, each (learn env) es q)" for q
    using Cons.IH [of "pre @ info_entry_bytes e" q] Cons.prems by simp
  show ?case
    unfolding list.map concat.simps here later by (simp add: each_Cons followed_def split: prod.split)
qed

definition info_command :: "u16 \<Rightarrow> info_entry list \<Rightarrow> byte list" where
  "info_command host es = command VSOMEIP_ROUTING_INFO host (concat (map info_entry_bytes es))"

lemma with_size_info:
  "with_size (VSOMEIP_ROUTING_INFO # le16 host @ [0, 0, 0, 0] @ concat (map info_entry_bytes es)) = info_command host es"
  by (simp add: with_size_def info_command_def command_def le16_def)

definition ask_all_pending :: "proxy_env \<Rightarrow> routing_proxy \<Rightarrow> proxy_result" where
  "ask_all_pending env p = each rp_ask_pending (rp_pending_incoming env p) p"

lemma proxy_learns:
  assumes "pe_security_enabled env \<longrightarrow> bound = pe_routing_host_id env"
    and "length (concat (map info_entry_bytes es)) + 40 < 2 ^ 32"
  shows "rp_on_message env (info_command host es) bound p = Some (followed (each (learn env) es p) (ask_all_pending env))"
proof -
  let ?b = "concat (map info_entry_bytes es)"
  have len: "unat (of_nat (length ?b) :: u32) = length ?b"
    using assms(2) by (intro stub_header(2)) simp
  have "rp_on_routing_info env ?b (length ?b) p = Some (followed (each (learn env) es p) (ask_all_pending env))"
    using learn_entries [of "[]" es env p] assms(2)
    by (simp add: rp_on_routing_info_def ask_all_pending_def [abs_def] split: prod.split)
  then show ?thesis
    using assms(1) command_header [of VSOMEIP_ROUTING_INFO host ?b] len
    by (simp add: rp_on_message_def info_command_def)
qed

text \<open>A message of the stub with one entry.\<close>

lemma tell_eq:
  assumes "rs_local_endpoints ss target = Some h"
  shows "rs_tell env target entry c s i major minor ss =
    ([Stub_send h (info_command (se_client env) [(entry, c, s, i, major, minor)])],
     ss\<lparr>rs_connection_matrix := (rs_connection_matrix ss)(target := insert c (rs_connection_matrix ss target)),
        rs_client_routing_info := (rs_client_routing_info ss)(target := None)\<rparr>)"
  using assms with_size_info [of "se_client env" "[(entry, c, s, i, major, minor)]"]
  by (simp add: rs_tell_def rs_send_client_routing_info_def rs_insert_client_routing_info_def
      rs_create_client_routing_info_def sendable_def info_entry_bytes_def)

lemma tell_endpoints [simp]:
  "rs_local_endpoints (snd (rs_tell env target entry c s i major minor ss)) = rs_local_endpoints ss"
  "rs_routing_info (snd (rs_tell env target entry c s i major minor ss)) = rs_routing_info ss"
  by (auto simp: rs_tell_def rs_send_client_routing_info_def rs_insert_client_routing_info_def
      rs_create_client_routing_info_def split: option.split)

lemma inform_requester_keeps:
  "rs_local_endpoints (snd (rs_inform_requester env hoster s i major minor entry inform c ss)) = rs_local_endpoints ss"
  "rs_routing_info (snd (rs_inform_requester env hoster s i major minor entry inform c ss)) = rs_routing_info ss"
  by (simp_all add: rs_inform_requester_def rs_tell_client_def followed_simps)

lemma requester_is_informed:
  assumes "rs_service_requests ss r = Some vs" and "requests_instance s i vs" and "is_application env r"
    and "rs_local_endpoints ss r = Some h"
  shows "Stub_send h (info_command (se_client env) [(entry, hoster, s, i, major, minor)])
     \<in> set (fst (rs_inform_requesters env hoster s i major minor entry inform ss))"
proof -
  let ?a = "Stub_send h (info_command (se_client env) [(entry, hoster, s, i, major, minor)])"
  have "\<exists>a\<in>set (fst (rs_inform_requesters env hoster s i major minor entry inform ss)). a = ?a"
    unfolding rs_inform_requesters_def
  proof (rule each_does [where P = "\<lambda>st. rs_local_endpoints st = rs_local_endpoints ss" and x = r])
    show "r \<in> set (filter (\<lambda>c. requests_instance s i (the (rs_service_requests ss c))) (keys_of (rs_service_requests ss)))"
      using assms(1,2) by (auto simp: keys_of_def)
    show "\<exists>a\<in>set (fst (rs_inform_requester env hoster s i major minor entry inform r st)). a = ?a"
      if "rs_local_endpoints st = rs_local_endpoints ss" for st
      using assms(3,4) that by (simp add: rs_inform_requester_def rs_tell_client_def followed_simps tell_eq)
  qed (simp_all add: inform_requester_keeps)
  then show ?thesis by simp
qed

section \<open>A service comes and goes\<close>

lemma find_or_create_keeps:
  "rb_local_services (snd (snd (rb_find_or_create_local c p))) = rb_local_services p"
  "rp_known_clients (snd (snd (rb_find_or_create_local c p))) = rp_known_clients p"
  "rb_client (snd (snd (rb_find_or_create_local c p))) = rb_client p"
  "rp_sender (snd (snd (rb_find_or_create_local c p))) = rp_sender p"
  by (simp_all add: rb_find_or_create_local_def rb_create_local_def Let_def split: option.split)

lemma send_subscribe_keeps:
  "rb_local_services (snd (rp_send_subscribe c d p)) = rb_local_services p"
  "rp_known_clients (snd (rp_send_subscribe c d p)) = rp_known_clients p"
  by (simp_all add: rp_send_subscribe_def Let_def find_or_create_keeps split_beta)

lemma ask_all_pending_keeps:
  "rb_local_services (snd (ask_all_pending env p)) = rb_local_services p"
  "rp_known_clients (snd (ask_all_pending env p)) = rp_known_clients p"
  unfolding ask_all_pending_def
  by (rule each_keeps, simp, simp add: rp_ask_pending_def find_or_create_keeps split_beta)+

lemma service_added_keeps:
  "rb_local_services (snd (rp_service_added c s i major minor p)) = put2 s i (major, minor, c) (rb_local_services p)"
  "rp_known_clients (snd (rp_service_added c s i major minor p)) = insert c (rp_known_clients p)"
  unfolding rp_service_added_def rp_pending_subscriptions_def Let_def followed_simps
  by (simp_all, (rule each_keeps, simp, simp add: send_subscribe_keeps)+)

text \<open>A subscription that waits for a service is sent to the client that offers it.\<close>

lemma service_added_subscribes:
  assumes "d \<in> set (rb_pending_subscriptions p)" and "sd_service d = s" and "sd_instance d = i" and "sd_major d = major"
    and "c \<noteq> VSOMEIP_ROUTING_CLIENT"
  shows "\<exists>h. Endpoint_send h (command VSOMEIP_SUBSCRIBE (rb_client p) (subscribe_payload d DEFAULT_SUBSCRIPTION))
    \<in> set (fst (rp_service_added c s i major minor p))"
proof -
  let ?p = "p\<lparr>rp_known_clients := insert c (rp_known_clients p), rb_local_services := put2 s i (major, minor, c) (rb_local_services p)\<rparr>"
  let ?cmd = "command VSOMEIP_SUBSCRIBE (rb_client p) (subscribe_payload d DEFAULT_SUBSCRIPTION)"
  have "\<exists>a\<in>set (fst (each (rp_send_subscribe (rb_client ?p)) (rb_send_pending_subscriptions s i major ?p) ?p)).
      \<exists>h. a = Endpoint_send h ?cmd"
  proof (rule each_does [where P = "\<lambda>q. rb_local_services q = rb_local_services ?p" and x = d])
    show "d \<in> set (rb_send_pending_subscriptions s i major ?p)"
      using assms(1-4) by (simp add: rb_send_pending_subscriptions_def)
    show "\<exists>a\<in>set (fst (rp_send_subscribe (rb_client ?p) d q)). \<exists>h. a = Endpoint_send h ?cmd"
      if "rb_local_services q = rb_local_services ?p" for q
      using assms(2,3,5) that by (auto simp: rp_send_subscribe_def rb_find_local_client_def table_simps split_beta)
  qed (simp_all add: send_subscribe_keeps)
  then show ?thesis
    by (auto simp: rp_service_added_def rp_pending_subscriptions_def Let_def followed_simps)
qed

lemma service_removed_keeps:
  "rb_local_services (snd (rp_service_removed s i major minor p)) = prune2 s i (rb_local_services p)"
  by (simp add: rp_service_removed_def rp_on_stop_offer_service_def on_events_def Let_def)

lemma tell_requests [simp]:
  "rs_service_requests (snd (rs_tell env target entry c s i major minor ss)) = rs_service_requests ss"
  by (simp add: rs_tell_def rs_send_client_routing_info_def rs_insert_client_routing_info_def
      rs_create_client_routing_info_def split: option.split)

lemma inform_requesters_keeps:
  fixes ss env hoster s i major minor entry inform
  defines "ss' \<equiv> snd (rs_inform_requesters env hoster s i major minor entry inform ss)"
  shows "rs_service_requests ss' = rs_service_requests ss" and "rs_local_endpoints ss' = rs_local_endpoints ss"
    and "rs_routing_info ss' = rs_routing_info ss"
proof -
  have "rs_service_requests ss' = rs_service_requests ss \<and> rs_local_endpoints ss' = rs_local_endpoints ss
      \<and> rs_routing_info ss' = rs_routing_info ss"
    unfolding ss'_def rs_inform_requesters_def
    by (rule each_keeps) (simp_all add: rs_inform_requester_def rs_tell_client_def followed_simps)
  then show "rs_service_requests ss' = rs_service_requests ss" "rs_local_endpoints ss' = rs_local_endpoints ss"
    "rs_routing_info ss' = rs_routing_info ss" by simp_all
qed

text \<open>An offer that is accepted: the table of the stub holds it, and the requesters are informed.\<close>

lemma offer_accepted:
  assumes "rs_on_offer_service env c s i major minor ss = Some (acts, ss')"
    and "c = VSOMEIP_ROUTING_CLIENT \<or> se_offer_allowed env c s i"
  obtains st acts0 where "rs_service_requests st = rs_service_requests ss" and "rs_local_endpoints st = rs_local_endpoints ss"
    and "acts = acts0 @ fst (rs_inform_requesters env c s i major minor RIE_ADD_SERVICE_INSTANCE True st)"
    and "ss' = snd (rs_inform_requesters env c s i major minor RIE_ADD_SERVICE_INSTANCE True st)"
    and "lookup2 (offers_of c st) s i = Some (major, minor)"
proof -
  let ?offer = "\<lambda>st. if c = VSOMEIP_ROUTING_CLIENT \<or> se_offer_allowed env c s i
       then rs_inform_requesters env c s i major minor RIE_ADD_SERVICE_INSTANCE True
              (st\<lparr>rs_routing_info := (rs_routing_info st)
                 (c \<mapsto> (missed_pongs c st, put2 s i (major, minor) (offers_of c st)))\<rparr>)
       else ([], st)"
  obtain x where x: "(if c = se_client env then rs_create_local_receiver env ss else Some ([], ss)) = Some x"
    and result: "Some (followed x ?offer) = Some (acts, ss')"
    using assms(1) unfolding rs_on_offer_service_def by (rule bind_eq_SomeE)
  obtain acts0 ss0 where x0: "x = (acts0, ss0)" by (cases x)
  note r = x [unfolded x0] and rest = result [unfolded x0 option.inject]
  let ?st = "ss0\<lparr>rs_routing_info := (rs_routing_info ss0)(c \<mapsto> (missed_pongs c ss0, put2 s i (major, minor) (offers_of c ss0)))\<rparr>"
  have ss0: "rs_service_requests ss0 = rs_service_requests ss" "rs_local_endpoints ss0 = rs_local_endpoints ss"
    using r by (auto simp: rs_create_local_receiver_def split: if_splits)
  from rest assms(2) have "acts = acts0 @ fst (rs_inform_requesters env c s i major minor RIE_ADD_SERVICE_INSTANCE True ?st)"
    "ss' = snd (rs_inform_requesters env c s i major minor RIE_ADD_SERVICE_INSTANCE True ?st)"
    by (simp_all add: followed_def split: prod.splits)
  moreover have "lookup2 (offers_of c ?st) s i = Some (major, minor)" by (simp add: offers_of_def table_simps)
  ultimately show ?thesis using ss0 by (intro that [of ?st acts0]) simp_all
qed

lemma offers_of_routing_info: "rs_routing_info ss' = rs_routing_info ss \<Longrightarrow> offers_of c ss' = offers_of c ss"
  by (simp add: offers_of_def)

lemma learns_one:
  assumes "pe_security_enabled penv \<longrightarrow> bound = pe_routing_host_id penv"
  shows "rp_on_message penv (info_command host [e]) bound p = Some (followed (learn penv e p) (ask_all_pending penv))"
proof -
  have "each (learn penv) [] = (\<lambda>p. ([], p))" by (rule ext) simp
  then have "each (learn penv) [e] p = learn penv e p" by (simp add: each_Cons)
  moreover have "length (concat (map info_entry_bytes [e])) + 40 < 2 ^ 32"
    using length_info_entry_bytes [of e] by simp
  ultimately show ?thesis using proxy_learns [OF assms, of "[e]" host p] by simp
qed

lemma some_pair: "Q (fst x) (snd x) \<Longrightarrow> \<exists>a b. Some x = Some (a, b) \<and> Q a b"
  by (cases x) auto

lemma host_told:
  "Host_on_availability s i True major minor \<in> set (fst (rp_service_added c s i major minor p))"
  "Host_on_availability s i False major minor \<in> set (fst (rp_service_removed s i major minor p))"
  by (simp_all add: rp_service_added_def rp_service_removed_def Let_def followed_simps)

text \<open>
  C14. A service that is offered reaches everyone who asked for it.  When the stub accepts an offer, its
  table holds it, and every application that requested the service instance (or any instance) and has
  an endpoint is sent a command on which its proxy, whatever its state, knows the service with its
  version and the client that offers it, reports it to the application as available, and sends the
  subscriptions that waited for it to an endpoint.  When the offer is withdrawn, the same applications
  are sent a command on which the proxy no longer knows the service and reports it as gone.
\<close>

theorem service_reaches_requesters:
  assumes offer: "rs_on_offer_service env c s i major minor ss = Some (acts, ss1)"
    and allowed: "c = VSOMEIP_ROUTING_CLIENT \<or> se_offer_allowed env c s i"
    and stop: "rs_on_stop_offer_service env c s i major minor ss1 = (acts', ss2)"
    and requester: "rs_service_requests ss r = Some vs" "requests_instance s i vs" "is_application env r"
    and endpoint: "rs_local_endpoints ss r = Some h"
    and trusted: "pe_security_enabled penv \<longrightarrow> bound = pe_routing_host_id penv"
  shows "lookup2 (offers_of c ss1) s i = Some (major, minor)
    \<and> (\<exists>cmd. Stub_send h cmd \<in> set acts \<and> (\<forall>p. \<exists>pacts p'. rp_on_message penv cmd bound p = Some (pacts, p')
         \<and> lookup2 (rb_local_services p') s i = Some (major, minor, c) \<and> c \<in> rp_known_clients p'
         \<and> Host_on_availability s i True major minor \<in> set pacts
         \<and> (\<forall>d\<in>set (rb_pending_subscriptions p). c \<noteq> VSOMEIP_ROUTING_CLIENT \<longrightarrow> sd_service d = s \<longrightarrow> sd_instance d = i
              \<longrightarrow> sd_major d = major \<longrightarrow> (\<exists>h'. Endpoint_send h'
                (command VSOMEIP_SUBSCRIBE (rb_client p) (subscribe_payload d DEFAULT_SUBSCRIPTION)) \<in> set pacts))))
    \<and> lookup2 (offers_of c ss2) s i = None
    \<and> (\<exists>cmd. Stub_send h cmd \<in> set acts' \<and> (\<forall>p. \<exists>pacts p'. rp_on_message penv cmd bound p = Some (pacts, p')
         \<and> lookup2 (rb_local_services p') s i = None \<and> Host_on_availability s i False major minor \<in> set pacts))"
proof -
  obtain st acts0 where st: "rs_service_requests st = rs_service_requests ss" "rs_local_endpoints st = rs_local_endpoints ss"
    and acts: "acts = acts0 @ fst (rs_inform_requesters env c s i major minor RIE_ADD_SERVICE_INSTANCE True st)"
    and ss1: "ss1 = snd (rs_inform_requesters env c s i major minor RIE_ADD_SERVICE_INSTANCE True st)"
    and held: "lookup2 (offers_of c st) s i = Some (major, minor)"
    by (rule offer_accepted [OF offer allowed])
  note kept = inform_requesters_keeps [of env c s i major minor RIE_ADD_SERVICE_INSTANCE True st, folded ss1]
  have offered: "lookup2 (offers_of c ss1) s i = Some (major, minor)"
    using held kept(3) by (simp add: offers_of_def)
  let ?st = "ss1\<lparr>rs_routing_info := (rs_routing_info ss1)(c \<mapsto> (missed_pongs c ss1, prune2 s i (offers_of c ss1)))\<rparr>"
  have stopped: "acts' = fst (rs_inform_requesters env c s i major minor RIE_DEL_SERVICE_INSTANCE False ?st)"
    "ss2 = snd (rs_inform_requesters env c s i major minor RIE_DEL_SERVICE_INSTANCE False ?st)"
    using stop offered by (simp_all add: rs_on_stop_offer_service_def)
  have gone: "lookup2 (offers_of c ss2) s i = None"
    unfolding stopped(2) by (simp add: offers_of_def inform_requesters_keeps table_simps)
  let ?add = "info_command (se_client env) [(RIE_ADD_SERVICE_INSTANCE, c, s, i, major, minor)]"
  let ?del = "info_command (se_client env) [(RIE_DEL_SERVICE_INSTANCE, c, s, i, major, minor)]"
  have sent: "Stub_send h ?add \<in> set acts" "Stub_send h ?del \<in> set acts'"
    using requester endpoint st kept unfolding acts stopped(1)
    by (auto intro: requester_is_informed)
  have added: "rp_on_message penv ?add bound p = Some (followed (rp_service_added c s i major minor p) (ask_all_pending penv))" for p
    by (simp add: learns_one [OF trusted] learn_def names_service_def rp_routing_service_def)
  have removed: "rp_on_message penv ?del bound p = Some (followed (rp_service_removed s i major minor p) (ask_all_pending penv))" for p
    by (simp add: learns_one [OF trusted] learn_def names_service_def rp_routing_service_def)
  have "\<exists>pacts p'. rp_on_message penv ?add bound p = Some (pacts, p')
         \<and> lookup2 (rb_local_services p') s i = Some (major, minor, c) \<and> c \<in> rp_known_clients p'
         \<and> Host_on_availability s i True major minor \<in> set pacts
         \<and> (\<forall>d\<in>set (rb_pending_subscriptions p). c \<noteq> VSOMEIP_ROUTING_CLIENT \<longrightarrow> sd_service d = s \<longrightarrow> sd_instance d = i
              \<longrightarrow> sd_major d = major \<longrightarrow> (\<exists>h'. Endpoint_send h'
                (command VSOMEIP_SUBSCRIBE (rb_client p) (subscribe_payload d DEFAULT_SUBSCRIPTION)) \<in> set pacts))" for p
    unfolding added using service_added_subscribes [of _ p s i major c minor]
    by (intro some_pair) (auto simp: followed_simps ask_all_pending_keeps service_added_keeps table_simps host_told)
  moreover have "\<exists>pacts p'. rp_on_message penv ?del bound p = Some (pacts, p')
         \<and> lookup2 (rb_local_services p') s i = None \<and> Host_on_availability s i False major minor \<in> set pacts" for p
    unfolding removed
    by (intro some_pair) (auto simp: followed_simps ask_all_pending_keeps service_removed_keeps table_simps host_told)
  ultimately show ?thesis using offered gone sent by blast
qed

definition sample_stub_env :: stub_env where
  "sample_stub_env = \<lparr>se_client = 1, se_security_enabled = False, se_routing_host_id = 1,
     se_client_allowed = (\<lambda>_ _ _. True), se_offer_allowed = (\<lambda>_ _ _. True), se_offered_remote = (\<lambda>_ _. True),
     se_reliable_port = (\<lambda>_ _. ILLEGAL_PORT), se_unreliable_port = (\<lambda>_ _. ILLEGAL_PORT),
     se_max_message_size_local = 0, se_watchdog_enabled = False, se_watchdog_timeout = 5000,
     se_allowed_missing_pongs = 3, se_credentials = True, se_listen_fds = 0, se_endpoint_created = True\<rparr>"

definition sample_proxy_env :: proxy_env where
  "sample_proxy_env = \<lparr>pe_routing = \<lparr>env_host_client = 0x0101, env_event_reliable = (\<lambda>_ _ _. False),
       env_epsilon = (\<lambda>_ _ _. None), env_multicast = (\<lambda>_ _ _. None), env_threshold = (\<lambda>_ _ _. 0)\<rparr>,
     pe_request_debouncing = 0, pe_security_enabled = False, pe_routing_host_id = 1,
     pe_client_allowed = (\<lambda>_ _ _. True), pe_credentials = True, pe_receiver_created = True,
     pe_hash_order = sorted_list_of_set\<rparr>"

definition sample_stub :: routing_stub where
  "sample_stub = rs_create\<lparr>rs_service_requests := [0x0101 \<mapsto> put2 0x1234 0x5678 (1, 0) Map.empty],
     rs_local_endpoints := [0x0101 \<mapsto> 7]\<rparr>"

theorem service_reaches_requesters_witness:
  "\<exists>acts ss cmd pacts p'. rs_on_offer_service sample_stub_env 0x0100 0x1234 0x5678 1 0 sample_stub = Some (acts, ss)
    \<and> Stub_send 7 cmd \<in> set acts
    \<and> rp_on_message sample_proxy_env cmd 1 (rp_create 0x0101) = Some (pacts, p')
    \<and> lookup2 (rb_local_services p') 0x1234 0x5678 = Some (1, 0, 0x0100)"
proof -
  have "rs_on_offer_service sample_stub_env 0x0100 0x1234 0x5678 1 0 sample_stub \<noteq> None"
    by (simp add: rs_on_offer_service_def sample_stub_env_def)
  then obtain acts ss1 where offer: "rs_on_offer_service sample_stub_env 0x0100 0x1234 0x5678 1 0 sample_stub = Some (acts, ss1)"
    by auto
  obtain acts' ss2 where stop: "rs_on_stop_offer_service sample_stub_env 0x0100 0x1234 0x5678 1 0 ss1 = (acts', ss2)"
    by fastforce
  have "rs_service_requests sample_stub 0x0101 = Some (put2 0x1234 0x5678 (1, 0) Map.empty)"
    "requests_instance 0x1234 0x5678 (put2 0x1234 0x5678 (1, 0) Map.empty)" "is_application sample_stub_env 0x0101"
    "rs_local_endpoints sample_stub 0x0101 = Some 7"
    "pe_security_enabled sample_proxy_env \<longrightarrow> (1 :: u16) = pe_routing_host_id sample_proxy_env"
    "0x0100 = VSOMEIP_ROUTING_CLIENT \<or> se_offer_allowed sample_stub_env 0x0100 0x1234 0x5678"
    by (simp_all add: sample_stub_def rs_create_def requests_instance_def put2_def is_application_def
        sample_stub_env_def sample_proxy_env_def)
  from service_reaches_requesters [OF offer this(6) stop this(1-5)] offer show ?thesis by blast
qed

section \<open>Registration\<close>

definition registration_heard :: "stub_env \<Rightarrow> u16 \<Rightarrow> event_data \<Rightarrow> stub_action list" where
  "registration_heard env c d =
     (if evd_is_provided d \<and> \<not> se_offered_remote env (evd_service d) (evd_instance d) then []
      else [Stub_register_shadow_event c (evd_service d) (evd_instance d) (evd_event d) (evd_eventgroups d)
              (evd_is_field d) (evd_is_provided d)])"

lemma stub_reads_registration:
  assumes "se_security_enabled env \<longrightarrow> bound = c" and "evd_eventgroups d = {} \<or> evd_eventgroups d = {g}"
  shows "rs_on_message env now (command VSOMEIP_REGISTER_EVENT c (register_event_payload d)) bound ss
    = Some (registration_heard env c d, ss)"
  using assms
  by (auto simp: rs_on_message_def rs_on_register_event_command_def registration_heard_def register_event_payload_def
      command_bytes)

definition allowed_requests :: "stub_env \<Rightarrow> u16 \<Rightarrow> service_data list \<Rightarrow> service_data list" where
  "allowed_requests env c = filter (\<lambda>d. se_client_allowed env c (svc_service d) (svc_instance d))"

definition request_heard :: "u16 \<Rightarrow> service_data \<Rightarrow> stub_action" where
  "request_heard c d = Stub_request_service c (svc_service d) (svc_instance d) (svc_major d) (svc_minor d)
     (svc_use_exclusive_proxy d)"

definition offer_heard :: "u16 \<Rightarrow> service_data \<Rightarrow> stub_action" where
  "offer_heard c d = Stub_offer_service c (svc_service d) (svc_instance d) (svc_major d) (svc_minor d)"

lemma oset_ok_part: "oset_ok key xs \<Longrightarrow> fold (oset_insert key) (filter P xs) [] = filter P xs"
  using fold_oset_insert [of key "[]" "filter P xs"] by (simp add: oset_ok_filter)

lemma stub_reads_requests:
  assumes "se_security_enabled env \<longrightarrow> bound = c" and "10 * length ds < 2 ^ 32" and "oset_ok service_key ds"
  shows "rs_on_message env now (command VSOMEIP_REQUEST_SERVICE c (concat (map request_entry ds))) bound ss
    = Some (followed (map (request_heard c) (allowed_requests env c ds), ss)
        (rs_handle_requests env c (allowed_requests env c ds)))"
proof -
  let ?p = "concat (map request_entry ds)"
  have len: "length ?p = 10 * length ds" by (rule length_concat_const) simp
  then have n: "unat (of_nat (length ?p) :: u32) = 10 * length ds" using stub_header(2) [of ?p] assms(2) by simp
  have "read_requests (command VSOMEIP_REQUEST_SERVICE c ?p) 0 (length ds) = Some ds"
    using read_requests_entries [of VSOMEIP_REQUEST_SERVICE c "[]" ds] by simp
  then have "rs_on_request_command env c (command VSOMEIP_REQUEST_SERVICE c ?p) (of_nat (length ?p)) ss
    = Some (followed (map (request_heard c) (allowed_requests env c ds), ss)
        (rs_handle_requests env c (allowed_requests env c ds)))"
    unfolding rs_on_request_command_def n
    by (simp add: allowed_requests_def request_heard_def [abs_def] oset_ok_part [OF assms(3)] Let_def)
  then show ?thesis
    using assms(1) command_header [of VSOMEIP_REQUEST_SERVICE c ?p] stub_header(3) [of ?p VSOMEIP_REQUEST_SERVICE c] n len
    by (auto simp: rs_on_message_def)
qed

lemma hears_concat:
  assumes "\<And>x. x \<in> set xs \<Longrightarrow> stub_hears env now bound h (f x) ss = Some (g x, ss)"
  shows "stub_hears env now bound h (concat (map f xs)) ss = Some (concat (map g xs), ss)"
  using assms by (induction xs) (simp_all add: stub_hears_append)

text \<open>Actions that write to no endpoint are not heard.\<close>

definition silent :: "routing_action list \<Rightarrow> bool" where
  "silent acts \<longleftrightarrow> (\<forall>h bytes. Endpoint_send h bytes \<notin> set acts)"

lemma hears_silent: "silent acts \<Longrightarrow> stub_hears env now bound h acts ss = Some ([], ss)"
  by (induction acts) (auto simp: silent_def split: routing_action.splits)

lemma silent_find_or_create: "silent (fst (snd (rb_find_or_create_local c p)))"
  by (simp add: silent_def rb_find_or_create_local_def rb_create_local_def Let_def split: option.split)

lemma silent_each: "(\<And>x p. silent (fst (f x p))) \<Longrightarrow> silent (fst (each f xs p))"
  by (induction xs arbitrary: p) (auto simp: silent_def each_Cons followed_simps)

lemma silent_ask: "silent (fst (ask_all_pending env p))"
  unfolding ask_all_pending_def
proof (rule silent_each)
  fix x p
  show "silent (fst (rp_ask_pending x p))"
    using silent_find_or_create [of "fst x" p] by (auto simp: silent_def rp_ask_pending_def split_beta)
qed

lemma hears_pending_commands:
  assumes "se_security_enabled env \<longrightarrow> bound = rb_client p" and "rp_sender p = Some h"
    and "\<And>d. d \<in> set (rp_pending_event_registrations p) \<Longrightarrow> \<exists>g. evd_eventgroups d = {} \<or> evd_eventgroups d = {g}"
    and "10 * length (rp_requests p) < 2 ^ 32" and "oset_ok service_key (rp_requests p)"
  shows "stub_hears env now bound h (rp_send_pending_commands p) ss =
    Some (followed (map (offer_heard (rb_client p)) (rp_pending_offers p)
        @ concat (map (registration_heard env (rb_client p)) (rp_pending_event_registrations p))
        @ map (request_heard (rb_client p)) (allowed_requests env (rb_client p) (rp_requests p)), ss)
      (rs_handle_requests env (rb_client p) (allowed_requests env (rb_client p) (rp_requests p))))"
proof -
  let ?c = "rb_client p"
  note sender = stub_hears_sender [OF assms(2)]
  have offers: "stub_hears env now bound h (concat (map (\<lambda>po. rp_send_offer_service (svc_service po) (svc_instance po)
      (svc_major po) (svc_minor po) p) (rp_pending_offers p))) ss = Some (map (offer_heard ?c) (rp_pending_offers p), ss)"
    by (subst hears_concat [where g = "\<lambda>d. [offer_heard ?c d]"])
      (simp_all add: rp_send_offer_service_def sender offer_heard_def [abs_def]
        stub_reads(1) [OF assms(1), unfolded VSOMEIP_OFFER_SERVICE_def])
  have regs: "stub_hears env now bound h (concat (map (\<lambda>per. rp_send_register_event per p) (rp_pending_event_registrations p))) ss
      = Some (concat (map (registration_heard env ?c) (rp_pending_event_registrations p)), ss)"
  proof (rule hears_concat)
    fix d
    assume "d \<in> set (rp_pending_event_registrations p)"
    then obtain g where "evd_eventgroups d = {} \<or> evd_eventgroups d = {g}" using assms(3) by blast
    then show "stub_hears env now bound h (rp_send_register_event d p) ss = Some (registration_heard env ?c d, ss)"
      unfolding rp_send_register_event_def sender by (rule stub_reads_registration [OF assms(1)])
  qed
  have reqs: "stub_hears env now bound h (rp_send_request_services (rp_requests p) p) ss
      = Some (followed (map (request_heard ?c) (allowed_requests env ?c (rp_requests p)), ss)
          (rs_handle_requests env ?c (allowed_requests env ?c (rp_requests p))))"
    using assms(4) stub_reads_requests [OF assms(1,4,5)]
    by (cases "rp_requests p = []")
      (simp_all add: rp_send_request_services_def sender allowed_requests_def rs_handle_requests_def)
  show ?thesis
    unfolding rp_send_pending_commands_def stub_hears_append offers
    by (simp add: regs reqs followed_def split: prod.split)
qed

lemma connect_registers:
  assumes "rp_sender p = Some h" and "rp_is_started p" and "rp_on_connect h p = (acts, p')"
  shows "p' = p\<lparr>rp_is_connected := True, rp_state := ST_REGISTERING\<rparr>"
    and "acts = [Endpoint_set_connected h, Endpoint_send h (command VSOMEIP_REGISTER_APPLICATION (rb_client p) []),
      Timer_cancel register_application_timer, Timer_start register_application_timer 1000]"
  using assms by (simp_all add: rp_on_connect_def rp_register_application_def to_sender_def followed_def Let_def)

lemma process_registration:
  assumes "rs_pending_client_registrations ss = [c \<mapsto> [REGISTER]]" and "rs_local_endpoints ss c = None"
  shows "rs_is_registered c (snd (rs_process_registrations env ss))"
    and "fst (rs_process_registrations env ss) = [Stub_create_local c, Stub_send (rs_next_endpoint ss)
      (info_command (se_client env) [(RIE_ADD_CLIENT, c, ANY_SERVICE, ANY_INSTANCE, ANY_MAJOR, ANY_MINOR)])]"
proof -
  let ?ss = "ss\<lparr>rs_pending_client_registrations := Map.empty\<rparr>"
  have skip: "each f [] = (\<lambda>ss. ([], ss))" for f :: "u16 \<times> registration_type \<Rightarrow> routing_stub \<Rightarrow> stub_result"
    by (rule ext) simp
  have batch: "rs_process_registrations env ss = rs_process_registration env (c, REGISTER) ?ss"
    unfolding rs_process_registrations_def by (simp add: assms(1) keys_of_def each_Cons skip)
  have result: "rs_process_registration env (c, REGISTER) ?ss =
      followed (rs_on_register_application c ?ss) (rs_tell_client env c RIE_ADD_CLIENT c)"
    by (simp add: rs_process_registration_def)
  have "rs_local_endpoints (snd (rs_on_register_application c ?ss)) c = Some (rs_next_endpoint ss)"
    "rs_routing_info (snd (rs_on_register_application c ?ss)) c \<noteq> None"
    "fst (rs_on_register_application c ?ss) = [Stub_create_local c]"
    using assms(2) by (simp_all add: rs_on_register_application_def)
  then show "rs_is_registered c (snd (rs_process_registrations env ss))"
    "fst (rs_process_registrations env ss) = [Stub_create_local c, Stub_send (rs_next_endpoint ss)
      (info_command (se_client env) [(RIE_ADD_CLIENT, c, ANY_SERVICE, ANY_INSTANCE, ANY_MAJOR, ANY_MINOR)])]"
    unfolding batch result by (simp_all add: followed_simps rs_tell_client_def rs_is_registered_def tell_eq)
qed

lemma ask_all_pending_state: "rp_state (snd (ask_all_pending env p)) = rp_state p"
  unfolding ask_all_pending_def
  by (rule each_keeps)
    (simp_all add: rp_ask_pending_def rb_find_or_create_local_def rb_create_local_def Let_def split_beta split: option.split)

lemma hears_registered:
  assumes "se_security_enabled env \<longrightarrow> bound = rb_client p" and "rp_sender p = Some h"
    and "pe_security_enabled penv \<longrightarrow> host = pe_routing_host_id penv"
    and "\<And>d. d \<in> set (rp_pending_event_registrations p) \<Longrightarrow> \<exists>g. evd_eventgroups d = {} \<or> evd_eventgroups d = {g}"
    and "10 * length (rp_requests p) < 2 ^ 32" and "oset_ok service_key (rp_requests p)"
  obtains acts p' where "rp_on_message penv (info_command c0 [(RIE_ADD_CLIENT, rb_client p, s, i, major, minor)]) host p
      = Some (acts, p')" and "rp_state p' = ST_REGISTERED"
    and "stub_hears env now bound h acts ss =
      Some (followed (map (offer_heard (rb_client p)) (rp_pending_offers p)
        @ concat (map (registration_heard env (rb_client p)) (rp_pending_event_registrations p))
        @ map (request_heard (rb_client p)) (allowed_requests env (rb_client p) (rp_requests p)), ss)
      (rs_handle_requests env (rb_client p) (allowed_requests env (rb_client p) (rp_requests p))))"
proof -
  let ?p = "p\<lparr>rp_known_clients := insert (rb_client p) (rp_known_clients p)\<rparr>"
  let ?r = "followed (rp_client_added (rb_client p) p) (ask_all_pending penv)"
  have msg: "rp_on_message penv (info_command c0 [(RIE_ADD_CLIENT, rb_client p, s, i, major, minor)]) host p = Some ?r"
    unfolding learns_one [OF assms(3)] by (simp add: learn_def names_service_def rp_routing_client_def)
  have added: "rp_client_added (rb_client p) p = ([Host_on_state True, Timer_cancel register_application_timer]
      @ rp_send_registered_ack ?p @ rp_send_pending_commands ?p, ?p\<lparr>rp_state := ST_REGISTERED\<rparr>)"
    by (simp add: rp_client_added_def Let_def)
  have ack: "stub_hears env now bound h (rp_send_registered_ack ?p) ss = Some ([], ss)"
    unfolding rp_send_registered_ack_def using assms(2) stub_reads(14) [OF assms(1)]
    by (subst stub_hears_sender) simp_all
  note pending = hears_pending_commands [where p = ?p and env = env and bound = bound and h = h and now = now and ss = ss]
  show thesis
  proof (rule that [of "fst ?r" "snd ?r"])
    show "rp_state (snd ?r) = ST_REGISTERED" by (simp add: followed_simps added ask_all_pending_state)
    show "stub_hears env now bound h (fst ?r) ss =
      Some (followed (map (offer_heard (rb_client p)) (rp_pending_offers p)
        @ concat (map (registration_heard env (rb_client p)) (rp_pending_event_registrations p))
        @ map (request_heard (rb_client p)) (allowed_requests env (rb_client p) (rp_requests p)), ss)
      (rs_handle_requests env (rb_client p) (allowed_requests env (rb_client p) (rp_requests p))))"
      unfolding followed_simps added fst_conv stub_hears_append
      using pending assms(1,2,4-) ack
      by (simp add: hears_silent [OF silent_ask] followed_def split: prod.split)
  qed (use msg in simp)
qed

text \<open>
  C15. The handshake of an application with the routing manager.  A proxy that gets connected sends its
  registration; the stub, with no other registration pending, processes it: the application is
  registered and told so; on that command the proxy is registered, whatever else it does, and the stub
  hears every offer, every event registration and every request that was made before, each once and
  in order, and answers the requests.  Each event registration is assumed to name at most one eventgroup;
  for two, the stub hears another registration than was made.  Requests that the policy does not allow
  are left out, and so are registrations of provided events of services that are not offered to remote
  applications.
\<close>

theorem registration_handshake:
  assumes stub_trusts: "se_security_enabled env \<longrightarrow> bound = rb_client p"
    and proxy_trusts: "pe_security_enabled penv \<longrightarrow> host = pe_routing_host_id penv"
    and connect: "rp_sender p = Some h" "rp_is_started p" "rp_on_connect h p = (acts1, p1)"
    and fresh: "rs_local_endpoints ss (rb_client p) = None" "rs_pending_client_registrations ss = Map.empty"
    and groups: "\<And>d. d \<in> set (rp_pending_event_registrations p) \<Longrightarrow> \<exists>g. evd_eventgroups d = {} \<or> evd_eventgroups d = {g}"
    and requests: "10 * length (rp_requests p) < 2 ^ 32" "oset_ok service_key (rp_requests p)"
  shows "rp_state p1 = ST_REGISTERING
    \<and> (\<exists>ss1 acts2 ss2 cmd acts3 p2. stub_hears env now bound h acts1 ss = Some ([], ss1)
        \<and> rs_process_registrations env ss1 = (acts2, ss2) \<and> rs_is_registered (rb_client p) ss2
        \<and> Stub_send (rs_next_endpoint ss) cmd \<in> set acts2
        \<and> rp_on_message penv cmd host p1 = Some (acts3, p2) \<and> rp_state p2 = ST_REGISTERED
        \<and> stub_hears env now' bound h acts3 ss2 =
            Some (followed (map (offer_heard (rb_client p)) (rp_pending_offers p)
                @ concat (map (registration_heard env (rb_client p)) (rp_pending_event_registrations p))
                @ map (request_heard (rb_client p)) (allowed_requests env (rb_client p) (rp_requests p)), ss2)
              (rs_handle_requests env (rb_client p) (allowed_requests env (rb_client p) (rp_requests p)))))"
proof -
  let ?ss1 = "ss\<lparr>rs_pending_client_registrations := [rb_client p \<mapsto> [REGISTER]]\<rparr>"
  note p1 = connect_registers [OF connect]
  have heard: "stub_hears env now bound h acts1 ss = Some ([], ?ss1)"
    unfolding p1(2) using stub_reads(11) [OF stub_trusts] fresh(2) by (simp add: rs_update_registration_def)
  note registered = process_registration [of ?ss1 "rb_client p" env]
  have "rp_state p1 = ST_REGISTERING" by (simp add: p1)
  moreover obtain acts3 p2 where "rp_on_message penv (info_command (se_client env)
        [(RIE_ADD_CLIENT, rb_client p, ANY_SERVICE, ANY_INSTANCE, ANY_MAJOR, ANY_MINOR)]) host p1 = Some (acts3, p2)"
    "rp_state p2 = ST_REGISTERED"
    "stub_hears env now' bound h acts3 (snd (rs_process_registrations env ?ss1)) =
      Some (followed (map (offer_heard (rb_client p)) (rp_pending_offers p)
        @ concat (map (registration_heard env (rb_client p)) (rp_pending_event_registrations p))
        @ map (request_heard (rb_client p)) (allowed_requests env (rb_client p) (rp_requests p)),
          snd (rs_process_registrations env ?ss1))
      (rs_handle_requests env (rb_client p) (allowed_requests env (rb_client p) (rp_requests p))))"
    using hears_registered [of env bound p1 h penv host] stub_trusts proxy_trusts connect(1) groups requests
    unfolding p1(1) by simp blast
  ultimately show ?thesis
    using heard registered fresh(1) by (intro conjI exI [where x = ?ss1]) (auto intro!: exI prod.collapse [symmetric])
qed

definition sample_service :: service_data where
  "sample_service = \<lparr>svc_service = 0x1234, svc_instance = 0x5678, svc_major = 1, svc_minor = 0, svc_use_exclusive_proxy = False\<rparr>"

definition sample_proxy :: routing_proxy where
  "sample_proxy = (rp_create 0x0101)\<lparr>rp_sender := Some 0, rp_is_started := True, rp_pending_offers := [sample_service],
     rp_requests := [sample_service]\<rparr>"

lemma sample_proxy_simps:
  "rb_client sample_proxy = 0x0101" "rp_sender sample_proxy = Some 0" "rp_is_started sample_proxy"
  "rp_pending_event_registrations sample_proxy = []" "rp_pending_offers sample_proxy = [sample_service]"
  "rp_requests sample_proxy = [sample_service]"
  by (simp_all add: sample_proxy_def rp_create_def routing_base.defs routing_proxy.defs rb_init_def)

theorem registration_handshake_witness:
  "\<exists>cmd acts p2. rp_on_message sample_proxy_env cmd 1 (snd (rp_on_connect 0 sample_proxy)) = Some (acts, p2)
    \<and> rp_state p2 = ST_REGISTERED
    \<and> (\<exists>ss r. stub_hears sample_stub_env 0 0x0101 0 acts ss = Some r
        \<and> Stub_offer_service 0x0101 0x1234 0x5678 1 0 \<in> set (fst r)
        \<and> Stub_request_service 0x0101 0x1234 0x5678 1 0 False \<in> set (fst r))"
proof -
  obtain acts1 p1 where connect: "rp_on_connect 0 sample_proxy = (acts1, p1)" by fastforce
  have "oset_ok service_key (rp_requests sample_proxy)" by (simp add: sample_proxy_simps oset_ok_def)
  moreover have "allowed_requests sample_stub_env 0x0101 [sample_service] = [sample_service]"
    by (simp add: allowed_requests_def sample_stub_env_def)
  ultimately show ?thesis
    using registration_handshake [where p = sample_proxy and env = sample_stub_env and penv = sample_proxy_env
        and bound = "0x0101" and host = 1 and h = 0 and ss = rs_create and now' = 0, OF _ _ _ _ connect] connect
    by (fastforce simp: sample_proxy_simps rs_create_def sample_stub_env_def sample_proxy_env_def followed_simps
        offer_heard_def request_heard_def sample_service_def)
qed

section \<open>Where the stub reads something else than the proxy wrote\<close>

text \<open>
  C40. The loop of the stub over the eventgroups of a registration advances by one byte instead of
  two: a registration for two eventgroups is taken for one of three, the third made of the upper byte of
  the first and the lower byte of the second.
\<close>

theorem registration_gains_eventgroup:
  assumes "se_security_enabled env \<longrightarrow> bound = c" and "evd_eventgroups d = {g, g'}" and "g < g'"
    and "\<not> evd_is_provided d"
  shows "rs_on_message env now (command VSOMEIP_REGISTER_EVENT c (register_event_payload d)) bound ss
    = Some ([Stub_register_shadow_event c (evd_service d) (evd_instance d) (evd_event d)
        {g, VSOMEIP_BYTES_TO_WORD (VSOMEIP_WORD_BYTE0 g') (VSOMEIP_WORD_BYTE1 g), g'} (evd_is_field d) False], ss)"
proof -
  have "sorted_list_of_set {g, g'} = [g, g']"
    using assms(3) less_imp_le [OF assms(3)] by (simp add: sorted_list_of_set_insert_remove)
  then show ?thesis
    using assms(1,2,4)
    by (auto simp: rs_on_message_def rs_on_register_event_command_def register_event_payload_def command_bytes
        numeral_3_eq_3)
qed

definition sample_registration :: event_data where
  "sample_registration = \<lparr>evd_service = 0x1234, evd_instance = 0x5678, evd_event = 0x8001, evd_is_field = False,
     evd_is_provided = False, evd_eventgroups = {0x0102, 0x0304}\<rparr>"

theorem registration_gains_eventgroup_witness:
  "rs_on_message sample_stub_env 0 (command VSOMEIP_REGISTER_EVENT 0x0101 (register_event_payload sample_registration))
      0x0101 rs_create
    = Some ([Stub_register_shadow_event 0x0101 0x1234 0x5678 0x8001 {0x0102, 0x0401, 0x0304} False False], rs_create)"
proof -
  have "VSOMEIP_BYTES_TO_WORD (VSOMEIP_WORD_BYTE0 0x0304) (VSOMEIP_WORD_BYTE1 0x0102) = 0x0401"
    by (simp add: byteorder_defs)
  then show ?thesis
    using registration_gains_eventgroup [where d = sample_registration and env = sample_stub_env and c = "0x0101"
        and bound = "0x0101" and now = 0 and ss = rs_create and g = "0x0102" and g' = "0x0304"]
    by (simp add: sample_registration_def)
qed

text \<open>
  The notification that the stub hands to its host is one byte longer than the message: the size is
  reduced by the instance and two of the three flags, and the first byte of the instance stays behind.
\<close>

theorem notification_gains_byte:
  assumes "se_security_enabled env \<longrightarrow> bound = rb_client p" and "2 \<le> length data" and "length data + 5 < 2 ^ 32"
    and "rb_send_local h c data i flush reliable VSOMEIP_NOTIFY crc p = Endpoint_send h cmd"
  shows "rs_on_message env now cmd bound ss = Some ([Stub_on_notification VSOMEIP_ROUTING_CLIENT
      (VSOMEIP_BYTES_TO_WORD (data ! 0) (data ! 1)) i (data @ [VSOMEIP_WORD_BYTE0 i]) False], ss)"
proof -
  let ?payload = "data @ le16 i @ le_bool flush @ le_bool reliable @ le_bool crc"
  have cmd: "cmd = command VSOMEIP_NOTIFY (rb_client p) ?payload"
    using assms(4) by (simp add: rb_send_local_def)
  have "length ?payload < 2 ^ 32" using assms(3) by simp
  note header = stub_header [OF this]
  have size: "unat (of_nat (length ?payload) - 4 :: u32) = length data + 1"
  proof -
    have "of_nat (length ?payload) - 4 = (of_nat (length data + 1) :: u32)" by simp
    then show ?thesis using assms(3) by (simp only: unsigned_of_nat) (simp add: take_bit_nat_eq_self)
  qed
  have "mem16 cmd (length cmd - 5) = Some i"
    unfolding cmd using mem_command(1) [of VSOMEIP_NOTIFY "rb_client p" ?payload "length data"] by simp
  moreover have "big16 cmd 7 = Some (VSOMEIP_BYTES_TO_WORD (data ! 0) (data ! 1))"
    unfolding cmd big16_def using assms(2) vec_get_command [of VSOMEIP_NOTIFY "rb_client p" ?payload 0]
      vec_get_command [of VSOMEIP_NOTIFY "rb_client p" ?payload 1] by (auto simp: vec_get_def nth_append)
  moreover have "copy_of cmd 7 (length data + 1) = Some (data @ [VSOMEIP_WORD_BYTE0 i])"
    unfolding cmd copy_of_def command_header(4) by (simp add: le16_def)
  ultimately have "rs_on_notify_command cmd (of_nat (length ?payload)) =
      Some [Stub_on_notification VSOMEIP_ROUTING_CLIENT
        (VSOMEIP_BYTES_TO_WORD (data ! 0) (data ! 1)) i (data @ [VSOMEIP_WORD_BYTE0 i]) False]"
    unfolding rs_on_notify_command_def size by simp
  then show ?thesis
    using assms(1) header unfolding cmd rs_on_message_def by (simp add: command_header(2) [unfolded One_nat_def])
qed

theorem notification_gains_byte_witness:
  "rs_on_message sample_stub_env 0
      (command VSOMEIP_NOTIFY 0x0101 ([0x12, 0x34, 0x80, 0x01] @ le16 0x5678 @ le_bool True @ le_bool False @ le_bool True))
      0x0101 rs_create
    = Some ([Stub_on_notification VSOMEIP_ROUTING_CLIENT 0x1234 0x5678 [0x12, 0x34, 0x80, 0x01, 0x78] False], rs_create)"
proof -
  have "VSOMEIP_BYTES_TO_WORD 0x12 0x34 = 0x1234" "VSOMEIP_WORD_BYTE0 0x5678 = 0x78" by (simp_all add: byteorder_defs)
  then show ?thesis
    using notification_gains_byte [where p = sample_proxy and env = sample_stub_env and bound = "0x0101" and now = 0
        and ss = rs_create and data = "[0x12, 0x34, 0x80, 0x01]" and i = "0x5678" and flush = True and reliable = False
        and crc = True and h = 0 and c = 0]
    by (simp add: sample_proxy_simps sample_stub_env_def rb_send_local_def)
qed

end
