(* ===== verification/Proxy_Messages.thy ===== *)
theory Proxy_Messages
  imports Proxy_Stub
begin

text \<open>
  Messages between the applications of one device: what the proxy of one hands to the endpoint of
  another is the message the other one reports to its application.  The last section holds what the
  proxy does not do as its code intends.
\<close>

section \<open>Sending a message\<close>

text \<open>The message as it is sent: a request carries the client that sends it.\<close>

definition addressed :: "u16 \<Rightarrow> message \<Rightarrow> message" where
  "addressed c m = (if is_request (get_message_type m) then set_client c m else m)"

lemma addressed_simps [simp]:
  "get_message_type (addressed c m) = get_message_type m" "get_service (addressed c m) = get_service m"
  "get_instance (addressed c m) = get_instance m" "payload_bytes (addressed c m) = payload_bytes m"
  "msg_reliable (addressed c m) = msg_reliable m"
  by (simp_all add: addressed_def set_client_def get_message_type_def get_service_def get_instance_def payload_bytes_def)

lemma serialize_addressed:
  "rb_serialize c m (ser_init 0) = Some (message_bytes (addressed c m), get_instance m, msg_reliable m)"
  using writesD [OF writes_message, of "addressed c m" "ser_init 0"]
  by (simp add: rb_serialize_def Let_def ser_init_def flip: addressed_def)

text \<open>The fields of the header that decide where a message goes.\<close>

lemma message_bytes_fields:
  "length (message_bytes m) = 16 + length (payload_bytes m)" "message_bytes m ! 14 = get_message_type m"
  "VSOMEIP_BYTES_TO_WORD (message_bytes m ! 0) (message_bytes m ! 1) = get_service m"
  "VSOMEIP_BYTES_TO_WORD (message_bytes m ! 8) (message_bytes m ! 9) = get_client m"
  by (simp_all add: message_bytes_def header_bytes_def bytes16_def bytes32_def nth_append get_message_type_def
      get_service_def get_client_def)

text \<open>The application a message goes to directly.\<close>

definition addressee :: "message \<Rightarrow> routing_proxy \<Rightarrow> u16" where
  "addressee m p =
     (if is_request (get_message_type m) then rb_find_local_client (get_service m) (get_instance m) p else get_client m)"

definition send_payload :: "byte list \<Rightarrow> u16 \<Rightarrow> bool \<Rightarrow> bool \<Rightarrow> bool \<Rightarrow> byte list" where
  "send_payload data i flush reliable crc = data @ le16 i @ le_bool flush @ le_bool reliable @ le_bool crc"

lemma direct_target:
  assumes "c \<noteq> VSOMEIP_ROUTING_CLIENT" and "c \<in> rp_known_clients p"
  obtains h acts p' where "rp_direct_target c p = (Some h, acts, p')" and "rb_find_local c p' = Some h"
    and "rb_client p' = rb_client p" and "\<forall>h' bytes. Endpoint_send h' bytes \<notin> set acts"
  using assms
  by (cases "rb_find_local c p")
    (auto simp: rp_direct_target_def rp_is_client_known_def rb_find_or_create_local_def rb_create_local_def
      rb_find_local_def Let_def)

lemma sent_directly:
  assumes "rp_state p = ST_REGISTERED" and "\<not> is_notification (get_message_type m)"
    and "addressee m p \<noteq> VSOMEIP_ROUTING_CLIENT" and "addressee m p \<in> rp_known_clients p"
    and "rp_send_message c m flush p = Some (ok, acts, p')"
  obtains h acts0 where "ok" and "rb_find_local (addressee m p) p' = Some h"
    and "acts = acts0 @ [Endpoint_send h (command VSOMEIP_SEND (rb_client p)
      (send_payload (message_bytes (addressed c m)) (get_instance m) flush (msg_reliable m) True))]"
    and "\<forall>h' bytes. Endpoint_send h' bytes \<notin> set acts0"
proof -
  let ?data = "message_bytes (addressed c m)"
  obtain h acts0 p1 where target: "rp_direct_target (addressee m p) p = (Some h, acts0, p1)"
    "rb_find_local (addressee m p) p1 = Some h" "rb_client p1 = rb_client p" "\<forall>h' bytes. Endpoint_send h' bytes \<notin> set acts0"
    using direct_target [OF assms(3,4)] .
  have client: "\<not> is_request (get_message_type m) \<Longrightarrow> get_client (addressed c m) = get_client m"
    by (simp add: addressed_def)
  have "rp_send c ?data (get_instance m) flush (msg_reliable m) True p = Some (True,
      acts0 @ [rb_send_local h (rb_client p) ?data (get_instance m) flush (msg_reliable m) VSOMEIP_SEND True p1], p1)"
    using assms(1,2) target(1,3) message_bytes_fields [of "addressed c m"] client
    by (cases "is_request (get_message_type m)")
      (simp_all add: rp_send_def addressee_def Let_def)
  then have "ok" "acts = acts0 @ [rb_send_local h (rb_client p) ?data (get_instance m) flush (msg_reliable m) VSOMEIP_SEND True p1]"
    "p' = p1"
    using assms(5) by (auto simp: rp_send_message_def serialize_addressed)
  with target show thesis
    by (intro that [of h acts0]) (auto simp: rb_send_local_def send_payload_def)
qed

section \<open>Receiving it\<close>

lemma send_payload_fields:
  assumes "length data + 5 < 2 ^ 32"
  shows "mem16 (command cmd c (send_payload data i flush reliable crc)) (length data + 7) = Some i"
    and "mem_bool (command cmd c (send_payload data i flush reliable crc)) (length data + 10) = Some reliable"
    and "mem_bool (command cmd c (send_payload data i flush reliable crc)) (length data + 11) = Some crc"
    and "copy_of (command cmd c (send_payload data i flush reliable crc)) 7 (length data) = Some data"
proof -
  let ?p = "send_payload data i flush reliable crc"
  have "mem16 ?p (length data) = Some i" by (simp add: send_payload_def)
  moreover have "mem_bool ?p (length data + 3) = Some reliable"
    using mem_bool_at [of "data @ le16 i @ le_bool flush" "length data + 3" reliable "le_bool crc"] by (simp add: send_payload_def)
  moreover have "mem_bool ?p (length data + 4) = Some crc"
    using mem_bool_at [of "data @ le16 i @ le_bool flush @ le_bool reliable" "length data + 4" crc "[]"]
    by (simp add: send_payload_def)
  ultimately show "mem16 (command cmd c ?p) (length data + 7) = Some i"
    "mem_bool (command cmd c ?p) (length data + 10) = Some reliable"
    "mem_bool (command cmd c ?p) (length data + 11) = Some crc"
    using mem_command(1) [of cmd c ?p "length data"] mem_command(3) [of cmd c ?p "length data + 3"]
      mem_command(3) [of cmd c ?p "length data + 4"] by (simp_all add: ac_simps)
  show "copy_of (command cmd c ?p) 7 (length data) = Some data"
    unfolding copy_of_def command_header(4) by (simp add: send_payload_def)
qed

text \<open>The message that arrives.\<close>

definition delivered :: "u16 \<Rightarrow> message \<Rightarrow> message" where
  "delivered c m =
     \<lparr>msg_header = (msg_header (addressed c m))\<lparr>hdr_length := get_length (addressed c m)\<rparr>,
      msg_payload = Some (create_payload (payload_bytes m)), msg_reliable = msg_reliable m, msg_initial = False,
      msg_valid_crc = True\<rparr>"

lemma delivered_fields [simp]:
  "get_message_type (delivered c m) = get_message_type m" "get_service (delivered c m) = get_service m"
  "get_instance (delivered c m) = get_instance m"
  by (simp_all add: delivered_def addressed_def set_client_def get_message_type_def get_service_def get_instance_def)

lemma delivered_is_received:
  "set_is_valid_crc True (set_reliable (msg_reliable m) (set_instance (get_instance m) (received message_init (addressed c m))))
    = delivered c m"
  by (simp add: delivered_def received_def message_init_def message_setters get_instance_def flip: get_instance_def)

lemma receives_message:
  assumes "length (payload_bytes m) + 21 < 2 ^ 32" and "\<not> is_notification (get_message_type m)"
    and "pe_security_enabled env \<longrightarrow> bound = peer"
    and "pe_client_allowed env (if is_request (get_message_type m) then c else rb_client q) (get_service m) (get_instance m)"
  shows "rp_on_message env (command VSOMEIP_SEND peer
      (send_payload (message_bytes (addressed c m)) (get_instance m) flush (msg_reliable m) True)) bound q
    = Some ([Host_on_message (delivered c m)], q)"
proof -
  let ?data = "message_bytes (addressed c m)"
  let ?p = "send_payload ?data (get_instance m) flush (msg_reliable m) True"
  have len: "length ?data = length (payload_bytes m) + 16" by (simp add: message_bytes_fields)
  then have small: "length ?data + 5 < 2 ^ 32" using assms(1) by simp
  have length_p: "length ?p = length ?data + 5" by (simp add: send_payload_def)
  have size: "unat (of_nat (length ?p) - 5 :: u32) = length ?data"
  proof -
    have "of_nat (length ?p) - 5 = (of_nat (length ?data) :: u32)" by (simp add: length_p)
    then show ?thesis using small by (simp only: unsigned_of_nat) (simp add: take_bit_nat_eq_self)
  qed
  have pos: "length (command VSOMEIP_SEND peer ?p) - 5 = length ?data + 7"
    "length (command VSOMEIP_SEND peer ?p) - 2 = length ?data + 10"
    "length (command VSOMEIP_SEND peer ?p) - 1 = length ?data + 11"
    by (simp_all add: length_p)
  have "deserialize_message (des_init_data (?data @ []) 0)
      = Some (Some (received message_init (addressed c m)), advance (length ?data) (des_init_data (?data @ []) 0))"
    unfolding deserialize_message_def using assms(1) by (intro reads_asD [OF reads_message starts_init_append]) simp
  moreover have "rp_allowed env (delivered c m) q"
    using assms(2,4) by (auto simp: rp_allowed_def delivered_def addressed_def set_client_def get_client_def
        get_message_type_def get_service_def get_instance_def)
  ultimately have "rp_on_send_command env (command VSOMEIP_SEND peer ?p) (of_nat (length ?p)) q
      = Some ([Host_on_message (delivered c m)], q)"
    unfolding rp_on_send_command_def size pos send_payload_fields [OF small] using assms(2)
    by (simp add: delivered_is_received)
  then show ?thesis
    using assms(3) unfolding rp_on_message_def
    by (simp add: command_header(2) [unfolded One_nat_def] vec_get_def Let_def del: of_nat_add)
qed

lemma message_arrives:
  assumes sent: "rp_send_message c m flush p = Some (ok, acts, p')" "rp_state p = ST_REGISTERED"
    and kind: "\<not> is_notification (get_message_type m)" "length (payload_bytes m) + 21 < 2 ^ 32"
    and to: "addressee m p \<noteq> VSOMEIP_ROUTING_CLIENT" "addressee m p \<in> rp_known_clients p"
    and trusted: "pe_security_enabled env \<longrightarrow> bound = rb_client p"
    and allowed: "pe_client_allowed env (if is_request (get_message_type m) then c else rb_client q)
      (get_service m) (get_instance m)"
  obtains h cmd where "ok" and "rb_find_local (addressee m p) p' = Some h"
    and "\<forall>h' cmd'. Endpoint_send h' cmd' \<in> set acts \<longleftrightarrow> h' = h \<and> cmd' = cmd"
    and "rp_on_message env cmd bound q = Some ([Host_on_message (delivered c m)], q)"
proof -
  obtain h acts0 where "ok" "rb_find_local (addressee m p) p' = Some h"
    "acts = acts0 @ [Endpoint_send h (command VSOMEIP_SEND (rb_client p)
      (send_payload (message_bytes (addressed c m)) (get_instance m) flush (msg_reliable m) True))]"
    "\<forall>h' bytes. Endpoint_send h' bytes \<notin> set acts0"
    by (rule sent_directly [OF sent(2) kind(1) to sent(1)])
  then show thesis
    using receives_message [OF kind(2,1) trusted allowed, of flush] by (intro that) auto
qed

text \<open>
  A request or response between applications of one device arrives.  A registered proxy that knows
  the addressee (of a request the client that offers the service, of a response the client of the
  request) hands exactly one command to the endpoint of the addressee; whatever its state, the proxy
  that receives it from there reports one message to its application: the one that was sent, header,
  payload, instance and reliability, with the length of its payload and, for a request, the client
  that sends it.
\<close>

theorem message_reaches_application:
  assumes sent: "rp_send_message c m flush p = Some (ok, acts, p')" "rp_state p = ST_REGISTERED"
    and kind: "\<not> is_notification (get_message_type m)" "length (payload_bytes m) + 21 < 2 ^ 32"
    and to: "addressee m p \<noteq> VSOMEIP_ROUTING_CLIENT" "addressee m p \<in> rp_known_clients p"
    and trusted: "pe_security_enabled env \<longrightarrow> bound = rb_client p"
    and allowed: "pe_client_allowed env (if is_request (get_message_type m) then c else rb_client q)
      (get_service m) (get_instance m)"
  shows "ok \<and> (\<exists>h cmd. rb_find_local (addressee m p) p' = Some h
    \<and> (\<forall>h' cmd'. Endpoint_send h' cmd' \<in> set acts \<longleftrightarrow> h' = h \<and> cmd' = cmd)
    \<and> rp_on_message env cmd bound q = Some ([Host_on_message (delivered c m)], q))"
  by (rule message_arrives [OF assms]) blast

lemma send_message_returns:
  "\<not> is_notification (get_message_type m) \<Longrightarrow> \<exists>ok acts p'. rp_send_message c m flush p = Some (ok, acts, p')"
proof -
  assume "\<not> is_notification (get_message_type m)"
  then have "rp_send_message c m flush p \<noteq> None"
    using message_bytes_fields [of "addressed c m"]
    unfolding rp_send_message_def serialize_addressed by (simp add: rp_send_def Let_def del: not_None_eq)
  then show ?thesis by auto
qed

definition sample_peer :: routing_proxy where
  "sample_peer = (rp_create 0x0102)\<lparr>rp_state := ST_REGISTERED, rp_known_clients := {5}\<rparr>"

lemma sample_peer_simps:
  "rp_state sample_peer = ST_REGISTERED" "rp_known_clients sample_peer = {5}" "rb_client sample_peer = 0x0102"
  by (simp_all add: sample_peer_def rp_create_def routing_base.defs routing_proxy.defs rb_init_def)

text \<open>The sample message is a response to the client 5.\<close>

lemma sample_message_simps:
  "get_message_type sample_message = MT_RESPONSE" "get_client sample_message = 5"
  "length (payload_bytes sample_message) = 3"
  by (simp_all add: sample_message_def payload_bytes_def create_payload_def get_message_type_def get_client_def)

theorem message_reaches_application_witness:
  "\<exists>acts p' cmd h. rp_send_message 0x0102 sample_message True sample_peer = Some (True, acts, p')
    \<and> Endpoint_send h cmd \<in> set acts
    \<and> rp_on_message sample_proxy_env cmd 0x0102 (rp_create 5)
      = Some ([Host_on_message (delivered 0x0102 sample_message)], rp_create 5)"
proof -
  have kind: "\<not> is_request (get_message_type sample_message)" "\<not> is_notification (get_message_type sample_message)"
    by (simp_all add: sample_message_simps is_request_def is_notification_def)
  then have to: "addressee sample_message sample_peer = 5"
    by (simp add: addressee_def sample_message_simps)
  obtain ok acts p' where sent: "rp_send_message 0x0102 sample_message True sample_peer = Some (ok, acts, p')"
    using send_message_returns [OF kind(2)] by blast
  show ?thesis
    using message_reaches_application [OF sent sample_peer_simps(1) kind(2), of sample_proxy_env "0x0102" "rp_create 5"]
      sent kind to by (auto simp: sample_message_simps sample_peer_simps sample_proxy_env_def)
qed

text \<open>What a response takes over from the request it answers.\<close>

lemma response_fields:
  assumes "r = set_payload (Some pl) (create_response request)"
  shows "get_message_type r = MT_RESPONSE" "get_service r = get_service request" "get_instance r = get_instance request"
    "get_method r = get_method request" "get_client r = get_client request" "get_session r = get_session request"
    "payload_bytes r = pl_data pl"
  by (simp_all add: assms create_response_def message_setters Let_def payload_bytes_def get_message_type_def
      get_service_def get_instance_def get_method_def get_client_def get_session_def)

lemma delivered_more:
  "get_method (delivered c m) = get_method m" "get_session (delivered c m) = get_session m"
  "payload_bytes (delivered c m) = payload_bytes m"
  "get_client (delivered c m) = (if is_request (get_message_type m) then c else get_client m)"
  by (simp_all add: delivered_def addressed_def set_client_def get_method_def get_session_def get_client_def
      payload_bytes_def create_payload_def get_message_type_def)

text \<open>
  C16. A method call between two applications of one device.  A request that a registered application
  sends to the provider it knows is reported by the provider's proxy; the response that the provider
  makes of it goes to the endpoint of the requester (which it knows), and the requester's proxy reports
  a message of the same service, instance, method and session, under the requester's client, with the
  payload of the response.
\<close>

theorem request_is_answered:
  assumes request: "is_request (get_message_type m)" "\<not> is_notification (get_message_type m)"
      "length (payload_bytes m) + 21 < 2 ^ 32" "rp_send_message (rb_client p) m flush p = Some (ok, acts, p')"
    and requester: "rp_state p = ST_REGISTERED" "addressee m p \<noteq> VSOMEIP_ROUTING_CLIENT" "addressee m p \<in> rp_known_clients p"
    and provider: "rp_state q = ST_REGISTERED" "rb_client p \<noteq> VSOMEIP_ROUTING_CLIENT" "rb_client p \<in> rp_known_clients q"
    and response: "r = set_payload (Some pl) (create_response (delivered (rb_client p) m))"
      "length (pl_data pl) + 21 < 2 ^ 32" "rp_send_message (rb_client q) r flush' q = Some (ok', acts', q')"
    and allowed: "pe_client_allowed env (rb_client p) (get_service m) (get_instance m)"
      "pe_client_allowed env' (rb_client p') (get_service m) (get_instance m)"
  shows "\<exists>h cmd h' cmd' r'. rb_find_local (addressee m p) p' = Some h \<and> Endpoint_send h cmd \<in> set acts
    \<and> rp_on_message env cmd (rb_client p) q = Some ([Host_on_message (delivered (rb_client p) m)], q)
    \<and> rb_find_local (rb_client p) q' = Some h' \<and> Endpoint_send h' cmd' \<in> set acts'
    \<and> rp_on_message env' cmd' (rb_client q) p' = Some ([Host_on_message r'], p')
    \<and> get_message_type r' = MT_RESPONSE \<and> get_service r' = get_service m \<and> get_instance r' = get_instance m
    \<and> get_method r' = get_method m \<and> get_session r' = get_session m \<and> get_client r' = rb_client p
    \<and> payload_bytes r' = pl_data pl"
proof -
  note fields = response_fields [OF response(1)] delivered_more
  have kind: "\<not> is_request (get_message_type r)" "\<not> is_notification (get_message_type r)"
    by (simp_all add: fields is_request_def is_notification_def)
  have to: "addressee r q = rb_client p" using kind(1) request(1) by (simp add: addressee_def fields)
  have call_allowed: "pe_client_allowed env (if is_request (get_message_type m) then rb_client p else rb_client q)
      (get_service m) (get_instance m)" using request(1) allowed(1) by simp
  have return_allowed: "pe_client_allowed env' (if is_request (get_message_type r) then rb_client q else rb_client p')
      (get_service r) (get_instance r)" using kind(1) allowed(2) by (simp add: fields)
  have size: "length (payload_bytes r) + 21 < 2 ^ 32" using response(2) by (simp add: fields)
  have here: "addressee r q \<noteq> VSOMEIP_ROUTING_CLIENT" "addressee r q \<in> rp_known_clients q"
    unfolding to by (fact provider)+
  obtain h cmd where first: "rb_find_local (addressee m p) p' = Some h"
    "\<forall>h' cmd'. Endpoint_send h' cmd' \<in> set acts \<longleftrightarrow> h' = h \<and> cmd' = cmd"
    "rp_on_message env cmd (rb_client p) q = Some ([Host_on_message (delivered (rb_client p) m)], q)"
    by (rule message_arrives [OF request(4) requester(1) request(2,3) requester(2,3) impI [OF refl] call_allowed])
  obtain h' cmd' where second: "rb_find_local (addressee r q) q' = Some h'"
    "\<forall>h cmd. Endpoint_send h cmd \<in> set acts' \<longleftrightarrow> h = h' \<and> cmd = cmd'"
    "rp_on_message env' cmd' (rb_client q) p' = Some ([Host_on_message (delivered (rb_client q) r)], p')"
    by (rule message_arrives [OF response(3) provider(1) kind(2) size here impI [OF refl] return_allowed])
  show ?thesis
    using first second kind(1) request(1)
    by (intro exI [of _ h] exI [of _ cmd] exI [of _ h'] exI [of _ cmd'] exI [of _ "delivered (rb_client q) r"])
      (simp add: fields to)
qed

definition sample_caller :: routing_proxy where
  "sample_caller = (rp_create 5)\<lparr>rp_state := ST_REGISTERED, rp_known_clients := {0x0102},
     rb_local_services := put2 0x1234 0x5678 (1, 0, 0x0102) Map.empty, rb_local_endpoints := [0x0102 \<mapsto> 3]\<rparr>"

definition sample_call :: message where
  "sample_call = set_service 0x1234 (set_instance 0x5678 (set_message_type MT_REQUEST message_init))"

lemma sample_call_simps:
  "get_message_type sample_call = MT_REQUEST" "get_service sample_call = 0x1234" "get_instance sample_call = 0x5678"
  "payload_bytes sample_call = []"
  by (simp_all add: sample_call_def message_setters message_init_def get_message_type_def get_service_def
      get_instance_def payload_bytes_def create_payload_def)

lemma sample_caller_simps:
  "rp_state sample_caller = ST_REGISTERED" "rp_known_clients sample_caller = {0x0102}" "rb_client sample_caller = 5"
  "rb_find_local_client 0x1234 0x5678 sample_caller = 0x0102"
  by (simp_all add: sample_caller_def rp_create_def routing_base.defs routing_proxy.defs rb_init_def rb_find_local_client_def
      lookup2_def put2_def)

theorem request_is_answered_witness:
  "\<exists>cmd p' r'. rp_on_message sample_proxy_env cmd 5 sample_peer = Some ([Host_on_message (delivered 5 sample_call)], sample_peer)
    \<and> (\<exists>cmd'. rp_on_message sample_proxy_env cmd' 0x0102 p' = Some ([Host_on_message r'], p'))
    \<and> get_service r' = 0x1234 \<and> get_client r' = 5 \<and> payload_bytes r' = [1, 2, 3]"
proof -
  have kind: "is_request (get_message_type sample_call)" "\<not> is_notification (get_message_type sample_call)"
    by (simp_all add: sample_call_simps is_request_def is_notification_def)
  have to: "addressee sample_call sample_caller = 0x0102"
    using kind(1) by (simp add: addressee_def sample_call_simps sample_caller_simps)
  let ?r = "set_payload (Some (create_payload [1, 2, 3])) (create_response (delivered (rb_client sample_caller) sample_call))"
  have "\<not> is_notification (get_message_type ?r)" by (simp add: response_fields(1) [OF refl] is_notification_def)
  then obtain ok' acts' q' where response: "rp_send_message (rb_client sample_peer) ?r True sample_peer = Some (ok', acts', q')"
    using send_message_returns by blast
  obtain ok acts p' where request: "rp_send_message (rb_client sample_caller) sample_call True sample_caller = Some (ok, acts, p')"
    using send_message_returns [OF kind(2)] by blast
  have "\<exists>h cmd h' cmd' r'. rb_find_local (addressee sample_call sample_caller) p' = Some h \<and> Endpoint_send h cmd \<in> set acts
    \<and> rp_on_message sample_proxy_env cmd (rb_client sample_caller) sample_peer
        = Some ([Host_on_message (delivered (rb_client sample_caller) sample_call)], sample_peer)
    \<and> rb_find_local (rb_client sample_caller) q' = Some h' \<and> Endpoint_send h' cmd' \<in> set acts'
    \<and> rp_on_message sample_proxy_env cmd' (rb_client sample_peer) p' = Some ([Host_on_message r'], p')
    \<and> get_message_type r' = MT_RESPONSE \<and> get_service r' = get_service sample_call \<and> get_instance r' = get_instance sample_call
    \<and> get_method r' = get_method sample_call \<and> get_session r' = get_session sample_call
    \<and> get_client r' = rb_client sample_caller \<and> payload_bytes r' = pl_data (create_payload [1, 2, 3])"
    by (rule request_is_answered [OF kind _ request _ _ _ _ _ _ refl _ response])
      (simp_all add: sample_call_simps sample_caller_simps sample_peer_simps to sample_proxy_env_def create_payload_def)
  then obtain cmd cmd' r' where
    "rp_on_message sample_proxy_env cmd 5 sample_peer = Some ([Host_on_message (delivered 5 sample_call)], sample_peer)"
    "rp_on_message sample_proxy_env cmd' 0x0102 p' = Some ([Host_on_message r'], p')"
    "get_service r' = 0x1234" "get_client r' = 5" "payload_bytes r' = pl_data (create_payload [1, 2, 3])"
    unfolding sample_caller_simps sample_peer_simps sample_call_simps by (elim exE conjE)
  then show ?thesis
    by (intro exI [of _ cmd] exI [of _ p'] exI [of _ r'] conjI exI [of _ cmd']) (simp_all add: create_payload_def)
qed

section \<open>What the proxy does not do as intended\<close>

text \<open>
  Releasing a service does not withdraw a request of it that is still being debounced: the loop that
  looks for it runs to the end of the set and erases nothing.  The stub is not told of the release, and
  when the timer expires the request is sent all the same.
\<close>

theorem released_request_is_sent:
  assumes "d \<in> set (rp_requests_to_debounce p)" and "same_service s i d" and "rp_state p = ST_REGISTERED"
    and "rp_release_service c s i p = (acts, p1)" and "rp_request_debounce_timeout_cbk env False p1 = (acts', p2)"
  shows "acts = [] \<and> acts' = rp_send_request_services (rp_requests_to_debounce p) p1
    \<and> rp_requests p2 = fold (oset_insert service_key) (rp_requests_to_debounce p) (rp_requests p1)"
proof -
  let ?st = "rb_remove_pending_subscription s i 0xFFFF ANY_EVENT (rb_release_service c s i p)"
  have kept: "rp_requests_to_debounce ?st = rp_requests_to_debounce p" "rp_state ?st = rp_state p"
    by (simp_all add: rb_remove_pending_subscription_def rb_release_service_def put_info_def split: option.split)
  have "list_ex (same_service s i) (rp_requests_to_debounce ?st)"
    using assms(1,2) by (auto simp: kept list_ex_iff)
  then have "acts = []" "rp_requests_to_debounce p1 = rp_requests_to_debounce p" "rp_state p1 = ST_REGISTERED"
    using assms(3,4) kept by (auto simp: rp_release_service_def Let_def)
  moreover have "rp_requests_to_debounce p \<noteq> []" using assms(1) by auto
  ultimately show ?thesis using assms(5) by (auto simp: rp_request_debounce_timeout_cbk_def)
qed

theorem released_request_is_sent_witness:
  "\<exists>p1. rp_release_service 5 0x1234 0x5678 (sample_caller\<lparr>rp_requests_to_debounce := [sample_service]\<rparr>) = ([], p1)
    \<and> fst (rp_request_debounce_timeout_cbk sample_proxy_env False p1) = rp_send_request_services [sample_service] p1"
proof -
  let ?p = "sample_caller\<lparr>rp_requests_to_debounce := [sample_service]\<rparr>"
  have "sample_service \<in> set (rp_requests_to_debounce ?p)" "same_service 0x1234 0x5678 sample_service"
    "rp_state ?p = ST_REGISTERED"
    by (simp_all add: same_service_def sample_service_def sample_caller_simps)
  from released_request_is_sent [OF this prod.collapse [symmetric] prod.collapse [symmetric], of 5 sample_proxy_env]
  show ?thesis by (intro exI [of _ "snd (rp_release_service 5 0x1234 0x5678 ?p)"]) (simp add: prod_eq_iff)
qed

text \<open>
  A subscription of a remote client that the application rejects is entered like an accepted one: but
  for the answer, which is a negative acknowledgement, the proxy is left in the same state.
\<close>

theorem rejected_subscription_is_entered:
  "snd (rp_answer_remote env False c s i g ev sid p) = snd (rp_answer_remote env True c s i g ev sid p)
    \<and> (\<exists>acts. fst (rp_answer_remote env False c s i g ev sid p) = rp_send_subscribe_nack c s i g ev sid p @ acts
        \<and> fst (rp_answer_remote env True c s i g ev sid p) = rp_send_subscribe_ack c s i g ev sid p @ acts)"
  unfolding rp_answer_remote_def Let_def by (simp add: followed_simps split: prod.split)

text \<open>
  A command of six bytes passes the size check of proxy and stub, and the size field, of which the
  last byte was not received, is read behind the end of the buffer.
\<close>

theorem short_command_overread:
  assumes "length data = 6"
  shows "rp_on_message env data bound p = None \<and> (\<not> se_security_enabled senv \<longrightarrow> rs_on_message senv now data bound ss = None)"
proof -
  have "mem32 data 3 = None" using assms by (simp add: mem32_def vec_get_def)
  moreover obtain c where "mem16 data (Suc 0) = Some c" using assms by (simp add: mem16_def vec_get_def)
  ultimately show ?thesis
    using assms by (simp add: rp_on_message_def rs_on_message_def vec_get_def)
qed

end
