(* ===== verification/Proxy_Invariant.thy ===== *)
theory Proxy_Invariant
  imports Proxy_Messages
begin

text \<open>
  The states a proxy can get into: whatever its application, its endpoints, its timers and the
  commands it receives make it do, its tables stay well-formed.
\<close>

section \<open>What the operations of the base leave alone\<close>

text \<open>
  The part of the state that belongs to the derived class, the notifications kept for later, and the
  client.
\<close>

definition rest :: "'a routing_base_scheme \<Rightarrow> 'a \<times> (u16, u16, u16, message) map3 \<times> u16" where
  "rest st = (routing_base.more st, rb_pending_notify_ones st, rb_client st)"

lemma rest_put [simp]:
  "rest (put_event r e st) = rest st" "rest (put_info r x st) = rest st" "rest (put_group s i g y st) = rest st"
  "rest (on_events f R st) = rest st" "rest (st\<lparr>rb_events := evs\<rparr>) = rest st" "rest (st\<lparr>rb_next_event := n\<rparr>) = rest st"
  "rest (st\<lparr>rb_eventgroups := gs\<rparr>) = rest st" "rest (st\<lparr>rb_local_endpoints := eps\<rparr>) = rest st"
  "rest (st\<lparr>rb_next_endpoint := n\<rparr>) = rest st"
  "rest (st\<lparr>rb_local_services := svcs\<rparr>) = rest st" "rest (st\<lparr>rb_services := ss\<rparr>) = rest st"
  "rest (st\<lparr>rb_services_remote := ss\<rparr>) = rest st" "rest (st\<lparr>rb_next_info := n\<rparr>) = rest st"
  "rest (st\<lparr>rb_pending_subscriptions := ds\<rparr>) = rest st"
  by (simp_all add: rest_def put_event_def put_info_def put_group_def on_events_def)

lemma rest_find_eventgroup [simp]: "rest (snd (rb_find_eventgroup env s i g st)) = rest st"
  using find_eventgroup_spec [of st s i g env] by auto

lemma rest_found: "rb_find_eventgroup env s i g st = (x, st') \<Longrightarrow> rest st' = rest st"
  using rest_find_eventgroup [of env s i g st] by simp

lemma rest_fold: "(\<And>x st. rest (f x st) = rest st) \<Longrightarrow> rest (fold f xs st) = rest st"
  by (induction xs arbitrary: st) simp_all

lemma rest_join [simp]: "rest (join_eventgroup env s i r g st) = rest st"
  by (auto simp: join_eventgroup_def rest_found split: prod.split)

lemma rest_leave [simp]: "rest (leave_eventgroup env s i r g st) = rest st"
  by (auto simp: leave_eventgroup_def rb_remove_eventgroup_info_def Let_def rest_found split: prod.split option.split)

lemma rest_events [simp]:
  "rest (rb_register_event env c s i ev gs is_field cycle resets epsilon is_provided is_shadow placeholder st) = rest st"
  "rest (rb_unregister_event env c s i ev is_provided st) = rest st"
  "rest (rb_unsubscribe env c s i g ev st) = rest st"
proof -
  have "rest (fold (join_eventgroup env s i r) gs st) = rest st" for r gs and st :: "'a routing_base_scheme"
    by (rule rest_fold) simp
  then show "rest (rb_register_event env c s i ev gs is_field cycle resets epsilon is_provided is_shadow placeholder st) = rest st"
    unfolding register_event_eq by (simp add: Let_def split: prod.split)
  have "rest (fold (leave_eventgroup env s i r) gs st) = rest st" for r gs and st :: "'a routing_base_scheme"
    by (rule rest_fold) simp
  then show "rest (rb_unregister_event env c s i ev is_provided st) = rest st"
    by (simp add: rb_unregister_event_def Let_def split: option.split)
  show "rest (rb_unsubscribe env c s i g ev st) = rest st"
    by (auto simp: rb_unsubscribe_def rest_found split: option.split prod.split)
qed

lemma rest_services [simp]:
  "rest (snd (snd (rb_offer_service s i major minor st))) = rest st" "rest (rb_stop_offer_service s i st) = rest st"
  "rest (snd (rb_request_service c s i major minor st)) = rest st" "rest (rb_release_service c s i st) = rest st"
  "rest (rb_clear_service_info s i reliable st) = rest st" "rest (rb_remove_pending_subscription s i g ev st) = rest st"
  by (simp_all add: rb_offer_service_def rb_create_service_info_def rb_stop_offer_service_def rb_request_service_def
      rb_release_service_def rb_clear_service_info_def rb_remove_pending_subscription_def Let_def split: option.split)

lemma rest_endpoints [simp]:
  "rest (snd (snd (rb_create_local c st))) = rest st" "rest (snd (snd (rb_find_or_create_local c st))) = rest st"
  by (simp_all add: rb_find_or_create_local_def rb_create_local_def Let_def split: option.split)

lemma rest_remove_local [simp]: "rest (snd (rb_remove_local env c st)) = rest st"
proof -
  have "rest (rb_remove_local_subscriptions env c subs st) = rest st" for subs
    unfolding rb_remove_local_subscriptions_def by (rule rest_fold) (simp add: case_prod_unfold)
  then show ?thesis
    by (simp add: rb_remove_local_def rb_remove_local_with_def Let_def split: option.split prod.split)
qed

lemma rest_notify [simp]:
  "rb_notify s i ev p force flush st = Some (acts, st') \<Longrightarrow> rest st' = rest st"
  "rest (snd (rb_notify_one_current_value env c s i g ev ex st)) = rest st"
  by (auto simp: rb_notify_def notify_one_current_value_state split: option.splits)

section \<open>Well-formed proxies\<close>

text \<open>The sets of the proxy are ordered and the payloads it keeps are those of messages.\<close>

definition notes_ok :: "(u16, u16, u16, message) map3 \<Rightarrow> bool" where
  "notes_ok notes \<longleftrightarrow>
     (\<forall>s i g m p. lookup3 notes s i g = Some m \<longrightarrow> msg_payload m = Some p \<longrightarrow> payload_fits p)"

definition sets_ok :: "routing_proxy \<Rightarrow> bool" where
  "sets_ok p \<longleftrightarrow> oset_ok service_key (rp_pending_offers p) \<and> oset_ok service_key (rp_requests p)
     \<and> oset_ok service_key (rp_requests_to_debounce p) \<and> oset_ok event_key (rp_pending_event_registrations p)
     \<and> (\<forall>c ds. rp_pending_incoming_subscriptions p c = Some ds \<longrightarrow> oset_ok subscription_key ds)"

definition rp_ok :: "u16 \<Rightarrow> routing_proxy \<Rightarrow> bool" where
  "rp_ok c p \<longleftrightarrow> rb_ok p \<and> notes_ok (rb_pending_notify_ones p) \<and> sets_ok p \<and> rb_client p = c"

lemma rp_ok_create: "rp_ok c (rp_create c)"
proof -
  have "rb_ok (rb_init c)" by (rule rb_ok_init)
  then show ?thesis
    by (simp add: rp_ok_def rp_create_def rb_ok_def sets_ok_def notes_ok_def oset_ok_def routing_base.defs
        routing_proxy.defs rb_init_def lookup3_def)
qed

lemma rest_proxy:
  assumes "rest q = rest p"
  shows "sets_ok q \<longleftrightarrow> sets_ok p" and "rb_pending_notify_ones q = rb_pending_notify_ones p" and "rb_client q = rb_client p"
  using assms by (cases p; cases q; simp add: rest_def sets_ok_def)+

lemma rp_okI: "rp_ok c p \<Longrightarrow> rest q = rest p \<Longrightarrow> rb_ok q \<Longrightarrow> rp_ok c q"
  using rest_proxy [of q p] by (simp add: rp_ok_def)

text \<open>Fields of the proxy that the invariant does not speak of, and those it does.\<close>

lemma rp_ok_fields [simp]:
  "rp_ok c (p\<lparr>rp_is_connected := b\<rparr>) = rp_ok c p" "rp_ok c (p\<lparr>rp_is_started := b\<rparr>) = rp_ok c p"
  "rp_ok c (p\<lparr>rp_state := t\<rparr>) = rp_ok c p" "rp_ok c (p\<lparr>rp_sender := h\<rparr>) = rp_ok c p"
  "rp_ok c (p\<lparr>rp_receiver := b\<rparr>) = rp_ok c p" "rp_ok c (p\<lparr>rp_known_clients := cs\<rparr>) = rp_ok c p"
  "rp_ok c (p\<lparr>rp_remote_subscriber_count := n\<rparr>) = rp_ok c p"
  "rp_ok c (p\<lparr>rp_request_debounce_timer_running := b\<rparr>) = rp_ok c p"
  by (simp_all add: rp_ok_def rb_ok_def sets_ok_def)

lemma rp_ok_sets:
  "rp_ok c p \<Longrightarrow> oset_ok service_key ds \<Longrightarrow> rp_ok c (p\<lparr>rp_pending_offers := ds\<rparr>)"
  "rp_ok c p \<Longrightarrow> oset_ok service_key ds \<Longrightarrow> rp_ok c (p\<lparr>rp_requests := ds\<rparr>)"
  "rp_ok c p \<Longrightarrow> oset_ok service_key ds \<Longrightarrow> rp_ok c (p\<lparr>rp_requests_to_debounce := ds\<rparr>)"
  "rp_ok c p \<Longrightarrow> oset_ok event_key es \<Longrightarrow> rp_ok c (p\<lparr>rp_pending_event_registrations := es\<rparr>)"
  "rp_ok c p \<Longrightarrow> (\<And>c ds. m c = Some ds \<Longrightarrow> oset_ok subscription_key ds) \<Longrightarrow>
    rp_ok c (p\<lparr>rp_pending_incoming_subscriptions := m\<rparr>)"
  "rp_ok c p \<Longrightarrow> oset_ok subscription_key subs \<Longrightarrow> rp_ok c (p\<lparr>rb_pending_subscriptions := subs\<rparr>)"
  "rp_ok c p \<Longrightarrow> rp_ok c (p\<lparr>rb_local_services := svcs\<rparr>)"
  by (simp_all add: rp_ok_def rb_ok_def sets_ok_def)

lemma rp_okD:
  assumes "rp_ok c p"
  shows "oset_ok service_key (rp_pending_offers p)" "oset_ok service_key (rp_requests p)"
    "oset_ok service_key (rp_requests_to_debounce p)" "oset_ok event_key (rp_pending_event_registrations p)"
    "rp_pending_incoming_subscriptions p x = Some ds \<Longrightarrow> oset_ok subscription_key ds"
    "oset_ok subscription_key (rb_pending_subscriptions p)" "rb_ok p" "notes_ok (rb_pending_notify_ones p)" "rb_client p = c"
  using assms by (auto simp: rp_ok_def rb_ok_def sets_ok_def)

lemma oset_ok_erase: "oset_ok key xs \<Longrightarrow> oset_ok key (erase_first P xs)"
proof (induction xs)
  case (Cons x xs)
  then have "oset_ok key xs" "\<forall>y\<in>set xs. key x < key y" by (auto simp: oset_ok_def)
  moreover have "set (erase_first P xs) \<subseteq> set xs" by (induction xs) auto
  ultimately show ?case using Cons by (auto simp: oset_ok_def)
qed simp

lemma oset_ok_fold: "oset_ok key ys \<Longrightarrow> oset_ok key (fold (oset_insert key) xs ys)"
  by (induction xs arbitrary: ys) (simp_all add: oset_ok_insert)

section \<open>Its operations keep it well-formed\<close>

subsection \<open>Connection and registration\<close>

lemma rp_ok_remove_local: "rp_ok c p \<Longrightarrow> rp_ok c (snd (rp_remove_local env x p))"
proof -
  assume ok: "rp_ok c p"
  have "rb_ok (snd (rb_remove_local (pe_routing env) x p))"
    unfolding rb_remove_local_def by (rule rb_ok_remove_local [OF rp_okD(7) [OF ok]])
  then show ?thesis unfolding rp_remove_local_def by (intro rp_okI [OF ok]) simp_all
qed

lemma rp_ok_remove_locals: "rp_ok c p \<Longrightarrow> rp_ok c (snd (each (rp_remove_local env) xs p))"
  by (rule each_keeps [where P = "rp_ok c"]) (simp_all add: rp_ok_remove_local)

lemma rp_ok_create_sender: "rp_ok c p \<Longrightarrow> rp_ok c (snd (rp_create_sender p))"
proof -
  assume ok: "rp_ok c p"
  obtain h acts q where create: "rb_create_local VSOMEIP_ROUTING_CLIENT p = (h, acts, q)" by (metis prod_cases3)
  have "rb_local_endpoints p VSOMEIP_ROUTING_CLIENT = None"
    using rp_okD(7) [OF ok] by (simp add: rb_ok_def endpoints_ok_def)
  from rb_ok_create_local [OF rp_okD(7) [OF ok] create this]
  moreover have "rest q = rest p" using rest_endpoints(1) [of VSOMEIP_ROUTING_CLIENT p] unfolding create by simp
  ultimately have "rp_ok c q" by (intro rp_okI [OF ok])
  then show ?thesis unfolding rp_create_sender_def create by simp
qed

lemma rp_ok_find_or_create: "rp_ok c p \<Longrightarrow> rb_find_or_create_local x p = (h, acts, q) \<Longrightarrow> rp_ok c q"
  using rp_okI [of c p q] rest_endpoints(2) [of x p] rb_ok_find_or_create_local [of p x h acts q] by (simp add: rp_okD)

lemma rp_ok_lifecycle:
  assumes "rp_ok c p"
  shows "rp_ok c (snd (rp_init env p))" "rp_ok c (snd (rp_start env p))" "rp_ok c (snd (rp_stop_finish env p))"
    "rp_ok c (snd (rp_register_application_timeout_cbk err p))" "rp_ok c (snd (rp_on_connect h p))"
    "rp_ok c (snd (rp_on_disconnect h p))" "rp_ok c (snd (rp_handle_client_error env x p))"
proof -
  have receiver: "rp_ok c (snd (rp_init_receiver env p))" if "rp_ok c p" for p
    using that by (simp add: rp_init_receiver_def)
  show "rp_ok c (snd (rp_init env p))"
    by (simp add: rp_init_def followed_simps receiver rp_ok_create_sender assms)
  show "rp_ok c (snd (rp_start env p))"
    using receiver [of "p\<lparr>rp_is_started := True\<rparr>"]
    by (simp add: rp_start_def Let_def followed_simps rp_ok_create_sender assms)
  show "rp_ok c (snd (rp_stop_finish env p))"
    by (simp add: rp_stop_finish_def Let_def followed_simps rp_ok_remove_locals assms)
  show "rp_ok c (snd (rp_register_application_timeout_cbk err p))" "rp_ok c (snd (rp_on_connect h p))"
    "rp_ok c (snd (rp_on_disconnect h p))"
    using assms by (simp_all add: rp_register_application_timeout_cbk_def rp_on_connect_def rp_on_disconnect_def
        rp_register_application_def Let_def followed_simps)
  show "rp_ok c (snd (rp_handle_client_error env x p))"
    by (simp add: rp_handle_client_error_def rp_reconnect_def followed_simps rp_ok_remove_locals rp_ok_remove_local assms)
qed

subsection \<open>Services\<close>

lemma rp_ok_services:
  assumes "rp_ok c p"
  shows "rp_ok c (snd (snd (rp_offer_service s i major minor p)))" "rp_ok c (snd (rp_stop_offer_service s i major minor p))"
    "rp_ok c (snd (rp_request_service env x s i major minor ex p))" "rp_ok c (snd (rp_release_service x s i p))"
    "rp_ok c (snd (rp_request_debounce_timeout_cbk env err p))"
proof -
  note ok = rp_okD(7) [OF assms]
  obtain b acts q where offer: "rb_offer_service s i major minor p = (b, acts, q)" by (metis prod_cases3)
  have "rp_ok c q"
    using rp_okI [OF assms, of q] rest_services(1) [of s i major minor p] rb_ok_offer_service [OF ok offer]
    by (simp add: offer)
  then show "rp_ok c (snd (snd (rp_offer_service s i major minor p)))"
    by (simp add: rp_offer_service_def offer rp_ok_sets rp_okD oset_ok_insert)
  have "rp_ok c (rb_clear_service_info s i False (rb_stop_offer_service s i p))"
    by (rule rp_okI [OF assms]) (simp_all add: rb_ok_services ok)
  then show "rp_ok c (snd (rp_stop_offer_service s i major minor p))"
    by (simp add: rp_stop_offer_service_def Let_def rp_ok_sets rp_okD oset_ok_erase)
  have "rp_ok c (snd (rb_request_service x s i major minor p))"
    by (rule rp_okI [OF assms]) (simp_all add: rb_ok_services ok)
  then show "rp_ok c (snd (rp_request_service env x s i major minor ex p))"
    by (simp add: rp_request_service_def Let_def followed_simps rp_ok_sets rp_okD oset_ok_insert)
  have "rp_ok c (rb_remove_pending_subscription s i 0xFFFF ANY_EVENT (rb_release_service x s i p))"
    by (rule rp_okI [OF assms]) (simp_all add: rb_ok_services ok rb_ok_remove_pending)
  then show "rp_ok c (snd (rp_release_service x s i p))"
    by (simp add: rp_release_service_def Let_def rp_ok_sets rp_okD oset_ok_erase)
  show "rp_ok c (snd (rp_request_debounce_timeout_cbk env err p))"
    using assms by (simp add: rp_request_debounce_timeout_cbk_def rp_ok_sets rp_okD oset_ok_fold oset_ok_def [of _ "[]"])
qed

subsection \<open>Events\<close>

lemma rb_ok_register_event:
  "rb_ok st \<Longrightarrow> rb_ok (rb_register_event env c s i ev gs is_field cycle resets epsilon is_provided is_shadow placeholder st)"
  by (rule register_event_ok(1) [OF _ refl prod.collapse [symmetric]])

lemma rp_ok_register_event:
  assumes "rp_ok c p"
  shows "rp_ok c (snd (rp_register_event env x s i ev gs is_field cycle resets epsilon is_provided p))"
proof -
  let ?d = "\<lparr>evd_service = s, evd_instance = i, evd_event = ev, evd_is_field = is_field,
      evd_is_provided = is_provided, evd_eventgroups = gs\<rparr>"
  let ?p = "p\<lparr>rp_pending_event_registrations := oset_insert event_key ?d (rp_pending_event_registrations p)\<rparr>"
  have p: "rp_ok c ?p" by (simp add: rp_ok_sets assms oset_ok_insert rp_okD [OF assms])
  have "rp_ok c (rb_register_event (pe_routing env) x s i ev gs is_field cycle resets epsilon is_provided False False ?p)"
    by (rule rp_okI [OF p]) (simp_all add: rb_ok_register_event rp_okD [OF p])
  with assms show ?thesis by (simp add: rp_register_event_def Let_def)
qed

lemma rp_ok_unregister_event:
  assumes "rp_ok c p"
  shows "rp_ok c (snd (rp_unregister_event env x s i ev is_provided p))"
proof -
  have "rp_ok c (rb_unregister_event (pe_routing env) x s i ev is_provided p)"
    by (rule rp_okI [OF assms]) (simp_all add: rb_ok_unregister_event rp_okD [OF assms])
  then show ?thesis by (simp add: rp_unregister_event_def Let_def rp_ok_sets oset_ok_erase rp_okD)
qed

lemma rp_ok_put_event: "rp_ok c p \<Longrightarrow> same_event (rb_event_objs p r) e \<Longrightarrow> rp_ok c (put_event r e p)"
  by (rule rp_okI) (simp_all add: rb_ok_put_event rp_okD)

lemma rp_ok_on_events: "rp_ok c p \<Longrightarrow> (\<And>e. same_event e (f e)) \<Longrightarrow> rp_ok c (on_events f R p)"
  by (rule rp_okI) (simp_all add: rb_ok_on_events rp_okD)

lemma rp_ok_find_eventgroup: "rp_ok c p \<Longrightarrow> rb_find_eventgroup env s i g p = (x, q) \<Longrightarrow> rp_ok c q"
  using rb_ok_find_eventgroup(1) [of p env s i g] by (intro rp_okI [of c p q]) (simp_all add: rp_okD rest_found)

lemma rp_ok_unsubscribe: "rp_ok c p \<Longrightarrow> rp_ok c (rb_unsubscribe env x s i g ev p)"
  by (rule rp_okI) (simp_all add: rb_ok_unsubscribe rp_okD)

lemma same_event_added: "add_subscriber g x e = (b, e') \<Longrightarrow> same_event e e'"
proof -
  have "same_event e (snd (add_subscriber g x e))" by simp
  then show "add_subscriber g x e = (b, e') \<Longrightarrow> same_event e e'" by simp
qed

lemma rp_ok_placeholder:
  assumes "rp_ok c p" and "rp_create_placeholder env s i g ev x p = (b, acts, q)"
  shows "rp_ok c q"
proof -
  obtain acts' p1 where reg: "rp_register_event env (env_host_client (pe_routing env)) s i ev {g} True 0 False None False p = (acts', p1)"
    by fastforce
  have "rp_ok c p1" using rp_ok_register_event [OF assms(1)] reg by (metis snd_conv)
  then show ?thesis
    using assms(2) by (auto simp: rp_create_placeholder_def reg split: option.splits prod.splits
        intro!: rp_ok_put_event same_event_added)
qed

lemma rp_ok_cache:
  assumes "rp_ok c p" and "rp_cache_event_payload env m p = Some q" and "\<And>pl. msg_payload m = Some pl \<Longrightarrow> payload_fits pl"
  shows "rp_ok c q"
proof -
  let ?p = "rb_register_event (pe_routing env) (env_host_client (pe_routing env)) (get_service m) (get_instance m)
      (get_method m) {} True 0 False None False False True p"
  have p: "rp_ok c ?p" by (rule rp_okI [OF assms(1)]) (simp_all add: rb_ok_register_event rp_okD [OF assms(1)])
  have store: "rp_ok c (put_event r e p)"
    if "rp_ok c p" "msg_payload m = Some pl" "set_payload_dont_notify pl (rb_event_objs p r) = Some (b, e)" for p r pl b e
    by (rule rp_ok_put_event [OF that(1) same_event_set_payload(3) [OF assms(3) [OF that(2)] that(3)]])
  show ?thesis
    using assms(1,2) p store
    by (auto simp: rp_cache_event_payload_def Let_def bind_eq_Some_conv split: option.splits if_splits)
qed

subsection \<open>Sending\<close>

lemma rp_ok_direct_target: "rp_ok c p \<Longrightarrow> rp_direct_target x p = (h, acts, q) \<Longrightarrow> rp_ok c q"
  by (auto simp: rp_direct_target_def split: if_splits prod.splits dest: rp_ok_find_or_create)

lemma rp_ok_send:
  assumes "rp_ok c p" and "rp_send x data i flush reliable crc p = Some (b, acts, q)"
  shows "rp_ok c q"
proof -
  note target = rp_ok_direct_target [OF assms(1)]
  show ?thesis
    using assms target
    by (auto simp: rp_send_def Let_def bind_eq_Some_conv split: if_splits prod.splits option.splits)
qed

lemma rp_ok_send_message: "rp_ok c p \<Longrightarrow> rp_send_message x m flush p = Some (b, acts, q) \<Longrightarrow> rp_ok c q"
  by (auto simp: rp_send_message_def split: option.splits dest: rp_ok_send)

lemma rp_ok_route: "rp_ok c p \<Longrightarrow> rp_route as p = Some (acts, q) \<Longrightarrow> rp_ok c q"
proof (induction as arbitrary: p acts)
  case (Cons a as)
  then show ?case
    by (cases a) (auto simp: bind_eq_Some_conv split: sent.splits dest: rp_ok_send_message)
qed simp

lemma rp_ok_notify:
  assumes "rp_ok c p" and "payload_fits pl" and "rp_notify s i ev pl force flush p = Some (acts, q)"
  shows "rp_ok c q"
proof -
  obtain as p1 where notify: "rb_notify s i ev pl force flush p = Some (as, p1)" and route: "rp_route as p1 = Some (acts, q)"
    using assms(3) by (auto simp: rp_notify_def bind_eq_Some_conv)
  have "rp_ok c p1"
    by (rule rp_okI [OF assms(1) rest_notify(1) [OF notify] rb_ok_notify [OF rp_okD(7) [OF assms(1)] assms(2) notify]])
  then show ?thesis using route by (rule rp_ok_route)
qed

text \<open>A notification that has to wait for the subscription is kept with its payload.\<close>

lemma rest_valid_group: "rest (snd (valid_group env s i gs st)) = rest st"
  by (induction gs arbitrary: st) (auto simp: rest_found split: option.split prod.split)

lemma rp_ok_base_notify_one:
  assumes "rp_ok c p" and "payload_fits pl" and "rb_notify_one env s i ev pl x force flush p = Some (acts, q)"
  shows "rp_ok c q"
proof -
  have q: "rb_ok q" by (rule rb_ok_notify_one [OF rp_okD(7) [OF assms(1)] assms(2,3)])
  have kept: "rest q = rest p \<or> (\<exists>p1 g m. rest p1 = rest p \<and> msg_payload m = Some pl
      \<and> q = p1\<lparr>rb_pending_notify_ones := put3 s i g m (rb_pending_notify_ones p1)\<rparr>)"
  proof (cases "rb_find_event s i ev p")
    case (Some r)
    obtain g p1 where g: "valid_group env s i (sorted_list_of_set (get_eventgroups (rb_event_objs p r))) p = (g, p1)"
      by fastforce
    then have "rest p1 = rest p" using rest_valid_group [of env s i "sorted_list_of_set (get_eventgroups (rb_event_objs p r))" p] by simp
    let ?m = "set_payload (Some pl) (set_method ev (set_instance i (set_service s (create_notification False))))"
    let ?m' = "case rb_find_service s i p1 of Some q \<Rightarrow> set_interface_version (si_major (rb_infos p1 q)) ?m | None \<Rightarrow> ?m"
    have m: "msg_payload ?m' = Some pl" by (simp add: set_payload_def set_interface_version_def split: option.split)
    have "rest q = rest p1 \<or> (\<exists>g'. q = p1\<lparr>rb_pending_notify_ones := put3 s i g' ?m' (rb_pending_notify_ones p1)\<rparr>)"
      using assms(3) by (cases g) (auto simp: rb_notify_one_def Some g Let_def split: if_splits)
    then show ?thesis using \<open>rest p1 = rest p\<close> m by metis
  qed (use assms(3) in \<open>simp add: rb_notify_one_def\<close>)
  show ?thesis
  proof (cases "rest q = rest p")
    case True
    then show ?thesis by (rule rp_okI [OF assms(1) _ q])
  next
    case False
    with kept obtain p1 g m where p1: "rest p1 = rest p" "msg_payload m = Some pl"
      "q = p1\<lparr>rb_pending_notify_ones := put3 s i g m (rb_pending_notify_ones p1)\<rparr>" by blast
    have "sets_ok q \<longleftrightarrow> sets_ok p1" "rb_client q = rb_client p1" by (simp_all add: p1(3) sets_ok_def)
    moreover have "notes_ok (rb_pending_notify_ones q)"
      using rp_okD(8) [OF assms(1)] assms(2) rest_proxy(2) [OF p1(1)] p1(2)
      by (auto simp: p1(3) notes_ok_def table_simps)
    ultimately show ?thesis using q rest_proxy [OF p1(1)] assms(1) by (simp add: rp_ok_def)
  qed
qed

lemma rp_ok_notify_one:
  assumes "rp_ok c p" and "payload_fits pl" and "rp_notify_one env s i ev pl x force flush p = Some (acts, q)"
  shows "rp_ok c q"
  using assms(3) by (auto simp: rp_notify_one_def bind_eq_Some_conv
      dest!: rp_ok_base_notify_one [OF assms(1,2)] intro: rp_ok_route)

lemma rp_ok_pending_notify_ones:
  assumes "rp_ok c p" and "rp_pending_notify_ones env s i g x p = Some (acts, q)"
  shows "rp_ok c q"
proof -
  have erased: "rp_ok c (p\<lparr>rb_pending_notify_ones := erase3 s i g (rb_pending_notify_ones p)\<rparr>)" if "rp_ok c p" for p
    using that by (auto simp: rp_ok_def rb_ok_more sets_ok_def notes_ok_def table_simps)
  have fits: "payload_fits pl" if "lookup3 (rb_pending_notify_ones p) s i g = Some m" "msg_payload m = Some pl" for m pl
    using rp_okD(8) [OF assms(1)] that by (auto simp: notes_ok_def)
  obtain as p1 where send: "rb_send_pending_notify_ones (pe_routing env) s i g x p = Some (as, p1)"
    and route: "rp_route as p1 = Some (acts, q)"
    using assms(2) by (auto simp: rp_pending_notify_ones_def bind_eq_Some_conv)
  have "rp_ok c p1"
  proof (cases "lookup3 (rb_pending_notify_ones p) s i g")
    case None
    then show ?thesis using send assms(1) by (simp add: rb_send_pending_notify_ones_def)
  next
    case (Some m)
    then obtain pl p2 where "msg_payload m = Some pl"
      "rb_notify_one (pe_routing env) s i (get_method m) pl x False True p = Some (as, p2)"
      "p1 = p2\<lparr>rb_pending_notify_ones := erase3 s i g (rb_pending_notify_ones p2)\<rparr>"
      using send by (auto simp: rb_send_pending_notify_ones_def bind_eq_Some_conv)
    then show ?thesis using erased rp_ok_base_notify_one [OF assms(1) fits [OF Some]] by simp
  qed
  then show ?thesis using route by (rule rp_ok_route)
qed

subsection \<open>Subscriptions\<close>

lemma rp_ok_insert:
  assumes "rp_ok c p"
    and "rb_insert_subscription (pe_routing env) (rp_create_placeholder env) s i g ev x p = (b, already, acts, q)"
  shows "rp_ok c q"
proof (cases "ev = ANY_EVENT")
  case False
  then show ?thesis
    using assms by (auto simp: rb_insert_subscription_def Let_def split: option.splits prod.splits
        intro: rp_ok_placeholder rp_ok_put_event same_event_added)
next
  case True
  obtain y p1 where found: "rb_find_eventgroup (pe_routing env) s i g p = (y, p1)" by fastforce
  have ok: "rp_ok c p1" by (rule rp_ok_find_eventgroup [OF assms(1) found])
  have "rp_ok c (on_events (\<lambda>e. snd (add_subscriber g x e)) R p1)" for R
    by (rule rp_ok_on_events [OF ok]) simp
  then show ?thesis
    using assms(2) True ok
    by (auto simp: rb_insert_subscription_def Let_def found subscribe_events_eq
        split: option.splits prod.splits if_splits intro: rp_ok_placeholder)
qed

lemma rp_ok_base_subscribe:
  assumes "rp_ok c p" and "rp_base_subscribe env x s i g ev p = Some (acts, q)"
  shows "rp_ok c q"
proof -
  obtain b already as p1 where ins: "rb_insert_subscription (pe_routing env) (rp_create_placeholder env) s i g ev x p
      = (b, already, as, p1)" by (metis prod_cases4)
  have p1: "rp_ok c p1" by (rule rp_ok_insert [OF assms(1) ins])
  have "rp_ok c (snd (rb_notify_one_current_value (pe_routing env) x s i g ev already p1))"
    by (rule rp_okI [OF p1]) (simp_all add: rb_ok_notify_one_current_value rp_okD [OF p1])
  with p1 have "rp_ok c (snd (rb_subscribe (pe_routing env) (rp_create_placeholder env) x s i g ev p))"
    by (auto simp: rb_subscribe_def ins split: prod.splits)
  then show ?thesis
    using assms(2) by (auto simp: rp_base_subscribe_def split: prod.splits intro: rp_ok_route)
qed

lemma rp_ok_send_subscribe: "rp_ok c p \<Longrightarrow> rp_ok c (snd (rp_send_subscribe x d p))"
  by (auto simp: rp_send_subscribe_def Let_def split: prod.split intro: rp_ok_find_or_create)

lemma rp_ok_count: "rp_ok c (snd (rp_get_remote_subscriber_count s i g inc p)) = rp_ok c p"
  by (simp add: rp_get_remote_subscriber_count_def Let_def split: option.split)

lemma rp_ok_subscribe:
  assumes "rp_ok c p"
  shows "rp_ok c (snd (rp_subscribe x d p))" "rp_ok c (snd (rp_unsubscribe x s i g ev p))"
proof -
  show "rp_ok c (snd (rp_subscribe x d p))"
    using assms rp_ok_send_subscribe [OF assms, of x d]
    by (simp add: rp_subscribe_def followed_simps rp_ok_sets rp_okD oset_ok_insert)
  have "rp_ok c (rb_remove_pending_subscription s i g ev p)"
    by (rule rp_okI [OF assms]) (simp_all add: rb_ok_remove_pending rp_okD [OF assms])
  then show "rp_ok c (snd (rp_unsubscribe x s i g ev p))" by (simp add: rp_unsubscribe_def Let_def)
qed

lemma rp_ok_answer_remote:
  assumes "rp_ok c p"
  shows "rp_ok c (snd (rp_answer_remote env accepted x s i g ev sid p))"
proof -
  obtain b already as p1 where ins: "rb_insert_subscription (pe_routing env) (rp_create_placeholder env) s i g ev
      VSOMEIP_ROUTING_CLIENT p = (b, already, as, p1)" by (metis prod_cases4)
  have p1: "rp_ok c p1" by (rule rp_ok_insert [OF assms ins])
  then have "rp_ok c (snd (rp_notify_remote_initially env s i g already p1))"
    by (auto simp: rp_notify_remote_initially_def split: prod.split option.split dest: rp_ok_find_eventgroup)
  with p1 show ?thesis
    unfolding rp_answer_remote_def Let_def ins by (simp add: followed_simps rp_ok_count)
qed

lemma rp_ok_answer:
  assumes "rp_ok c p"
  shows "rp_answer_local env accepted x s i g ev p = Some (acts, q) \<Longrightarrow> rp_ok c q"
    and "rp_answer_pending env accepted x s i g ev p = Some (acts, q) \<Longrightarrow> rp_ok c q"
proof -
  show "rp_answer_local env accepted x s i g ev p = Some (acts, q) \<Longrightarrow> rp_ok c q"
    using assms by (auto simp: rp_answer_local_def bind_eq_Some_conv Let_def split: if_splits
        dest!: rp_ok_base_subscribe [OF assms] intro: rp_ok_pending_notify_ones)
  have erased: "rp_ok c (p\<lparr>rp_pending_incoming_subscriptions := (rp_pending_incoming_subscriptions p)(x := None)\<rparr>)"
    if "rp_ok c p" for p
    by (rule rp_ok_sets(5) [OF that]) (auto simp: rp_okD(5) [OF that] split: if_splits)
  show "rp_answer_pending env accepted x s i g ev p = Some (acts, q) \<Longrightarrow> rp_ok c q"
    using assms by (auto simp: rp_answer_pending_def bind_eq_Some_conv Let_def split: if_splits
        dest!: rp_ok_base_subscribe [OF assms] intro!: erased intro: rp_ok_pending_notify_ones)
qed

subsection \<open>Routing information\<close>

lemma rp_ok_routing_service: "rp_ok c p \<Longrightarrow> rp_ok c (snd (rp_routing_service entry x s i major minor p))"
proof -
  assume "rp_ok c p"
  then have p: "rp_ok c (p\<lparr>rp_known_clients := cs, rb_local_services := svcs\<rparr>)" for cs svcs
    by (intro rp_ok_sets) simp
  have "rp_ok c (snd (rp_pending_subscriptions s i major q))" if "rp_ok c q" for q
    unfolding rp_pending_subscriptions_def
    by (rule each_keeps [where P = "rp_ok c", OF that]) (simp add: rp_ok_send_subscribe)
  note added = this [OF p]
  have "rp_ok c (on_events (unset_payload False) R (p\<lparr>rb_local_services := svcs\<rparr>))" for R svcs
    using \<open>rp_ok c p\<close> by (intro rp_ok_on_events rp_ok_sets) (simp_all add: same_event_def event_ids event_payloads)
  with added \<open>rp_ok c p\<close> show ?thesis
    by (simp add: rp_routing_service_def rp_service_added_def rp_service_removed_def rp_on_stop_offer_service_def
        Let_def followed_simps)
qed

lemma rp_ok_routing_client: "rp_ok c p \<Longrightarrow> rp_ok c (snd (rp_routing_client env entry x p))"
  by (simp add: rp_routing_client_def rp_client_added_def rp_client_removed_def Let_def rp_ok_remove_local)

lemma rp_ok_routing_instances:
  "rp_routing_instances entry x s data i j n p = Some (acts, j', q) \<Longrightarrow> rp_ok c p \<Longrightarrow> rp_ok c q"
proof (induction entry x s data i j n p arbitrary: acts j' rule: rp_routing_instances.induct)
  case (1 entry x s data i j n p)
  show ?case
  proof (cases "n < 7")
    case True
    with 1 show ?thesis by (simp add: rp_routing_instances.simps [of entry x s data i j n p])
  next
    case False
    with "1.prems"(1) obtain inst maj min as acts' where parts: "mem16 data (add32 i j) = Some inst"
      "vec_get data (add32 i (add32 j 2)) = Some maj" "mem32 data (add32 i (add32 j 3)) = Some min"
      "rp_routing_instances entry x s data i (add32 j 7) (n - 7) (snd (rp_routing_service entry x s inst maj min p))
        = Some (acts', j', q)"
      by (auto simp: rp_routing_instances.simps [of entry x s data i j n p] bind_eq_Some_conv split_beta)
    show ?thesis
      by (rule "1.IH" [OF False parts(1-3) refl prod.collapse parts(4) rp_ok_routing_service [OF "1.prems"(2)]])
  qed
qed

lemma rp_ok_routing_services:
  assumes "rp_routing_services entry x data i n j p = Some r" and "rp_ok c p"
  shows "rp_ok c (snd (snd r))"
proof -
  have "rp_ok c p \<longrightarrow> rp_ok c (snd (snd r))"
    by (rule rp_routing_services.raw_induct
        [where P = "\<lambda>entry x data i n j p r. rp_ok c p \<longrightarrow> rp_ok c (snd (snd r))", OF _ assms(1)])
      (fastforce simp: bind_eq_Some_conv split: if_splits dest: rp_ok_routing_instances)
  with assms(2) show ?thesis by simp
qed

lemma rp_ok_routing_entries:
  assumes "rp_routing_entries env data sz i p = Some r" and "rp_ok c p"
  shows "rp_ok c (snd (snd r))"
proof -
  have entry: "rp_ok c (snd (snd r))"
    if "rp_routing_services entry x data i n 0 (snd (rp_routing_client env entry x p)) = Some r" "rp_ok c p" for env entry x data i n p r
    by (rule rp_ok_routing_services [OF that(1) rp_ok_routing_client [OF that(2)]])
  have "rp_ok c p \<longrightarrow> rp_ok c (snd (snd r))"
  proof (rule rp_routing_entries.raw_induct
      [where P = "\<lambda>env data sz i p r. rp_ok c p \<longrightarrow> rp_ok c (snd (snd r))", OF _ assms(1)], rule impI)
    fix f and env :: proxy_env and data :: "byte list" and sz i :: nat and p and r :: "bool \<times> routing_action list \<times> routing_proxy"
    assume IH: "\<And>env data sz i p r. f env data sz i p = Some r \<Longrightarrow> rp_ok c p \<longrightarrow> rp_ok c (snd (snd r))"
      and step: "(if i + 8 \<le> sz
        then mem32 data i \<bind> (\<lambda>entry. mem32 data (i + 4) \<bind> (\<lambda>its_client_size.
          if sz < add32 (unat its_client_size) (i + 8) then Some (False, [], p)
          else if i + 10 \<le> sz
          then mem16 data (i + 8) \<bind> (\<lambda>x. rp_routing_services entry x data (i + 10) (unat its_client_size) 0
              (snd (rp_routing_client env entry x p)) \<bind>
            (\<lambda>r. f env data sz (add32 (i + 10) (fst (snd r))) (snd (snd r)) \<bind>
              (\<lambda>q. Some (fst q, fst (rp_routing_client env entry x p) @ fst r @ fst (snd q), snd (snd q)))))
          else f env data sz (i + 8) p))
        else Some (True, [], p)) = Some r"
      and ok: "rp_ok c p"
    show "rp_ok c (snd (snd r))"
    proof (cases "i + 8 \<le> sz")
      case more: True
      from step more obtain e where e: "mem32 data i = Some e" by (cases "mem32 data i") auto
      from step more e obtain n where n: "mem32 data (i + 4) = Some n" by (cases "mem32 data (i + 4)") auto
      show ?thesis
      proof (cases "sz < add32 (unat n) (i + 8) \<or> \<not> i + 10 \<le> sz")
        case True
        with step more e n ok IH [of env data sz "i + 8" p r] show ?thesis by (auto split: if_splits)
      next
        case False
        with step more e n obtain x r1 q where
          "rp_routing_services e x data (i + 10) (unat n) 0 (snd (rp_routing_client env e x p)) = Some r1"
          "f env data sz (add32 (i + 10) (fst (snd r1))) (snd (snd r1)) = Some q" "snd (snd r) = snd (snd q)"
          by (auto simp: bind_eq_Some_conv)
        with IH entry [OF _ ok] show ?thesis by simp
      qed
    qed (use step ok in auto)
  qed
  with assms(2) show ?thesis by simp
qed

lemma rp_ok_ask_pending: "rp_ok c p \<Longrightarrow> rp_ok c (snd (each rp_ask_pending xs p))"
  by (rule each_keeps [where P = "rp_ok c"])
    (auto simp: rp_ask_pending_def split: prod.splits intro: rp_ok_find_or_create)

lemma rp_ok_routing_info:
  assumes "rp_on_routing_info env data sz p = Some (acts, q)" and "rp_ok c p"
  shows "rp_ok c q"
proof -
  obtain complete acts' p1 where entries: "rp_routing_entries env data sz 0 p = Some (complete, acts', p1)"
    using assms(1) by (auto simp: rp_on_routing_info_def bind_eq_Some_conv)
  have "rp_ok c p1" using rp_ok_routing_entries [OF entries assms(2)] by simp
  then show ?thesis
    using assms(1) rp_ok_ask_pending [of c p1 "rp_pending_incoming env p1"]
    by (auto simp: rp_on_routing_info_def entries followed_def split: if_splits prod.splits)
qed

subsection \<open>Commands\<close>

lemma accepted_payload_fits:
  assumes "deserialize_message d = Some (Some m, d')" and "msg_payload m = Some pl"
  shows "payload_fits pl"
proof -
  have bytes: "length bs \<le> n" if "deserialize_bytes n d = Some (Some bs, d')" for n bs d d'
    using that by (auto simp: deserialize_bytes_def split: if_splits)
  have "\<exists>(h :: message_header) d. payload_deserialize (payload_set_capacity (hdr_length h - VSOMEIP_SOMEIP_HEADER_SIZE) (create_payload [])) d
      = Some (Some pl, d')"
    using assms by (auto simp: deserialize_message_def message_deserialize_def rbind_def rreturn_def Let_def
        split: option.splits prod.splits) blast
  then obtain h :: message_header and d where
    "payload_deserialize (payload_set_capacity (hdr_length h - VSOMEIP_SOMEIP_HEADER_SIZE) (create_payload [])) d
      = Some (Some pl, d')" by blast
  moreover have "pl_capacity (payload_set_capacity n (create_payload [])) = unat n" for n
    by (simp add: payload_set_capacity_def create_payload_def)
  ultimately obtain n d where "deserialize_bytes (unat (n :: u32)) d = Some (Some (pl_data pl), d')"
    by (auto simp: payload_deserialize_def rbind_def rreturn_def split: option.splits prod.splits)
  moreover have "unat n < 2 ^ LENGTH(32)" by (rule unsigned_less)
  ultimately show ?thesis using bytes by (fastforce simp: payload_fits_def)
qed

lemma rp_ok_on_send:
  assumes "rp_on_send_command env data n p = Some (acts, q)" and "rp_ok c p"
  shows "rp_ok c q"
proof -
  have cache: "rp_ok c p1" if "deserialize_message d = Some (Some m, d')" "msg_payload m' = msg_payload m"
    "rp_cache_event_payload env m' p = Some p1" for d d' m m' p1
    by (rule rp_ok_cache [OF assms(2) that(3)]) (use accepted_payload_fits [OF that(1)] that(2) in simp)
  obtain i reliable crc bytes m d' where read: "deserialize_message (des_init_data bytes 0) = Some (m, d')"
    and rest: "(case m of None \<Rightarrow> Some ([], p)
      | Some m \<Rightarrow> let m = set_is_valid_crc crc (set_reliable reliable (set_instance i m))
          in if \<not> rp_allowed env m p then Some ([], p)
             else do { st \<leftarrow> (if is_notification (get_message_type m) then rp_cache_event_payload env m p else Some p);
                       Some ([Host_on_message m], st) }) = Some (acts, q)"
    using assms(1) by (auto simp: rp_on_send_command_def bind_eq_Some_conv)
  show ?thesis
  proof (cases m)
    case None
    with rest assms(2) show ?thesis by simp
  next
    case (Some m0)
    let ?m = "set_is_valid_crc crc (set_reliable reliable (set_instance i m0))"
    have "msg_payload ?m = msg_payload m0" by (simp add: set_is_valid_crc_def set_reliable_def set_instance_def)
    note cached = cache [OF read [unfolded Some] this]
    have "q = p \<or> rp_cache_event_payload env ?m p = Some q"
      using rest Some by (auto simp: Let_def bind_eq_Some_conv split: if_splits)
    then show ?thesis using assms(2) cached by auto
  qed
qed

lemma rp_ok_on_subscribe:
  assumes "rp_on_subscribe_command env data x p = Some (acts, q)" and "rp_ok c p"
  shows "rp_ok c q"
proof -
  have pending: "rp_ok c (p\<lparr>rp_pending_incoming_subscriptions := (rp_pending_incoming_subscriptions p)
      (x \<mapsto> oset_insert subscription_key d (case rp_pending_incoming_subscriptions p x of Some ds \<Rightarrow> ds | None \<Rightarrow> []))\<rparr>)" for d
    by (rule rp_ok_sets(5) [OF assms(2)])
      (auto simp: rp_okD [OF assms(2)] oset_ok_def [of _ "[]"] split: if_splits option.split intro!: oset_ok_insert)
  show ?thesis
    using assms pending by (auto simp: rp_on_subscribe_command_def bind_eq_Some_conv split: if_splits prod.splits
        dest: rp_ok_find_or_create)
qed

lemma rp_ok_on_message:
  assumes "rp_on_message env data bound p = Some (acts, q)" and "rp_ok c p"
  shows "rp_ok c q"
proof -
  have answer: "rp_on_subscribe_answer_command (rp_on_subscribe_answer e) env data p = Some (acts, q) \<Longrightarrow> rp_ok c q" for e
    using assms(2) by (auto simp: rp_on_subscribe_answer_command_def rp_on_subscribe_answer_def bind_eq_Some_conv Let_def
        split: if_splits prod.splits option.splits dest: rp_ok_find_eventgroup)
  have withdraw: "rp_ok c (snd (rp_withdraw_remote env s i g ev sid p))" for s i g ev sid
    using assms(2) rp_ok_count [of c s i g False p]
    by (auto simp: rp_withdraw_remote_def Let_def rp_ok_unsubscribe split: prod.splits)
  have unsubscribe: "rp_on_unsubscribe_command env data x p = Some (acts, q) \<Longrightarrow> rp_ok c q" for x
    using assms(2) withdraw by (auto simp: rp_on_unsubscribe_command_def bind_eq_Some_conv followed_def rp_ok_unsubscribe
        split: if_splits prod.splits) (metis snd_conv)+
  have id_request: "rp_on_id_request data p = Some (acts, q) \<Longrightarrow> rp_ok c q"
    using assms(2) by (auto simp: rp_on_id_request_def bind_eq_Some_conv split: if_splits)
  obtain cmd x n from_host where
    "q = p \<or> rp_on_send_command env data n p = Some (acts, q) \<or> rp_on_routing_info env (drop 7 data) (unat n) p = Some (acts, q)
      \<or> rp_on_subscribe_command env data x p = Some (acts, q) \<or> rp_on_unsubscribe_command env data x p = Some (acts, q)
      \<or> rp_on_subscribe_answer_command rp_on_subscribe_nack env data p = Some (acts, q)
      \<or> rp_on_subscribe_answer_command rp_on_subscribe_ack env data p = Some (acts, q)
      \<or> rp_on_id_request data p = Some (acts, q)"
    using assms(1) unfolding rp_on_message_def
    by (auto simp: bind_eq_Some_conv Let_def split: if_splits)
  then show ?thesis
    using assms(2) answer unsubscribe id_request
    by (auto simp: rp_on_subscribe_ack_def rp_on_subscribe_nack_def
        dest: rp_ok_on_send rp_ok_routing_info rp_ok_on_subscribe)
qed

section \<open>Reachable states\<close>

text \<open>
  What can happen to a proxy: calls of its application, the callbacks of its endpoints and timers, the
  answers of the application to subscriptions, and the commands it receives.
\<close>

inductive proxy_step :: "proxy_env \<Rightarrow> routing_proxy \<Rightarrow> routing_proxy \<Rightarrow> bool" for env where
  "proxy_step env p (snd (rp_init env p))"
| "proxy_step env p (snd (rp_start env p))"
| "proxy_step env p (snd (rp_stop_finish env p))"
| "proxy_step env p (snd (rp_register_application_timeout_cbk err p))"
| "proxy_step env p (snd (rp_on_connect h p))"
| "proxy_step env p (snd (rp_on_disconnect h p))"
| "proxy_step env p (snd (rp_handle_client_error env x p))"
| "proxy_step env p (snd (snd (rp_offer_service s i major minor p)))"
| "proxy_step env p (snd (rp_stop_offer_service s i major minor p))"
| "proxy_step env p (snd (rp_request_service env x s i major minor exclusive p))"
| "proxy_step env p (snd (rp_release_service x s i p))"
| "proxy_step env p (snd (rp_request_debounce_timeout_cbk env err p))"
| "proxy_step env p (snd (rp_register_event env x s i ev gs is_field cycle resets epsilon is_provided p))"
| "proxy_step env p (snd (rp_unregister_event env x s i ev is_provided p))"
| "proxy_step env p (snd (rp_subscribe x d p))"
| "proxy_step env p (snd (rp_unsubscribe x s i g ev p))"
| "rp_send_message x m flush p = Some (sent, acts, q) \<Longrightarrow> proxy_step env p q"
| "payload_fits pl \<Longrightarrow> rp_notify s i ev pl force flush p = Some (acts, q) \<Longrightarrow> proxy_step env p q"
| "payload_fits pl \<Longrightarrow> rp_notify_one env s i ev pl x force flush p = Some (acts, q) \<Longrightarrow> proxy_step env p q"
| "proxy_step env p (snd (rp_answer_remote env accepted x s i g ev sid p))"
| "rp_answer_local env accepted x s i g ev p = Some (acts, q) \<Longrightarrow> proxy_step env p q"
| "rp_answer_pending env accepted x s i g ev p = Some (acts, q) \<Longrightarrow> proxy_step env p q"
| "rp_on_message env data bound p = Some (acts, q) \<Longrightarrow> proxy_step env p q"

inductive proxy_reachable :: "proxy_env \<Rightarrow> u16 \<Rightarrow> routing_proxy \<Rightarrow> bool" for env c where
  created: "proxy_reachable env c (rp_create c)"
| stepped: "proxy_reachable env c p \<Longrightarrow> proxy_step env p q \<Longrightarrow> proxy_reachable env c q"

lemma proxy_step_ok: "proxy_step env p q \<Longrightarrow> rp_ok c p \<Longrightarrow> rp_ok c q"
  by (induction rule: proxy_step.induct)
    ((rule rp_ok_lifecycle rp_ok_services rp_ok_register_event rp_ok_unregister_event rp_ok_subscribe
      rp_ok_answer_remote rp_ok_send_message rp_ok_notify rp_ok_notify_one rp_ok_answer rp_ok_on_message; assumption)+)

text \<open>
  C17. However a proxy was driven, by its application and whatever bytes it was sent, its state is
  well-formed: it still acts for its client, events are registered under their own identifiers and
  belong to the eventgroups of their service instance, two clients never share an endpoint and none has
  the number of the routing manager, the sets of offers, requests, registrations and subscriptions hold
  one element for each key, in order, and every notification it keeps has a payload that fits a message.
\<close>

theorem reachable_proxy_well_formed:
  assumes "proxy_reachable env c p"
  shows "rb_client p = c \<and> rb_ok p \<and> notes_ok (rb_pending_notify_ones p) \<and> sets_ok p"
proof -
  have "rp_ok c p" using assms
    by induction (simp_all add: rp_ok_create proxy_step_ok)
  then show ?thesis by (simp add: rp_ok_def)
qed

theorem reachable_proxy_well_formed_witness:
  "rb_client (snd (rp_start sample_proxy_env (snd (rp_init sample_proxy_env (rp_create 5))))) = 5"
  using reachable_proxy_well_formed [OF proxy_reachable.stepped [OF proxy_reachable.stepped
      [OF proxy_reachable.created proxy_step.intros(1)] proxy_step.intros(2)], of sample_proxy_env 5] by simp

end
