(* ===== verification/Application.thy ===== *)
theory Application
  imports Proxy_Messages Client_Id
begin

text \<open>
  The application object (\<^verbatim>\<open>runtime/src/application_impl.cpp\<close>): the handlers that a program
  registers, what it asks of its routing manager, and how messages, availability, subscription
  states and the rest become handlers to be called, which wait in a queue for the dispatcher threads.

  A handler the program registers is a number.  Calls of the routing manager, of the callback that
  accepts a subscription, and of the watchdog timer are actions.  What the application looks up in its
  routing manager are arguments, as is the order of handlers by the addresses where they are stored.
\<close>

section \<open>State\<close>

text \<open>
  Message handlers are functions or function objects; the two objects the library registers itself
  answer identify requests and note their responses.
\<close>

datatype message_handler = Function nat | Object nat | Identify_response | Send_response

fun is_function :: "message_handler \<Rightarrow> bool" where
  "is_function (Function _) = True"
| "is_function _ = False"

datatype handler_type = HT_MESSAGE | HT_AVAILABILITY | HT_STATE | HT_SUBSCRIPTION | HT_OFFERED_SERVICES_INFO | HT_WATCHDOG

text \<open>What a handler in the queue calls.\<close>

datatype handler_call =
    Call_message message_handler message
  | Call_availability nat "(u16 \<times> u16 \<times> bool) list"
  | Call_state nat bool
  | Call_status nat u16 u16 u16 u16 u16
  | Call_error nat u16
  | Call_offered_services nat "(u16 \<times> u16) list"
  | Call_watchdog nat

text \<open>The number of a handler in the queue stands for the address of its object.\<close>

record sync_handler =
  sh_id :: nat
  sh_call :: handler_call
  sh_service_id :: u16
  sh_instance_id :: u16
  sh_method_id :: u16
  sh_session_id :: u16
  sh_eventgroup_id :: u16
  sh_handler_type :: handler_type

datatype subscription_state = SUBSCRIPTION_ACKNOWLEDGED | SUBSCRIPTION_NOT_ACKNOWLEDGED | IS_SUBSCRIBING

type_synonym available = "(u16, u16, byte, u32) map3"

record application =
  app_client :: u16
  app_session :: u16
  app_routing :: bool
  app_registered :: bool
  app_state_handler :: "nat option"
  app_offered_services_handler :: "nat option"
  app_members :: "(u16, u16, u16, message_handler) map3"
  app_availability :: "(u16, u16, byte, u32 \<rightharpoonup> nat \<times> bool) map3"
  app_available :: available
  app_subscription :: "(u16, u16, u16, nat option \<times> nat option) map3"
  app_error_handlers :: "(u16, u16, u16, u16 \<rightharpoonup> nat) map3"
  app_handlers :: "sync_handler list"
  app_availability_handlers :: "u16 \<times> u16 \<rightharpoonup> sync_handler list"
  app_subscriptions :: "(u16, u16, u16, u16 \<rightharpoonup> bool) map3"
  app_status_handlers :: "(u16, u16, u16, u16 \<rightharpoonup> nat \<times> bool) map3"
  app_subscription_state :: "u16 \<times> u16 \<times> u16 \<times> u16 \<rightharpoonup> subscription_state"
  app_watchdog_handler :: "nat option"
  app_watchdog_interval :: int
  app_next_handler :: nat

record app_env =
  ae_find_event :: "u16 \<Rightarrow> u16 \<Rightarrow> u16 \<Rightarrow> event option"
  ae_find_events :: "u16 \<Rightarrow> u16 \<Rightarrow> u16 \<Rightarrow> event list"
  ae_order :: "message_handler list \<Rightarrow> message_handler list"

datatype (plugins only: code size) app_action =
    Rm_offer_service u16 u16 u16 byte u32
  | Rm_stop_offer_service u16 u16 u16 byte u32
  | Rm_request_service u16 u16 u16 byte u32 bool
  | Rm_release_service u16 u16 u16
  | Rm_subscribe u16 u16 u16 u16 byte u16 byte
  | Rm_unsubscribe u16 u16 u16 u16 u16
  | Rm_send u16 message bool
  | Rm_notify u16 u16 u16 payload bool bool
  | Rm_notify_one u16 u16 u16 payload u16 bool bool
  | Rm_register_event u16 u16 u16 u16 "u16 set" bool int bool "epsilon_change_func option" bool
  | Rm_unregister_event u16 u16 u16 u16 bool
  | Rm_send_get_offered_services_info u16 byte
  | Subscription_accepted bool
  | Call_subscription_handler nat u16 bool
  | Call_async_subscription_handler nat u16 bool
  | Watchdog_start int
  | Watchdog_cancel

type_synonym app_result = "app_action list \<times> application"

definition app_create :: application where
  "app_create = \<lparr>app_client = ILLEGAL_CLIENT, app_session = 1, app_routing = False, app_registered = False,
     app_state_handler = None, app_offered_services_handler = None, app_members = Map.empty,
     app_availability = Map.empty, app_available = Map.empty, app_subscription = Map.empty,
     app_error_handlers = Map.empty, app_handlers = [], app_availability_handlers = Map.empty,
     app_subscriptions = Map.empty, app_status_handlers = Map.empty, app_subscription_state = Map.empty,
     app_watchdog_handler = None, app_watchdog_interval = 0, app_next_handler = 0\<rparr>"

text \<open>Erasing from nested maps together with the maps that get empty.\<close>

definition prune3 :: "'a \<Rightarrow> 'b \<Rightarrow> 'c \<Rightarrow> ('a, 'b, 'c, 'v) map3 \<Rightarrow> ('a, 'b, 'c, 'v) map3" where
  "prune3 a b c m = (case lookup2 m a b of
       None \<Rightarrow> m
     | Some n \<Rightarrow> if n(c := None) = Map.empty then prune2 a b m else put2 a b (n(c := None)) m)"

definition inner :: "('a, 'b, 'c, 'd \<rightharpoonup> 'v) map3 \<Rightarrow> 'a \<Rightarrow> 'b \<Rightarrow> 'c \<Rightarrow> 'd \<rightharpoonup> 'v" where
  "inner m a b c = (case lookup3 m a b c of Some n \<Rightarrow> n | None \<Rightarrow> Map.empty)"

definition prune4 :: "'a \<Rightarrow> 'b \<Rightarrow> 'c \<Rightarrow> 'd \<Rightarrow> ('a, 'b, 'c, 'd \<rightharpoonup> 'v) map3 \<Rightarrow> ('a, 'b, 'c, 'd \<rightharpoonup> 'v) map3" where
  "prune4 a b c d m =
     (let n = inner m a b c
      in if n d = None then m
         else if n(d := None) = Map.empty then prune3 a b c m
         else put3 a b c (n(d := None)) m)"

text \<open>A handler is put at the end of the queue.\<close>

definition queue_handler :: "handler_type \<Rightarrow> u16 \<Rightarrow> u16 \<Rightarrow> u16 \<Rightarrow> u16 \<Rightarrow> u16 \<Rightarrow> handler_call \<Rightarrow> application \<Rightarrow> application" where
  "queue_handler t s i me session g call st =
     st\<lparr>app_handlers := app_handlers st @ [\<lparr>sh_id = app_next_handler st, sh_call = call, sh_service_id = s,
          sh_instance_id = i, sh_method_id = me, sh_session_id = session, sh_eventgroup_id = g, sh_handler_type = t\<rparr>],
        app_next_handler := Suc (app_next_handler st)\<rparr>"

section \<open>What the program asks of the routing manager\<close>

definition when_routing :: "app_action list \<Rightarrow> application \<Rightarrow> app_result" where
  "when_routing acts st = (if app_routing st then acts else [], st)"

definition app_register_message_handler :: "u16 \<Rightarrow> u16 \<Rightarrow> u16 \<Rightarrow> message_handler \<Rightarrow> application \<Rightarrow> application" where
  "app_register_message_handler s i me h st = st\<lparr>app_members := put3 s i me h (app_members st)\<rparr>"

definition app_unregister_message_handler :: "u16 \<Rightarrow> u16 \<Rightarrow> u16 \<Rightarrow> application \<Rightarrow> application" where
  "app_unregister_message_handler s i me st = st\<lparr>app_members := erase3 s i me (app_members st)\<rparr>"

definition app_offer_service :: "u16 \<Rightarrow> u16 \<Rightarrow> byte \<Rightarrow> u32 \<Rightarrow> application \<Rightarrow> app_result" where
  "app_offer_service s i major minor st = when_routing [Rm_offer_service (app_client st) s i major minor] st"

definition app_stop_offer_service :: "u16 \<Rightarrow> u16 \<Rightarrow> byte \<Rightarrow> u32 \<Rightarrow> application \<Rightarrow> app_result" where
  "app_stop_offer_service s i major minor st = when_routing [Rm_stop_offer_service (app_client st) s i major minor] st"

definition app_request_service :: "u16 \<Rightarrow> u16 \<Rightarrow> byte \<Rightarrow> u32 \<Rightarrow> bool \<Rightarrow> application \<Rightarrow> app_result" where
  "app_request_service s i major minor use_exclusive_proxy st =
     when_routing [Rm_request_service (app_client st) s i major minor use_exclusive_proxy]
       (if use_exclusive_proxy then app_register_message_handler s i (ANY_METHOD - 1) Identify_response st else st)"

definition app_release_service :: "u16 \<Rightarrow> u16 \<Rightarrow> application \<Rightarrow> app_result" where
  "app_release_service s i st = when_routing [Rm_release_service (app_client st) s i] st"

definition app_offer_event :: "u16 \<Rightarrow> u16 \<Rightarrow> u16 \<Rightarrow> u16 set \<Rightarrow> bool \<Rightarrow> int \<Rightarrow> bool \<Rightarrow> epsilon_change_func option
    \<Rightarrow> application \<Rightarrow> app_result" where
  "app_offer_event s i ev gs is_field cycle change_resets_cycle epsilon st =
     when_routing [Rm_register_event (app_client st) s i ev gs is_field cycle change_resets_cycle epsilon True] st"

definition app_stop_offer_event :: "u16 \<Rightarrow> u16 \<Rightarrow> u16 \<Rightarrow> application \<Rightarrow> app_result" where
  "app_stop_offer_event s i ev st = when_routing [Rm_unregister_event (app_client st) s i ev True] st"

definition app_request_event :: "u16 \<Rightarrow> u16 \<Rightarrow> u16 \<Rightarrow> u16 set \<Rightarrow> bool \<Rightarrow> application \<Rightarrow> app_result" where
  "app_request_event s i ev gs is_field st =
     when_routing [Rm_register_event (app_client st) s i ev gs is_field 0 False None False] st"

definition app_release_event :: "u16 \<Rightarrow> u16 \<Rightarrow> u16 \<Rightarrow> application \<Rightarrow> app_result" where
  "app_release_event s i ev st = when_routing [Rm_unregister_event (app_client st) s i ev False] st"

definition app_notify :: "u16 \<Rightarrow> u16 \<Rightarrow> u16 \<Rightarrow> payload \<Rightarrow> bool \<Rightarrow> bool \<Rightarrow> application \<Rightarrow> app_result" where
  "app_notify s i ev p force flush st = when_routing [Rm_notify s i ev p force flush] st"

definition app_notify_one :: "u16 \<Rightarrow> u16 \<Rightarrow> u16 \<Rightarrow> payload \<Rightarrow> u16 \<Rightarrow> bool \<Rightarrow> bool \<Rightarrow> application \<Rightarrow> app_result" where
  "app_notify_one s i ev p c force flush st = when_routing [Rm_notify_one s i ev p c force flush] st"

text \<open>Sessions run from one to the greatest number and start again with one.\<close>

definition update_session :: "u16 \<Rightarrow> u16" where
  "update_session session = (let session = session + 1 in if session = 0 then session + 1 else session)"

text \<open>The flag tells whether the routing manager took the message.\<close>

definition app_send :: "bool \<Rightarrow> message \<Rightarrow> bool \<Rightarrow> application \<Rightarrow> app_result" where
  "app_send taken m flush st =
     (if app_routing st
      then if is_request (get_message_type m)
           then ([Rm_send (app_client st) (set_session (app_session st) (set_client (app_client st) m)) flush],
                 if taken then st\<lparr>app_session := update_session (app_session st)\<rparr> else st)
           else ([Rm_send (app_client st) m flush], st)
      else ([], st))"

section \<open>Registering handlers\<close>

definition app_register_state_handler :: "nat \<Rightarrow> application \<Rightarrow> application" where
  "app_register_state_handler h st = st\<lparr>app_state_handler := Some h\<rparr>"

definition app_unregister_state_handler :: "application \<Rightarrow> application" where
  "app_unregister_state_handler st = st\<lparr>app_state_handler := None\<rparr>"

definition app_register_subscription_handler :: "u16 \<Rightarrow> u16 \<Rightarrow> u16 \<Rightarrow> nat \<Rightarrow> application \<Rightarrow> application" where
  "app_register_subscription_handler s i g h st =
     app_register_message_handler s i (ANY_METHOD - 1) Send_response
       (st\<lparr>app_subscription := put3 s i g (Some h, None) (app_subscription st)\<rparr>)"

definition app_register_async_subscription_handler :: "u16 \<Rightarrow> u16 \<Rightarrow> u16 \<Rightarrow> nat \<Rightarrow> application \<Rightarrow> application" where
  "app_register_async_subscription_handler s i g h st =
     app_register_message_handler s i (ANY_METHOD - 1) Send_response
       (st\<lparr>app_subscription := put3 s i g (None, Some h) (app_subscription st)\<rparr>)"

definition app_unregister_subscription_handler :: "u16 \<Rightarrow> u16 \<Rightarrow> u16 \<Rightarrow> application \<Rightarrow> application" where
  "app_unregister_subscription_handler s i g st =
     app_unregister_message_handler s i (ANY_METHOD - 1)
       (st\<lparr>app_subscription := erase3 s i g (app_subscription st)\<rparr>)"

definition app_register_subscription_status_handler :: "u16 \<Rightarrow> u16 \<Rightarrow> u16 \<Rightarrow> u16 \<Rightarrow> nat option \<Rightarrow> bool
    \<Rightarrow> application \<Rightarrow> application" where
  "app_register_subscription_status_handler s i g ev handler is_selective st =
     st\<lparr>app_status_handlers := (case handler of
          Some h \<Rightarrow> put3 s i g ((inner (app_status_handlers st) s i g)(ev \<mapsto> (h, is_selective))) (app_status_handlers st)
        | None \<Rightarrow> prune4 s i g ev (app_status_handlers st))\<rparr>"

definition app_register_subscription_error_handler :: "u16 \<Rightarrow> u16 \<Rightarrow> u16 \<Rightarrow> nat \<Rightarrow> application \<Rightarrow> application" where
  "app_register_subscription_error_handler s i g h st =
     st\<lparr>app_error_handlers :=
       put3 s i g ((inner (app_error_handlers st) s i g)(app_client st \<mapsto> h)) (app_error_handlers st)\<rparr>"

definition app_unregister_subscription_error_handler :: "u16 \<Rightarrow> u16 \<Rightarrow> u16 \<Rightarrow> application \<Rightarrow> application" where
  "app_unregister_subscription_error_handler s i g st =
     (case lookup3 (app_error_handlers st) s i g of
        None \<Rightarrow> st
      | Some m \<Rightarrow> st\<lparr>app_error_handlers := put3 s i g (m(app_client st := None)) (app_error_handlers st)\<rparr>)"

definition app_set_watchdog_handler :: "nat option \<Rightarrow> int \<Rightarrow> application \<Rightarrow> app_result" where
  "app_set_watchdog_handler handler interval st =
     (if handler \<noteq> None \<and> interval \<noteq> 0
      then ([Watchdog_start interval], st\<lparr>app_watchdog_handler := handler, app_watchdog_interval := interval\<rparr>)
      else ([Watchdog_cancel], st\<lparr>app_watchdog_handler := None, app_watchdog_interval := 0\<rparr>))"

definition app_watchdog_cbk :: "bool \<Rightarrow> application \<Rightarrow> app_result" where
  "app_watchdog_cbk err st =
     (case app_watchdog_handler st of
        Some h \<Rightarrow> if err then ([], st)
                 else (if app_watchdog_interval st \<noteq> 0 then [Watchdog_start (app_watchdog_interval st)] else [],
                       queue_handler HT_WATCHDOG ANY_SERVICE ANY_INSTANCE ANY_METHOD 0 0 (Call_watchdog h) st)
      | None \<Rightarrow> ([], st))"

definition app_clear_all_handler :: "application \<Rightarrow> application" where
  "app_clear_all_handler st =
     (app_unregister_state_handler st)\<lparr>app_offered_services_handler := None, app_availability := Map.empty,
        app_subscription := Map.empty, app_error_handlers := Map.empty, app_members := Map.empty, app_handlers := []\<rparr>"

section \<open>Availability of services\<close>

definition ordered_keys :: "('k :: linorder \<rightharpoonup> 'v) \<Rightarrow> 'k list" where
  "ordered_keys m = sorted_list_of_set (dom m)"

definition minor_fits :: "u32 \<Rightarrow> u32 \<Rightarrow> bool" where
  "minor_fits minor m \<longleftrightarrow> minor \<le> m \<or> minor = ANY_MINOR \<or> minor = DEFAULT_MINOR"

definition check_major_minor :: "byte \<Rightarrow> u32 \<Rightarrow> (byte \<rightharpoonup> u32) \<Rightarrow> bool" where
  "check_major_minor major minor majors =
     (case majors major of
        Some m \<Rightarrow> minor_fits minor m
      | None \<Rightarrow> (major = DEFAULT_MAJOR \<or> major = ANY_MAJOR)
          \<and> list_ex (\<lambda>ma. minor_fits minor (the (majors ma))) (ordered_keys majors))"

definition check_instances :: "u16 \<Rightarrow> byte \<Rightarrow> u32 \<Rightarrow> (u16 \<rightharpoonup> byte \<rightharpoonup> u32) \<Rightarrow> bool" where
  "check_instances i major minor instances =
     (case instances i of
        Some majors \<Rightarrow> check_major_minor major minor majors
      | None \<Rightarrow> i = ANY_INSTANCE
          \<and> list_ex (\<lambda>i. check_major_minor major minor (the (instances i))) (ordered_keys instances))"

definition app_is_available :: "u16 \<Rightarrow> u16 \<Rightarrow> byte \<Rightarrow> u32 \<Rightarrow> application \<Rightarrow> bool" where
  "app_is_available s i major minor st =
     (case app_available st s of
        Some instances \<Rightarrow> check_instances i major minor instances
      | None \<Rightarrow> s = ANY_SERVICE
          \<and> list_ex (\<lambda>s. check_instances i major minor (the (app_available st s))) (ordered_keys (app_available st)))"

text \<open>
  The matches of a query are collected in a map in four passes, for the services, instances, major and
  minor versions.  The last two passes run over all instances of a service, whichever instance is asked
  for, and the last one over all major versions.
\<close>

definition touch :: "'a \<Rightarrow> ('a \<rightharpoonup> 'b \<rightharpoonup> 'v) \<Rightarrow> 'a \<rightharpoonup> 'b \<rightharpoonup> 'v" where
  "touch a m = (case m a of None \<Rightarrow> m(a \<mapsto> Map.empty) | Some _ \<Rightarrow> m)"

definition touch2 :: "'a \<Rightarrow> 'b \<Rightarrow> ('a, 'b, 'c, 'v) map3 \<Rightarrow> ('a, 'b, 'c, 'v) map3" where
  "touch2 a b m = m(a \<mapsto> touch b (case m a of Some n \<Rightarrow> n | None \<Rightarrow> Map.empty))"

definition touch3 :: "'a \<Rightarrow> 'b \<Rightarrow> 'c \<Rightarrow> ('a, 'b, 'c, u32) map3 \<Rightarrow> ('a, 'b, 'c, u32) map3" where
  "touch3 a b c m = (case lookup3 m a b c of None \<Rightarrow> put3 a b c 0 m | Some _ \<Rightarrow> m)"

definition chosen_keys :: "bool \<Rightarrow> 'k :: linorder \<Rightarrow> ('k \<rightharpoonup> 'v) \<Rightarrow> 'k list" where
  "chosen_keys any k m = (if any then ordered_keys m else if k \<in> dom m then [k] else [])"

definition add_services :: "u16 \<Rightarrow> available \<Rightarrow> available \<Rightarrow> available" where
  "add_services s av out = fold touch (chosen_keys (s = ANY_SERVICE) s av) out"

definition add_instances :: "u16 \<Rightarrow> available \<Rightarrow> available \<Rightarrow> available" where
  "add_instances i av out =
     fold (\<lambda>s out. case av s of
         None \<Rightarrow> out
       | Some instances \<Rightarrow> fold (touch2 s) (chosen_keys (i = ANY_INSTANCE) i instances) out)
       (ordered_keys out) out"

definition add_majors :: "byte \<Rightarrow> available \<Rightarrow> available \<Rightarrow> available" where
  "add_majors major av out =
     fold (\<lambda>s out. case av s of
         None \<Rightarrow> out
       | Some instances \<Rightarrow>
           fold (\<lambda>i. fold (touch3 s i)
               (chosen_keys (major = ANY_MAJOR \<or> major = DEFAULT_MAJOR) major (the (instances i))))
             (ordered_keys instances) out)
       (ordered_keys out) out"

definition minors_of :: "u32 \<Rightarrow> (u16 \<rightharpoonup> byte \<rightharpoonup> u32) \<Rightarrow> (u16 \<times> byte \<times> u32) list" where
  "minors_of minor instances =
     concat (map (\<lambda>i. let majors = the (instances i) in
         map (\<lambda>ma. (i, ma, the (majors ma))) (filter (\<lambda>ma. minor_fits minor (the (majors ma))) (ordered_keys majors)))
       (ordered_keys instances))"

definition add_minors :: "u32 \<Rightarrow> available \<Rightarrow> available \<Rightarrow> available" where
  "add_minors minor av out =
     fold (\<lambda>s out.
         let found = (case av s of None \<Rightarrow> [] | Some instances \<Rightarrow> minors_of minor instances);
             out = fold (\<lambda>(i, ma, mi). put3 s i ma mi) found out
         in if found = [] then out(s := None) else out)
       (ordered_keys out) out"

definition app_are_available :: "available \<Rightarrow> u16 \<Rightarrow> u16 \<Rightarrow> byte \<Rightarrow> u32 \<Rightarrow> application \<Rightarrow> bool \<times> available" where
  "app_are_available out s i major minor st =
     (let av = app_available st;
          out = add_minors minor av (add_majors major av (add_instances i av (add_services s av out)))
      in if out = Map.empty then (False, put3 s i major minor out) else (True, out))"

definition put4 :: "'a \<Rightarrow> 'b \<Rightarrow> 'c \<Rightarrow> 'd \<Rightarrow> 'v \<Rightarrow> ('a, 'b, 'c, 'd \<rightharpoonup> 'v) map3 \<Rightarrow> ('a, 'b, 'c, 'd \<rightharpoonup> 'v) map3" where
  "put4 a b c d v m = put3 a b c ((inner m a b c)(d \<mapsto> v)) m"

definition reports_of :: "bool \<Rightarrow> available \<Rightarrow> (u16 \<times> u16 \<times> bool) list" where
  "reports_of are out =
     concat (map (\<lambda>s. map (\<lambda>i. (s, i, are)) (ordered_keys (the (out s)))) (ordered_keys out))"

definition do_register_availability_handler :: "u16 \<Rightarrow> u16 \<Rightarrow> nat \<Rightarrow> byte \<Rightarrow> u32 \<Rightarrow> application \<Rightarrow> application" where
  "do_register_availability_handler s i h major minor st =
     (let (are, out) = app_are_available Map.empty s i major minor st
      in queue_handler HT_AVAILABILITY s i ANY_METHOD 0 0 (Call_availability h (reports_of are out))
           (st\<lparr>app_availability := put4 s i major minor (h, True) (app_availability st)\<rparr>))"

definition app_register_availability_handler :: "u16 \<Rightarrow> u16 \<Rightarrow> nat \<Rightarrow> byte \<Rightarrow> u32 \<Rightarrow> application \<Rightarrow> application" where
  "app_register_availability_handler s i h major minor st =
     (if app_registered st then do_register_availability_handler s i h major minor st
      else st\<lparr>app_availability := put4 s i major minor (h, False) (app_availability st)\<rparr>)"

definition app_unregister_availability_handler :: "u16 \<Rightarrow> u16 \<Rightarrow> byte \<Rightarrow> u32 \<Rightarrow> application \<Rightarrow> application" where
  "app_unregister_availability_handler s i major minor st =
     st\<lparr>app_availability := prune4 s i major minor (app_availability st)\<rparr>"

text \<open>The handlers registered before the application was registered, in the order of their keys.\<close>

definition unreported :: "application \<Rightarrow> (u16 \<times> u16 \<times> byte \<times> u32 \<times> nat) list" where
  "unreported st =
     concat (map (\<lambda>s. let is = the (app_availability st s) in
       concat (map (\<lambda>i. let mas = the (is i) in
         concat (map (\<lambda>ma. let mis = the (mas ma) in
           map (\<lambda>mi. (s, i, ma, mi, fst (the (mis mi))))
             (filter (\<lambda>mi. \<not> snd (the (mis mi))) (ordered_keys mis)))
         (ordered_keys mas)))
       (ordered_keys is)))
     (ordered_keys (app_availability st)))"

definition app_on_state :: "bool \<Rightarrow> application \<Rightarrow> application" where
  "app_on_state state st =
     (let st = (if app_registered st = state then st
                else let st = st\<lparr>app_registered := state\<rparr>
                     in if state
                        then fold (\<lambda>(s, i, ma, mi, h). do_register_availability_handler s i h ma mi) (unreported st) st
                        else st)
      in case app_state_handler st of
           Some h \<Rightarrow> queue_handler HT_STATE ANY_SERVICE ANY_INSTANCE ANY_METHOD 0 0 (Call_state h state) st
         | None \<Rightarrow> st)"

text \<open>
  The handlers that match a version that appears or goes: the loop counts from the minor version down,
  in a signed integer.
\<close>

primrec minors_down :: "(u32 \<rightharpoonup> nat \<times> bool) \<Rightarrow> nat \<Rightarrow> nat list" where
  "minors_down m 0 = (case m 0 of Some (h, _) \<Rightarrow> [h] | None \<Rightarrow> [])"
| "minors_down m (Suc n) = (case m (of_nat (Suc n)) of Some (h, _) \<Rightarrow> [h] | None \<Rightarrow> []) @ minors_down m n"

definition handlers_of_major :: "u32 \<Rightarrow> (u32 \<rightharpoonup> nat \<times> bool) option \<Rightarrow> nat list" where
  "handlers_of_major minor found = (case found of
       None \<Rightarrow> []
     | Some m \<Rightarrow> (if sint minor \<ge> 0 then minors_down m (unat minor) else [])
         @ (case m ANY_MINOR of Some (h, _) \<Rightarrow> [h] | None \<Rightarrow> []))"

definition find_matching_handler :: "byte \<Rightarrow> u32 \<Rightarrow> (byte \<rightharpoonup> u32 \<rightharpoonup> nat \<times> bool) option \<Rightarrow> nat list" where
  "find_matching_handler major minor found = (case found of
       None \<Rightarrow> []
     | Some majors \<Rightarrow> handlers_of_major minor (majors major) @ handlers_of_major minor (majors ANY_MAJOR))"

definition availability_handlers_for :: "u16 \<Rightarrow> u16 \<Rightarrow> byte \<Rightarrow> u32 \<Rightarrow> application \<Rightarrow> nat list" where
  "availability_handlers_for s i major minor st =
     (let matching = (\<lambda>(s, i). find_matching_handler major minor (lookup2 (app_availability st) s i))
      in concat (map matching [(s, i), (s, ANY_INSTANCE), (ANY_SERVICE, i), (ANY_SERVICE, ANY_INSTANCE)]))"

definition update_available :: "u16 \<Rightarrow> u16 \<Rightarrow> bool \<Rightarrow> byte \<Rightarrow> u32 \<Rightarrow> available \<Rightarrow> available" where
  "update_available s i is_available major minor av =
     (if is_available then put3 s i major minor av
      else if lookup3 av s i major = Some minor then erase2 s i av else av)"

text \<open>The subscriptions of an instance that is gone have to be made and acknowledged again.\<close>

definition forget_subscriptions :: "u16 \<Rightarrow> u16 \<Rightarrow> application \<Rightarrow> application" where
  "forget_subscriptions s i st =
     st\<lparr>app_subscriptions := (case lookup2 (app_subscriptions st) s i of
            None \<Rightarrow> app_subscriptions st
          | Some evs \<Rightarrow> put2 s i (\<lambda>ev. map_option (\<lambda>gs g. map_option (\<lambda>_. False) (gs g)) (evs ev)) (app_subscriptions st)),
        app_subscription_state := (\<lambda>(s', i', g, ev).
          if s' = s \<and> i' = i
          then map_option (\<lambda>_. SUBSCRIPTION_NOT_ACKNOWLEDGED) (app_subscription_state st (s', i', g, ev))
          else app_subscription_state st (s', i', g, ev))\<rparr>"

definition queue_availability :: "u16 \<Rightarrow> u16 \<Rightarrow> bool \<Rightarrow> nat \<Rightarrow> application \<Rightarrow> application" where
  "queue_availability s i is_available h =
     queue_handler HT_AVAILABILITY s i ANY_METHOD 0 0 (Call_availability h [(s, i, is_available)])"

definition app_on_availability :: "u16 \<Rightarrow> u16 \<Rightarrow> bool \<Rightarrow> byte \<Rightarrow> u32 \<Rightarrow> application \<Rightarrow> application" where
  "app_on_availability s i is_available major minor st =
     (if is_available = app_is_available s i major minor st then st
      else let st = st\<lparr>app_available := update_available s i is_available major minor (app_available st)\<rparr>;
               st = fold (queue_availability s i is_available) (availability_handlers_for s i major minor st) st
           in if is_available then st else forget_subscriptions s i st)"

section \<open>Messages\<close>

text \<open>
  A notification is for the application when it subscribed to the event or, if nobody subscribed to the
  event itself, to all events of an eventgroup of it.  The subscriptions concerned are marked.
\<close>

definition check_for_active_subscription :: "app_env \<Rightarrow> u16 \<Rightarrow> u16 \<Rightarrow> u16 \<Rightarrow> application \<Rightarrow> bool \<times> application" where
  "check_for_active_subscription env s i ev st =
     (let mark = (\<lambda>ev gs. st\<lparr>app_subscriptions := put3 s i ev gs (app_subscriptions st)\<rparr>)
      in case lookup2 (app_subscriptions st) s i of
        None \<Rightarrow> (False, st)
      | Some evs \<Rightarrow>
          (case evs ev of
             Some gs \<Rightarrow> if gs = Map.empty then (False, st) else (True, mark ev (\<lambda>g. map_option (\<lambda>_. True) (gs g)))
           | None \<Rightarrow>
               (case (evs ANY_EVENT, if app_routing st then ae_find_event env s i ev else None) of
                  (Some gs, Some e) \<Rightarrow>
                    (case find (\<lambda>g. g \<in> dom gs) (sorted_list_of_set (get_eventgroups e)) of
                       Some g \<Rightarrow> (True, mark ANY_EVENT (gs(g \<mapsto> True)))
                     | None \<Rightarrow> (False, st))
                | _ \<Rightarrow> (False, st))))"

text \<open>
  The handlers found go into a set ordered by the address of the function pointer that a handler
  holds.  Two pointers never have the same address; all function objects have the null address, so the
  first of them is kept, and comes first.
\<close>

definition handler_set :: "app_env \<Rightarrow> message_handler list \<Rightarrow> message_handler list" where
  "handler_set env hs = take 1 (filter (\<lambda>h. \<not> is_function h) hs) @ ae_order env (filter is_function hs)"

definition registered_handlers :: "u16 \<Rightarrow> u16 \<Rightarrow> u16 \<Rightarrow> application \<Rightarrow> message_handler list" where
  "registered_handlers s i me st =
     List.map_filter (\<lambda>(s, i, me). lookup3 (app_members st) s i me)
       [(s, i, me), (s, i, ANY_METHOD), (s, ANY_INSTANCE, me), (s, ANY_INSTANCE, ANY_METHOD),
        (ANY_SERVICE, i, me), (ANY_SERVICE, i, ANY_METHOD),
        (ANY_SERVICE, ANY_INSTANCE, me), (ANY_SERVICE, ANY_INSTANCE, ANY_METHOD)]"

definition queue_message :: "message \<Rightarrow> message_handler \<Rightarrow> application \<Rightarrow> application" where
  "queue_message m h =
     queue_handler HT_MESSAGE (get_service m) (get_instance m) (get_method m) (get_session m) 0 (Call_message h m)"

definition app_on_message :: "app_env \<Rightarrow> message \<Rightarrow> application \<Rightarrow> application" where
  "app_on_message env m st =
     (let s = get_service m; i = get_instance m; me = get_method m;
          (active, st) = (if get_message_type m = MT_NOTIFICATION then check_for_active_subscription env s i me st
                          else (True, st))
      in if \<not> active then st
         else fold (queue_message m) (handler_set env (registered_handlers s i me st)) st)"

section \<open>Subscriptions of the application\<close>

definition cached_notification :: "u16 \<Rightarrow> u16 \<Rightarrow> u16 \<Rightarrow> payload option \<Rightarrow> message" where
  "cached_notification s i ev p =
     set_initial True (set_payload p (set_instance i (set_method ev (set_service s (create_notification False)))))"

definition send_back_cached_event :: "app_env \<Rightarrow> u16 \<Rightarrow> u16 \<Rightarrow> u16 \<Rightarrow> application \<Rightarrow> application" where
  "send_back_cached_event env s i ev st = (case ae_find_event env s i ev of
       None \<Rightarrow> st
     | Some e \<Rightarrow> if ev_is_field e \<and> ev_is_set e
                then app_on_message env (cached_notification s i ev (event_get_payload e)) st else st)"

definition send_back_cached_eventgroup :: "app_env \<Rightarrow> u16 \<Rightarrow> u16 \<Rightarrow> u16 \<Rightarrow> application \<Rightarrow> application" where
  "send_back_cached_eventgroup env s i g st =
     fold (\<lambda>e st. if ev_is_field e \<and> ev_is_set e
                   then app_on_message env (cached_notification s i (event_get_event e) (event_get_payload e)) st else st)
       (ae_find_events env s i g) st"

text \<open>Whether the current value of the event, and whether those of the eventgroup are to be sent back.\<close>

definition check_send_back_cached_event :: "u16 \<Rightarrow> u16 \<Rightarrow> u16 \<Rightarrow> u16 \<Rightarrow> application \<Rightarrow> (bool \<times> bool) \<times> application" where
  "check_send_back_cached_event s i ev g st =
     (case inner (app_subscriptions st) s i ev g of
        Some initial \<Rightarrow> ((initial \<and> ev \<noteq> ANY_EVENT, initial \<and> ev = ANY_EVENT), st)
      | None \<Rightarrow> ((False, False), st\<lparr>app_subscriptions := put4 s i ev g False (app_subscriptions st)\<rparr>))"

text \<open>
  The handlers of a subscription status: for each of four places the handler of the event or, if there is
  none, that of all events.  Errors go to selective handlers only.
\<close>

definition status_handlers :: "u16 \<Rightarrow> u16 \<Rightarrow> u16 \<Rightarrow> u16 \<Rightarrow> u16 \<Rightarrow> application \<Rightarrow> nat list" where
  "status_handlers s i g ev err st =
     List.map_filter (\<lambda>(s, i).
         let found = inner (app_status_handlers st) s i g
         in case (case found ev of Some x \<Rightarrow> Some x | None \<Rightarrow> found ANY_EVENT) of
              Some (h, is_selective) \<Rightarrow> if err = 0 \<or> is_selective then Some h else None
            | None \<Rightarrow> None)
       [(s, i), (s, ANY_INSTANCE), (ANY_SERVICE, i), (ANY_SERVICE, ANY_INSTANCE)]"

definition deliver_subscription_state :: "u16 \<Rightarrow> u16 \<Rightarrow> u16 \<Rightarrow> u16 \<Rightarrow> u16 \<Rightarrow> application \<Rightarrow> application" where
  "deliver_subscription_state s i g ev err st =
     fold (\<lambda>h. queue_handler HT_SUBSCRIPTION s i ev 0 g (Call_status h s i g ev err)) (status_handlers s i g ev err st) st"

definition check_subscription_state :: "u16 \<Rightarrow> u16 \<Rightarrow> u16 \<Rightarrow> u16 \<Rightarrow> application \<Rightarrow> bool \<times> application" where
  "check_subscription_state s i g ev st =
     (case app_subscription_state st (s, i, g, ev) of
        None \<Rightarrow> (True, st\<lparr>app_subscription_state := (app_subscription_state st)((s, i, g, ev) \<mapsto> IS_SUBSCRIBING)\<rparr>)
      | Some SUBSCRIPTION_NOT_ACKNOWLEDGED \<Rightarrow> (True, st)
      | Some SUBSCRIPTION_ACKNOWLEDGED \<Rightarrow> (False, deliver_subscription_state s i g ev 0 st)
      | Some IS_SUBSCRIBING \<Rightarrow> (False, st))"

definition app_subscribe :: "app_env \<Rightarrow> u16 \<Rightarrow> u16 \<Rightarrow> u16 \<Rightarrow> byte \<Rightarrow> byte \<Rightarrow> u16 \<Rightarrow> application \<Rightarrow> app_result" where
  "app_subscribe env s i g major type ev st =
     (if app_routing st
      then let ((back_event, back_group), st) = check_send_back_cached_event s i ev g st;
               st = (if back_event then send_back_cached_event env s i ev st
                     else if back_group then send_back_cached_eventgroup env s i g st else st);
               (should_subscribe, st) = check_subscription_state s i g ev st
           in (if should_subscribe then [Rm_subscribe (app_client st) s i g major ev type] else [], st)
      else ([], st))"

definition remove_subscription :: "u16 \<Rightarrow> u16 \<Rightarrow> u16 \<Rightarrow> u16 \<Rightarrow> application \<Rightarrow> application" where
  "remove_subscription s i g ev st =
     st\<lparr>app_subscription_state := (app_subscription_state st)((s, i, g, ev) := None),
        app_subscriptions := prune4 s i ev g (app_subscriptions st)\<rparr>"

definition app_unsubscribe_event :: "u16 \<Rightarrow> u16 \<Rightarrow> u16 \<Rightarrow> u16 \<Rightarrow> application \<Rightarrow> app_result" where
  "app_unsubscribe_event s i g ev st =
     when_routing [Rm_unsubscribe (app_client st) s i g ev] (remove_subscription s i g ev st)"

definition app_unsubscribe :: "u16 \<Rightarrow> u16 \<Rightarrow> u16 \<Rightarrow> application \<Rightarrow> app_result" where
  "app_unsubscribe s i g st =
     when_routing [Rm_unsubscribe (app_client st) s i g ANY_EVENT] (remove_subscription s i g ANY_EVENT st)"

definition app_on_subscription_status :: "u16 \<Rightarrow> u16 \<Rightarrow> u16 \<Rightarrow> u16 \<Rightarrow> u16 \<Rightarrow> application \<Rightarrow> application" where
  "app_on_subscription_status s i g ev err st =
     (case find (\<lambda>k. k \<in> dom (app_subscription_state st)) [(s, i, g, ev), (s, i, g, ANY_EVENT)] of
        Some k \<Rightarrow> deliver_subscription_state s i g ev err
          (st\<lparr>app_subscription_state := (app_subscription_state st)
               (k \<mapsto> if err = 0 then SUBSCRIPTION_ACKNOWLEDGED else SUBSCRIPTION_NOT_ACKNOWLEDGED)\<rparr>)
      | None \<Rightarrow> st)"

definition app_on_subscription_error :: "u16 \<Rightarrow> u16 \<Rightarrow> u16 \<Rightarrow> u16 \<Rightarrow> application \<Rightarrow> application" where
  "app_on_subscription_error s i g err st =
     (case inner (app_error_handlers st) s i g (app_client st) of
        Some h \<Rightarrow> queue_handler HT_SUBSCRIPTION s i ANY_METHOD 0 g (Call_error h err) st
      | None \<Rightarrow> st)"

text \<open>A subscription of another client; the answer is what the handler of the program returns.\<close>

definition app_on_subscription :: "bool \<Rightarrow> u16 \<Rightarrow> u16 \<Rightarrow> u16 \<Rightarrow> u16 \<Rightarrow> bool \<Rightarrow> application \<Rightarrow> app_action list" where
  "app_on_subscription answer s i g c subscribed st =
     (case lookup3 (app_subscription st) s i g of
        Some (Some h, _) \<Rightarrow> [Call_subscription_handler h c subscribed, Subscription_accepted answer]
      | Some (None, Some h) \<Rightarrow> [Call_async_subscription_handler h c subscribed]
      | Some (None, None) \<Rightarrow> []
      | None \<Rightarrow> [Subscription_accepted True])"

text \<open>The services offered, asked of the routing manager by an application that does not host it.\<close>

definition app_get_offered_services_async :: "byte \<Rightarrow> nat \<Rightarrow> application \<Rightarrow> app_result" where
  "app_get_offered_services_async offer_type h st =
     ([Rm_send_get_offered_services_info (app_client st) offer_type], st\<lparr>app_offered_services_handler := Some h\<rparr>)"

definition app_on_offered_services_info :: "(u16 \<times> u16) list \<Rightarrow> application \<Rightarrow> application" where
  "app_on_offered_services_info services st =
     (case app_offered_services_handler st of
        Some h \<Rightarrow> queue_handler HT_OFFERED_SERVICES_INFO ANY_SERVICE ANY_INSTANCE ANY_METHOD 0 0
                   (Call_offered_services h services) st
      | None \<Rightarrow> st)"

end
