(* ===== verification/Dispatcher.thy ===== *)
theory Dispatcher
  imports Application
begin

text \<open>
  The dispatcher threads of the application (\<^verbatim>\<open>application_impl.cpp\<close>): they take the handlers from
  the queue and call them.  Handlers of a service instance are to start in the order in which they were
  queued, and an availability handler has to return before the next one of its instance is called.

  The threads are numbers.  What a thread does while it holds the lock of the queue or that of the set of
  dispatchers is one step; the steps of the threads and the calls of the application interleave freely.
\<close>

section \<open>The queue of handlers\<close>

definition instance_of :: "sync_handler \<Rightarrow> u16 \<times> u16" where
  "instance_of h = (sh_service_id h, sh_instance_id h)"

text \<open>
  An availability handler waits in the list of its instance while another one of the instance is called;
  a message that comes after a waiting availability handler waits there too.
\<close>

fun next_handler :: "sync_handler list \<Rightarrow> (u16 \<times> u16 \<rightharpoonup> sync_handler list)
    \<Rightarrow> sync_handler option \<times> sync_handler list \<times> (u16 \<times> u16 \<rightharpoonup> sync_handler list)" where
  "next_handler [] av = (None, [], av)"
| "next_handler (h # hs) av =
     (let si = instance_of h; q = (case av si of Some q \<Rightarrow> q | None \<Rightarrow> [])
      in if sh_handler_type h = HT_AVAILABILITY
         then if q \<noteq> [] \<and> sh_id (hd q) \<noteq> sh_id h then next_handler hs (av(si \<mapsto> q @ [h]))
              else (Some h, hs, av(si \<mapsto> q @ [h]))
         else if sh_handler_type h = HT_MESSAGE
         then if length q > 1 then next_handler hs (av(si \<mapsto> q @ [h])) else (Some h, hs, av)
         else (Some h, hs, av))"

definition get_next_handler :: "application \<Rightarrow> sync_handler option \<times> application" where
  "get_next_handler st =
     (let (h, hs, av) = next_handler (app_handlers st) (app_availability_handlers st)
      in (h, st\<lparr>app_handlers := hs, app_availability_handlers := av\<rparr>))"

definition reschedule_availability_handler :: "sync_handler \<Rightarrow> application \<Rightarrow> application" where
  "reschedule_availability_handler h st =
     (if sh_handler_type h = HT_AVAILABILITY
      then case app_availability_handlers st (instance_of h) of
             Some (f # q) \<Rightarrow>
               if sh_id f = sh_id h
               then st\<lparr>app_handlers := q @ app_handlers st,
                       app_availability_handlers := (app_availability_handlers st)(instance_of h := None)\<rparr>
               else st
           | _ \<Rightarrow> st
      else st)"

section \<open>The dispatchers\<close>

text \<open>\<open>ds_invoking\<close> holds the handler that a thread has taken and not yet given back.\<close>

record dispatching =
  ds_app :: application
  ds_is_dispatching :: bool
  ds_dispatchers :: "nat set"
  ds_elapsed :: "nat set"
  ds_running :: "nat set"
  ds_max_dispatchers :: nat
  ds_invoking :: "nat \<rightharpoonup> sync_handler"

definition VSOMEIP_MAX_DISPATCHERS :: nat where [simp]: "VSOMEIP_MAX_DISPATCHERS = 10"

definition dispatching_create :: dispatching where
  "dispatching_create = \<lparr>ds_app = app_create, ds_is_dispatching = False, ds_dispatchers = {}, ds_elapsed = {},
     ds_running = {}, ds_max_dispatchers = VSOMEIP_MAX_DISPATCHERS, ds_invoking = Map.empty\<rparr>"

text \<open>The configuration gives the number of dispatchers besides the first one.\<close>

definition dispatch_init :: "nat \<Rightarrow> dispatching \<Rightarrow> dispatching" where
  "dispatch_init n ds = ds\<lparr>ds_max_dispatchers := n + 1\<rparr>"

definition dispatch_start :: "nat \<Rightarrow> dispatching \<Rightarrow> dispatching" where
  "dispatch_start t ds = ds\<lparr>ds_is_dispatching := True, ds_dispatchers := insert t (ds_dispatchers ds)\<rparr>"

definition has_active_dispatcher :: "dispatching \<Rightarrow> bool" where
  "has_active_dispatcher ds \<longleftrightarrow> (\<exists>d\<in>ds_dispatchers ds. d \<notin> ds_running ds \<and> d \<notin> ds_elapsed ds)"

definition is_active_dispatcher :: "nat \<Rightarrow> dispatching \<Rightarrow> bool" where
  "is_active_dispatcher t ds \<longleftrightarrow> ds_is_dispatching ds
     \<and> (\<forall>d\<in>ds_dispatchers ds. d \<noteq> t \<longrightarrow> d \<in> ds_running ds \<or> d \<in> ds_elapsed ds)"

definition remove_elapsed_dispatchers :: "dispatching \<Rightarrow> dispatching" where
  "remove_elapsed_dispatchers ds =
     (if ds_is_dispatching ds
      then ds\<lparr>ds_dispatchers := ds_dispatchers ds - ds_elapsed ds, ds_elapsed := {}\<rparr> else ds)"

text \<open>A thread takes a handler when it is the only one that is free.\<close>

definition dispatch_take :: "nat \<Rightarrow> dispatching \<Rightarrow> sync_handler option \<times> dispatching" where
  "dispatch_take t ds =
     (if ds_is_dispatching ds \<and> is_active_dispatcher t ds
      then let (h, st) = get_next_handler (ds_app ds)
           in (h, ds\<lparr>ds_app := st, ds_invoking := (ds_invoking ds)(t := h)\<rparr>)
      else (None, ds))"

definition invoke_begin :: "nat \<Rightarrow> dispatching \<Rightarrow> dispatching" where
  "invoke_begin t ds = (if ds_is_dispatching ds then ds\<lparr>ds_running := insert t (ds_running ds)\<rparr> else ds)"

definition invoke_end :: "nat \<Rightarrow> dispatching \<Rightarrow> dispatching" where
  "invoke_end t ds = (if ds_is_dispatching ds then ds\<lparr>ds_running := ds_running ds - {t}\<rparr> else ds)"

definition dispatch_return :: "nat \<Rightarrow> dispatching \<Rightarrow> dispatching" where
  "dispatch_return t ds = (case ds_invoking ds t of
       Some h \<Rightarrow> remove_elapsed_dispatchers
         (ds\<lparr>ds_app := reschedule_availability_handler h (ds_app ds), ds_invoking := (ds_invoking ds)(t := None)\<rparr>)
     | None \<Rightarrow> ds)"

text \<open>
  When a handler has been called for too long and no dispatcher is free, a further thread is started,
  up to the greatest number.  The code looks for a free dispatcher and starts the thread in two
  critical sections, which are one step here; the bound on the number of threads is tested in the
  second.  A thread other than the first leaves when it has nothing to do.
\<close>

definition dispatch_blocked :: "nat \<Rightarrow> dispatching \<Rightarrow> dispatching" where
  "dispatch_blocked t ds =
     (if ds_is_dispatching ds \<and> \<not> has_active_dispatcher ds \<and> card (ds_dispatchers ds) < ds_max_dispatchers ds
      then ds\<lparr>ds_dispatchers := insert t (ds_dispatchers ds)\<rparr> else ds)"

definition dispatch_leave :: "nat \<Rightarrow> dispatching \<Rightarrow> dispatching" where
  "dispatch_leave t ds = (if ds_is_dispatching ds then ds\<lparr>ds_elapsed := insert t (ds_elapsed ds)\<rparr> else ds)"

section \<open>What the application is called with\<close>

text \<open>The calls of the program and of the routing manager, the dropping of all handlers apart.\<close>

inductive app_call :: "application \<Rightarrow> application \<Rightarrow> bool" where
  "app_call st (app_register_message_handler s i me h st)"
| "app_call st (app_unregister_message_handler s i me st)"
| "app_call st (snd (app_offer_service s i ma mi st))"
| "app_call st (snd (app_stop_offer_service s i ma mi st))"
| "app_call st (snd (app_request_service s i ma mi excl st))"
| "app_call st (snd (app_release_service s i st))"
| "app_call st (snd (app_offer_event s i ev gs fld cyc res eps st))"
| "app_call st (snd (app_stop_offer_event s i ev st))"
| "app_call st (snd (app_request_event s i ev gs fld st))"
| "app_call st (snd (app_release_event s i ev st))"
| "app_call st (snd (app_notify s i ev p force flush st))"
| "app_call st (snd (app_notify_one s i ev p c force flush st))"
| "app_call st (snd (app_send taken m flush st))"
| "app_call st (app_register_state_handler h' st)"
| "app_call st (app_unregister_state_handler st)"
| "app_call st (app_register_subscription_handler s i g h' st)"
| "app_call st (app_register_async_subscription_handler s i g h' st)"
| "app_call st (app_unregister_subscription_handler s i g st)"
| "app_call st (app_register_subscription_status_handler s i g ev ho sel st)"
| "app_call st (app_register_subscription_error_handler s i g h' st)"
| "app_call st (app_unregister_subscription_error_handler s i g st)"
| "app_call st (snd (app_set_watchdog_handler ho iv st))"
| "app_call st (snd (app_watchdog_cbk err st))"
| "app_call st (app_register_availability_handler s i h' ma mi st)"
| "app_call st (app_unregister_availability_handler s i ma mi st)"
| "app_call st (app_on_state state st)"
| "app_call st (app_on_availability s i avail ma mi st)"
| "app_call st (app_on_message env m st)"
| "app_call st (snd (app_subscribe env s i g ma ty ev st))"
| "app_call st (snd (app_unsubscribe_event s i g ev st))"
| "app_call st (snd (app_unsubscribe s i g st))"
| "app_call st (app_on_subscription_status s i g ev err' st)"
| "app_call st (app_on_subscription_error s i g err' st)"
| "app_call st (snd (app_get_offered_services_async ty h' st))"
| "app_call st (app_on_offered_services_info svs st)"

section \<open>Runs\<close>

text \<open>
  The runs of an application whose first dispatcher is thread \<open>main\<close>, with the handlers queued and the
  handlers taken so far.  A new thread is not one of those there, nor one that has a handler.
\<close>

inductive dispatching_run :: "nat \<Rightarrow> dispatching \<Rightarrow> sync_handler list \<Rightarrow> sync_handler list \<Rightarrow> bool" for main where
  run_create: "dispatching_run main dispatching_create [] []"
| run_init: "dispatching_run main ds queued taken \<Longrightarrow> \<not> ds_is_dispatching ds \<Longrightarrow>
    dispatching_run main (dispatch_init n ds) queued taken"
| run_start: "dispatching_run main ds queued taken \<Longrightarrow> ds_dispatchers ds = {} \<Longrightarrow>
    dispatching_run main (dispatch_start main ds) queued taken"
| run_call: "dispatching_run main ds queued taken \<Longrightarrow> app_call (ds_app ds) st \<Longrightarrow>
    dispatching_run main (ds\<lparr>ds_app := st\<rparr>) (queued @ drop (length (app_handlers (ds_app ds))) (app_handlers st)) taken"
| run_take: "dispatching_run main ds queued taken \<Longrightarrow> t \<in> ds_dispatchers ds \<Longrightarrow> t \<notin> ds_elapsed ds \<Longrightarrow>
    ds_invoking ds t = None \<Longrightarrow> dispatch_take t ds = (h, ds') \<Longrightarrow>
    dispatching_run main ds' queued (taken @ (case h of Some h \<Rightarrow> [h] | None \<Rightarrow> []))"
| run_begin: "dispatching_run main ds queued taken \<Longrightarrow> ds_invoking ds t \<noteq> None \<Longrightarrow>
    dispatching_run main (invoke_begin t ds) queued taken"
| run_end: "dispatching_run main ds queued taken \<Longrightarrow> t \<in> ds_running ds \<Longrightarrow>
    dispatching_run main (invoke_end t ds) queued taken"
| run_return: "dispatching_run main ds queued taken \<Longrightarrow> t \<notin> ds_running ds \<Longrightarrow>
    dispatching_run main (dispatch_return t ds) queued taken"
| run_blocked: "dispatching_run main ds queued taken \<Longrightarrow>
    t \<notin> ds_dispatchers ds \<Longrightarrow> ds_invoking ds t = None \<Longrightarrow>
    dispatching_run main (dispatch_blocked t ds) queued taken"
| run_leave: "dispatching_run main ds queued taken \<Longrightarrow> t \<in> ds_dispatchers ds \<Longrightarrow> t \<noteq> main \<Longrightarrow>
    ds_invoking ds t = None \<Longrightarrow> dispatching_run main (dispatch_leave t ds) queued taken"

section \<open>Calls only add to the queue\<close>

text \<open>Handlers are numbered in the order in which they are queued.\<close>

definition queues :: "application \<Rightarrow> application \<Rightarrow> bool" where
  "queues st st' \<longleftrightarrow> (\<exists>hs. app_handlers st' = app_handlers st @ hs
     \<and> map sh_id hs = [app_next_handler st..<app_next_handler st'] \<and> app_next_handler st \<le> app_next_handler st'
     \<and> app_availability_handlers st' = app_availability_handlers st)"

lemma queues_same:
  assumes "app_handlers st' = app_handlers st" "app_next_handler st' = app_next_handler st"
    "app_availability_handlers st' = app_availability_handlers st"
  shows "queues st st'"
  using assms by (simp add: queues_def)

lemma queues_trans: "queues st st' \<Longrightarrow> queues st' st'' \<Longrightarrow> queues st st''"
  unfolding queues_def by (metis append_assoc le_trans map_append upt_add_eq_append le_Suc_ex)

lemma queues_queue_handler: "queues st (queue_handler t s i me se g c st)"
  by (simp add: queues_def queue_handler_def)

lemma queues_fold: "(\<And>x st. queues st (f x st)) \<Longrightarrow> queues st (fold f xs st)"
  by (induction xs arbitrary: st) (simp add: queues_same, metis fold_simps(2) queues_trans)

lemma queues_update:
  assumes "queues st st'" "app_handlers st'' = app_handlers st'" "app_next_handler st'' = app_next_handler st'"
    "app_availability_handlers st'' = app_availability_handlers st'"
  shows "queues st st''"
  using assms by (simp add: queues_def)

lemma queues_do_register: "queues st (do_register_availability_handler s i h ma mi st)"
  by (auto simp: do_register_availability_handler_def queues_def queue_handler_def split: prod.splits)

lemma queues_register_availability: "queues st (app_register_availability_handler s i h ma mi st)"
  by (simp add: app_register_availability_handler_def queues_do_register queues_same)

lemma queues_on_state: "queues st (app_on_state state st)"
proof -
  let ?st = "if app_registered st = state then st
     else let st = st\<lparr>app_registered := state\<rparr>
          in if state then fold (\<lambda>(s, i, ma, mi, h). do_register_availability_handler s i h ma mi) (unreported st) st else st"
  have "queues (st\<lparr>app_registered := state\<rparr>)
      (fold (\<lambda>(s, i, ma, mi, h). do_register_availability_handler s i h ma mi) xs (st\<lparr>app_registered := state\<rparr>))" for xs
    by (rule queues_fold) (auto simp: queues_do_register split: prod.splits)
  then have "queues st (fold (\<lambda>(s, i, ma, mi, h). do_register_availability_handler s i h ma mi) xs
      (st\<lparr>app_registered := state\<rparr>))" for xs
    by (rule queues_trans [rotated]) (simp add: queues_same)
  then have "queues st ?st" by (cases state) (simp_all add: Let_def queues_same)
  then have "queues st (case ho of Some h \<Rightarrow> queue_handler t ANY_SERVICE ANY_INSTANCE me 0 0 (c h) ?st | None \<Rightarrow> ?st)"
    for ho t me c
    by (cases ho) (simp_all only: option.case queues_trans [OF _ queues_queue_handler])
  then show ?thesis unfolding app_on_state_def by (simp only: Let_def)
qed

lemma queues_on_availability: "queues st (app_on_availability s i avail ma mi st)"
proof -
  have fold: "queues st (fold (queue_availability s i avail) hs st)" for hs st
    by (rule queues_fold) (simp add: queue_availability_def queues_queue_handler)
  have "queues st (fold (queue_availability s i avail) hs (st\<lparr>app_available := a\<rparr>))" for hs a
    by (rule queues_trans [OF _ fold]) (simp add: queues_same)
  moreover from this have "queues st (forget_subscriptions s i (fold (queue_availability s i avail) hs (st\<lparr>app_available := a\<rparr>)))" for hs a
    by (rule queues_update) (simp_all add: forget_subscriptions_def)
  ultimately show ?thesis
    by (cases avail) (simp_all add: app_on_availability_def Let_def queues_same)
qed

lemma queues_check_for_active: "queues st (snd (check_for_active_subscription env s i ev st))"
  by (auto simp: check_for_active_subscription_def Let_def intro: queues_same split: option.splits)

lemma queues_on_message: "queues st (app_on_message env m st)"
proof -
  have *: "queues st (fold (queue_message m) hs st)" for st hs
    by (rule queues_fold) (simp add: queue_message_def queues_queue_handler)
  show ?thesis
    using queues_check_for_active [of st env "get_service m" "get_instance m" "get_method m"]
    by (auto simp: app_on_message_def Let_def * split: prod.splits intro: queues_trans)
qed

lemma queues_deliver: "queues st (deliver_subscription_state s i g ev err st)"
  unfolding deliver_subscription_state_def by (rule queues_fold) (rule queues_queue_handler)

lemma queues_check_subscription_state: "queues st (snd (check_subscription_state s i g ev st))"
  by (auto simp: check_subscription_state_def queues_deliver intro: queues_same split: option.splits subscription_state.splits)

lemma queues_send_back:
  "queues st (send_back_cached_event env s i ev st)" "queues st (send_back_cached_eventgroup env s i g st)"
proof -
  show "queues st (send_back_cached_event env s i ev st)"
    by (auto simp: send_back_cached_event_def queues_on_message intro: queues_same split: option.splits)
  show "queues st (send_back_cached_eventgroup env s i g st)"
    unfolding send_back_cached_eventgroup_def by (rule queues_fold) (auto simp: queues_on_message intro: queues_same)
qed

lemma queues_check_send_back: "queues st (snd (check_send_back_cached_event s i ev g st))"
  by (auto simp: check_send_back_cached_event_def intro: queues_same split: option.splits)

lemma queues_subscribe: "queues st (snd (app_subscribe env s i g ma ty ev st))"
proof (cases "app_routing st")
  case True
  obtain be bg st1 where 1: "check_send_back_cached_event s i ev g st = ((be, bg), st1)" by (metis prod.collapse)
  let ?st2 = "if be then send_back_cached_event env s i ev st1
     else if bg then send_back_cached_eventgroup env s i g st1 else st1"
  have "queues st st1" using queues_check_send_back [of st s i ev g] 1 by simp
  moreover have "queues st1 ?st2" by (simp add: queues_send_back queues_same)
  moreover note queues_check_subscription_state [of ?st2 s i g ev]
  ultimately have "queues st (snd (check_subscription_state s i g ev ?st2))" by (meson queues_trans)
  with True 1 show ?thesis by (cases be; cases bg; simp add: app_subscribe_def Let_def case_prod_beta)
qed (simp add: app_subscribe_def queues_same)

lemma queues_on_subscription_status: "queues st (app_on_subscription_status s i g ev err st)"
proof -
  have "queues st (deliver_subscription_state s i g ev err (st\<lparr>app_subscription_state := x\<rparr>))" for x
    by (rule queues_trans [OF _ queues_deliver]) (simp add: queues_same)
  then show ?thesis by (auto simp: app_on_subscription_status_def intro: queues_same split: option.splits)
qed

lemmas simple_calls = app_register_message_handler_def app_unregister_message_handler_def app_offer_service_def
  app_stop_offer_service_def app_request_service_def app_release_service_def app_offer_event_def
  app_stop_offer_event_def app_request_event_def app_release_event_def app_notify_def app_notify_one_def
  app_send_def app_register_state_handler_def app_unregister_state_handler_def
  app_register_subscription_handler_def app_register_async_subscription_handler_def
  app_unregister_subscription_handler_def app_register_subscription_status_handler_def
  app_register_subscription_error_handler_def app_unregister_subscription_error_handler_def
  app_set_watchdog_handler_def app_unregister_availability_handler_def app_unsubscribe_event_def
  app_unsubscribe_def app_get_offered_services_async_def remove_subscription_def when_routing_def

lemmas queueing_calls = queues_register_availability queues_on_state queues_on_availability queues_on_message
  queues_subscribe queues_on_subscription_status

lemma app_call_queues: "app_call st st' \<Longrightarrow> queues st st'"
proof (induction rule: app_call.induct)
  case (23 st err)
  show ?case
    by (auto simp: app_watchdog_cbk_def intro: queues_same queues_queue_handler split: option.splits)
next
  case (33 st s i g err')
  show ?case
    by (auto simp: app_on_subscription_error_def intro: queues_same queues_queue_handler split: option.splits)
next
  case (35 st svs)
  show ?case
    by (auto simp: app_on_offered_services_info_def intro: queues_same queues_queue_handler split: option.splits)
qed (rule queueing_calls | rule queues_same; simp add: simple_calls split: option.splits)+

section \<open>Handlers are taken in order\<close>

text \<open>Availability and message handlers are ordered by instance, all others among themselves.\<close>

definition handler_class :: "sync_handler \<Rightarrow> (u16 \<times> u16) option" where
  "handler_class h =
     (if sh_handler_type h = HT_AVAILABILITY \<or> sh_handler_type h = HT_MESSAGE then Some (instance_of h) else None)"

definition class_of :: "(u16 \<times> u16) option \<Rightarrow> sync_handler list \<Rightarrow> sync_handler list" where
  "class_of k hs = filter (\<lambda>h. handler_class h = k) hs"

definition waiting :: "(u16 \<times> u16) option \<Rightarrow> (u16 \<times> u16 \<rightharpoonup> sync_handler list) \<Rightarrow> sync_handler list" where
  "waiting k av = (case k of
       None \<Rightarrow> []
     | Some si \<Rightarrow> (case av si of Some q \<Rightarrow> tl q | None \<Rightarrow> []))"

definition waiting_ok :: "(u16 \<times> u16 \<rightharpoonup> sync_handler list) \<Rightarrow> bool" where
  "waiting_ok av \<longleftrightarrow> (\<forall>si q. av si = Some q \<longrightarrow>
     q \<noteq> [] \<and> (\<forall>h\<in>set q. handler_class h = Some si) \<and> sh_handler_type (hd q) = HT_AVAILABILITY)"

lemma class_of_simps [simp]:
  "class_of k [] = []" "class_of k (h # hs) = (if handler_class h = k then h # class_of k hs else class_of k hs)"
  "class_of k (hs @ hs') = class_of k hs @ class_of k hs'"
  by (simp_all add: class_of_def)

lemma class_of_same: "(\<And>h. h \<in> set hs \<Longrightarrow> handler_class h = k) \<Longrightarrow> class_of k hs = hs"
  by (simp add: class_of_def)

lemma class_of_other: "(\<And>h. h \<in> set hs \<Longrightarrow> handler_class h \<noteq> k) \<Longrightarrow> class_of k hs = []"
  by (simp add: class_of_def)

declare split_paired_All [simp del] split_paired_Ex [simp del]

lemma waiting_okD:
  assumes "waiting_ok av" "av si = Some q"
  shows "q \<noteq> []" "h \<in> set q \<Longrightarrow> handler_class h = Some si" "sh_handler_type (hd q) = HT_AVAILABILITY"
  using assms unfolding waiting_ok_def by blast+

lemma waiting_ok_append:
  assumes "waiting_ok av" "av si = Some q" "handler_class h = Some si"
  shows "waiting_ok (av(si \<mapsto> q @ [h]))"
  using assms waiting_okD [OF assms(1,2)] by (auto simp: waiting_ok_def)

lemma waiting_append:
  "waiting_ok av \<Longrightarrow> av si = Some q \<Longrightarrow>
    waiting k (av(si \<mapsto> q @ [h])) = waiting k av @ (if k = Some si then [h] else [])"
  by (auto simp: waiting_def waiting_ok_def split: option.splits)

text \<open>What taking a handler does to the lists of the instances.\<close>

definition took :: "sync_handler option \<Rightarrow> (u16 \<times> u16 \<rightharpoonup> sync_handler list) \<Rightarrow> (u16 \<times> u16 \<rightharpoonup> sync_handler list) \<Rightarrow> bool" where
  "took r av av' \<longleftrightarrow> waiting_ok av'
     \<and> (\<forall>si q. av si = Some q \<longrightarrow> (\<exists>ext. av' si = Some (q @ ext)))
     \<and> (\<forall>si q. av' si = Some q \<longrightarrow> av si \<noteq> None \<or> (\<exists>h. r = Some h \<and> q = [h] \<and> si = instance_of h))
     \<and> (\<forall>h. r = Some h \<longrightarrow> sh_handler_type h = HT_AVAILABILITY \<longrightarrow>
          av (instance_of h) = None \<and> av' (instance_of h) = Some [h])"

lemma tookD:
  assumes "took r av av'"
  shows "waiting_ok av'"
    "av si = Some q \<Longrightarrow> \<exists>ext. av' si = Some (q @ ext)"
    "av' si = Some q' \<Longrightarrow> av si \<noteq> None \<or> (\<exists>h. r = Some h \<and> q' = [h] \<and> si = instance_of h)"
    "r = Some h \<Longrightarrow> sh_handler_type h = HT_AVAILABILITY \<Longrightarrow> av (instance_of h) = None"
    "r = Some h \<Longrightarrow> sh_handler_type h = HT_AVAILABILITY \<Longrightarrow> av' (instance_of h) = Some [h]"
  using assms unfolding took_def by blast+

lemma took_later:
  assumes t: "took r (av(si \<mapsto> q @ [h])) av'" and q: "av si = Some q"
  shows "took r av av'"
proof -
  have "\<exists>ext. av' x = Some (p @ ext)" if "av x = Some p" for x p
  proof (cases "x = si")
    case True
    with t obtain ext where "av' si = Some ((q @ [h]) @ ext)" unfolding took_def by (metis fun_upd_same)
    then show ?thesis using True that q by simp
  next
    case False
    then show ?thesis using t that unfolding took_def by (metis fun_upd_other)
  qed
  moreover have "av x \<noteq> None \<or> (\<exists>h. r = Some h \<and> p = [h] \<and> x = instance_of h)" if "av' x = Some p" for x p
    using tookD(3) [OF t that] q by (auto split: if_splits)
  moreover have "av (instance_of f) = None \<and> av' (instance_of f) = Some [f]"
    if "r = Some f" "sh_handler_type f = HT_AVAILABILITY" for f
    using tookD(4,5) [OF t that] by (auto split: if_splits)
  moreover have "waiting_ok av'" using t unfolding took_def by blast
  ultimately show ?thesis unfolding took_def by blast
qed

lemma next_handler_took:
  "waiting_ok av \<Longrightarrow> (\<And>si q. av si = Some q \<Longrightarrow> sh_id (hd q) \<notin> sh_id ` set hs) \<Longrightarrow>
    next_handler hs av = (r, hs', av') \<Longrightarrow>
    took r av av' \<and> (\<exists>pre. hs = pre @ hs') \<and> (r = None \<longrightarrow> hs' = [])
    \<and> (\<forall>k. waiting k av @ class_of k hs
         = class_of k (case r of Some h \<Rightarrow> [h] | None \<Rightarrow> []) @ waiting k av' @ class_of k hs')"
proof (induction hs arbitrary: av)
  case Nil
  then show ?case by (auto simp: took_def)
next
  case (Cons h hs)
  define si where "si = instance_of h"
  let ?q = "case av si of Some q \<Rightarrow> q | None \<Rightarrow> []"
  show ?case
  proof (cases "(sh_handler_type h = HT_AVAILABILITY \<and> ?q \<noteq> []) \<or> (sh_handler_type h = HT_MESSAGE \<and> length ?q > 1)")
    case True
    then obtain q where q: "av si = Some q" by (auto split: option.splits)
    have cl: "handler_class h = Some si" using True by (auto simp: handler_class_def si_def)
    have ne: "q \<noteq> []" using waiting_okD(1) [OF Cons.prems(1) q] .
    have id: "sh_id (hd q) \<noteq> sh_id h" using Cons.prems(2) [OF q] by simp
    have nx: "next_handler hs (av(si \<mapsto> q @ [h])) = (r, hs', av')"
      using Cons.prems(3) True q id by (auto simp: si_def Let_def)
    have ok: "waiting_ok (av(si \<mapsto> q @ [h]))"
      using waiting_ok_append Cons.prems(1) q cl unfolding si_def by blast
    have ids: "sh_id (hd q') \<notin> sh_id ` set hs" if "(av(si \<mapsto> q @ [h])) s = Some q'" for s q'
      using that Cons.prems(2) [of s q'] Cons.prems(2) [OF q] ne by (auto split: if_splits)
    have step: "took r (av(si \<mapsto> q @ [h])) av' \<and> (\<exists>pre. hs = pre @ hs') \<and> (r = None \<longrightarrow> hs' = [])
      \<and> (\<forall>k. waiting k (av(si \<mapsto> q @ [h])) @ class_of k hs
           = class_of k (case r of Some h \<Rightarrow> [h] | None \<Rightarrow> []) @ waiting k av' @ class_of k hs')"
      using Cons.IH [OF ok ids nx] .
    then have "took r av av'" using took_later [where q = q and h = h and si = si] q by blast
    moreover have "\<exists>pre. h # hs = pre @ hs'" using step by (metis append_Cons)
    moreover have "waiting k av @ class_of k (h # hs)
        = class_of k (case r of Some h \<Rightarrow> [h] | None \<Rightarrow> []) @ waiting k av' @ class_of k hs'" for k
    proof -
      have "waiting k av @ class_of k (h # hs) = waiting k (av(si \<mapsto> q @ [h])) @ class_of k hs"
        using waiting_append [OF Cons.prems(1) q, of k h] cl by auto
      with step show ?thesis by presburger
    qed
    ultimately show ?thesis using step by blast
  next
    case False
    show ?thesis
    proof (cases "sh_handler_type h = HT_AVAILABILITY")
      case True
      with False Cons.prems(1) have none: "av si = None"
        by (auto simp: waiting_ok_def split: option.splits)
      with True Cons.prems(3) have eq: "r = Some h" "hs' = hs" "av' = av(si \<mapsto> [h])"
        by (auto simp: si_def Let_def)
      have "took r av av'"
        using none True Cons.prems(1) by (auto simp: took_def eq si_def waiting_ok_def handler_class_def)
      moreover have "waiting k av @ class_of k (h # hs) = class_of k [h] @ waiting k av' @ class_of k hs'" for k
        using none True by (auto simp: eq waiting_def handler_class_def si_def split: option.split)
      ultimately show ?thesis unfolding eq by (simp only: option.case option.simps) (metis append_Cons append_Nil)
    next
      case other: False
      with False Cons.prems(3) have eq: "r = Some h" "hs' = hs" "av' = av"
        by (auto simp: si_def Let_def split: if_splits)
      have "took r av av'" using other Cons.prems(1) by (auto simp: took_def eq)
      moreover have "waiting (handler_class h) av = []"
        using False other by (cases "av si") (auto simp: waiting_def handler_class_def si_def not_less le_Suc_eq length_Suc_conv)
      ultimately show ?thesis by (auto simp: eq)
    qed
  qed
qed

text \<open>The invariant of the runs.\<close>

definition run_ok :: "dispatching \<Rightarrow> sync_handler list \<Rightarrow> sync_handler list \<Rightarrow> bool" where
  "run_ok ds queued taken \<longleftrightarrow>
     (let st = ds_app ds; av = app_availability_handlers st in
      (\<forall>k. class_of k queued = class_of k taken @ waiting k av @ class_of k (app_handlers st))
      \<and> map sh_id queued = [0..<app_next_handler st]
      \<and> waiting_ok av
      \<and> (\<forall>si q. av si = Some q \<longrightarrow> (\<exists>t. ds_invoking ds t = Some (hd q)))
      \<and> (\<forall>t h. ds_invoking ds t = Some h \<longrightarrow>
           h \<in> set taken \<and> (sh_handler_type h = HT_AVAILABILITY \<longrightarrow> (\<exists>q. av (instance_of h) = Some (h # q))))
      \<and> (\<forall>t t' h. ds_invoking ds t = Some h \<longrightarrow> ds_invoking ds t' = Some h \<longrightarrow> t = t'))"

definition threads_ok :: "dispatching \<Rightarrow> bool" where
  "threads_ok ds \<longleftrightarrow> finite (ds_dispatchers ds) \<and> 0 < ds_max_dispatchers ds
     \<and> card (ds_dispatchers ds) \<le> ds_max_dispatchers ds \<and> (\<not> ds_is_dispatching ds \<longrightarrow> ds_dispatchers ds = {})"

lemma run_okD:
  assumes "run_ok ds queued taken"
  shows "class_of k queued = class_of k taken @ waiting k (app_availability_handlers (ds_app ds)) @ class_of k (app_handlers (ds_app ds))"
    "map sh_id queued = [0..<app_next_handler (ds_app ds)]"
    "waiting_ok (app_availability_handlers (ds_app ds))"
    "app_availability_handlers (ds_app ds) si = Some q \<Longrightarrow> \<exists>t. ds_invoking ds t = Some (hd q)"
    "ds_invoking ds t = Some h \<Longrightarrow> h \<in> set taken"
    "ds_invoking ds t = Some h \<Longrightarrow> sh_handler_type h = HT_AVAILABILITY \<Longrightarrow>
      \<exists>q. app_availability_handlers (ds_app ds) (instance_of h) = Some (h # q)"
    "ds_invoking ds t = Some h \<Longrightarrow> ds_invoking ds t' = Some h \<Longrightarrow> t = t'"
  using assms unfolding run_ok_def Let_def by blast+

lemma run_okI:
  assumes "\<And>k. class_of k queued = class_of k taken @ waiting k av @ class_of k hs"
    and "map sh_id queued = [0..<app_next_handler (ds_app ds)]"
    and "waiting_ok av"
    and "\<And>si q. av si = Some q \<Longrightarrow> \<exists>t. calls t = Some (hd q)"
    and "\<And>t h. calls t = Some h \<Longrightarrow> h \<in> set taken"
    and "\<And>t h. calls t = Some h \<Longrightarrow> sh_handler_type h = HT_AVAILABILITY \<Longrightarrow> \<exists>q. av (instance_of h) = Some (h # q)"
    and "\<And>t t' h. calls t = Some h \<Longrightarrow> calls t' = Some h \<Longrightarrow> t = t'"
    and "app_handlers (ds_app ds) = hs" "app_availability_handlers (ds_app ds) = av" "ds_invoking ds = calls"
  shows "run_ok ds queued taken"
  unfolding run_ok_def Let_def assms(8-10) using assms(1-7) by blast

lemma run_ok_cong:
  assumes "run_ok ds queued taken" "ds_app ds' = ds_app ds" "ds_invoking ds' = ds_invoking ds"
  shows "run_ok ds' queued taken"
  using assms by (simp add: run_ok_def)

lemma mem_class_of: "h \<in> set (class_of k hs) \<longleftrightarrow> h \<in> set hs \<and> handler_class h = k"
  by (auto simp: class_of_def)

lemma run_ok_distinct:
  assumes "run_ok ds queued taken"
  shows "distinct (class_of k taken @ waiting k (app_availability_handlers (ds_app ds)) @ class_of k (app_handlers (ds_app ds)))"
proof -
  have "distinct (map sh_id queued)" using run_okD(2) [OF assms] by simp
  then have "distinct (class_of k queued)" by (simp add: class_of_def distinct_map)
  then show ?thesis using run_okD(1) [OF assms, of k] by simp
qed

lemma run_ok_queued:
  assumes "run_ok ds queued taken" and "h \<in> set taken \<or> h \<in> set (app_handlers (ds_app ds))"
  shows "h \<in> set queued"
proof -
  have "h \<in> set (class_of (handler_class h) queued)"
    using assms(2) run_okD(1) [OF assms(1), of "handler_class h"] by (auto simp: mem_class_of)
  then show ?thesis by (simp add: mem_class_of)
qed

lemma run_ok_fresh:
  assumes ok: "run_ok ds queued taken" and q: "app_availability_handlers (ds_app ds) si = Some q"
  shows "sh_id (hd q) \<notin> sh_id ` set (app_handlers (ds_app ds))"
proof
  assume "sh_id (hd q) \<in> sh_id ` set (app_handlers (ds_app ds))"
  then obtain h where h: "h \<in> set (app_handlers (ds_app ds))" "sh_id (hd q) = sh_id h" by auto
  obtain t where t: "ds_invoking ds t = Some (hd q)" using run_okD(4) [OF ok q] by blast
  have taken: "hd q \<in> set taken" using run_okD(5) [OF ok t] .
  have "inj_on sh_id (set queued)" using run_okD(2) [OF ok] by (metis distinct_map distinct_upt)
  then have "hd q = h"
    using h run_ok_queued [OF ok, of h] run_ok_queued [OF ok, of "hd q"] taken by (auto dest: inj_onD)
  then show False
    using run_ok_distinct [OF ok, of "handler_class h"] h(1) taken
    by (auto simp: mem_class_of)
qed

lemma run_ok_call:
  assumes ok: "run_ok ds queued taken" and "app_call (ds_app ds) st"
  shows "run_ok (ds\<lparr>ds_app := st\<rparr>) (queued @ drop (length (app_handlers (ds_app ds))) (app_handlers st)) taken"
proof -
  obtain hs where hs: "app_handlers st = app_handlers (ds_app ds) @ hs"
      "map sh_id hs = [app_next_handler (ds_app ds)..<app_next_handler st]" "app_next_handler (ds_app ds) \<le> app_next_handler st"
      "app_availability_handlers st = app_availability_handlers (ds_app ds)"
    using app_call_queues [OF assms(2)] unfolding queues_def by blast
  have "[0..<app_next_handler (ds_app ds)] @ [app_next_handler (ds_app ds)..<app_next_handler st] = [0..<app_next_handler st]"
    using hs(3) by (metis le_Suc_ex upt_add_eq_append zero_le)
  then show ?thesis using ok hs by (simp add: run_ok_def Let_def)
qed

lemma run_ok_take:
  assumes ok: "run_ok ds queued taken" and free: "ds_invoking ds t = None" and "dispatch_take t ds = (r, ds')"
  shows "run_ok ds' queued (taken @ (case r of Some h \<Rightarrow> [h] | None \<Rightarrow> []))"
proof (cases "ds_is_dispatching ds \<and> is_active_dispatcher t ds")
  case True
  let ?st = "ds_app ds"
  let ?av = "app_availability_handlers ?st"
  obtain hs' av' where nx: "next_handler (app_handlers ?st) ?av = (r, hs', av')"
    and ds': "ds' = ds\<lparr>ds_app := ?st\<lparr>app_handlers := hs', app_availability_handlers := av'\<rparr>, ds_invoking := (ds_invoking ds)(t := r)\<rparr>"
    using assms(3) True by (auto simp: dispatch_take_def get_next_handler_def split: prod.splits)
  have nxt: "took r ?av av' \<and> (\<forall>k. waiting k ?av @ class_of k (app_handlers ?st)
      = class_of k (case r of Some h \<Rightarrow> [h] | None \<Rightarrow> []) @ waiting k av' @ class_of k hs')"
    using next_handler_took [OF run_okD(3) [OF ok] _ nx] run_ok_fresh [OF ok] by blast
  then have tk: "took r ?av av'" by blast
  have split: "waiting k ?av @ class_of k (app_handlers ?st)
      = class_of k (case r of Some h \<Rightarrow> [h] | None \<Rightarrow> []) @ waiting k av' @ class_of k hs'" for k
    using nxt by blast
  have new: "h \<notin> set taken" if "r = Some h" for h
    using run_ok_distinct [OF ok, of "handler_class h"] split [of "handler_class h"] that by (auto simp: mem_class_of)
  let ?taken = "taken @ (case r of Some h \<Rightarrow> [h] | None \<Rightarrow> [])"
  let ?inv = "(ds_invoking ds)(t := r)"
  have order: "class_of k queued = class_of k ?taken @ waiting k av' @ class_of k hs'" for k
    using run_okD(1) [OF ok, of k] split [of k] by simp
  have heads: "\<exists>t'. ?inv t' = Some (hd q)" if q: "av' si = Some q" for si q
  proof (cases "?av si")
    case None
    then show ?thesis using tookD(3) [OF tk q] by auto
  next
    case (Some p)
    then obtain t' where t': "ds_invoking ds t' = Some (hd p)" using run_okD(4) [OF ok] by blast
    have "hd q = hd p" using tookD(2) [OF tk Some] waiting_okD(1) [OF run_okD(3) [OF ok] Some] q by auto
    then show ?thesis using t' free by (intro exI [of _ t']) auto
  qed
  have inv: "(t' = t \<and> r = Some h) \<or> (t' \<noteq> t \<and> ds_invoking ds t' = Some h)" if "?inv t' = Some h" for t' h
    using that by (simp split: if_splits)
  have mem: "h \<in> set ?taken" if "?inv t' = Some h" for t' h
    using inv [OF that] run_okD(5) [OF ok] by auto
  have called: "\<exists>q. av' (instance_of h) = Some (h # q)" 
    if i: "?inv t' = Some h" and a: "sh_handler_type h = HT_AVAILABILITY" for t' h
    using inv [OF i]
  proof
    assume "t' = t \<and> r = Some h"
    then show ?thesis using tookD(5) [OF tk _ a] by blast
  next
    assume "t' \<noteq> t \<and> ds_invoking ds t' = Some h"
    then obtain q where "?av (instance_of h) = Some (h # q)" using run_okD(6) [OF ok _ a] by blast
    then show ?thesis using tookD(2) [OF tk] by fastforce
  qed
  have one: "t1 = t2" if "?inv t1 = Some h" "?inv t2 = Some h" for t1 t2 h
    using inv [OF that(1)] inv [OF that(2)] new [of h] run_okD(5) [OF ok] run_okD(7) [OF ok] by blast
  show ?thesis
    unfolding ds'
    by (rule run_okI [where calls = ?inv, OF order _ tookD(1) [OF tk] heads mem called one]) (simp_all add: run_okD(2) [OF ok])
next
  case False
  then show ?thesis using assms(3) ok by (auto simp: dispatch_take_def)
qed

lemma waiting_reschedule:
  assumes "waiting_ok av" "av si = Some (h # q)"
  shows "waiting k av @ hs = waiting k (av(si := None)) @ class_of k q @ hs"
proof -
  have "class_of k q = (if k = Some si then q else [])"
    using waiting_okD(2) [OF assms] by (cases "k = Some si") (simp_all add: class_of_same class_of_other)
  then show ?thesis using assms(2) by (cases k) (simp_all add: waiting_def)
qed

lemma head_instance:
  assumes "waiting_ok av" "av si = Some q"
  shows "instance_of (hd q) = si"
proof -
  have "handler_class (hd q) = Some si" using waiting_okD(1,2) [OF assms] by simp
  then show ?thesis by (simp add: handler_class_def split: if_splits)
qed

lemma run_ok_return_availability:
  assumes ok: "run_ok ds queued taken" and t: "ds_invoking ds t = Some h"
    and q: "app_availability_handlers (ds_app ds) (instance_of h) = Some (h # q)"
    and ds': "app_handlers (ds_app ds') = q @ app_handlers (ds_app ds)"
      "app_availability_handlers (ds_app ds') = (app_availability_handlers (ds_app ds))(instance_of h := None)"
      "app_next_handler (ds_app ds') = app_next_handler (ds_app ds)" "ds_invoking ds' = (ds_invoking ds)(t := None)"
  shows "run_ok ds' queued taken"
proof -
  let ?av = "app_availability_handlers (ds_app ds)"
  let ?calls = "(ds_invoking ds)(t := None)"
  have inv: "t' \<noteq> t \<and> ds_invoking ds t' = Some f" if "?calls t' = Some f" for t' f
    using that by (simp split: if_splits)
  have heads: "\<exists>t'. ?calls t' = Some (hd p)" if "(?av(instance_of h := None)) si = Some p" for si p
  proof -
    have p: "si \<noteq> instance_of h" "?av si = Some p" using that by (simp_all split: if_splits)
    obtain t' where t': "ds_invoking ds t' = Some (hd p)" using run_okD(4) [OF ok p(2)] by blast
    then have "t' \<noteq> t" using head_instance [OF run_okD(3) [OF ok] p(2)] p(1) t by auto
    with t' show ?thesis by (intro exI [of _ t']) simp
  qed
  have called: "\<exists>p. (?av(instance_of h := None)) (instance_of f) = Some (f # p)"
    if f: "?calls t' = Some f" "sh_handler_type f = HT_AVAILABILITY" for t' f
  proof -
    obtain p where p: "?av (instance_of f) = Some (f # p)" using run_okD(6) [OF ok] inv [OF f(1)] f(2) by blast
    have "f \<noteq> h" using run_okD(7) [OF ok t, of t'] inv [OF f(1)] by auto
    then have "instance_of f \<noteq> instance_of h" using p q by auto
    with p show ?thesis by simp
  qed
  show ?thesis
  proof (rule run_okI [where calls = ?calls and av = "?av(instance_of h := None)"])
    show "class_of k queued = class_of k taken @ waiting k (?av(instance_of h := None)) @ class_of k (q @ app_handlers (ds_app ds))" for k
      using run_okD(1) [OF ok, of k] waiting_reschedule [OF run_okD(3) [OF ok] q] by simp
    show "waiting_ok (?av(instance_of h := None))" using run_okD(3) [OF ok] by (simp add: waiting_ok_def)
    show "\<exists>t'. ?calls t' = Some (hd p)" if "(?av(instance_of h := None)) si = Some p" for si p by (rule heads [OF that])
    show "f \<in> set taken" if "?calls t' = Some f" for t' f using run_okD(5) [OF ok] inv [OF that] by blast
    show "\<exists>p. (?av(instance_of h := None)) (instance_of f) = Some (f # p)" if "?calls t' = Some f" "sh_handler_type f = HT_AVAILABILITY" for t' f
      by (rule called [OF that])
    show "t1 = t2" if "?calls t1 = Some f" "?calls t2 = Some f" for t1 t2 f
      using run_okD(7) [OF ok] inv [OF that(1)] inv [OF that(2)] by blast
  qed (simp_all add: ds' run_okD(2) [OF ok])
qed

lemma run_ok_return_other:
  assumes ok: "run_ok ds queued taken" and t: "ds_invoking ds t = Some h" and h: "sh_handler_type h \<noteq> HT_AVAILABILITY"
  shows "run_ok (ds\<lparr>ds_invoking := (ds_invoking ds)(t := None)\<rparr>) queued taken"
proof -
  let ?calls = "(ds_invoking ds)(t := None)"
  have inv: "t' \<noteq> t \<and> ds_invoking ds t' = Some f" if "?calls t' = Some f" for t' f
    using that by (simp split: if_splits)
  have heads: "\<exists>t'. ?calls t' = Some (hd p)" if p: "app_availability_handlers (ds_app ds) si = Some p" for si p
  proof -
    obtain t' where t': "ds_invoking ds t' = Some (hd p)" using run_okD(4) [OF ok p] by blast
    then have "t' \<noteq> t" using waiting_okD(3) [OF run_okD(3) [OF ok] p] h t by auto
    with t' show ?thesis by (intro exI [of _ t']) simp
  qed
  show ?thesis
  proof (rule run_okI [where calls = ?calls, OF run_okD(1) [OF ok] _ run_okD(3) [OF ok]])
    show "\<exists>t'. ?calls t' = Some (hd p)" if "app_availability_handlers (ds_app ds) si = Some p" for si p by (rule heads [OF that])
    show "f \<in> set taken" if "?calls t' = Some f" for t' f using run_okD(5) [OF ok] inv [OF that] by blast
    show "\<exists>p. app_availability_handlers (ds_app ds) (instance_of f) = Some (f # p)" if "?calls t' = Some f" "sh_handler_type f = HT_AVAILABILITY" for t' f
      using run_okD(6) [OF ok] inv [OF that(1)] that(2) by blast
    show "t1 = t2" if "?calls t1 = Some f" "?calls t2 = Some f" for t1 t2 f
      using run_okD(7) [OF ok] inv [OF that(1)] inv [OF that(2)] by blast
  qed (simp_all add: run_okD(2) [OF ok])
qed

lemma run_ok_return:
  assumes ok: "run_ok ds queued taken"
  shows "run_ok (dispatch_return t ds) queued taken"
proof (cases "ds_invoking ds t")
  case (Some h)
  show ?thesis
  proof (cases "sh_handler_type h = HT_AVAILABILITY")
    case True
    then obtain q where q: "app_availability_handlers (ds_app ds) (instance_of h) = Some (h # q)"
      using run_okD(6) [OF ok Some] by blast
    show ?thesis
      by (rule run_ok_return_availability [OF ok Some q])
        (simp_all add: True q Some dispatch_return_def reschedule_availability_handler_def remove_elapsed_dispatchers_def)
  next
    case False
    show ?thesis
      by (rule run_ok_cong [OF run_ok_return_other [OF ok Some False]])
        (simp_all add: False Some dispatch_return_def reschedule_availability_handler_def remove_elapsed_dispatchers_def)
  qed
qed (use ok in \<open>simp add: dispatch_return_def\<close>)

lemma run_ok_reachable: "dispatching_run main ds queued taken \<Longrightarrow> run_ok ds queued taken"
proof (induction rule: dispatching_run.induct)
  case run_create
  then show ?case by (simp add: run_ok_def dispatching_create_def app_create_def waiting_def waiting_ok_def split: option.split)
next
  case (run_blocked ds queued taken t)
  then show ?case by (simp add: dispatch_blocked_def run_ok_cong [OF run_blocked.IH])
qed (auto simp: run_ok_call run_ok_take run_ok_return dispatch_init_def dispatch_start_def invoke_begin_def invoke_end_def
       dispatch_leave_def elim: run_ok_cong)

lemma threads_ok_reachable: "dispatching_run main ds queued taken \<Longrightarrow> threads_ok ds"
proof (induction rule: dispatching_run.induct)
  case (run_return ds queued taken t)
  have "card (ds_dispatchers ds - ds_elapsed ds) \<le> card (ds_dispatchers ds)"
    using run_return.IH by (simp add: threads_ok_def card_mono)
  with run_return.IH show ?case
    by (auto simp: threads_ok_def dispatch_return_def remove_elapsed_dispatchers_def split: option.splits)
qed (auto simp: threads_ok_def dispatching_create_def dispatch_init_def dispatch_start_def dispatch_take_def invoke_begin_def
       invoke_end_def dispatch_blocked_def dispatch_leave_def card_insert_if split: if_splits prod.splits)

lemma distinct_by_class:
  assumes "\<And>k. distinct (class_of k hs)"
  shows "distinct hs"
  using assms
proof (induction hs)
  case (Cons h hs)
  have "distinct (class_of k hs)" for k using Cons.prems [of k] by (simp split: if_splits)
  moreover have "h \<notin> set hs" using Cons.prems [of "handler_class h"] by (simp add: mem_class_of)
  ultimately show ?case using Cons.IH by simp
qed simp

lemma one_availability_call:
  assumes ok: "run_ok ds queued taken" and "ds_invoking ds t = Some h" "ds_invoking ds t' = Some h'"
    and "sh_handler_type h = HT_AVAILABILITY" "sh_handler_type h' = HT_AVAILABILITY" "instance_of h = instance_of h'"
  shows "t = t'"
proof -
  obtain q where q: "app_availability_handlers (ds_app ds) (instance_of h) = Some (h # q)"
    using run_okD(6) [OF ok assms(2,4)] by blast
  obtain q' where q': "app_availability_handlers (ds_app ds) (instance_of h') = Some (h' # q')"
    using run_okD(6) [OF ok assms(3,5)] by blast
  have "h = h'" using q q' unfolding assms(6) by simp
  with assms(3) show ?thesis using run_okD(7) [OF ok assms(2), of t'] by simp
qed

lemma all_taken:
  assumes ok: "run_ok ds queued taken" and empty: "app_handlers (ds_app ds) = []"
    and idle: "\<And>t h. ds_invoking ds t = Some h \<Longrightarrow> sh_handler_type h \<noteq> HT_AVAILABILITY"
  shows "set taken = set queued"
proof -
  have none: "app_availability_handlers (ds_app ds) si = None" for si
  proof (cases "app_availability_handlers (ds_app ds) si")
    case (Some q)
    then obtain t where "ds_invoking ds t = Some (hd q)" using run_okD(4) [OF ok] by blast
    from idle [OF this] show ?thesis using waiting_okD(3) [OF run_okD(3) [OF ok] Some] by blast
  qed
  have "class_of k queued = class_of k taken" for k
    using run_okD(1) [OF ok, of k] empty none by (cases k) (simp_all add: waiting_def)
  then have "h \<in> set taken \<longleftrightarrow> h \<in> set queued" for h
    using mem_class_of [of h "handler_class h" queued] mem_class_of [of h "handler_class h" taken] by simp
  then show ?thesis by (rule set_eqI)
qed

lemma distinct_taken: "run_ok ds queued taken \<Longrightarrow> distinct taken"
  by (rule distinct_by_class) (use run_ok_distinct in \<open>simp only: distinct_append\<close>)

text \<open>
  C18.  Whatever the calls of the program and of the routing manager and however the threads interleave:
  the availability and message handlers of a service instance are taken in the order in which they were
  queued, as are all other handlers among themselves; no handler is taken twice; two availability handlers
  of an instance are never called at the same time; when the queue is empty and no availability handler is
  being called, every handler queued has been taken; and there are never more threads than configured.
\<close>

theorem handlers_dispatched_in_order:
  assumes "dispatching_run main ds queued taken"
  shows "(\<forall>k. \<exists>rest. class_of k queued = class_of k taken @ rest)
    \<and> distinct taken
    \<and> (\<forall>t t' h h'. ds_invoking ds t = Some h \<and> ds_invoking ds t' = Some h'
         \<and> sh_handler_type h = HT_AVAILABILITY \<and> sh_handler_type h' = HT_AVAILABILITY
         \<and> instance_of h = instance_of h' \<longrightarrow> t = t')
    \<and> (app_handlers (ds_app ds) = [] \<and> (\<forall>t h. ds_invoking ds t = Some h \<longrightarrow> sh_handler_type h \<noteq> HT_AVAILABILITY)
         \<longrightarrow> set taken = set queued)
    \<and> card (ds_dispatchers ds) \<le> ds_max_dispatchers ds"
proof -
  note ok = run_ok_reachable [OF assms]
  have "\<forall>k. \<exists>rest. class_of k queued = class_of k taken @ rest" using run_okD(1) [OF ok] by (intro allI exI)
  moreover note distinct_taken [OF ok]
  moreover have "card (ds_dispatchers ds) \<le> ds_max_dispatchers ds"
    using threads_ok_reachable [OF assms] by (simp add: threads_ok_def)
  ultimately show ?thesis
    using one_availability_call [OF ok] all_taken [OF ok] by (intro conjI) (assumption | iprover)+
qed

text \<open>
  Two availability handlers of an instance are queued before the threads start; the second waits, though
  a second thread asks for it, until the first has returned and the second thread has left.
\<close>

lemma registered_queues_handler:
  assumes "app_registered st"
  shows "\<exists>h. app_handlers (app_register_availability_handler s i f ma mi st) = app_handlers st @ [h]
    \<and> sh_id h = app_next_handler st \<and> instance_of h = (s, i) \<and> sh_handler_type h = HT_AVAILABILITY
    \<and> app_next_handler (app_register_availability_handler s i f ma mi st) = Suc (app_next_handler st)
    \<and> app_availability_handlers (app_register_availability_handler s i f ma mi st) = app_availability_handlers st
    \<and> app_registered (app_register_availability_handler s i f ma mi st)"
  using assms by (cases "app_are_available Map.empty s i ma mi st")
    (simp add: app_register_availability_handler_def do_register_availability_handler_def queue_handler_def instance_of_def)

lemma two_availability_handlers_queued:
  "\<exists>ds h1 h2. dispatching_run 0 ds [h1, h2] [] \<and> app_handlers (ds_app ds) = [h1, h2] \<and> instance_of h1 = (1, 1)
     \<and> instance_of h2 = (1, 1) \<and> sh_handler_type h1 = HT_AVAILABILITY \<and> sh_handler_type h2 = HT_AVAILABILITY
     \<and> app_availability_handlers (ds_app ds) = Map.empty \<and> sh_id h1 = 0 \<and> sh_id h2 = 1 \<and> ds_invoking ds = Map.empty
     \<and> ds_running ds = {} \<and> ds_elapsed ds = {} \<and> ds_dispatchers ds = {0} \<and> ds_is_dispatching ds \<and> ds_max_dispatchers ds = 10"
proof -
  define st1 where "st1 = app_on_state True app_create"
  define st2 where "st2 = app_register_availability_handler 1 1 7 0 0 st1"
  define st3 where "st3 = app_register_availability_handler 1 1 8 0 0 st2"
  have r1: "app_handlers st1 = []" "app_next_handler st1 = 0" "app_availability_handlers st1 = Map.empty" "app_registered st1"
    by (simp_all add: st1_def app_on_state_def app_create_def unreported_def ordered_keys_def)
  obtain h1 where h1: "app_handlers st2 = [h1]" "sh_id h1 = 0" "instance_of h1 = (1, 1)" "sh_handler_type h1 = HT_AVAILABILITY"
      "app_next_handler st2 = 1" "app_availability_handlers st2 = Map.empty" "app_registered st2"
    using registered_queues_handler [OF r1(4), of 1 1 7 0 0] r1 unfolding st2_def by auto
  obtain h2 where h2: "app_handlers st3 = [h1, h2]" "sh_id h2 = 1" "instance_of h2 = (1, 1)" "sh_handler_type h2 = HT_AVAILABILITY"
      "app_availability_handlers st3 = Map.empty"
    using registered_queues_handler [OF h1(7), of 1 1 8 0 0] h1 unfolding st3_def by auto
  have "dispatching_run 0 (dispatching_create\<lparr>ds_app := st1\<rparr>) [] []"
    using run_call [OF run_create, of st1 0] app_call.intros(26) [of app_create True] r1
    by (simp add: dispatching_create_def st1_def)
  then have "dispatching_run 0 (dispatching_create\<lparr>ds_app := st2\<rparr>) [h1] []"
    using run_call [of 0 "dispatching_create\<lparr>ds_app := st1\<rparr>" "[]" "[]" st2] app_call.intros(24) [of st1 1 1 7 0 0] r1 h1
    by (simp add: st2_def)
  then have "dispatching_run 0 (dispatching_create\<lparr>ds_app := st3\<rparr>) [h1, h2] []"
    using run_call [of 0 "dispatching_create\<lparr>ds_app := st2\<rparr>" "[h1]" "[]" st3] app_call.intros(24) [of st2 1 1 8 0 0] h1 h2
    by (simp add: st3_def)
  from run_start [OF this] have "dispatching_run 0 (dispatch_start 0 (dispatching_create\<lparr>ds_app := st3\<rparr>)) [h1, h2] []"
    by (simp add: dispatching_create_def)
  then show ?thesis
    using h1 h2 by (intro exI [of _ "dispatch_start 0 (dispatching_create\<lparr>ds_app := st3\<rparr>)"] exI [of _ h1] exI [of _ h2])
      (simp add: dispatch_start_def dispatching_create_def)
qed

lemma two_availability_handlers:
  "\<exists>ds h1 h2. dispatching_run 0 ds [h1, h2] [h1, h2] \<and> instance_of h1 = (1, 1) \<and> instance_of h2 = (1, 1)
     \<and> sh_handler_type h1 = HT_AVAILABILITY \<and> sh_handler_type h2 = HT_AVAILABILITY \<and> ds_invoking ds = [0 \<mapsto> h2]"
proof -
  obtain d1 h1 h2 where d1: "dispatching_run 0 d1 [h1, h2] []" and t1: "app_handlers (ds_app d1) = [h1, h2]"
      "app_availability_handlers (ds_app d1) = Map.empty" "ds_invoking d1 = Map.empty" "ds_running d1 = {}"
      "ds_elapsed d1 = {}" "ds_dispatchers d1 = {0}" "ds_is_dispatching d1" "ds_max_dispatchers d1 = 10"
    and h: "instance_of h1 = (1, 1)" "instance_of h2 = (1, 1)" "sh_handler_type h1 = HT_AVAILABILITY"
      "sh_handler_type h2 = HT_AVAILABILITY" "sh_id h1 = 0" "sh_id h2 = 1"
    using two_availability_handlers_queued by (elim exE conjE) (rule that)
  obtain d2 where t2: "dispatch_take 0 d1 = (Some h1, d2)" "ds_invoking d2 = [0 \<mapsto> h1]" "ds_running d2 = {}" "ds_elapsed d2 = {}"
    "ds_dispatchers d2 = {0}" "ds_is_dispatching d2" "app_handlers (ds_app d2) = [h2]"
    "app_availability_handlers (ds_app d2) = [(1, 1) \<mapsto> [h1]]" "ds_max_dispatchers d2 = 10"
    using t1 h by (simp add: dispatch_take_def is_active_dispatcher_def get_next_handler_def)
  have d2: "dispatching_run 0 d2 [h1, h2] [h1]" using run_take [OF d1 _ _ _ t2(1)] t1 by simp
  define d3 where "d3 = dispatch_blocked 1 (invoke_begin 0 d2)"
  have d3: "dispatching_run 0 d3 [h1, h2] [h1]"
    using run_blocked [OF run_begin [OF d2, of 0], of 1] t2 unfolding d3_def by (simp add: invoke_begin_def)
  have t3: "ds_invoking d3 = [0 \<mapsto> h1]" "ds_running d3 = {0}" "ds_elapsed d3 = {}" "ds_dispatchers d3 = {0, 1}"
    "ds_is_dispatching d3" "ds_app d3 = ds_app d2"
    using t2 by (auto simp: d3_def invoke_begin_def dispatch_blocked_def has_active_dispatcher_def)
  obtain d4 where t4: "dispatch_take 1 d3 = (None, d4)" "ds_invoking d4 = [0 \<mapsto> h1]" "ds_running d4 = {0}" "ds_elapsed d4 = {}"
    "ds_dispatchers d4 = {0, 1}" "ds_is_dispatching d4" "app_handlers (ds_app d4) = []"
    "app_availability_handlers (ds_app d4) = [(1, 1) \<mapsto> [h1, h2]]"
    using t2 t3 h by (simp add: dispatch_take_def is_active_dispatcher_def get_next_handler_def)
  have d4: "dispatching_run 0 d4 [h1, h2] [h1]" using run_take [OF d3 _ _ _ t4(1)] t3 by simp
  define d5 where "d5 = dispatch_leave 1 (dispatch_return 0 (invoke_end 0 d4))"
  have e: "invoke_end 0 d4 = d4\<lparr>ds_running := {}\<rparr>" using t4 by (simp add: invoke_end_def)
  have d5: "dispatching_run 0 d5 [h1, h2] [h1]"
    using run_leave [OF run_return [OF run_end [OF d4, of 0], of 0], of 1] t4 unfolding d5_def
    by (simp add: e dispatch_return_def remove_elapsed_dispatchers_def)
  have t5: "ds_invoking d5 = Map.empty" "ds_running d5 = {}" "ds_elapsed d5 = {1}"
    "ds_dispatchers d5 = {0, 1}" "ds_is_dispatching d5" "app_handlers (ds_app d5) = [h2]"
    "app_availability_handlers (ds_app d5) = Map.empty"
    using t4 h by (simp_all add: d5_def e dispatch_leave_def dispatch_return_def remove_elapsed_dispatchers_def
        reschedule_availability_handler_def fun_upd_idem_iff)
  obtain d6 where t6: "dispatch_take 0 d5 = (Some h2, d6)" "ds_invoking d6 = [0 \<mapsto> h2]"
    using t5 h by (simp add: dispatch_take_def is_active_dispatcher_def get_next_handler_def)
  have "dispatching_run 0 d6 [h1, h2] [h1, h2]" using run_take [OF d5 _ _ _ t6(1)] t5 by simp
  then show ?thesis using h t6(2) by (intro exI [of _ d6] exI [of _ h1] exI [of _ h2]) simp
qed

theorem handlers_dispatched_in_order_witness:
  "\<exists>ds h1 h2. dispatching_run 0 ds [h1, h2] [h1, h2] \<and> instance_of h1 = instance_of h2 \<and> h1 \<noteq> h2
     \<and> sh_handler_type h1 = HT_AVAILABILITY \<and> sh_handler_type h2 = HT_AVAILABILITY
     \<and> ds_invoking ds 0 = Some h2 \<and> card (ds_dispatchers ds) \<le> ds_max_dispatchers ds"
proof -
  obtain ds h1 h2 where "dispatching_run 0 ds [h1, h2] [h1, h2]" "instance_of h1 = instance_of h2"
      "sh_handler_type h1 = HT_AVAILABILITY" "sh_handler_type h2 = HT_AVAILABILITY" "ds_invoking ds 0 = Some h2"
    using two_availability_handlers by force
  moreover from this(1) have "distinct [h1, h2]" "card (ds_dispatchers ds) \<le> ds_max_dispatchers ds"
    using handlers_dispatched_in_order by blast+
  ultimately show ?thesis by auto
qed

declare split_paired_All [simp] split_paired_Ex [simp]

end
