(* ===== verification/Application_Behaviour.thy ===== *)
theory Application_Behaviour
  imports Dispatcher "HOL-Library.Multiset"
begin

text \<open>
  What the application promises to the program: sessions of requests, which handlers a message and a
  change of availability reach, and the life of a subscription.
\<close>

section \<open>Sessions\<close>

text \<open>A sequence of messages sent one after the other, all taken by the routing manager.\<close>

fun send_all :: "message list \<Rightarrow> application \<Rightarrow> app_result" where
  "send_all [] st = ([], st)"
| "send_all (m # ms) st =
     (let (acts, st) = app_send True m True st; (acts', st) = send_all ms st in (acts @ acts', st))"

definition nth_session :: "u16 \<Rightarrow> nat \<Rightarrow> u16" where
  "nth_session s k = of_nat ((unat s - 1 + k) mod 65535 + 1)"

lemma update_session_next:
  assumes "s \<noteq> 0"
  shows "update_session s \<noteq> 0" "nth_session (update_session s) k = nth_session s (Suc k)"
proof -
  have "unat s \<noteq> 0" using assms by (simp add: unat_eq_0)
  then have pos: "0 < unat s" by simp
  have lt: "unat s < 65536" using unsigned_less [of s, where ?'a = nat] by simp
  show "update_session s \<noteq> 0" by (simp add: update_session_def Let_def)
  show "nth_session (update_session s) k = nth_session s (Suc k)"
  proof (cases "s = 0xFFFF")
    case True
    then show ?thesis by (simp add: update_session_def Let_def nth_session_def)
  next
    case False
    have "unat s \<noteq> 65535"
    proof
      assume "unat s = 65535"
      then have "of_nat (unat s) = (of_nat 65535 :: u16)" by simp
      with False show False by simp
    qed
    then have "unat (s + 1) = Suc (unat s)" using lt by (simp add: unat_word_ariths)
    moreover have "s + 1 \<noteq> 0" using calculation by auto
    ultimately show ?thesis using pos by (simp add: update_session_def Let_def nth_session_def)
  qed
qed

lemma unat_nth_session: "unat (nth_session s k) = (unat s - 1 + k) mod 65535 + 1"
proof -
  have "(unat s - 1 + k) mod 65535 + 1 < 65536" by simp
  then show ?thesis unfolding nth_session_def by (simp add: unsigned_of_nat take_bit_eq_mod del: of_nat_add of_nat_Suc)
qed

lemma nth_session_0: "s \<noteq> 0 \<Longrightarrow> nth_session s 0 = s"
proof -
  assume "s \<noteq> 0"
  then have "unat s \<noteq> 0" by (simp add: unat_eq_0)
  moreover have "unat s < 65536" using unsigned_less [of s, where ?'a = nat] by simp
  ultimately have "unat (nth_session s 0) = unat s" by (simp add: unat_nth_session)
  then show ?thesis by (simp add: word_unat_eq_iff)
qed

lemma nth_session_distinct:
  assumes "j < k" "k < j + 65535"
  shows "nth_session s j \<noteq> nth_session s k"
proof
  assume "nth_session s j = nth_session s k"
  then have "(unat s - 1 + j) mod 65535 = (unat s - 1 + k) mod 65535" by (metis unat_nth_session add_right_cancel)
  then have "65535 dvd (unat s - 1 + k) - (unat s - 1 + j)" using assms by (metis mod_eq_dvd_iff_nat add_le_mono less_imp_le order_refl)
  then have "65535 dvd k - j" using assms by simp
  then show False using assms by (auto dest: dvd_imp_le)
qed

lemma send_all_sessions:
  assumes "app_routing st" "app_session st \<noteq> 0" "\<And>m. m \<in> set ms \<Longrightarrow> is_request (get_message_type m)"
  shows "fst (send_all ms st) = map (\<lambda>k. Rm_send (app_client st)
    (set_session (nth_session (app_session st) k) (set_client (app_client st) (ms ! k))) True) [0..<length ms]"
  using assms
proof (induction ms arbitrary: st)
  case (Cons m ms)
  let ?st = "st\<lparr>app_session := update_session (app_session st)\<rparr>"
  have "app_send True m True st = ([Rm_send (app_client st) (set_session (app_session st) (set_client (app_client st) m)) True], ?st)"
    using Cons.prems by (simp add: app_send_def)
  moreover have "fst (send_all ms ?st) = map (\<lambda>k. Rm_send (app_client st)
      (set_session (nth_session (app_session st) (Suc k)) (set_client (app_client st) (ms ! k))) True) [0..<length ms]"
    using Cons.IH [of ?st] Cons.prems update_session_next [OF Cons.prems(2)] by simp
  ultimately show ?case
    using nth_session_0 [OF Cons.prems(2)]
    by (simp add: case_prod_beta map_upt_Suc del: upt_Suc)
qed simp

text \<open>
  C23.  Requests carry the client of the application and consecutive sessions, which run from one to 65535 and
  start again at one: no session is zero, and no two of 65535 requests in a row have the same session.
\<close>

theorem requests_have_fresh_sessions:
  assumes "app_routing st" "app_session st \<noteq> 0" "\<forall>m\<in>set ms. is_request (get_message_type m)"
  shows "fst (send_all ms st) = map (\<lambda>k. Rm_send (app_client st)
      (set_session (nth_session (app_session st) k) (set_client (app_client st) (ms ! k))) True) [0..<length ms]
    \<and> nth_session (app_session st) 0 = app_session st
    \<and> (\<forall>k. nth_session (app_session st) k \<noteq> 0)
    \<and> (\<forall>j k. j < k \<and> k < j + 65535 \<longrightarrow> nth_session (app_session st) j \<noteq> nth_session (app_session st) k)"
proof -
  have "nth_session (app_session st) k \<noteq> 0" for k
    using unat_nth_session [of "app_session st" k] by (metis unat_0 add_is_0 zero_neq_one)
  then show ?thesis
    using send_all_sessions [OF assms(1,2)] assms(3) nth_session_0 [OF assms(2)] nth_session_distinct by blast
qed

theorem requests_have_fresh_sessions_witness:
  "map (\<lambda>a. case a of Rm_send c m f \<Rightarrow> (get_client m, get_session m))
     (fst (send_all (replicate 3 (set_message_type MT_REQUEST message_init))
       (app_create\<lparr>app_routing := True, app_client := 0x1234, app_session := 0xFFFE\<rparr>)))
   = [(0x1234, 0xFFFE), (0x1234, 0xFFFF), (0x1234, 1)]"
  using requests_have_fresh_sessions [of "app_create\<lparr>app_routing := True, app_client := 0x1234, app_session := 0xFFFE\<rparr>"
      "replicate 3 (set_message_type MT_REQUEST message_init)"]
  by (simp add: is_request_def message_setters message_getters upt_rec nth_session_def numeral_3_eq_3)

section \<open>Messages\<close>

definition pending_calls :: "application \<Rightarrow> handler_call list" where
  "pending_calls st = map sh_call (app_handlers st)"

lemma pending_calls_queue [simp]: "pending_calls (queue_handler t s i me se g c st) = pending_calls st @ [c]"
  by (simp add: pending_calls_def queue_handler_def)

lemma pending_calls_queues: "pending_calls (fold (\<lambda>h. queue_handler t s i me se g (c h)) hs st) = pending_calls st @ map c hs"
  by (induction hs arbitrary: st) simp_all

lemma pending_calls_messages: "pending_calls (fold (queue_message m) hs st) = pending_calls st @ map (\<lambda>h. Call_message h m) hs"
  using pending_calls_queues [of HT_MESSAGE "get_service m" "get_instance m" "get_method m" "get_session m" 0 "\<lambda>h. Call_message h m" hs st]
  by (simp add: queue_message_def [abs_def])

lemma check_for_active_frame:
  "pending_calls (snd (check_for_active_subscription env s i ev st)) = pending_calls st"
  "app_members (snd (check_for_active_subscription env s i ev st)) = app_members st"
  by (auto simp: check_for_active_subscription_def Let_def pending_calls_def split: option.splits)

lemma set_registered_handlers:
  "set (registered_handlers s i me st) =
    {h. \<exists>s'\<in>{s, ANY_SERVICE}. \<exists>i'\<in>{i, ANY_INSTANCE}. \<exists>me'\<in>{me, ANY_METHOD}. lookup3 (app_members st) s' i' me' = Some h}"
  by (auto simp: registered_handlers_def List.map_filter_simps split: option.splits)

lemma registered_handlers_cong:
  "app_members st' = app_members st \<Longrightarrow> registered_handlers s i me st' = registered_handlers s i me st"
  by (simp only: registered_handlers_def)

lemma handler_set_all:
  assumes "\<And>hs. mset (ae_order env hs) = mset hs" and "length (filter (\<lambda>h. \<not> is_function h) hs) \<le> 1"
  shows "mset (handler_set env hs) = mset hs"
proof -
  have "take 1 (filter (\<lambda>h. \<not> is_function h) hs) = filter (\<lambda>h. \<not> is_function h) hs" using assms(2) by (rule take_all)
  then have "mset (handler_set env hs) = mset (filter is_function hs) + mset (filter (\<lambda>h. \<not> is_function h) hs)"
    by (simp add: handler_set_def assms(1))
  then show ?thesis by simp
qed

text \<open>
  C20.  A message, if it is no notification or one that is subscribed, is handed to every handler registered
  for its service, instance and method or for any of them, wildcards beside specific ones, and to no other; each
  is called as often as it is registered.  The condition is that at most one of the matching handlers is a
  function object, all others plain functions: of several function objects the code calls only one
  (\<open>second_function_object_not_called\<close>).
\<close>

theorem messages_reach_handlers:
  assumes "\<forall>hs. mset (ae_order env hs) = mset hs"
    and "get_message_type m = MT_NOTIFICATION \<longrightarrow>
      fst (check_for_active_subscription env (get_service m) (get_instance m) (get_method m) st)"
    and "length (filter (\<lambda>h. \<not> is_function h) (registered_handlers (get_service m) (get_instance m) (get_method m) st)) \<le> 1"
  shows "\<exists>hs. pending_calls (app_on_message env m st) = pending_calls st @ map (\<lambda>h. Call_message h m) hs
    \<and> mset hs = mset (registered_handlers (get_service m) (get_instance m) (get_method m) st)
    \<and> set hs = {h. \<exists>s'\<in>{get_service m, ANY_SERVICE}. \<exists>i'\<in>{get_instance m, ANY_INSTANCE}. \<exists>me'\<in>{get_method m, ANY_METHOD}.
             lookup3 (app_members st) s' i' me' = Some h}"
proof -
  let ?s = "get_service m" and ?i = "get_instance m" and ?me = "get_method m"
  let ?reg = "registered_handlers ?s ?i ?me st"
  let ?hs = "handler_set env ?reg"
  let ?st = "if get_message_type m = MT_NOTIFICATION then snd (check_for_active_subscription env ?s ?i ?me st) else st"
  have "registered_handlers ?s ?i ?me ?st = ?reg"
    by (rule registered_handlers_cong) (simp add: check_for_active_frame)
  then have "app_on_message env m st = fold (queue_message m) ?hs ?st"
    using assms(2) by (auto simp: app_on_message_def Let_def case_prod_beta)
  then have "pending_calls (app_on_message env m st) = pending_calls st @ map (\<lambda>h. Call_message h m) ?hs"
    by (simp add: pending_calls_messages check_for_active_frame)
  moreover have all: "mset ?hs = mset ?reg" using handler_set_all [OF _ assms(3)] assms(1) by blast
  moreover have "set ?hs = set ?reg" by (rule mset_eq_setD [OF all])
  ultimately show ?thesis using set_registered_handlers by blast
qed

theorem messages_reach_handlers_witness:
  "\<exists>hs. pending_calls (app_on_message \<lparr>ae_find_event = \<lambda>_ _ _. None, ae_find_events = \<lambda>_ _ _. [], ae_order = rev\<rparr>
       (set_service 1 (set_instance 2 (set_method 3 message_init)))
       (app_register_message_handler 1 2 3 (Function 7) (app_register_message_handler 1 2 ANY_METHOD (Object 8)
         (app_register_message_handler 1 ANY_INSTANCE 3 (Function 9) app_create))))
     = map (\<lambda>h. Call_message h (set_service 1 (set_instance 2 (set_method 3 message_init)))) hs
     \<and> mset hs = {#Function 7, Object 8, Function 9#}"
proof -
  let ?env = "\<lparr>ae_find_event = \<lambda>_ _ _. None, ae_find_events = \<lambda>_ _ _. [], ae_order = rev\<rparr>"
  let ?m = "set_service 1 (set_instance 2 (set_method 3 message_init))"
  let ?st = "app_register_message_handler 1 2 3 (Function 7) (app_register_message_handler 1 2 ANY_METHOD (Object 8)
         (app_register_message_handler 1 ANY_INSTANCE 3 (Function 9) app_create))"
  have m: "get_service ?m = 1" "get_instance ?m = 2" "get_method ?m = 3" "get_message_type ?m \<noteq> MT_NOTIFICATION"
    by (simp_all add: message_getters message_setters message_init_def header_init_def)
  have reg: "registered_handlers 1 2 3 ?st = [Function 7, Object 8, Function 9]"
    by (simp add: registered_handlers_def app_register_message_handler_def app_create_def table_simps List.map_filter_simps)
  obtain hs where "pending_calls (app_on_message ?env ?m ?st) = pending_calls ?st @ map (\<lambda>h. Call_message h ?m) hs"
      "mset hs = mset [Function 7, Object 8, Function 9]"
    using messages_reach_handlers [of ?env ?m ?st] unfolding m(1-3) reg using m(4) by auto
  moreover have "pending_calls ?st = []" by (simp add: pending_calls_def app_register_message_handler_def app_create_def)
  ultimately show ?thesis by auto
qed

text \<open>
   Only one of several function objects gets a message: a handler for one method hides the handlers
  for all methods and all instances.
\<close>

theorem second_function_object_not_called:
  assumes "\<forall>hs. mset (ae_order env hs) = mset hs"
  shows "pending_calls (app_on_message env (set_service s (set_instance i (set_method me message_init)))
     (app_register_message_handler s i me (Object f) (app_register_message_handler s i ANY_METHOD (Object g) app_create)))
   = [Call_message (Object f) (set_service s (set_instance i (set_method me message_init)))]"
proof -
  let ?m = "set_service s (set_instance i (set_method me message_init))"
  let ?st = "app_register_message_handler s i me (Object f) (app_register_message_handler s i ANY_METHOD (Object g) app_create)"
  have m: "get_service ?m = s" "get_instance ?m = i" "get_method ?m = me" "get_message_type ?m \<noteq> MT_NOTIFICATION"
    by (simp_all add: message_getters message_setters message_init_def header_init_def)
  have "lookup3 (app_members ?st) s i me = Some (Object f)"
    by (simp add: app_register_message_handler_def table_simps)
  then obtain hs where hs: "registered_handlers s i me ?st = Object f # hs"
    by (simp add: registered_handlers_def List.map_filter_simps)
  have "\<not> is_function h" if "h \<in> set (registered_handlers s i me ?st)" for h
    using that unfolding set_registered_handlers
    by (auto simp: app_register_message_handler_def app_create_def table_simps split: if_splits)
  then have "filter is_function (registered_handlers s i me ?st) = []" by (simp add: filter_empty_conv)
  moreover have "ae_order env [] = []" using assms by (metis mset_zero_iff mset.simps(1))
  ultimately have "handler_set env (registered_handlers s i me ?st) = [Object f]"
    unfolding handler_set_def by (simp add: hs del: ANY_METHOD_def)
  moreover have "pending_calls ?st = []" by (simp add: pending_calls_def app_register_message_handler_def app_create_def)
  ultimately show ?thesis
    using m pending_calls_messages [of ?m "[Object f]" ?st] by (simp add: app_on_message_def Let_def)
qed

theorem second_function_object_not_called_witness:
  "pending_calls (app_on_message \<lparr>ae_find_event = \<lambda>_ _ _. None, ae_find_events = \<lambda>_ _ _. [], ae_order = \<lambda>hs. hs\<rparr>
     (set_service 1 (set_instance 2 (set_method 3 message_init)))
     (app_register_message_handler 1 2 3 (Object 4) (app_register_message_handler 1 2 ANY_METHOD (Object 5) app_create)))
   = [Call_message (Object 4) (set_service 1 (set_instance 2 (set_method 3 message_init)))]"
  by (rule second_function_object_not_called) simp

section \<open>Notifications\<close>

lemma queued_only:
  "\<exists>hs n. fold (\<lambda>h. queue_handler t s i me se g (c h)) xs st = st\<lparr>app_handlers := hs, app_next_handler := n\<rparr>"
proof (induction xs arbitrary: st)
  case Nil
  show ?case by (intro exI [of _ "app_handlers st"] exI [of _ "app_next_handler st"]) simp
next
  case (Cons x xs)
  obtain hs n where "fold (\<lambda>h. queue_handler t s i me se g (c h)) (x # xs) st
      = (queue_handler t s i me se g (c x) st)\<lparr>app_handlers := hs, app_next_handler := n\<rparr>"
    using Cons.IH [of "queue_handler t s i me se g (c x) st"] by auto
  moreover have "(queue_handler t s i me se g (c x) st)\<lparr>app_handlers := hs, app_next_handler := n\<rparr>
      = st\<lparr>app_handlers := hs, app_next_handler := n\<rparr>" by (simp add: queue_handler_def)
  ultimately show ?case by metis
qed

lemma deliver_frame: "\<exists>hs n. deliver_subscription_state s i g ev err st = st\<lparr>app_handlers := hs, app_next_handler := n\<rparr>"
  unfolding deliver_subscription_state_def by (rule queued_only)

lemma check_subscription_state_frame:
  "app_subscriptions (snd (check_subscription_state s i g ev st)) = app_subscriptions st"
  "app_routing (snd (check_subscription_state s i g ev st)) = app_routing st"
  "app_client (snd (check_subscription_state s i g ev st)) = app_client st"
proof -
  obtain hs n where d: "deliver_subscription_state s i g ev 0 st = st\<lparr>app_handlers := hs, app_next_handler := n\<rparr>"
    using deliver_frame by blast
  show "app_subscriptions (snd (check_subscription_state s i g ev st)) = app_subscriptions st"
    "app_routing (snd (check_subscription_state s i g ev st)) = app_routing st"
    "app_client (snd (check_subscription_state s i g ev st)) = app_client st"
    by (simp_all add: check_subscription_state_def d split: option.splits subscription_state.splits)
qed

lemma new_subscription:
  assumes "app_routing st" "inner (app_subscriptions st) s i ev g = None"
  shows "app_subscriptions (snd (app_subscribe env s i g ma ty ev st)) = put4 s i ev g False (app_subscriptions st)"
    "app_routing (snd (app_subscribe env s i g ma ty ev st))"
  using assms check_subscription_state_frame
  by (simp_all add: app_subscribe_def check_send_back_cached_event_def case_prod_beta)

lemma inner_put4: "inner (put4 a b c d v m) a' b' c' = (if a' = a \<and> b' = b \<and> c' = c then (inner m a b c)(d \<mapsto> v) else inner m a' b' c')"
  by (auto simp: inner_def put4_def table_simps)

lemma inner_empty: "inner Map.empty a b c = Map.empty"
  by (simp add: inner_def)

lemma lookup3_put4:
  "lookup3 (put4 a b c d v m) a' b' c' = (if a' = a \<and> b' = b \<and> c' = c then Some ((inner m a b c)(d \<mapsto> v)) else lookup3 m a' b' c')"
  by (simp add: put4_def table_simps)

lemma lookup3_prune3: "lookup3 (prune3 a b c m) a' b' c' = (if a' = a \<and> b' = b \<and> c' = c then None else lookup3 m a' b' c')"
proof (cases "lookup2 m a b")
  case (Some n)
  have "n x = None" if "n(c := None) = Map.empty" "x \<noteq> c" for x using fun_cong [OF that(1), of x] that(2) by simp
  then show ?thesis using Some by (auto simp: prune3_def lookup3_def table_simps)
qed (auto simp: prune3_def lookup3_def)

lemma inner_prune4:
  "inner (prune4 a b c d m) a' b' c' = (if a' = a \<and> b' = b \<and> c' = c then (inner m a b c)(d := None) else inner m a' b' c')"
proof -
  have "(inner m a b c)(d := None) = inner m a b c" if "inner m a b c d = None" using that by auto
  then show ?thesis
    by (cases "(inner m a b c)(d := None) = Map.empty")
      (auto simp: prune4_def Let_def inner_def lookup3_prune3 table_simps)
qed

lemma active_subscription:
  assumes "inner (app_subscriptions st) s i ev \<noteq> Map.empty"
  shows "fst (check_for_active_subscription env s i ev st)"
  using assms by (auto simp: check_for_active_subscription_def inner_def lookup3_def split: option.splits)

lemma find_never: "find (\<lambda>x. False) xs = None"
  by (induction xs) simp_all

lemma no_subscription:
  assumes "inner (app_subscriptions st) s i ev = Map.empty" "inner (app_subscriptions st) s i ANY_EVENT = Map.empty"
  shows "check_for_active_subscription env s i ev st = (False, st)"
  using assms by (auto simp: check_for_active_subscription_def inner_def lookup3_def find_never split: option.splits)

lemma active_group_subscription:
  assumes "app_routing st" "lookup3 (app_subscriptions st) s i ev = None"
    "inner (app_subscriptions st) s i ANY_EVENT g \<noteq> None" "ae_find_event env s i ev = Some e" "g \<in> get_eventgroups e"
    "finite (get_eventgroups e)"
  shows "fst (check_for_active_subscription env s i ev st)"
proof -
  obtain evs gs where evs: "lookup2 (app_subscriptions st) s i = Some evs" "evs ANY_EVENT = Some gs" "g \<in> dom gs"
    using assms(3) by (auto simp: inner_def lookup3_def bind_eq_Some_conv split: option.splits)
  have "evs ev = None" using assms(2) evs by (simp add: lookup3_def)
  moreover have "find (\<lambda>g. g \<in> dom gs) (sorted_list_of_set (get_eventgroups e)) \<noteq> None"
    using evs(3) assms(5,6) by (auto simp: find_None_iff simp del: not_None_eq)
  ultimately show ?thesis using evs assms(1,4) by (auto simp: check_for_active_subscription_def)
qed

text \<open>
  C21.  A notification of an event that the application did not subscribe is dropped.  After a subscription
  to the event, or to all events of one of its eventgroups, it is let through, and it is dropped again
  after the subscription is withdrawn.
\<close>

theorem notifications_follow_subscriptions:
  assumes "get_message_type m = MT_NOTIFICATION" "get_service m = s" "get_instance m = i" "get_method m = ev"
    and "app_routing st" "ev \<noteq> ANY_EVENT"
    and "lookup3 (app_subscriptions st) s i ev = None" "lookup3 (app_subscriptions st) s i ANY_EVENT = None"
    and "ae_find_event env s i ev = Some e" "g \<in> get_eventgroups e" "finite (get_eventgroups e)"
  shows "app_on_message env m st = st
    \<and> fst (check_for_active_subscription env s i ev (snd (app_subscribe env s i g ma ty ev st)))
    \<and> fst (check_for_active_subscription env s i ev (snd (app_subscribe env s i g ma ty ANY_EVENT st)))
    \<and> (let st' = snd (app_unsubscribe_event s i g ev (snd (app_subscribe env s i g ma ty ev st)))
       in app_on_message env m st' = st')
    \<and> (let st' = snd (app_unsubscribe s i g (snd (app_subscribe env s i g ma ty ANY_EVENT st)))
       in app_on_message env m st' = st')"
proof -
  have none: "inner (app_subscriptions st) s i ev = Map.empty" "inner (app_subscriptions st) s i ANY_EVENT = Map.empty"
    using assms(7,8) by (simp_all add: inner_def)
  have dropped: "app_on_message env m st' = st'"
    if "inner (app_subscriptions st') s i ev = Map.empty" "inner (app_subscriptions st') s i ANY_EVENT = Map.empty" for st'
    using assms(1-4) no_subscription [OF that] by (simp add: app_on_message_def Let_def)
  have sub: "app_subscriptions (snd (app_subscribe env s i g ma ty e st)) = put4 s i e g False (app_subscriptions st)"
    "app_routing (snd (app_subscribe env s i g ma ty e st))" if "e = ev \<or> e = ANY_EVENT" for e
    using new_subscription [OF assms(5), of s i e g env ma ty] none that by auto
  have gone: "inner (app_subscriptions (remove_subscription s i g e (snd (app_subscribe env s i g ma ty e st)))) s i x = Map.empty"
    if "e = ev \<or> e = ANY_EVENT" "x = ev \<or> x = ANY_EVENT" for e x
    using that none assms(6) by (auto simp: remove_subscription_def inner_prune4 sub inner_put4)
  show ?thesis
  proof (intro conjI)
    show "app_on_message env m st = st" using dropped none by simp
    show "fst (check_for_active_subscription env s i ev (snd (app_subscribe env s i g ma ty ev st)))"
      by (rule active_subscription) (simp add: sub inner_put4 none)
    show "fst (check_for_active_subscription env s i ev (snd (app_subscribe env s i g ma ty ANY_EVENT st)))"
      by (rule active_group_subscription [OF _ _ _ assms(9-11)])
        (use assms(6,7) in \<open>simp_all add: sub inner_put4 lookup3_put4\<close>)
  qed (use dropped gone in \<open>simp_all add: Let_def app_unsubscribe_event_def app_unsubscribe_def when_routing_def\<close>)
qed

theorem notifications_follow_subscriptions_witness:
  "\<exists>env m e. get_message_type m = MT_NOTIFICATION \<and> ae_find_event env 1 2 3 = Some e \<and> 4 \<in> get_eventgroups e
     \<and> app_on_message env m (app_create\<lparr>app_routing := True\<rparr>) = app_create\<lparr>app_routing := True\<rparr>
     \<and> fst (check_for_active_subscription env 1 2 3 (snd (app_subscribe env 1 2 4 0 0 3 (app_create\<lparr>app_routing := True\<rparr>))))"
proof -
  define e where "e = add_eventgroup 4 (event_init False)"
  define env where "env = \<lparr>ae_find_event = \<lambda>_ _ _. Some e, ae_find_events = \<lambda>_ _ _. [], ae_order = \<lambda>hs. hs\<rparr>"
  define m where "m = set_service 1 (set_instance 2 (set_method 3 (create_notification False)))"
  have e: "4 \<in> get_eventgroups e" "finite (get_eventgroups e)"
    by (simp_all add: e_def add_eventgroup_def get_eventgroups_def event_init_def)
  have m: "get_message_type m = MT_NOTIFICATION" "get_service m = 1" "get_instance m = 2" "get_method m = 3"
    by (simp_all add: m_def message_getters message_setters create_notification_def message_init_def header_init_def)
  have env: "ae_find_event env 1 2 3 = Some e" by (simp add: env_def)
  have "app_on_message env m (app_create\<lparr>app_routing := True\<rparr>) = app_create\<lparr>app_routing := True\<rparr>
      \<and> fst (check_for_active_subscription env 1 2 3 (snd (app_subscribe env 1 2 4 0 0 3 (app_create\<lparr>app_routing := True\<rparr>))))"
    using notifications_follow_subscriptions [OF m, of "app_create\<lparr>app_routing := True\<rparr>" env e 4 0 0] env e
    by (simp add: app_create_def ANY_EVENT_def)
  with m(1) env e(1) show ?thesis by blast
qed

section \<open>Availability\<close>

lemma set_case_handler: "set (case x of None \<Rightarrow> [] | Some (h, b) \<Rightarrow> [h]) = {h. \<exists>b. x = Some (h, b)}"
  by (auto split: option.splits)

lemma set_minors_down:
  "n < 2 ^ 32 \<Longrightarrow> set (minors_down m n) = {h. \<exists>mi b. unat mi \<le> n \<and> m mi = Some (h, b)}"
proof (induction n)
  case 0
  have "unat mi = 0 \<longleftrightarrow> mi = 0" for mi :: u32 by (simp add: unat_eq_0)
  then show ?case by (simp add: set_case_handler)
next
  case (Suc n)
  have "unat mi \<le> Suc n \<longleftrightarrow> mi = of_nat (Suc n) \<or> unat mi \<le> n" for mi :: u32
  proof -
    have "unat (of_nat (Suc n) :: u32) = Suc n"
      using Suc.prems by (simp add: unsigned_of_nat take_bit_eq_mod del: of_nat_Suc)
    moreover have "unat mi = Suc n \<Longrightarrow> mi = of_nat (Suc n)" using calculation by (simp add: word_unat_eq_iff del: of_nat_Suc)
    ultimately show ?thesis by (auto simp: le_Suc_eq)
  qed
  then show ?case using Suc by (auto simp: set_case_handler)
qed

lemma set_handlers_of_major:
  assumes "0 \<le> sint minor"
  shows "set (handlers_of_major minor found)
    = {h. \<exists>mi b. (mi \<le> minor \<or> mi = ANY_MINOR) \<and> (case found of Some m \<Rightarrow> m | None \<Rightarrow> Map.empty) mi = Some (h, b)}"
proof (cases found)
  case (Some m)
  have "unat minor < 2 ^ 32" using unsigned_less [of minor, where ?'a = nat] by simp
  from set_minors_down [OF this, of m] show ?thesis
    using assms by (auto simp: Some handlers_of_major_def word_le_nat_alt set_case_handler)
qed (simp add: handlers_of_major_def)

definition handlers_at :: "application \<Rightarrow> u16 \<Rightarrow> u16 \<Rightarrow> byte \<Rightarrow> u32 \<Rightarrow> nat set" where
  "handlers_at st s i major minor = {h. \<exists>s'\<in>{s, ANY_SERVICE}. \<exists>i'\<in>{i, ANY_INSTANCE}. \<exists>ma\<in>{major, ANY_MAJOR}. \<exists>mi b.
     (mi \<le> minor \<or> mi = ANY_MINOR) \<and> inner (app_availability st) s' i' ma mi = Some (h, b)}"

lemma set_find_matching_handler:
  assumes "0 \<le> sint minor"
  shows "set (find_matching_handler major minor (lookup2 m s i))
    = {h. \<exists>ma\<in>{major, ANY_MAJOR}. \<exists>mi b. (mi \<le> minor \<or> mi = ANY_MINOR) \<and> inner m s i ma mi = Some (h, b)}"
  by (cases "lookup2 m s i")
    (auto simp: find_matching_handler_def set_handlers_of_major [OF assms] inner_def lookup3_def)

lemma set_availability_handlers_for:
  assumes "0 \<le> sint minor"
  shows "set (availability_handlers_for s i major minor st) = handlers_at st s i major minor"
  by (simp add: availability_handlers_for_def Let_def set_find_matching_handler [OF assms] handlers_at_def del: ANY_MAJOR_def ANY_MINOR_def)
    blast

lemma queued_availability:
  "pending_calls (fold (queue_availability s i a) hs st) = pending_calls st @ map (\<lambda>h. Call_availability h [(s, i, a)]) hs"
  "\<exists>xs n. fold (queue_availability s i a) hs st = st\<lparr>app_handlers := xs, app_next_handler := n\<rparr>"
  using pending_calls_queues [where c = "\<lambda>h. Call_availability h [(s, i, a)]"]
    queued_only [where c = "\<lambda>h. Call_availability h [(s, i, a)]"]
  by (simp_all add: queue_availability_def [abs_def])

lemma availability_handlers_for_cong:
  "app_availability st' = app_availability st \<Longrightarrow>
    availability_handlers_for s i major minor st' = availability_handlers_for s i major minor st"
  by (simp only: availability_handlers_for_def)

lemma forget_subscriptions_frame:
  "pending_calls (forget_subscriptions s i st) = pending_calls st"
  "app_available (forget_subscriptions s i st) = app_available st"
  "app_availability (forget_subscriptions s i st) = app_availability st"
  "app_routing (forget_subscriptions s i st) = app_routing st"
  "app_client (forget_subscriptions s i st) = app_client st"
  "app_subscription_state (forget_subscriptions s i st) (s', i', g, ev)
    = (if s' = s \<and> i' = i then map_option (\<lambda>_. SUBSCRIPTION_NOT_ACKNOWLEDGED) (app_subscription_state st (s', i', g, ev))
       else app_subscription_state st (s', i', g, ev))"
  by (simp_all add: forget_subscriptions_def pending_calls_def)

lemma on_availability_changed:
  assumes "a \<noteq> app_is_available s i major minor st"
  shows "pending_calls (app_on_availability s i a major minor st)
      = pending_calls st @ map (\<lambda>h. Call_availability h [(s, i, a)]) (availability_handlers_for s i major minor st)"
    "app_available (app_on_availability s i a major minor st) = update_available s i a major minor (app_available st)"
    "app_availability (app_on_availability s i a major minor st) = app_availability st"
    "app_routing (app_on_availability s i a major minor st) = app_routing st"
    "app_client (app_on_availability s i a major minor st) = app_client st"
    "app_subscription_state (app_on_availability s i a major minor st) (s', i', g, ev)
      = (if \<not> a \<and> s' = s \<and> i' = i
         then map_option (\<lambda>_. SUBSCRIPTION_NOT_ACKNOWLEDGED) (app_subscription_state st (s', i', g, ev))
         else app_subscription_state st (s', i', g, ev))"
proof -
  define st1 where "st1 = st\<lparr>app_available := update_available s i a major minor (app_available st)\<rparr>"
  define st2 where "st2 = fold (queue_availability s i a) (availability_handlers_for s i major minor st1) st1"
  have res: "app_on_availability s i a major minor st = (if a then st2 else forget_subscriptions s i st2)"
    using assms by (simp add: app_on_availability_def Let_def st1_def st2_def)
  have "availability_handlers_for s i major minor st1 = availability_handlers_for s i major minor st"
    by (rule availability_handlers_for_cong) (simp add: st1_def)
  then have p: "pending_calls st2 = pending_calls st @ map (\<lambda>h. Call_availability h [(s, i, a)]) (availability_handlers_for s i major minor st)"
    by (simp add: st2_def queued_availability) (simp add: st1_def pending_calls_def)
  obtain xs n where "st2 = st1\<lparr>app_handlers := xs, app_next_handler := n\<rparr>"
    using queued_availability(2) unfolding st2_def by blast
  then have f: "app_available st2 = update_available s i a major minor (app_available st)" "app_availability st2 = app_availability st"
    "app_routing st2 = app_routing st" "app_client st2 = app_client st" "app_subscription_state st2 = app_subscription_state st"
    by (simp_all add: st1_def)
  show "pending_calls (app_on_availability s i a major minor st)
      = pending_calls st @ map (\<lambda>h. Call_availability h [(s, i, a)]) (availability_handlers_for s i major minor st)"
    "app_available (app_on_availability s i a major minor st) = update_available s i a major minor (app_available st)"
    "app_availability (app_on_availability s i a major minor st) = app_availability st"
    "app_routing (app_on_availability s i a major minor st) = app_routing st"
    "app_client (app_on_availability s i a major minor st) = app_client st"
    "app_subscription_state (app_on_availability s i a major minor st) (s', i', g, ev)
      = (if \<not> a \<and> s' = s \<and> i' = i
         then map_option (\<lambda>_. SUBSCRIPTION_NOT_ACKNOWLEDGED) (app_subscription_state st (s', i', g, ev))
         else app_subscription_state st (s', i', g, ev))"
    by (simp_all add: res forget_subscriptions_frame p f)
qed

lemma available_after_put:
  "app_available st = put3 s i major minor av \<Longrightarrow> app_is_available s i major minor st"
  by (simp add: app_is_available_def put3_def put2_def check_instances_def check_major_minor_def minor_fits_def)

lemma unavailable_after_erase:
  "app_available st = erase2 s i av \<Longrightarrow> s \<noteq> ANY_SERVICE \<Longrightarrow> i \<noteq> ANY_INSTANCE \<Longrightarrow> \<not> app_is_available s i major minor st"
  by (auto simp: app_is_available_def erase2_def check_instances_def split: option.splits)

lemma sint_nonneg: "minor < 0x80000000 \<Longrightarrow> 0 \<le> sint (minor :: u32)"
proof -
  assume "minor < 0x80000000"
  then have "uint minor < 2 ^ 31" by (simp add: word_less_alt)
  moreover have "- (2 ^ 31) \<le> uint minor" by (rule order_trans [OF _ uint_nonnegative]) simp
  ultimately have "signed_take_bit 31 (uint minor) = uint minor" by (simp only: signed_take_bit_int_eq_self_iff simp_thms)
  then show ?thesis by (simp add: sint_uint)
qed

text \<open>
  C22.  A service instance that appears with a minor version below \<open>2 ^ 31\<close> becomes available, and
  exactly the handlers registered for its service, instance and major version, or for any, and for this
  or a lower minor version, or for any, are called with it.  When it goes it is no longer available in
  any version, the same handlers are called, and no subscription to it counts as made.
\<close>

theorem availability_reaches_handlers:
  assumes "\<not> app_is_available s i major minor st" "minor < 0x80000000" "s \<noteq> ANY_SERVICE" "i \<noteq> ANY_INSTANCE"
  shows "let up = app_on_availability s i True major minor st; down = app_on_availability s i False major minor up in
    app_is_available s i major minor up
    \<and> (\<forall>ma mi. \<not> app_is_available s i ma mi down)
    \<and> (\<exists>hs. set hs = handlers_at st s i major minor
         \<and> pending_calls up = pending_calls st @ map (\<lambda>h. Call_availability h [(s, i, True)]) hs
         \<and> pending_calls down = pending_calls up @ map (\<lambda>h. Call_availability h [(s, i, False)]) hs)
    \<and> (\<forall>g ev. app_subscription_state down (s, i, g, ev) \<in> {None, Some SUBSCRIPTION_NOT_ACKNOWLEDGED})"
proof -
  define up where "up = app_on_availability s i True major minor st"
  define down where "down = app_on_availability s i False major minor up"
  have 1: "True \<noteq> app_is_available s i major minor st" using assms(1) by simp
  note u = on_availability_changed [OF 1, folded up_def]
  have avail: "app_is_available s i major minor up"
    by (rule available_after_put) (simp add: u(2) update_available_def)
  then have 2: "False \<noteq> app_is_available s i major minor up" by simp
  note d = on_availability_changed [OF 2, folded down_def]
  have "lookup3 (app_available up) s i major = Some minor" by (simp add: u(2) update_available_def table_simps)
  then have "app_available down = erase2 s i (app_available up)" by (simp add: d(2) update_available_def)
  from unavailable_after_erase [OF this assms(3,4)] have "\<forall>ma mi. \<not> app_is_available s i ma mi down" by blast
  moreover have "availability_handlers_for s i major minor up = availability_handlers_for s i major minor st"
    by (rule availability_handlers_for_cong) (rule u(3))
  then have "\<exists>hs. set hs = handlers_at st s i major minor
      \<and> pending_calls up = pending_calls st @ map (\<lambda>h. Call_availability h [(s, i, True)]) hs
      \<and> pending_calls down = pending_calls up @ map (\<lambda>h. Call_availability h [(s, i, False)]) hs"
    using u(1) d(1) set_availability_handlers_for [OF sint_nonneg [OF assms(2)]] by (intro exI) auto
  moreover have "app_subscription_state down (s, i, g, ev) \<in> {None, Some SUBSCRIPTION_NOT_ACKNOWLEDGED}" for g ev
    by (cases "app_subscription_state up (s, i, g, ev)") (simp_all add: d(6))
  ultimately show ?thesis using avail unfolding Let_def up_def [symmetric] down_def [symmetric] by blast
qed

theorem availability_reaches_handlers_witness:
  "\<exists>hs. set hs = {7} \<and> pending_calls (app_on_availability 1 2 False 3 4 (app_on_availability 1 2 True 3 4
       (app_register_availability_handler 1 ANY_INSTANCE 7 3 2 app_create)))
     = map (\<lambda>h. Call_availability h [(1, 2, True)]) hs @ map (\<lambda>h. Call_availability h [(1, 2, False)]) hs"
proof -
  let ?st = "app_register_availability_handler 1 ANY_INSTANCE 7 3 2 app_create"
  have st: "app_available ?st = Map.empty" "pending_calls ?st = []"
    "app_availability ?st = put4 1 ANY_INSTANCE 3 2 (7, False) Map.empty"
    by (simp_all add: app_register_availability_handler_def app_create_def pending_calls_def)
  have "handlers_at ?st 1 2 3 4 = {7}" unfolding handlers_at_def st by (auto simp: inner_put4 inner_empty split: if_splits)
  moreover have "\<not> app_is_available 1 2 3 4 ?st" by (simp add: app_is_available_def st del: ANY_INSTANCE_def)
  ultimately show ?thesis
    using availability_reaches_handlers [of 1 2 3 4 ?st] st(2) by (auto simp: Let_def)
qed

text \<open>
  C39.  A handler registered for one instance is told that another instance of the service is available,
  though the instance asked for is not.
\<close>

theorem other_instance_reported:
  assumes "i \<noteq> j" "j \<noteq> ANY_INSTANCE" "s \<noteq> ANY_SERVICE"
  shows "let st = app_create\<lparr>app_registered := True, app_available := [s \<mapsto> [i \<mapsto> [major \<mapsto> minor]]]\<rparr> in
    \<not> app_is_available s j major minor st
    \<and> pending_calls (app_register_availability_handler s j h major minor st) = [Call_availability h [(s, i, True)]]"
proof -
  let ?st = "app_create\<lparr>app_registered := True, app_available := [s \<mapsto> [i \<mapsto> [major \<mapsto> minor]]]\<rparr>"
  let ?av = "[s \<mapsto> [i \<mapsto> [major \<mapsto> minor]]]"
  have 1: "add_services s ?av Map.empty = [s \<mapsto> Map.empty]"
    using assms(3) by (simp add: add_services_def chosen_keys_def touch_def)
  have 2: "add_instances j ?av [s \<mapsto> Map.empty] = [s \<mapsto> Map.empty]"
    using assms(1,2) by (simp add: add_instances_def chosen_keys_def ordered_keys_def)
  have 3: "add_majors major ?av [s \<mapsto> Map.empty] = [s \<mapsto> [i \<mapsto> [major \<mapsto> 0]]]"
    by (simp add: add_majors_def chosen_keys_def ordered_keys_def touch3_def put3_def put2_def lookup3_def lookup2_def)
  have 4: "add_minors minor ?av [s \<mapsto> [i \<mapsto> [major \<mapsto> 0]]] = ?av"
    by (simp add: add_minors_def minors_of_def ordered_keys_def minor_fits_def put3_def put2_def lookup3_def lookup2_def)
  have "app_are_available Map.empty s j major minor ?st = (True, ?av)"
    by (simp add: app_are_available_def Let_def 1 2 3 4)
  then have "pending_calls (app_register_availability_handler s j h major minor ?st) = [Call_availability h [(s, i, True)]]"
    by (simp add: app_register_availability_handler_def do_register_availability_handler_def reports_of_def ordered_keys_def)
      (simp add: pending_calls_def app_create_def)
  moreover have "\<not> app_is_available s j major minor ?st"
    using assms by (simp add: app_is_available_def check_instances_def)
  ultimately show ?thesis by (simp add: Let_def)
qed

theorem other_instance_reported_witness:
  "pending_calls (app_register_availability_handler 0x1111 2 7 0 0
     (app_create\<lparr>app_registered := True, app_available := [0x1111 \<mapsto> [1 \<mapsto> [0 \<mapsto> 0]]]\<rparr>))
   = [Call_availability 7 [(0x1111, 1, True)]]"
  using other_instance_reported [of 1 2 "0x1111" 0 0 7] by (simp add: Let_def)

section \<open>The life of a subscription\<close>

text \<open>
  What the program and the routing manager do with a subscription, and the automaton it follows: a
  subscription is asked for, acknowledged or rejected, has to be made again when it is rejected or its
  instance goes, and ends when it is withdrawn.
\<close>

datatype sub_op = Op_subscribe | Op_status u16 | Op_unavailable byte u32 | Op_unsubscribe

fun sub_next :: "sub_op \<Rightarrow> subscription_state option \<Rightarrow> subscription_state option" where
  "sub_next Op_subscribe None = Some IS_SUBSCRIBING"
| "sub_next Op_subscribe (Some x) = Some x"
| "sub_next (Op_status err) x = map_option (\<lambda>_. if err = 0 then SUBSCRIPTION_ACKNOWLEDGED else SUBSCRIPTION_NOT_ACKNOWLEDGED) x"
| "sub_next (Op_unavailable _ _) x = map_option (\<lambda>_. SUBSCRIPTION_NOT_ACKNOWLEDGED) x"
| "sub_next Op_unsubscribe x = None"

text \<open>The requests that have to be sent: to subscribe, unless this is under way or done, and to withdraw.\<close>

fun sub_requests :: "app_action \<Rightarrow> app_action \<Rightarrow> sub_op list \<Rightarrow> subscription_state option \<Rightarrow> app_action list" where
  "sub_requests ask quit [] x = []"
| "sub_requests ask quit (op # ops) x =
     (case op of
        Op_subscribe \<Rightarrow> if x \<in> {None, Some SUBSCRIPTION_NOT_ACKNOWLEDGED} then [ask] else []
      | Op_unsubscribe \<Rightarrow> [quit]
      | _ \<Rightarrow> []) @ sub_requests ask quit ops (sub_next op x)"

text \<open>The operations of the application, on the subscription to an event in an eventgroup.\<close>

fun sub_exec :: "app_env \<Rightarrow> u16 \<Rightarrow> u16 \<Rightarrow> u16 \<Rightarrow> u16 \<Rightarrow> byte \<Rightarrow> byte \<Rightarrow> sub_op \<Rightarrow> application \<Rightarrow> app_result" where
  "sub_exec env s i g ev ma ty Op_subscribe st = app_subscribe env s i g ma ty ev st"
| "sub_exec env s i g ev ma ty (Op_status err) st = ([], app_on_subscription_status s i g ev err st)"
| "sub_exec env s i g ev ma ty (Op_unavailable major minor) st = ([], app_on_availability s i False major minor st)"
| "sub_exec env s i g ev ma ty Op_unsubscribe st = app_unsubscribe_event s i g ev st"

fun sub_run :: "app_env \<Rightarrow> u16 \<Rightarrow> u16 \<Rightarrow> u16 \<Rightarrow> u16 \<Rightarrow> byte \<Rightarrow> byte \<Rightarrow> sub_op list \<Rightarrow> application \<Rightarrow> app_result" where
  "sub_run env s i g ev ma ty [] st = ([], st)"
| "sub_run env s i g ev ma ty (op # ops) st =
     (let (acts, st) = sub_exec env s i g ev ma ty op st; (acts', st) = sub_run env s i g ev ma ty ops st
      in (acts @ acts', st))"

text \<open>An instance that is reported as gone was available.\<close>

fun sub_possible :: "app_env \<Rightarrow> u16 \<Rightarrow> u16 \<Rightarrow> u16 \<Rightarrow> u16 \<Rightarrow> byte \<Rightarrow> byte \<Rightarrow> sub_op list \<Rightarrow> application \<Rightarrow> bool" where
  "sub_possible env s i g ev ma ty [] st = True"
| "sub_possible env s i g ev ma ty (op # ops) st =
     ((case op of Op_unavailable major minor \<Rightarrow> app_is_available s i major minor st | _ \<Rightarrow> True)
      \<and> sub_possible env s i g ev ma ty ops (snd (sub_exec env s i g ev ma ty op st)))"

definition same_subscriber :: "application \<Rightarrow> application \<Rightarrow> bool" where
  "same_subscriber st st' \<longleftrightarrow> app_subscription_state st' = app_subscription_state st \<and> app_routing st' = app_routing st
     \<and> app_client st' = app_client st"

lemma same_subscriber_refl: "same_subscriber st st" by (simp add: same_subscriber_def)

lemma same_subscriber_trans: "same_subscriber st st' \<Longrightarrow> same_subscriber st' st'' \<Longrightarrow> same_subscriber st st''"
  by (simp add: same_subscriber_def)

lemma same_subscriber_fold: "(\<And>x st. same_subscriber st (f x st)) \<Longrightarrow> same_subscriber st (fold f xs st)"
  by (induction xs arbitrary: st) (simp add: same_subscriber_refl, metis fold_simps(2) same_subscriber_trans)

lemma same_subscriber_on_message: "same_subscriber st (app_on_message env m st)"
proof -
  have f: "same_subscriber st (fold (queue_message m) hs st)" for st hs
    by (rule same_subscriber_fold) (simp add: queue_message_def queue_handler_def same_subscriber_def)
  have c: "same_subscriber st (snd (check_for_active_subscription env s i me st))" for s i me
    by (auto simp: check_for_active_subscription_def Let_def same_subscriber_def split: option.splits)
  show ?thesis
    by (simp add: app_on_message_def Let_def case_prod_beta same_subscriber_refl c f same_subscriber_trans [OF c f])
qed

lemma same_subscriber_send_back:
  "same_subscriber st (send_back_cached_event env s i ev st)" "same_subscriber st (send_back_cached_eventgroup env s i g st)"
proof -
  show "same_subscriber st (send_back_cached_event env s i ev st)"
    by (simp add: send_back_cached_event_def same_subscriber_refl same_subscriber_on_message split: option.split)
  show "same_subscriber st (send_back_cached_eventgroup env s i g st)"
    unfolding send_back_cached_eventgroup_def
    by (rule same_subscriber_fold) (simp add: same_subscriber_refl same_subscriber_on_message)
qed

lemma same_subscriber_deliver: "same_subscriber st (deliver_subscription_state s i g ev err st)"
  using deliver_frame [of s i g ev err st] by (auto simp: same_subscriber_def)

lemma subscribe_step:
  assumes "app_routing st"
  shows "app_subscription_state (snd (app_subscribe env s i g ma ty ev st)) (s, i, g, ev)
      = sub_next Op_subscribe (app_subscription_state st (s, i, g, ev))"
    "fst (app_subscribe env s i g ma ty ev st) =
      (if app_subscription_state st (s, i, g, ev) \<in> {None, Some SUBSCRIPTION_NOT_ACKNOWLEDGED}
       then [Rm_subscribe (app_client st) s i g ma ev ty] else [])"
    "app_routing (snd (app_subscribe env s i g ma ty ev st))"
    "app_client (snd (app_subscribe env s i g ma ty ev st)) = app_client st"
proof -
  obtain be bg st1 where 1: "check_send_back_cached_event s i ev g st = ((be, bg), st1)" by (metis prod.collapse)
  have s1: "same_subscriber st st1"
    using 1 by (auto simp: check_send_back_cached_event_def same_subscriber_def split: option.splits)
  define st2 where "st2 = (if be then send_back_cached_event env s i ev st1
     else if bg then send_back_cached_eventgroup env s i g st1 else st1)"
  have "same_subscriber st1 st2" by (simp add: st2_def same_subscriber_send_back same_subscriber_refl)
  with s1 have s2: "same_subscriber st st2" by (rule same_subscriber_trans)
  have eq: "app_subscribe env s i g ma ty ev st = (let (b, st) = check_subscription_state s i g ev st2
      in (if b then [Rm_subscribe (app_client st) s i g ma ev ty] else [], st))"
    using assms 1 by (simp add: app_subscribe_def st2_def Let_def)
  show "app_routing (snd (app_subscribe env s i g ma ty ev st))" "app_client (snd (app_subscribe env s i g ma ty ev st)) = app_client st"
    using s2 assms by (simp_all add: eq case_prod_beta check_subscription_state_frame same_subscriber_def)
  have del: "app_subscription_state (deliver_subscription_state s i g ev 0 st2) = app_subscription_state st2"
    "app_client (deliver_subscription_state s i g ev 0 st2) = app_client st2"
    using same_subscriber_deliver [of st2 s i g ev 0] by (simp_all add: same_subscriber_def)
  show "app_subscription_state (snd (app_subscribe env s i g ma ty ev st)) (s, i, g, ev)
      = sub_next Op_subscribe (app_subscription_state st (s, i, g, ev))"
    "fst (app_subscribe env s i g ma ty ev st) =
      (if app_subscription_state st (s, i, g, ev) \<in> {None, Some SUBSCRIPTION_NOT_ACKNOWLEDGED}
       then [Rm_subscribe (app_client st) s i g ma ev ty] else [])"
    using s2 unfolding eq check_subscription_state_def same_subscriber_def
    by (auto simp: del split: option.splits subscription_state.splits)
qed

lemma status_step:
  "app_subscription_state (app_on_subscription_status s i g ev err st) (s, i, g, ev)
      = sub_next (Op_status err) (app_subscription_state st (s, i, g, ev))"
    "app_routing (app_on_subscription_status s i g ev err st) = app_routing st"
    "app_client (app_on_subscription_status s i g ev err st) = app_client st"
  using same_subscriber_deliver [of _ s i g ev err]
  by (auto simp: app_on_subscription_status_def same_subscriber_def)

lemma sub_step:
  assumes "app_routing st" "case op of Op_unavailable major minor \<Rightarrow> app_is_available s i major minor st | _ \<Rightarrow> True"
  shows "app_subscription_state (snd (sub_exec env s i g ev ma ty op st)) (s, i, g, ev)
      = sub_next op (app_subscription_state st (s, i, g, ev))
    \<and> app_routing (snd (sub_exec env s i g ev ma ty op st))
    \<and> app_client (snd (sub_exec env s i g ev ma ty op st)) = app_client st
    \<and> fst (sub_exec env s i g ev ma ty op st) = sub_requests (Rm_subscribe (app_client st) s i g ma ev ty)
      (Rm_unsubscribe (app_client st) s i g ev) [op] (app_subscription_state st (s, i, g, ev))"
proof (cases op)
  case Op_subscribe
  then show ?thesis using subscribe_step [OF assms(1), of env s i g ma ty ev] by simp
next
  case (Op_status err)
  then show ?thesis using status_step [of s i g ev err st] assms(1) by simp
next
  case (Op_unavailable major minor)
  then have "False \<noteq> app_is_available s i major minor st" using assms(2) by simp
  from on_availability_changed(4-6) [OF this] show ?thesis using Op_unavailable assms(1) by simp
next
  case Op_unsubscribe
  then show ?thesis using assms(1) by (simp add: app_unsubscribe_event_def when_routing_def remove_subscription_def)
qed

lemma sub_requests_Cons:
  "sub_requests ask quit (op # ops) x = sub_requests ask quit [op] x @ sub_requests ask quit ops (sub_next op x)"
  by simp

lemma sub_run_refines:
  "app_routing st \<Longrightarrow> sub_possible env s i g ev ma ty ops st \<Longrightarrow>
    fst (sub_run env s i g ev ma ty ops st) = sub_requests (Rm_subscribe (app_client st) s i g ma ev ty)
      (Rm_unsubscribe (app_client st) s i g ev) ops (app_subscription_state st (s, i, g, ev))
    \<and> app_subscription_state (snd (sub_run env s i g ev ma ty ops st)) (s, i, g, ev)
      = fold sub_next ops (app_subscription_state st (s, i, g, ev))"
proof (induction ops arbitrary: st)
  case (Cons op ops)
  let ?st = "snd (sub_exec env s i g ev ma ty op st)"
  have possible: "case op of Op_unavailable major minor \<Rightarrow> app_is_available s i major minor st | _ \<Rightarrow> True"
    "sub_possible env s i g ev ma ty ops ?st" using Cons.prems(2) by simp_all
  note step = sub_step [OF Cons.prems(1) possible(1), of env g ev ma ty]
  show ?case
    using Cons.IH [OF _ possible(2)] step
    by (subst sub_requests_Cons) (simp add: case_prod_beta del: sub_requests.simps(2))
qed simp

text \<open>
  C19.  Whatever the program and the routing manager do with a subscription, in any order: the state the
  application keeps of it is that of the automaton, and the requests it makes of the routing manager are
  exactly those the automaton asks for: one to subscribe when the subscription is neither under way nor
  acknowledged, and one to withdraw.
\<close>

theorem subscription_follows_automaton:
  assumes "app_routing st" "sub_possible env s i g ev ma ty ops st"
  shows "fst (sub_run env s i g ev ma ty ops st) = sub_requests (Rm_subscribe (app_client st) s i g ma ev ty)
      (Rm_unsubscribe (app_client st) s i g ev) ops (app_subscription_state st (s, i, g, ev))
    \<and> app_subscription_state (snd (sub_run env s i g ev ma ty ops st)) (s, i, g, ev)
      = fold sub_next ops (app_subscription_state st (s, i, g, ev))"
  using sub_run_refines [OF assms] .

theorem subscription_follows_automaton_witness:
  "\<exists>env. fst (sub_run env 1 2 3 4 0 0 [Op_subscribe, Op_subscribe, Op_status 0, Op_subscribe, Op_status 7, Op_subscribe, Op_unsubscribe]
       (app_create\<lparr>app_routing := True\<rparr>))
     = [Rm_subscribe ILLEGAL_CLIENT 1 2 3 0 4 0, Rm_subscribe ILLEGAL_CLIENT 1 2 3 0 4 0, Rm_unsubscribe ILLEGAL_CLIENT 1 2 3 4]"
proof
  let ?env = "\<lparr>ae_find_event = \<lambda>_ _ _. None, ae_find_events = \<lambda>_ _ _. [], ae_order = \<lambda>hs. hs\<rparr>"
  show "fst (sub_run ?env 1 2 3 4 0 0 [Op_subscribe, Op_subscribe, Op_status 0, Op_subscribe, Op_status 7, Op_subscribe, Op_unsubscribe]
       (app_create\<lparr>app_routing := True\<rparr>))
     = [Rm_subscribe ILLEGAL_CLIENT 1 2 3 0 4 0, Rm_subscribe ILLEGAL_CLIENT 1 2 3 0 4 0, Rm_unsubscribe ILLEGAL_CLIENT 1 2 3 4]"
    using subscription_follows_automaton [of "app_create\<lparr>app_routing := True\<rparr>" ?env 1 2 3 4 0 0
        "[Op_subscribe, Op_subscribe, Op_status 0, Op_subscribe, Op_status 7, Op_subscribe, Op_unsubscribe]"]
    by (simp add: app_create_def del: sub_run.simps)
qed

end
