(* ===== verification/Spec2Isabelle.thy ===== *)
theory Spec2Isabelle
  imports Sd_Message E2e Client_Id Eventgroupinfo Event Tcp_Client_Endpoint Tcp_Server_Endpoint
    Client_Endpoint Server_Endpoint Udp_Endpoint Local_Server_Endpoint Routing_Subscription Proxy_Invariant
    Application_Behaviour
begin

text \<open>
  \<^bold>\<open>vsomeip: messages, service discovery, protection, endpoints and shared state.\<close>

  The program is the C++ library vsomeip (below
  \<^verbatim>\<open>src/network/network_protocols/some-ip/vsomeip/vsomeip-master/\<close>; every path in this development
  is relative to its directory \<^verbatim>\<open>implementation/\<close>): the SOME/IP middleware over which the
  applications of a vehicle offer services, call methods of them and subscribe to their events.  The
  rest of the repository holds exercises and third-party code and is not part of the development.

  \<^bold>\<open>How the parts work together.\<close>  An application builds a message and hands it to its routing
  manager.  A \<^emph>\<open>serializer\<close> turns the message into bytes; \<^emph>\<open>E2E protection\<close> may add a
  checksum and a counter; an \<^emph>\<open>endpoint\<close> collects bytes into trains, queues the trains and writes
  them to a socket.  At the other side an endpoint cuts the bytes it reads into messages and hands
  each of them to its host, the routing manager, which checks the protection and has a
  \<^emph>\<open>deserializer\<close> make a message of the bytes.  Applications of one device reach the routing
  manager over \<^emph>\<open>local endpoints\<close> with tagged commands, under \<^emph>\<open>client identifiers\<close> handed
  out from a block of shared memory.  The routing manager keeps \<^emph>\<open>events\<close> and
  \<^emph>\<open>eventgroups\<close> with their subscribers, and \<^emph>\<open>service discovery\<close> exchanges messages of
  entries and options to find services and to subscribe to eventgroups at other devices.

  \<^bold>\<open>Which theory models which part.\<close>
  \<^item> \<open>Prelude\<close>: machine integers of \<^verbatim>\<open>primitive_types.hpp\<close>, access to vectors where an index
    out of range is a value of the model, the collections of simplification rules.
  \<^item> \<open>Byteorder\<close>: the macros of \<^verbatim>\<open>utility/include/byteorder.hpp\<close>.
  \<^item> \<open>Serializer\<close>, \<open>Deserializer\<close>: \<^verbatim>\<open>message/src/serializer.cpp\<close> and
    \<^verbatim>\<open>deserializer.cpp\<close>.  A reader is a function from the state of the deserializer to a result
    and a state; \<open>Fault\<close> is an access outside the buffer.
  \<^item> \<open>Codec\<close>: the locale \<open>codec\<close>, the contract of a writer and the reader for what it
    writes, with its consequences for round trips; it is interpreted for every wire format below.
  \<^item> \<open>Message\<close>: \<^verbatim>\<open>message/src/\<close> with header, payload, message and factories, and the message
    predicates of \<^verbatim>\<open>utility/src/utility.cpp\<close>.
  \<^item> \<open>Endpoint_Definition\<close>: the table of interned endpoint definitions.
  \<^item> \<open>Sd_Entry\<close>, \<open>Sd_Option\<close>, \<open>Sd_Message\<close>: the entries, options and messages of
    \<^verbatim>\<open>service_discovery/src/\<close>.
  \<^item> \<open>Crc\<close>, \<open>E2e\<close>: \<^verbatim>\<open>configuration/e2e_protection/src/\<close>.
  \<^item> \<open>Client_Id\<close>: the shared block of client identifiers in \<^verbatim>\<open>utility/src/utility.cpp\<close>.
  \<^item> \<open>Eventgroupinfo\<close>, \<open>Event\<close>: \<^verbatim>\<open>routing/src/eventgroupinfo.cpp\<close> and \<^verbatim>\<open>event.cpp\<close>.
  \<^item> \<open>Framing\<close>: what the stream endpoints share: the receive buffer with its growth, shrinking
    and shifting, magic cookies, and the loop over complete messages; the locales
    \<open>stream_receiver\<close> and \<open>framing\<close> are the contracts under which a stream is delivered.
  \<^item> \<open>Tcp_Client_Endpoint\<close>, \<open>Tcp_Server_Endpoint\<close>, \<open>Local_Server_Endpoint\<close>,
    \<open>Udp_Endpoint\<close>: the receive callbacks of \<^verbatim>\<open>endpoints/src/\<close>.
  \<^item> \<open>Client_Endpoint\<close>, \<open>Server_Endpoint\<close>: the sending sides,
    \<^verbatim>\<open>client_endpoint_impl.cpp\<close> and \<^verbatim>\<open>server_endpoint_impl.cpp\<close> with the
    \<^verbatim>\<open>send_queued\<close> of the endpoints derived from them; the locales \<open>train_queue\<close>,
    \<open>sender\<close> and \<open>server_sender\<close> carry the proofs for all of them.
  \<^item> \<open>Serviceinfo\<close>: \<^verbatim>\<open>routing/src/serviceinfo.cpp\<close> and \<^verbatim>\<open>subscription.cpp\<close>,
    \<^verbatim>\<open>request.cpp\<close> of service discovery.
  \<^item> \<open>Debounce\<close>: the comparison that decides which updates of a shadow event are forwarded.
  \<^item> \<open>Tables\<close>: the nested maps of the routing manager, with the locale \<open>table\<close> for what
    looking up after storing and erasing gives, and the ordered sets.
  \<^item> \<open>Local_Command\<close>: the commands that application and routing manager exchange.
  \<^item> \<open>Routing_Base\<close>: \<^verbatim>\<open>routing/src/routing_manager_base.cpp\<close>, operation by operation, with
    the invariant that all of them keep; \<open>Routing_Subscription\<close>: what its operations promise.
    Shared pointers are handles into tables of objects; the calls of the host, of endpoints and of the
    methods of derived classes are actions.
  \<^item> \<open>Steps\<close>: operations with actions, composed and repeated.
  \<^item> \<open>Routing_Proxy\<close>, \<open>Proxy_Receive\<close>: \<^verbatim>\<open>routing/src/routing_manager_proxy.cpp\<close>,
    the routing manager of an application: what the application asks of it, and the commands and routing
    information it receives.  The proxy extends the record of the base.  A callback handed to the
    application with a subscription is an operation of its own, run with the application's answer; the
    waits of \<^verbatim>\<open>stop\<close> separate its parts; the order of the hash set of known clients is a parameter.
  \<^item> \<open>Routing_Stub\<close>, \<open>Stub_Commands\<close>: \<^verbatim>\<open>routing/src/routing_manager_stub.cpp\<close>, the
    side of the routing manager that serves the applications: routing information and requests, then
    registrations, watchdog and commands.  The calls of its host are actions.
  \<^item> \<open>Proxy_Stub\<close>: proxy and stub together; \<open>Proxy_Messages\<close>: two proxies together;
    \<open>Proxy_Invariant\<close>: the states a proxy can reach.
  \<^item> \<open>Application\<close>: \<^verbatim>\<open>runtime/src/application_impl.cpp\<close>, the handlers of a program, what it asks
    of its routing manager, and the handlers that messages, availability and subscriptions put into the
    queue.  Handlers are numbers; the calls of the routing manager are actions; what is looked up there
    and the order of handlers by address are arguments.
  \<^item> \<open>Dispatcher\<close>: the threads that take handlers from the queue, as a relation whose steps are
    what a thread does under a lock; \<open>Application_Behaviour\<close>: what the application promises.
  \<^item> this theory: the properties that span components.

  The classes of the code are records, their methods functions on the records; what an operation
  asks of a socket, a timer or its host is a list of actions it returns.  Locks are not modelled:
  each operation that the code runs under a lock is one step, and the runs of the sending sides are
  all sequences of such steps.

  \<^bold>\<open>What is shown.\<close>
  \<^item> \<^emph>\<open>Wire formats\<close>: every message and entry and every option but the configuration option is
    read back as it was written, the length fields count what they should, accepted messages are canonical, and reading arbitrary bytes stays
    within the buffer, except where the code does not check: those accesses are proved too.
  \<^item> \<^emph>\<open>Protection\<close>: the table-driven CRCs compute the bitwise ones, detect every change of one
    byte, and protected buffers are accepted while changed ones are not.
  \<^item> \<^emph>\<open>Endpoints\<close>: however a stream is cut into reads, its messages are delivered once, whole
    and in order; under every order of sends, flushes and completions the accepted bytes are written in
    order and without loss, until a queue is dropped; where a flush or a queue limit disturbs
    that, the statements say so.
  \<^item> \<^emph>\<open>Shared and routing state\<close>: client identifiers are fresh and the shared array stays
    consistent even after a crash; pending subscriptions are answered in the order of their arrival; events notify changes.
  \<^item> \<^emph>\<open>Routing manager base\<close>: a subscription reaches every event of its eventgroup, early
    subscribers are taken over by events registered later, except by those known as cache placeholders, notifications reach the local subscribers
    and only these, and a client that is removed is forgotten.
  \<^item> \<^emph>\<open>Proxy and stub\<close>: an application that gets connected is registered, and its offers, event
    registrations and requests reach the routing manager; a service that is offered or withdrawn reaches
    the applications that requested it, with their waiting subscriptions; a request between two
    applications and its response arrive; whatever a proxy is sent leaves its tables well-formed; and where
    the two sides disagree on the commands.
  \<^item> \<^emph>\<open>Application\<close>: under every interleaving of calls and threads the handlers of an instance start
    in order and its availability handlers one at a time; which handlers a message and a change of
    availability reach; notifications are let through exactly while they are subscribed; a subscription
    follows its automaton; sessions of requests; and a report of the wrong instance.
  \<^item> \<^emph>\<open>Composition\<close>: messages serialised onto a TCP stream arrive as messages, and what a local
    client writes reaches the host of the local server command by command.

  \<^bold>\<open>Bounds, fuel and parameters.\<close>  Sizes (\<^verbatim>\<open>size_t\<close>) are natural numbers; fields of the wire
  are words of their width and wrap.  Statements about streams and messages assume less than 4 GiB, the
  range of the length fields.  The loops over received bytes are partial functions with values in
  option, and the statements about them include that they return.  A schedule of reads is a list of
  byte counts; statements hold for all of them.  Code outside the library is a parameter: the sequence
  of values a socket or a clock would give, the target a message belongs to, whether a socket could be
  opened; what is assumed of it stands in the statements.

  \<^bold>\<open>Not modelled.\<close>
  \<^item> \<^verbatim>\<open>routing_manager_impl.cpp\<close>, the host of the stub: it joins the modelled base, stub,
    events, eventgroups and endpoints with service discovery; what the stub asks of it are actions.
  \<^item> The engine of service discovery (\<^verbatim>\<open>service_discovery_impl.cpp\<close>): timers, phases and
    sessions over the modelled messages, entries and options.
  \<^item> Of the application the reading of configuration and plug-ins, the threads of the io service and the
    handshake of stopping, which is a protocol of mutexes and condition variables between threads.
  \<^item> The configuration (\<^verbatim>\<open>configuration_impl.cpp\<close>), read from JSON files by Boost's property trees:
    what it answers is an argument of the operations that ask it.
  \<^item> Logging, tracing and the plugin manager: output and the loading of shared libraries.
  \<^item> The Boost extensions under \<^verbatim>\<open>helper/\<close> (adapted third-party code), the netlink connector,
    the mapping of shared memory and the credentials of local sockets: operating-system interfaces.
  \<^item> The daemon, tools, examples and tests.
\<close>

section \<open>From message to message\<close>

text \<open>A serialised message is one the receiver of a stream can rely on.\<close>

lemma serialised_tcp_message:
  assumes "length (payload_bytes m) + 16 < 2 ^ 32" and "hdr_service (msg_header m) \<noteq> 0xFFFF"
    and "rc_max_message_size c = MESSAGE_SIZE_UNLIMITED"
  shows "tcp_message c CLIENT_COOKIE (message_bytes m)"
proof -
  have len: "16 \<le> length (message_bytes m)" by (simp add: message_bytes_def)
  have "take 2 (message_bytes m) = bytes16 (hdr_service (msg_header m))"
    by (simp add: message_bytes_def header_bytes_def bytes16_def)
  moreover have "take 2 (take 16 (message_bytes m)) = take 2 (message_bytes m)" by simp
  moreover have "take 2 CLIENT_COOKIE = bytes16 0xFFFF" by code_simp
  moreover have "VSOMEIP_BYTES_TO_WORD (bytes16 v ! 0) (bytes16 v ! 1) = v" for v by (simp add: bytes16_def)
  ultimately have "take 16 (message_bytes m) \<noteq> CLIENT_COOKIE" using assms(2) by metis
  moreover have "get_message_size (message_bytes m) (length (message_bytes m)) = Some (length (message_bytes m))"
  proof -
    have "8 \<le> length (message_bytes m)" using len by simp
    from conjunct2 [OF message_size [OF assms(1) this, of "[]"]] show ?thesis by (simp only: append_Nil2)
  qed
  ultimately show ?thesis using len assms(3) by (simp add: tcp_message_def)
qed

text \<open>
  C2. Messages sent over TCP arrive as they were sent.  The bytes to which the messages are serialised
  are cut by the connection, whatever parts of them the network delivers at a time, into exactly
  these messages, and the deserializer makes of each the message that was sent, with its length field
  filled in.
\<close>

theorem messages_over_tcp:
  assumes "\<forall>m\<in>set ms. length (payload_bytes m) + 16 < 2 ^ 32 \<and> hdr_service (msg_header m) \<noteq> 0xFFFF"
    and "length (concat (map message_bytes ms)) \<le> length ks"
  shows "\<exists>s' r' bs. rx_run (connection_receive_cbk (tcp_server_config MESSAGE_SIZE_UNLIMITED threshold) No_error) ks
      (concat (map message_bytes ms))
      (connection_start (tcp_server_config MESSAGE_SIZE_UNLIMITED threshold) False remote) = Some ([], (s', Some r'))
    \<and> rx_calls s' = map On_message bs
    \<and> map (\<lambda>b. map_option fst (deserialize_message (des_init_data b 0))) bs
      = map (\<lambda>m. Some (Some (received message_init m))) ms"
proof -
  let ?c = "tcp_server_config MESSAGE_SIZE_UNLIMITED threshold"
  have "tcp_message ?c CLIENT_COOKIE b" if "b \<in> set (map message_bytes ms)" for b
    using that assms(1) by (auto intro!: serialised_tcp_message simp: tcp_server_config_def)
  then obtain s' r' where "rx_run (connection_receive_cbk ?c No_error) ks (concat (map message_bytes ms))
      (connection_start ?c False remote) = Some ([], (s', Some r'))"
    "rx_calls s' = map On_message (map message_bytes ms)"
    using tcp_server_stream [of "map message_bytes ms" MESSAGE_SIZE_UNLIMITED threshold ks remote] assms(2) by blast
  moreover have "deserialize_message (des_init_data (message_bytes m) 0)
      = Some (Some (received message_init m), advance (length (message_bytes m)) (des_init_data (message_bytes m) 0))"
    if "m \<in> set ms" for m
  proof -
    have "length (payload_bytes m) + 8 < 2 ^ 32" using that assms(1) by fastforce
    from reads_asD [OF reads_message [OF this] starts_init_append [of _ "[]" 0]] show ?thesis
      by (simp add: deserialize_message_def)
  qed
  then have "map (\<lambda>b. map_option fst (deserialize_message (des_init_data b 0))) (map message_bytes ms)
      = map (\<lambda>m. Some (Some (received message_init m))) ms" by simp
  ultimately show ?thesis by blast
qed

theorem messages_over_tcp_witness:
  "\<exists>s' r' bs. rx_run (connection_receive_cbk (tcp_server_config MESSAGE_SIZE_UNLIMITED 0) No_error) (replicate 38 1)
      (message_bytes sample_message @ message_bytes sample_message)
      (connection_start (tcp_server_config MESSAGE_SIZE_UNLIMITED 0) False ([10, 0, 0, 2], 40000)) = Some ([], (s', Some r'))
    \<and> rx_calls s' = map On_message bs
    \<and> map (\<lambda>b. map_option fst (deserialize_message (des_init_data b 0))) bs
      = [Some (Some (received message_init sample_message)), Some (Some (received message_init sample_message))]"
proof -
  have "length (payload_bytes sample_message) = 3" "hdr_service (msg_header sample_message) \<noteq> 0xFFFF"
    by (simp_all add: sample_message_def payload_bytes_def create_payload_def)
  moreover from this(1) have "length (message_bytes sample_message) = 19" by (simp add: message_bytes_def)
  ultimately show ?thesis
    using messages_over_tcp [of "[sample_message, sample_message]" "replicate 38 1" 0 "([10, 0, 0, 2], 40000)"]
    by simp
qed

text \<open>
  C11. What a local client is given to send reaches the host of the local server.  If every buffer the
  client has written is a command, the server delivers these commands, in order, whatever
  parts of the stream it reads at a time; and they are the first commands that \<^verbatim>\<open>send\<close> accepted.
  The next one, the front of the queue, is being written, unless the queue is empty, the
  connection is lost or the queue limit is too small for two messages.
\<close>

theorem local_commands_delivered:
  assumes "sender_run local_client_send_queued (\<lambda>d. d \<noteq> []) e pending popped accepted"
    and "\<forall>d\<in>set popped. local_command (local_config limit threshold) d"
    and "length (concat (map local_frame popped)) \<le> length ks"
  shows "\<exists>s' r' rest. rx_run (local_server_receive_cbk (local_config limit threshold) No_error) ks
      (concat (map local_frame popped)) (local_connection_start (local_config limit threshold)) = Some ([], (s', Some r'))
    \<and> rx_calls s' = map On_message popped \<and> concat popped @ rest = accepted
    \<and> (pending = (if ce_queue e = [] \<or> ce_was_not_connected e then [] else [local_frame (hd (ce_queue e))])
       \<or> pending = [] \<and> \<not> two_messages_fit (ce_max_message_size e) (ce_queue_limit e))"
proof -
  have "pending = (if ce_queue e = [] \<or> ce_was_not_connected e then [] else [local_frame (hd (ce_queue e))])
      \<or> pending = [] \<and> \<not> two_messages_fit (ce_max_message_size e) (ce_queue_limit e)"
    using local_sender.run_inv [OF assms(1)] by (auto simp: fifo_inv_def local_frame_def)
  with local_server_stream [OF assms(2,3)] local_client_fifo [OF assms(1)] show ?thesis by blast
qed

text \<open>A command is sent, written and delivered.\<close>

lemma sample_transport:
  "\<exists>e. sender_run local_client_send_queued (\<lambda>d. d \<noteq> []) e [] [sample_command] sample_command"
proof -
  have send: "client_send local_client_send_queued 0 sample_command True ce_sample
    = Some (True, [Write (local_frame sample_command)],
        ce_sample\<lparr>ce_queue := [sample_command], ce_queue_size := 9\<rparr>)"
    by code_simp
  have cbk: "send_cbk local_client_send_queued 0 True No_error (ce_sample\<lparr>ce_queue := [sample_command], ce_queue_size := 9\<rparr>)
    = Some ([], ce_sample\<lparr>ce_queue := [], ce_queue_size := 0\<rparr>)"
    by code_simp
  have "sample_command \<noteq> []" "length sample_command < 2 ^ 32" by (simp_all add: sample_command_def)
  from ce_sample_run [OF send, of "\<lambda>d. d \<noteq> []", OF this]
  have "sender_run local_client_send_queued (\<lambda>d. d \<noteq> []) (ce_sample\<lparr>ce_queue := [sample_command], ce_queue_size := 9\<rparr>)
    [local_frame sample_command] [] sample_command" by simp
  from sender_run.written [OF this cbk] show ?thesis by auto
qed

theorem local_commands_delivered_witness:
  "\<exists>s' r'. rx_run (local_server_receive_cbk (local_config MESSAGE_SIZE_UNLIMITED 0) No_error) (replicate 17 4)
      (local_frame sample_command) (local_connection_start (local_config MESSAGE_SIZE_UNLIMITED 0)) = Some ([], (s', Some r'))
    \<and> rx_calls s' = [On_message sample_command]"
proof -
  obtain e where "sender_run local_client_send_queued (\<lambda>d. d \<noteq> []) e [] [sample_command] sample_command"
    using sample_transport by blast
  moreover have "length sample_command = 9" by (simp add: sample_command_def)
  ultimately show ?thesis
    using local_commands_delivered [of e "[]" "[sample_command]" sample_command MESSAGE_SIZE_UNLIMITED 0 "replicate 17 4"]
      sample_command_ok by auto
qed

end
